(* ===== verification/Go_Prelude.thy ===== *)
theory Go_Prelude
  imports Main "HOL-Library.Char_ord" "HOL-Library.List_Lexorder"
begin

text \<open>
  What the components of the development share.  The first part models the functions of Go's
  standard library that the modelled packages call on strings: a Go string is a sequence of
  bytes, so it is a \<^typ>\<open>string\<close> here, one \<^typ>\<open>char\<close> per byte, and a rune outside ASCII is the
  list of bytes of its UTF-8 encoding.  The second part holds the generic lemmas and the
  collections of facts that the component theories use.
\<close>

named_theorems go_string \<comment> \<open>rewriting of the string functions on ASCII strings\<close>
named_theorems ascii_intro \<comment> \<open>introduction rules for predicates over ASCII bytes\<close>

subsection \<open>Bytes\<close>

type_synonym bytes = string

abbreviation byte :: "char \<Rightarrow> nat" where
  "byte c \<equiv> of_char c"

definition is_ascii :: "char \<Rightarrow> bool" where
  "is_ascii c \<longleftrightarrow> byte c < 128"

lemma is_ascii_Char [simp, code]: "is_ascii (Char b0 b1 b2 b3 b4 b5 b6 b7) \<longleftrightarrow> \<not> b7"
  by (cases b0; cases b1; cases b2; cases b3; cases b4; cases b5; cases b6; cases b7)
    (simp_all add: is_ascii_def)

definition is_upper :: "char \<Rightarrow> bool" where
  "is_upper c \<longleftrightarrow> 65 \<le> byte c \<and> byte c \<le> 90"

definition is_lower :: "char \<Rightarrow> bool" where
  "is_lower c \<longleftrightarrow> 97 \<le> byte c \<and> byte c \<le> 122"

definition is_digit :: "char \<Rightarrow> bool" where
  "is_digit c \<longleftrightarrow> 48 \<le> byte c \<and> byte c \<le> 57"

definition lower_byte :: "char \<Rightarrow> char" where
  "lower_byte c = (if is_upper c then char_of (byte c + 32) else c)"

definition upper_byte :: "char \<Rightarrow> char" where
  "upper_byte c = (if is_lower c then char_of (byte c - 32) else c)"

lemma char_eq_byte: "c = d \<longleftrightarrow> byte c = byte d"
  by simp

subsection \<open>Prefixes, suffixes, joining\<close>

definition has_prefix :: "string \<Rightarrow> string \<Rightarrow> bool" where
  "has_prefix s p \<longleftrightarrow> take (length p) s = p"

definition has_suffix :: "string \<Rightarrow> string \<Rightarrow> bool" where
  "has_suffix s p \<longleftrightarrow> length p \<le> length s \<and> drop (length s - length p) s = p"

definition trim_suffix :: "string \<Rightarrow> string \<Rightarrow> string" where
  "trim_suffix s p = (if has_suffix s p then take (length s - length p) s else s)"

fun join :: "'a list \<Rightarrow> 'a list list \<Rightarrow> 'a list" where
  "join sep [] = []"
| "join sep [x] = x"
| "join sep (x # y # xs) = x @ sep @ join sep (y # xs)"

text \<open>The verb \<open>%d\<close> of \<open>fmt\<close> (and \<open>strconv.FormatInt\<close> in base ten).\<close>

fun decimal_nat :: "nat \<Rightarrow> string" where
  "decimal_nat n =
     (if n < 10 then [char_of (48 + n)] else decimal_nat (n div 10) @ [char_of (48 + n mod 10)])"

declare decimal_nat.simps [simp del]

definition decimal :: "int \<Rightarrow> string" where
  "decimal i = (if i < 0 then CHR ''-'' # decimal_nat (nat (- i)) else decimal_nat (nat i))"

subsection \<open>Case mapping\<close>

text \<open>
  \<open>map_runes f tab s\<close> applies \<open>f\<close> to the bytes of \<open>s\<close>, except that each UTF-8 sequence listed in
  \<open>tab\<close> becomes the ASCII character beside it.  A lead byte is never a continuation byte, so a
  listed sequence is found exactly where Go's decoder finds the rune.
\<close>

function map_runes :: "(char \<Rightarrow> char) \<Rightarrow> (string \<times> char) list \<Rightarrow> string \<Rightarrow> string" where
  "map_runes f tab [] = []"
| "map_runes f tab (c # s) =
     (case find (\<lambda>(p, d). has_prefix (c # s) p) tab of
        None \<Rightarrow> f c # map_runes f tab s
      | Some (p, d) \<Rightarrow> d # map_runes f tab (drop (length p - 1) s))"
  by pat_completeness auto
termination
  by (relation "measure (\<lambda>(f, tab, s). length s)") auto

text \<open>
  \<open>strings.ToLower\<close>, \<open>strings.ToUpper\<close> and the folding of \<open>strings.EqualFold\<close>.  The tables hold
  the runes outside ASCII that these map into ASCII: U+212A (Kelvin sign) and U+0130 in lower
  case, U+0131 and U+017F (long s) in upper case, U+212A and U+017F under folding.  The other
  runes outside ASCII go to runes outside ASCII, and are left as they are: every comparison of
  the modelled code is against an ASCII string, which they match neither before nor after.
\<close>

definition to_lower :: "string \<Rightarrow> string" where
  "to_lower = map_runes lower_byte
     [([CHR 0xE2, CHR 0x84, CHR 0xAA], CHR ''k''), ([CHR 0xC4, CHR 0xB0], CHR ''i'')]"

definition to_upper :: "string \<Rightarrow> string" where
  "to_upper = map_runes upper_byte
     [([CHR 0xC4, CHR 0xB1], CHR ''I''), ([CHR 0xC5, CHR 0xBF], CHR ''S'')]"

definition fold_case :: "string \<Rightarrow> string" where
  "fold_case = map_runes lower_byte
     [([CHR 0xE2, CHR 0x84, CHR 0xAA], CHR ''k''), ([CHR 0xC5, CHR 0xBF], CHR ''s'')]"

definition equal_fold :: "string \<Rightarrow> string \<Rightarrow> bool" where
  "equal_fold s t \<longleftrightarrow> fold_case s = fold_case t"

subsection \<open>Trimming\<close>

text \<open>The UTF-8 encodings of the runes \<open>unicode.IsSpace\<close> accepts.\<close>

definition space_runes :: "string list" where
  "space_runes =
     [[CHR 0x09], [CHR 0x0A], [CHR 0x0B], [CHR 0x0C], [CHR 0x0D], [CHR 0x20],
      [CHR 0xC2, CHR 0x85], [CHR 0xC2, CHR 0xA0], [CHR 0xE1, CHR 0x9A, CHR 0x80],
      [CHR 0xE2, CHR 0x80, CHR 0x80], [CHR 0xE2, CHR 0x80, CHR 0x81],
      [CHR 0xE2, CHR 0x80, CHR 0x82], [CHR 0xE2, CHR 0x80, CHR 0x83],
      [CHR 0xE2, CHR 0x80, CHR 0x84], [CHR 0xE2, CHR 0x80, CHR 0x85],
      [CHR 0xE2, CHR 0x80, CHR 0x86], [CHR 0xE2, CHR 0x80, CHR 0x87],
      [CHR 0xE2, CHR 0x80, CHR 0x88], [CHR 0xE2, CHR 0x80, CHR 0x89],
      [CHR 0xE2, CHR 0x80, CHR 0x8A], [CHR 0xE2, CHR 0x80, CHR 0xA8],
      [CHR 0xE2, CHR 0x80, CHR 0xA9], [CHR 0xE2, CHR 0x80, CHR 0xAF],
      [CHR 0xE2, CHR 0x81, CHR 0x9F], [CHR 0xE3, CHR 0x80, CHR 0x80]]"

function strip :: "string list \<Rightarrow> string \<Rightarrow> string" where
  "strip ws s =
     (case find (\<lambda>w. w \<noteq> [] \<and> has_prefix s w) ws of
        None \<Rightarrow> s
      | Some w \<Rightarrow> strip ws (drop (length w) s))"
  by pat_completeness auto
termination
proof (relation "measure (\<lambda>(ws, s). length s)")
  show "((ws, drop (length w) s), (ws, s)) \<in> measure (\<lambda>(ws, s). length s)"
    if "find (\<lambda>w. w \<noteq> [] \<and> has_prefix s w) ws = Some w" for ws s w
  proof -
    from that have "w \<noteq> []" and "has_prefix s w"
      by (auto simp: find_Some_iff)
    then have "s \<noteq> []"
      by (auto simp: has_prefix_def)
    with \<open>w \<noteq> []\<close> show ?thesis
      by simp
  qed
qed simp

declare strip.simps [simp del]

definition trim_space :: "string \<Rightarrow> string" where
  "trim_space s = rev (strip (map rev space_runes) (rev (strip space_runes s)))"

subsection \<open>ASCII strings\<close>

abbreviation ascii_string :: "string \<Rightarrow> bool" where
  "ascii_string s \<equiv> list_all is_ascii s"

lemma lower_byte_ascii [ascii_intro]: "is_ascii c \<Longrightarrow> is_ascii (lower_byte c)"
  by (simp add: is_ascii_def lower_byte_def is_upper_def of_char_of)

lemma byte_lower_byte: "byte (lower_byte c) = (if is_upper c then byte c + 32 else byte c)"
  by (simp add: lower_byte_def is_upper_def of_char_of)

lemma lower_byte_idem [simp]: "lower_byte (lower_byte c) = lower_byte c"
  by (simp add: lower_byte_def is_upper_def of_char_of)

lemma map_runes_ascii:
  assumes "list_all (\<lambda>(p, d). p \<noteq> [] \<and> \<not> is_ascii (hd p)) tab"
    and "ascii_string s"
  shows "map_runes f tab s = map f s"
  using assms
proof (induction f tab s rule: map_runes.induct)
  case (1 f tab)
  show ?case by simp
next
  case (2 f tab c s)
  have "find (\<lambda>(p, d). has_prefix (c # s) p) tab = None"
  proof -
    have "\<not> has_prefix (c # s) p" if "(p, d) \<in> set tab" for p d
    proof
      assume "has_prefix (c # s) p"
      moreover from that "2.prems" have "p \<noteq> []" and "\<not> is_ascii (hd p)"
        by (auto simp: list_all_iff)
      ultimately have "c = hd p"
        by (cases p) (auto simp: has_prefix_def)
      with \<open>\<not> is_ascii (hd p)\<close> "2.prems" show False by simp
    qed
    then show ?thesis by (auto simp: find_None_iff)
  qed
  with 2 show ?case by simp
qed

lemma to_lower_ascii [go_string]: "ascii_string s \<Longrightarrow> to_lower s = map lower_byte s"
  unfolding to_lower_def by (rule map_runes_ascii) (simp_all add: is_ascii_def)

lemma to_upper_ascii [go_string]: "ascii_string s \<Longrightarrow> to_upper s = map upper_byte s"
  unfolding to_upper_def by (rule map_runes_ascii) (simp_all add: is_ascii_def)

lemma fold_case_ascii [go_string]: "ascii_string s \<Longrightarrow> fold_case s = map lower_byte s"
  unfolding fold_case_def by (rule map_runes_ascii) (simp_all add: is_ascii_def)

lemma equal_fold_ascii [go_string]:
  "ascii_string s \<Longrightarrow> ascii_string t \<Longrightarrow>
     equal_fold s t \<longleftrightarrow> map lower_byte s = map lower_byte t"
  by (simp add: equal_fold_def fold_case_ascii)

lemma strip_none: "\<forall>w \<in> set ws. w = [] \<or> \<not> has_prefix s w \<Longrightarrow> strip ws s = s"
  by (subst strip.simps) (auto simp: find_None_iff split: option.splits dest!: find_Some_iff [THEN iffD1])

lemma has_prefix_Cons [simp]:
  "has_prefix s [] "
  "has_prefix (c # s) (d # p) \<longleftrightarrow> c = d \<and> has_prefix s p"
  "\<not> has_prefix [] (d # p)"
  by (auto simp: has_prefix_def)

text \<open>A string whose first and last bytes are printing ASCII characters is left alone by trimming.\<close>

definition solid :: "char \<Rightarrow> bool" where
  "solid c \<longleftrightarrow> 33 \<le> byte c \<and> byte c < 127"

lemma space_runes_solid:
  "list_all (\<lambda>w. w \<noteq> [] \<and> \<not> solid (hd w) \<and> \<not> solid (last w)) space_runes"
  by code_simp

lemma strip_solid:
  assumes "s \<noteq> []" "solid (hd s)" "\<forall>w \<in> set ws. w \<noteq> [] \<longrightarrow> \<not> solid (hd w)"
  shows "strip ws s = s"
proof (rule strip_none, intro ballI)
  fix w
  assume "w \<in> set ws"
  with assms show "w = [] \<or> \<not> has_prefix s w"
    by (cases w; cases s) auto
qed

lemma trim_space_solid:
  assumes "s \<noteq> []" "solid (hd s)" "solid (last s)"
  shows "trim_space s = s"
proof -
  have "strip space_runes s = s"
    using assms space_runes_solid by (intro strip_solid) (auto simp: list_all_iff)
  moreover have "strip (map rev space_runes) (rev s) = rev s"
    using assms space_runes_solid by (intro strip_solid) (auto simp: list_all_iff hd_rev)
  ultimately show ?thesis by (simp add: trim_space_def)
qed

end
