(* ===== verification/Spdx_Expr.thy ===== *)
theory Spdx_Expr
  imports Go_Prelude
begin

text \<open>
  SPDX license expressions: \<open>internal/supplychain/spdxexpr/spdxexpr.go\<close>.  The tokenizer, the
  recursive-descent parser with its size, token and depth limits, the canonical rendering
  \<open>Node.String\<close>, the license list lookup and the structural comparison \<open>Equal\<close>.
\<close>

subsection \<open>Data\<close>

text \<open>
  The values of \<open>Status\<close>; \<open>NotApplicable\<close> is the one the \<open>license\<close> package adds to the type.
\<close>

datatype status =
    StatusParsed
  | StatusUnknownTerms
  | StatusNoAssertion
  | StatusNone
  | StatusUnlicensed
  | StatusInvalid
  | NotApplicable

datatype kind = KindLicense | KindWith | KindAnd | KindOr | KindReference

text \<open>
  \<open>Node\<close> is a union tagged by its field \<open>Kind\<close>: one constructor for each kind, with the fields
  the code sets for it.  \<open>Known\<close> is true wherever there is no such field.
\<close>

datatype node =
    License (lid: string) (or_later: bool) (lknown: bool) (ldeprecated: bool)
  | Reference (rid: string)
  | With (base: node) (exception: string) (wknown: bool) (wdeprecated: bool)
  | And (children_and: "node list")
  | Or (children_or: "node list")

fun node_kind :: "node \<Rightarrow> kind" where
  "node_kind (License _ _ _ _) = KindLicense"
| "node_kind (Reference _) = KindReference"
| "node_kind (With _ _ _ _) = KindWith"
| "node_kind (And _) = KindAnd"
| "node_kind (Or _) = KindOr"

fun node_children :: "node \<Rightarrow> node list" where
  "node_children (With n _ _ _) = [n]"
| "node_children (And ns) = ns"
| "node_children (Or ns) = ns"
| "node_children _ = []"

fun node_known :: "node \<Rightarrow> bool" where
  "node_known (License _ _ k _) = k"
| "node_known (With _ _ k _) = k"
| "node_known _ = True"

text \<open>The errors of \<open>tokenize\<close> and of the parser; \<open>LoopFuel\<close> is shown to be unreachable.\<close>

datatype spdx_error =
    TooLong
  | UnexpectedCharacter string
  | EmptyExpression
  | DepthLimit
  | LicenseExpected
  | MissingClosing
  | PlusMisplaced
  | ExceptionExpected
  | UnexpectedClosing
  | UnexpectedToken string
  | TrailingToken string
  | LoopFuel

record spdx_result =
  raw :: string
  status :: status
  expression :: "node option"
  normalized :: string
  unknown_terms :: "string list"
  references :: "string list"
  deprecated_terms :: "string list"
  problem :: "spdx_error option"

subsection \<open>The license list\<close>

record entry =
  entry_id :: string
  entry_deprecated :: bool

record license_list =
  licenses :: "string \<rightharpoonup> entry"
  exceptions :: "string \<rightharpoonup> entry"

text \<open>
  One line of \<open>licenses.tsv\<close> or \<open>exceptions.tsv\<close>: empty lines and comments are skipped, the
  text before the first tab is the identifier and a \<open>D\<close> after it marks it deprecated.
\<close>

definition load_line :: "(string \<rightharpoonup> entry) \<Rightarrow> string \<Rightarrow> (string \<rightharpoonup> entry)" where
  "load_line target line =
     (if line = [] \<or> has_prefix line ''#'' then target
      else let ident = takeWhile (\<lambda>c. c \<noteq> CHR 0x09) line;
               flags = drop (length ident + 1) line
           in target(to_lower ident \<mapsto>
                \<lparr>entry_id = ident, entry_deprecated = CHR ''D'' \<in> set flags\<rparr>))"

definition must_load :: "string list \<Rightarrow> string list \<Rightarrow> license_list" where
  "must_load license_lines exception_lines =
     \<lparr>licenses = foldl load_line Map.empty license_lines,
      exceptions = foldl load_line Map.empty exception_lines\<rparr>"

text \<open>
  The interface \<open>Licenses\<close>: both methods give the canonical identifier and whether it is
  deprecated, or nothing when the identifier is not listed.  The two lookups after it are the
  methods of \<open>list\<close>, and \<open>as_licenses\<close> is a list used through the interface.
\<close>

record licenses_if =
  license_of :: "string \<Rightarrow> (string \<times> bool) option"
  exception_of :: "string \<Rightarrow> (string \<times> bool) option"

definition find_license :: "license_list \<Rightarrow> string \<Rightarrow> (string \<times> bool) option" where
  "find_license l ident =
     map_option (\<lambda>e. (entry_id e, entry_deprecated e)) (licenses l (to_lower ident))"

definition find_exception :: "license_list \<Rightarrow> string \<Rightarrow> (string \<times> bool) option" where
  "find_exception l ident =
     map_option (\<lambda>e. (entry_id e, entry_deprecated e)) (exceptions l (to_lower ident))"

definition as_licenses :: "license_list \<Rightarrow> licenses_if" where
  "as_licenses l = \<lparr>license_of = find_license l, exception_of = find_exception l\<rparr>"

subsection \<open>Tokens\<close>

datatype token_kind = TId | TOpen | TClose | TAnd | TOr | TWith | TPlus

record token =
  tkind :: token_kind
  ttext :: string

definition max_input_bytes :: nat where "max_input_bytes = 4096"
definition max_tokens :: nat where "max_tokens = 512"
definition max_depth :: nat where "max_depth = 32"

definition is_id_byte :: "char \<Rightarrow> bool" where
  "is_id_byte c \<longleftrightarrow> is_lower c \<or> is_upper c \<or> is_digit c \<or>
     c = CHR ''-'' \<or> c = CHR ''.'' \<or> c = CHR '':''"

definition is_blank :: "char \<Rightarrow> bool" where
  "is_blank c \<longleftrightarrow> c = CHR 0x20 \<or> c = CHR 0x09 \<or> c = CHR 0x0A \<or> c = CHR 0x0D"

definition word_token :: "string \<Rightarrow> token" where
  "word_token w =
     (if to_upper w = ''AND'' then \<lparr>tkind = TAnd, ttext = w\<rparr>
      else if to_upper w = ''OR'' then \<lparr>tkind = TOr, ttext = w\<rparr>
      else if to_upper w = ''WITH'' then \<lparr>tkind = TWith, ttext = w\<rparr>
      else \<lparr>tkind = TId, ttext = w\<rparr>)"

text \<open>The loop of \<open>tokenize\<close>; the argument is \<open>input[index:]\<close>, the accumulator \<open>tokens\<close>.\<close>

function tokenize_loop :: "string \<Rightarrow> token list \<Rightarrow> spdx_error + token list" where
  "tokenize_loop [] tokens = Inr tokens"
| "tokenize_loop (c # s) tokens =
     (if is_blank c then
        (if length tokens > max_tokens then Inl TooLong else tokenize_loop s tokens)
      else if c = CHR ''('' \<or> c = CHR '')'' \<or> c = CHR ''+'' then
        (let tokens' = tokens @
               [\<lparr>tkind = (if c = CHR ''('' then TOpen else if c = CHR '')'' then TClose else TPlus),
                 ttext = [c]\<rparr>]
         in if length tokens' > max_tokens then Inl TooLong else tokenize_loop s tokens')
      else if is_id_byte c then
        (let tokens' = tokens @ [word_token (takeWhile is_id_byte (c # s))]
         in if length tokens' > max_tokens then Inl TooLong
            else tokenize_loop (dropWhile is_id_byte (c # s)) tokens')
      else Inl (UnexpectedCharacter (c # s)))"
  by pat_completeness auto
termination
  by (relation "measure (\<lambda>(s, tokens). length s)") (auto simp: le_imp_less_Suc length_dropWhile_le)

declare tokenize_loop.simps(2) [simp del]

definition tokenize :: "string \<Rightarrow> spdx_error + token list" where
  "tokenize input =
     (case tokenize_loop input [] of
        Inl e \<Rightarrow> Inl e
      | Inr tokens \<Rightarrow> if tokens = [] then Inl EmptyExpression else Inr tokens)"

subsection \<open>The parser\<close>

text \<open>
  The state of \<open>parser\<close>: \<open>rest\<close> is \<open>tokens[pos:]\<close>, so that \<open>peek\<close> is its first element and
  \<open>pos++\<close> drops it; the three lists are the reports collected on the way.
\<close>

record parser =
  rest :: "token list"
  unknown :: "string list"
  refs :: "string list"
  deprecated :: "string list"

type_synonym 'a parse = "parser \<Rightarrow> spdx_error + ('a \<times> parser)"

definition peek_is :: "token_kind \<Rightarrow> parser \<Rightarrow> bool" where
  "peek_is k p \<longleftrightarrow> (case rest p of [] \<Rightarrow> False | t # _ \<Rightarrow> tkind t = k)"

definition advance :: "parser \<Rightarrow> parser" where
  "advance p = p\<lparr>rest := tl (rest p)\<rparr>"

definition is_reference_id :: "string \<Rightarrow> bool" where
  "is_reference_id s \<longleftrightarrow>
     has_prefix (to_lower s) ''licenseref-'' \<or> has_prefix (to_lower s) ''documentref-''"

definition simple :: "licenses_if \<Rightarrow> string \<Rightarrow> parser \<Rightarrow> node \<times> parser" where
  "simple l txt p =
     (if is_reference_id txt then (Reference txt, p\<lparr>refs := refs p @ [txt]\<rparr>)
      else case license_of l txt of
        None \<Rightarrow> (License txt False False False, p\<lparr>unknown := unknown p @ [txt]\<rparr>)
      | Some (canonical, dep) \<Rightarrow>
          (License canonical False True dep,
           if dep then p\<lparr>deprecated := deprecated p @ [canonical]\<rparr> else p))"

text \<open>The \<open>WITH\<close> part of \<open>primary\<close>, after the operator was consumed.\<close>

definition with_exception :: "licenses_if \<Rightarrow> node \<Rightarrow> node parse" where
  "with_exception l node p =
     (case rest p of
        [] \<Rightarrow> Inl ExceptionExpected
      | t # _ \<Rightarrow>
          if tkind t \<noteq> TId then Inl ExceptionExpected
          else let p = advance p in
            (case exception_of l (ttext t) of
               None \<Rightarrow> Inr (With node (ttext t) False False,
                            p\<lparr>unknown := unknown p @ [ttext t]\<rparr>)
             | Some (canonical, dep) \<Rightarrow>
                 Inr (With node canonical True dep,
                      if dep then p\<lparr>deprecated := deprecated p @ [canonical]\<rparr> else p)))"

fun set_or_later :: "bool \<Rightarrow> node \<Rightarrow> node" where
  "set_or_later b (License i _ k d) = License i b k d"
| "set_or_later b n = n"

text \<open>The case \<open>"id"\<close> of \<open>primary\<close>: a simple license, \<open>+\<close>, and \<open>WITH\<close>.\<close>

definition license_term :: "licenses_if \<Rightarrow> string \<Rightarrow> node parse" where
  "license_term l txt p0 =
     (let (node, p) = simple l txt (advance p0);
          plus = peek_is TPlus p;
          p = (if plus then advance p else p)
      in if plus \<and> node_kind node \<noteq> KindLicense then Inl PlusMisplaced
         else let node = set_or_later plus node
           in if peek_is TWith p then with_exception l node (advance p) else Inr (node, p))"

text \<open>
  \<open>primary\<close>, with the recursive call \<open>p.expression(depth + 1)\<close> as its argument \<open>expr\<close>.
\<close>

definition primary :: "licenses_if \<Rightarrow> node parse \<Rightarrow> node parse" where
  "primary l expr p =
     (case rest p of
        [] \<Rightarrow> Inl LicenseExpected
      | t # _ \<Rightarrow>
          (case tkind t of
             TOpen \<Rightarrow>
               (case expr (advance p) of
                  Inl e \<Rightarrow> Inl e
                | Inr (inner, p') \<Rightarrow>
                    if peek_is TClose p' then Inr (inner, advance p') else Inl MissingClosing)
           | TId \<Rightarrow> license_term l (ttext t) p
           | TClose \<Rightarrow> Inl UnexpectedClosing
           | _ \<Rightarrow> Inl (UnexpectedToken (ttext t))))"

definition flatten :: "kind \<Rightarrow> node list \<Rightarrow> node list" where
  "flatten k children =
     concat (map (\<lambda>c. if node_kind c = k then node_children c else [c]) children)"

text \<open>
  The loop that \<open>expression\<close> and \<open>conjunction\<close> share: while the next token is the operator, it
  is consumed and one more operand is parsed.  Every turn consumes a token, so the number of
  tokens left is enough fuel.
\<close>

fun operand_loop :: "nat \<Rightarrow> token_kind \<Rightarrow> node parse \<Rightarrow> node list \<Rightarrow> node list parse" where
  "operand_loop fuel op operand acc p =
     (if \<not> peek_is op p then Inr (acc, p)
      else case fuel of
        0 \<Rightarrow> Inl LoopFuel
      | Suc fuel' \<Rightarrow>
          (case operand (advance p) of
             Inl e \<Rightarrow> Inl e
           | Inr (right, p') \<Rightarrow> operand_loop fuel' op operand (acc @ [right]) p'))"

declare operand_loop.simps [simp del]

definition operands :: "token_kind \<Rightarrow> kind \<Rightarrow> (node list \<Rightarrow> node) \<Rightarrow> node parse \<Rightarrow> node parse" where
  "operands op k mk operand p =
     (case operand p of
        Inl e \<Rightarrow> Inl e
      | Inr (left, p') \<Rightarrow>
          (case operand_loop (length (rest p')) op operand [left] p' of
             Inl e \<Rightarrow> Inl e
           | Inr (children, p'') \<Rightarrow>
               Inr (if length children = 1 then left else mk (flatten k children), p'')))"

definition conjunction :: "licenses_if \<Rightarrow> node parse \<Rightarrow> node parse" where
  "conjunction l expr = operands TAnd KindAnd And (primary l expr)"

text \<open>
  \<open>expression(depth)\<close> fails when \<open>depth\<close> exceeds \<open>max_depth\<close>; the first argument is the number
  of levels left, \<open>max_depth + 1 - depth\<close>.
\<close>

fun expression_at :: "nat \<Rightarrow> licenses_if \<Rightarrow> node parse" where
  "expression_at 0 l p = Inl DepthLimit"
| "expression_at (Suc levels) l p =
     operands TOr KindOr Or (conjunction l (expression_at levels l)) p"

subsection \<open>Rendering\<close>

fun node_string :: "node \<Rightarrow> string" where
  "node_string (License i later _ _) = (if later then i @ ''+'' else i)"
| "node_string (Reference i) = i"
| "node_string (With n exc _ _) = node_string n @ '' WITH '' @ exc"
| "node_string (And ns) = join '' AND ''
     (map (\<lambda>n. if node_kind n = KindOr then ''('' @ node_string n @ '')'' else node_string n) ns)"
| "node_string (Or ns) = join '' OR ''
     (map (\<lambda>n. if node_kind n = KindAnd then ''('' @ node_string n @ '')'' else node_string n) ns)"

text \<open>\<open>Terms\<close>: the leaves, without repetition, in byte order.\<close>

fun leaf_strings :: "node \<Rightarrow> string list" where
  "leaf_strings (And ns) = concat (map leaf_strings ns)"
| "leaf_strings (Or ns) = concat (map leaf_strings ns)"
| "leaf_strings n = [node_string n]"

definition terms :: "node \<Rightarrow> string list" where
  "terms n = sort (remdups (leaf_strings n))"

text \<open>\<open>Equal\<close>: same tree and same identifiers; \<open>Known\<close> and \<open>Deprecated\<close> are not compared.\<close>

fun node_equal :: "node \<Rightarrow> node \<Rightarrow> bool" where
  "node_equal (License i later _ _) (License i' later' _ _) \<longleftrightarrow> i = i' \<and> later = later'"
| "node_equal (Reference i) (Reference i') \<longleftrightarrow> i = i'"
| "node_equal (With n exc _ _) (With n' exc' _ _) \<longleftrightarrow> exc = exc' \<and> node_equal n n'"
| "node_equal (And ns) (And ns') \<longleftrightarrow> list_all2 node_equal ns ns'"
| "node_equal (Or ns) (Or ns') \<longleftrightarrow> list_all2 node_equal ns ns'"
| "node_equal _ _ \<longleftrightarrow> False"

definition equal_nodes :: "node option \<Rightarrow> node option \<Rightarrow> bool" where
  "equal_nodes left right =
     (case (left, right) of
        (Some m, Some n) \<Rightarrow> node_equal m n
      | (None, None) \<Rightarrow> True
      | _ \<Rightarrow> False)"

subsection \<open>Parse\<close>

definition empty_result :: "string \<Rightarrow> status \<Rightarrow> spdx_error option \<Rightarrow> spdx_result" where
  "empty_result r s e =
     \<lparr>raw = r, status = s, expression = None, normalized = [], unknown_terms = [],
      references = [], deprecated_terms = [], problem = e\<rparr>"

definition parse_tokens :: "licenses_if \<Rightarrow> token list \<Rightarrow> spdx_error + (node \<times> parser)" where
  "parse_tokens l tokens =
     (case expression_at (max_depth + 1) l
             \<lparr>rest = tokens, unknown = [], refs = [], deprecated = []\<rparr> of
        Inl e \<Rightarrow> Inl e
      | Inr (node, p) \<Rightarrow>
          (case rest p of [] \<Rightarrow> Inr (node, p) | t # _ \<Rightarrow> Inl (TrailingToken (ttext t))))"

definition parse_with :: "string \<Rightarrow> licenses_if \<Rightarrow> spdx_result" where
  "parse_with r l =
     (let trimmed = trim_space r in
      if trimmed = [] \<or> equal_fold trimmed ''NOASSERTION'' then empty_result r StatusNoAssertion None
      else if equal_fold trimmed ''NONE'' then empty_result r StatusNone None
      else if equal_fold trimmed ''UNLICENSED'' then empty_result r StatusUnlicensed None
      else if length trimmed > max_input_bytes then empty_result r StatusInvalid (Some TooLong)
      else case tokenize trimmed of
        Inl e \<Rightarrow> empty_result r StatusInvalid (Some e)
      | Inr tokens \<Rightarrow>
          (case parse_tokens l tokens of
             Inl e \<Rightarrow> empty_result r StatusInvalid (Some e)
           | Inr (node, p) \<Rightarrow>
               \<lparr>raw = r,
                status = (if unknown p = [] then StatusParsed else StatusUnknownTerms),
                expression = Some node, normalized = node_string node,
                unknown_terms = unknown p, references = refs p, deprecated_terms = deprecated p,
                problem = None\<rparr>))"

end
