(* ===== verification/Spdx_Lexing.thy ===== *)
theory Spdx_Lexing
  imports Spdx_Expr
begin

text \<open>
  Facts on identifiers, on the license list and on the tokenizer: the list lookup is idempotent
  on canonical identifiers (locale \<open>canonical_licenses\<close>, the contract of the interface
  \<open>Licenses\<close> that the parser's proofs rest on), and the tokenizer reads a concatenation piece
  by piece.
\<close>

subsection \<open>Identifiers\<close>

definition valid_id :: "string \<Rightarrow> bool" where
  "valid_id s \<longleftrightarrow> s \<noteq> [] \<and> list_all is_id_byte s \<and> tkind (word_token s) = TId"

lemmas id_byte_defs = is_id_byte_def is_lower_def is_upper_def is_digit_def

lemma id_byte_ascii [ascii_intro]: "is_id_byte c \<Longrightarrow> is_ascii c"
  by (auto simp: id_byte_defs is_ascii_def)

lemma id_string_ascii [ascii_intro]: "list_all is_id_byte s \<Longrightarrow> ascii_string s"
  by (auto simp: list_all_iff intro: id_byte_ascii)

lemma valid_id_ascii [ascii_intro]: "valid_id s \<Longrightarrow> ascii_string s"
  by (simp add: valid_id_def id_string_ascii)

lemma id_byte_lower_byte [simp]: "is_id_byte (lower_byte c) \<longleftrightarrow> is_id_byte c"
  unfolding is_id_byte_def char_eq_byte
  by (auto simp: byte_lower_byte is_lower_def is_upper_def is_digit_def split: if_splits)

lemma upper_lower_byte [simp]: "upper_byte (lower_byte c) = upper_byte c"
  unfolding char_eq_byte
  by (auto simp: upper_byte_def lower_byte_def is_lower_def is_upper_def of_char_of)

lemma id_string_lower:
  assumes "map lower_byte s = map lower_byte t"
  shows "list_all is_id_byte s \<longleftrightarrow> list_all is_id_byte t"
proof -
  have "list_all is_id_byte s \<longleftrightarrow> list_all is_id_byte (map lower_byte s)" for s
    by (simp add: list.pred_map comp_def)
  with assms show ?thesis by metis
qed

lemma upper_string_lower:
  assumes "map lower_byte s = map lower_byte t"
  shows "map upper_byte s = map upper_byte t"
proof -
  have "map upper_byte s = map upper_byte (map lower_byte s)" for s
    by simp
  with assms show ?thesis by metis
qed

lemma valid_id_lower:
  assumes "ascii_string s" "ascii_string t" "map lower_byte s = map lower_byte t"
  shows "valid_id s \<longleftrightarrow> valid_id t"
  using id_string_lower [OF assms(3)] upper_string_lower [OF assms(3)] assms
  by (auto simp: valid_id_def word_token_def to_upper_ascii)

lemma reference_id_lower:
  "to_lower s = to_lower t \<Longrightarrow> is_reference_id s \<longleftrightarrow> is_reference_id t"
  by (simp add: is_reference_id_def)

subsection \<open>The contract of the license list\<close>

locale canonical_licenses =
  fixes l :: licenses_if
  assumes license_canonical:
      "valid_id s \<Longrightarrow> \<not> is_reference_id s \<Longrightarrow> license_of l s = Some (c, d) \<Longrightarrow>
         valid_id c \<and> \<not> is_reference_id c \<and> license_of l c = Some (c, d)"
    and exception_canonical:
      "valid_id s \<Longrightarrow> exception_of l s = Some (c, d) \<Longrightarrow>
         valid_id c \<and> exception_of l c = Some (c, d)"

locale loaded_licenses =
  fixes license_lines exception_lines :: "string list"
  assumes ascii_licenses: "list_all ascii_string license_lines"
    and ascii_exceptions: "list_all ascii_string exception_lines"

text \<open>Every entry of a loaded table is stored under its own identifier in lower case.\<close>

definition keyed_by_id :: "(string \<rightharpoonup> entry) \<Rightarrow> bool" where
  "keyed_by_id m \<longleftrightarrow>
     (\<forall>k e. m k = Some e \<longrightarrow> ascii_string (entry_id e) \<and> to_lower (entry_id e) = k)"

lemma keyed_empty: "keyed_by_id Map.empty"
  by (simp add: keyed_by_id_def)

lemma keyed_load_line: "keyed_by_id m \<Longrightarrow> ascii_string line \<Longrightarrow> keyed_by_id (load_line m line)"
  by (auto simp: keyed_by_id_def load_line_def Let_def list_all_iff split: if_splits
      dest: set_takeWhileD)

lemma keyed_foldl:
  "keyed_by_id m \<Longrightarrow> list_all ascii_string lines \<Longrightarrow> keyed_by_id (foldl load_line m lines)"
  by (induction lines arbitrary: m) (auto intro: keyed_load_line)

lemma keyed_lookup:
  assumes "keyed_by_id m" and "m (to_lower s) = Some e"
  shows "m (to_lower (entry_id e)) = Some e" "to_lower (entry_id e) = to_lower s"
    "valid_id s \<Longrightarrow> valid_id (entry_id e)"
proof -
  from assms show low: "to_lower (entry_id e) = to_lower s"
    by (auto simp: keyed_by_id_def)
  with assms show "m (to_lower (entry_id e)) = Some e"
    by simp
  show "valid_id (entry_id e)" if "valid_id s"
  proof -
    from that have "ascii_string s"
      by (rule valid_id_ascii)
    moreover from assms have "ascii_string (entry_id e)"
      by (auto simp: keyed_by_id_def)
    ultimately show ?thesis
      using low that valid_id_lower [of "entry_id e" s] by (simp add: to_lower_ascii)
  qed
qed

sublocale loaded_licenses \<subseteq> canonical_licenses "as_licenses (must_load license_lines exception_lines)"
proof
  have keyed: "keyed_by_id (foldl load_line Map.empty license_lines)"
      "keyed_by_id (foldl load_line Map.empty exception_lines)"
    using ascii_licenses ascii_exceptions
    by (simp_all add: keyed_foldl keyed_empty)
  let ?l = "as_licenses (must_load license_lines exception_lines)"
  fix s c d
  assume s: "valid_id s"
  show "valid_id c \<and> \<not> is_reference_id c \<and> license_of ?l c = Some (c, d)"
    if "\<not> is_reference_id s" "license_of ?l s = Some (c, d)"
    using that s keyed_lookup [OF keyed(1)] reference_id_lower [of c s]
    by (auto simp: as_licenses_def find_license_def must_load_def)
  show "valid_id c \<and> exception_of ?l c = Some (c, d)" if "exception_of ?l s = Some (c, d)"
    using that s keyed_lookup [OF keyed(2)]
    by (auto simp: as_licenses_def find_exception_def must_load_def)
qed

context loaded_licenses
begin

lemma list_canonical: "canonical_licenses (as_licenses (must_load license_lines exception_lines))"
  by (rule canonical_licenses_axioms)

end

subsection \<open>The tokenizer without its limits\<close>

function scan :: "string \<Rightarrow> token list option" where
  "scan [] = Some []"
| "scan (c # s) =
     (if is_blank c then scan s
      else if c = CHR ''('' \<or> c = CHR '')'' \<or> c = CHR ''+'' then
        map_option ((#) \<lparr>tkind = (if c = CHR ''('' then TOpen else if c = CHR '')'' then TClose
          else TPlus), ttext = [c]\<rparr>) (scan s)
      else if is_id_byte c then
        map_option ((#) (word_token (takeWhile is_id_byte (c # s)))) (scan (dropWhile is_id_byte (c # s)))
      else None)"
  by pat_completeness auto
termination
  by (relation "measure length") (auto simp: le_imp_less_Suc length_dropWhile_le)

declare scan.simps(2) [simp del]

lemma tokenize_loop_complete:
  "scan s = Some ts \<Longrightarrow> length (acc @ ts) \<le> max_tokens \<Longrightarrow>
     tokenize_loop s acc = Inr (acc @ ts)"
proof (induction s acc arbitrary: ts rule: tokenize_loop.induct)
  case (1 tokens)
  then show ?case by simp
next
  case (2 c s tokens)
  then show ?case
    by (auto simp: scan.simps(2) tokenize_loop.simps(2) Let_def split: if_splits)
qed

lemma tokenize_loop_sound:
  "tokenize_loop s acc = Inr ts \<Longrightarrow> length acc \<le> max_tokens \<Longrightarrow>
     length ts \<le> max_tokens \<and> (\<exists>ts'. scan s = Some ts' \<and> ts = acc @ ts')"
proof (induction s acc rule: tokenize_loop.induct)
  case (1 tokens)
  then show ?case by simp
next
  case (2 c s tokens)
  then show ?case
    by (auto simp: scan.simps(2) tokenize_loop.simps(2) Let_def split: if_splits)
qed

text \<open>\<open>ends_word t\<close>: an identifier before \<open>t\<close> ends there.\<close>

definition ends_word :: "string \<Rightarrow> bool" where
  "ends_word t \<longleftrightarrow> t = [] \<or> \<not> is_id_byte (hd t)"

lemma word_append:
  assumes "ends_word t"
  shows "takeWhile is_id_byte (s @ t) = takeWhile is_id_byte s"
    "dropWhile is_id_byte (s @ t) = dropWhile is_id_byte s @ t"
proof -
  have "takeWhile is_id_byte t = []" "dropWhile is_id_byte t = t"
    using assms by (cases t; simp add: ends_word_def)+
  then show "takeWhile is_id_byte (s @ t) = takeWhile is_id_byte s"
    "dropWhile is_id_byte (s @ t) = dropWhile is_id_byte s @ t"
    by (induction s) simp_all
qed

lemma scan_append:
  "scan s = Some ts \<Longrightarrow> ends_word t \<Longrightarrow> scan (s @ t) = map_option ((@) ts) (scan t)"
proof (induction s arbitrary: ts rule: scan.induct)
  case 1
  then show ?case by (cases "scan t") auto
next
  case (2 c s)
  have "scan ((c # s) @ t) = map_option ((@) ts) (scan t)"
    using 2 word_append [OF "2.prems"(2), of "c # s"]
    by (cases "scan t") (auto simp: scan.simps(2) simp del: takeWhile.simps dropWhile.simps split: if_splits)
  then show ?case by simp
qed

lemma scan_word: "s \<noteq> [] \<Longrightarrow> list_all is_id_byte s \<Longrightarrow> scan s = Some [word_token s]"
proof (cases s)
  case (Cons c r)
  assume "list_all is_id_byte s"
  with Cons have "takeWhile is_id_byte r = r" "dropWhile is_id_byte r = []" "is_id_byte c"
    by (auto simp: list_all_iff takeWhile_eq_all_conv dropWhile_eq_Nil_conv)
  moreover from \<open>is_id_byte c\<close> have "\<not> is_blank c \<and> c \<noteq> CHR ''('' \<and> c \<noteq> CHR '')'' \<and> c \<noteq> CHR ''+''"
    unfolding is_blank_def char_eq_byte by (auto simp: id_byte_defs)
  ultimately show ?thesis
    using Cons by (simp add: scan.simps(2) del: takeWhile_eq_all_conv dropWhile_eq_Nil_conv)
qed simp

text \<open>Every identifier token of a lexed text is a valid identifier.\<close>

definition token_ok :: "token \<Rightarrow> bool" where
  "token_ok t \<longleftrightarrow> (tkind t = TId \<longrightarrow> valid_id (ttext t))"

lemma word_token_ok: "s \<noteq> [] \<Longrightarrow> list_all is_id_byte s \<Longrightarrow> token_ok (word_token s)"
  by (auto simp: token_ok_def valid_id_def word_token_def)

lemma scan_tokens_ok: "scan s = Some ts \<Longrightarrow> list_all token_ok ts"
proof (induction s arbitrary: ts rule: scan.induct)
  case 1
  then show ?case by simp
next
  case (2 c s)
  have word: "token_ok (word_token (takeWhile is_id_byte (c # s)))" if "is_id_byte c"
    by (rule word_token_ok) (use that in \<open>auto simp: list_all_iff dest: set_takeWhileD\<close>)
  from 2 word show ?case
    by (auto simp: scan.simps(2) token_ok_def [of "\<lparr>tkind = _, ttext = _\<rparr>"] split: if_splits)
qed

end
