(* ===== verification/Spdx_Roundtrip.thy ===== *)
theory Spdx_Roundtrip
  imports Spdx_Lexing
begin

text \<open>
  The parser and the rendering are inverse to each other.  \<open>wf_node\<close> is the shape of the trees
  the parser builds, \<open>render\<close> the token list of the canonical rendering; a well-formed tree is
  read back from its rendering, and every tree the parser returns is well-formed.
\<close>

subsection \<open>Well-formed trees and what the parser reports for them\<close>

fun is_leaf :: "node \<Rightarrow> bool" where
  "is_leaf (And _) = False"
| "is_leaf (Or _) = False"
| "is_leaf _ = True"

lemma leaf_kind: "is_leaf n \<longleftrightarrow> node_kind n \<noteq> KindAnd \<and> node_kind n \<noteq> KindOr"
  by (cases n) simp_all

fun wf_node :: "licenses_if \<Rightarrow> node \<Rightarrow> bool" where
  "wf_node l (License i later k d) \<longleftrightarrow>
     valid_id i \<and> \<not> is_reference_id i \<and> license_of l i = (if k then Some (i, d) else None) \<and> (d \<longrightarrow> k)"
| "wf_node l (Reference i) \<longleftrightarrow> valid_id i \<and> is_reference_id i"
| "wf_node l (With n e k d) \<longleftrightarrow>
     node_kind n \<in> {KindLicense, KindReference} \<and> wf_node l n \<and>
     valid_id e \<and> exception_of l e = (if k then Some (e, d) else None) \<and> (d \<longrightarrow> k)"
| "wf_node l (And ns) \<longleftrightarrow>
     2 \<le> length ns \<and> list_all (wf_node l) ns \<and> list_all (\<lambda>n. node_kind n \<noteq> KindAnd) ns"
| "wf_node l (Or ns) \<longleftrightarrow>
     2 \<le> length ns \<and> list_all (wf_node l) ns \<and> list_all (\<lambda>n. node_kind n \<noteq> KindOr) ns"

fun unknown_of :: "node \<Rightarrow> string list" where
  "unknown_of (License i _ k _) = (if k then [] else [i])"
| "unknown_of (Reference _) = []"
| "unknown_of (With n e k _) = unknown_of n @ (if k then [] else [e])"
| "unknown_of (And ns) = concat (map unknown_of ns)"
| "unknown_of (Or ns) = concat (map unknown_of ns)"

fun refs_of :: "node \<Rightarrow> string list" where
  "refs_of (License _ _ _ _) = []"
| "refs_of (Reference i) = [i]"
| "refs_of (With n _ _ _) = refs_of n"
| "refs_of (And ns) = concat (map refs_of ns)"
| "refs_of (Or ns) = concat (map refs_of ns)"

fun deprecated_of :: "node \<Rightarrow> string list" where
  "deprecated_of (License i _ _ d) = (if d then [i] else [])"
| "deprecated_of (Reference _) = []"
| "deprecated_of (With n e _ d) = deprecated_of n @ (if d then [e] else [])"
| "deprecated_of (And ns) = concat (map deprecated_of ns)"
| "deprecated_of (Or ns) = concat (map deprecated_of ns)"

definition report :: "node \<Rightarrow> parser \<Rightarrow> parser" where
  "report n p = p\<lparr>unknown := unknown p @ unknown_of n, refs := refs p @ refs_of n,
     deprecated := deprecated p @ deprecated_of n\<rparr>"

lemma rest_report [simp]: "rest (report n p) = rest p"
  by (simp add: report_def)

lemma report_rest [simp]: "report n (p\<lparr>rest := r\<rparr>) = (report n p)\<lparr>rest := r\<rparr>"
  by (simp add: report_def)

lemma fold_report_rest [simp]: "fold report ns (p\<lparr>rest := r\<rparr>) = (fold report ns p)\<lparr>rest := r\<rparr>"
  by (induction ns arbitrary: p) simp_all

lemma fold_report:
  "fold report ns p = p\<lparr>unknown := unknown p @ concat (map unknown_of ns),
     refs := refs p @ concat (map refs_of ns),
     deprecated := deprecated p @ concat (map deprecated_of ns)\<rparr>"
  by (induction ns arbitrary: p) (simp_all add: report_def)

lemma report_compound [simp]:
  "report (And ns) p = fold report ns p" "report (Or ns) p = fold report ns p"
  by (simp_all add: fold_report report_def)

subsection \<open>The tokens of the canonical rendering\<close>

definition tok :: "token_kind \<Rightarrow> string \<Rightarrow> token" where
  "tok k s = \<lparr>tkind = k, ttext = s\<rparr>"

lemma tok_simps [simp]: "tkind (tok k s) = k" "ttext (tok k s) = s"
  by (simp_all add: tok_def)

abbreviation paren :: "token list \<Rightarrow> token list" where
  "paren ts \<equiv> tok TOpen ''('' # ts @ [tok TClose '')'']"

fun render :: "node \<Rightarrow> token list" where
  "render (License i later _ _) = tok TId i # (if later then [tok TPlus ''+''] else [])"
| "render (Reference i) = [tok TId i]"
| "render (With n e _ _) = render n @ [tok TWith ''WITH'', tok TId e]"
| "render (And ns) = join [tok TAnd ''AND'']
     (map (\<lambda>n. if is_leaf n then render n else paren (render n)) ns)"
| "render (Or ns) = join [tok TOr ''OR'']
     (map (\<lambda>n. if is_leaf n then render n else paren (render n)) ns)"

abbreviation atom :: "node \<Rightarrow> token list" where
  "atom n \<equiv> (if is_leaf n then render n else paren (render n))"

text \<open>How many levels of parentheses the rendering has.\<close>

fun node_depth :: "node \<Rightarrow> nat" where
  "node_depth (And ns) = Max (set (0 # map (\<lambda>n. if is_leaf n then 0 else Suc (node_depth n)) ns))"
| "node_depth (Or ns) = Max (set (0 # map (\<lambda>n. if is_leaf n then 0 else Suc (node_depth n)) ns))"
| "node_depth _ = 0"

lemma node_depth_child:
  "n \<in> set ns \<Longrightarrow> \<not> is_leaf n \<Longrightarrow> node_depth n < node_depth (And ns)"
  "n \<in> set ns \<Longrightarrow> \<not> is_leaf n \<Longrightarrow> node_depth n < node_depth (Or ns)"
  by (auto simp: Suc_le_eq [symmetric] intro!: Max_ge)

declare node_depth.simps(1,2) [simp del]

lemma valid_id_token: "valid_id i \<Longrightarrow> word_token i = tok TId i"
  by (auto simp: valid_id_def word_token_def tok_def)

lemma scan_valid_id: "valid_id i \<Longrightarrow> scan i = Some [tok TId i]"
  using scan_word [of i] valid_id_token [of i] by (simp add: valid_id_def)

lemma ends_word_simps [simp]:
  "ends_word []" "ends_word (CHR '' '' # s)" "ends_word (CHR ''+'' # s)" "ends_word (CHR '')'' # s)"
  by (simp_all add: ends_word_def id_byte_defs)

lemma scan_operators:
  "scan ('' AND '' @ s) = map_option ((#) (tok TAnd ''AND'')) (scan s)"
  "scan ('' OR '' @ s) = map_option ((#) (tok TOr ''OR'')) (scan s)"
  "scan ('' WITH '' @ s) = map_option ((#) (tok TWith ''WITH'')) (scan s)"
  "scan (''+'') = Some [tok TPlus ''+'']"
  "scan (CHR ''('' # s) = map_option ((#) (tok TOpen ''('')) (scan s)"
  "scan (CHR '')'' # s) = map_option ((#) (tok TClose '')'')) (scan s)"
  by (simp_all add: scan.simps(2) is_blank_def id_byte_defs word_token_def to_upper_ascii
      is_ascii_def upper_byte_def tok_def option.map_comp comp_def option.map_id)

lemma scan_join:
  assumes "\<And>s. scan (sep @ s) = map_option ((#) t) (scan s)" "\<And>s. ends_word (sep @ s)"
    and "\<forall>n \<in> set ns. scan (f n) = Some (g n)"
  shows "scan (join sep (map f ns)) = Some (join [t] (map g ns))"
  using assms(3)
proof (induction ns rule: induct_list012)
  case (3 m n ns)
  then show ?case
    using assms(1,2) by (simp add: scan_append [of "f m"])
qed simp_all

lemma scan_node_string: "wf_node l n \<Longrightarrow> scan (node_string n) = Some (render n)"
proof (induction n)
  case (With n e k d)
  then show ?case
    by (simp add: scan_append scan_operators [simplified] scan_valid_id)
next
  case (And ns)
  have "scan (if node_kind n = KindOr then ''('' @ node_string n @ '')'' else node_string n) =
      Some (atom n)" if "n \<in> set ns" for n
    using And that by (auto simp: list_all_iff leaf_kind scan_operators scan_append)
  then show ?case
    by (auto intro!: scan_join scan_operators)
next
  case (Or ns)
  have "scan (if node_kind n = KindAnd then ''('' @ node_string n @ '')'' else node_string n) =
      Some (atom n)" if "n \<in> set ns" for n
    using Or that by (auto simp: list_all_iff leaf_kind scan_operators scan_append)
  then show ?case
    by (auto intro!: scan_join scan_operators)
qed (auto simp: scan_append scan_operators scan_valid_id)

subsection \<open>Reading a rendered tree\<close>

definition stops :: "token list \<Rightarrow> bool" where
  "stops r \<longleftrightarrow> r = [] \<or> tkind (hd r) \<in> {TAnd, TOr, TClose}"

lemmas parser_defs = primary_def license_term_def simple_def with_exception_def peek_is_def
  advance_def report_def

lemma primary_leaf:
  assumes "wf_node l n" "is_leaf n" "rest p = render n @ r" "stops r"
  shows "primary l f p = Inr (n, (report n p)\<lparr>rest := r\<rparr>)"
proof -
  have stop: "\<not> peek_is TPlus (q\<lparr>rest := r\<rparr>)" "\<not> peek_is TWith (q\<lparr>rest := r\<rparr>)" for q
    using assms(4) by (cases r; auto simp: stops_def peek_is_def)+
  show ?thesis
    using assms(1-3) stop
  proof (cases n)
    case (With m e k d)
    with assms show ?thesis
      by (cases m) (auto simp: parser_defs Let_def split: if_splits option.splits)
  qed (auto simp: parser_defs Let_def split: if_splits option.splits list.splits)
qed

lemma primary_paren:
  assumes "rest p = paren ts @ r"
    and "f (advance p) = Inr (n, q\<lparr>rest := tok TClose '')'' # r\<rparr>)"
  shows "primary l f p = Inr (n, q\<lparr>rest := r\<rparr>)"
  using assms by (simp add: primary_def peek_is_def advance_def)

text \<open>
  An operand parser \<open>operand\<close> reads the children \<open>ns\<close>: from \<open>atom n @ r\<close> it returns \<open>n\<close>,
  leaving \<open>r\<close>, whenever \<open>r\<close> is a text it may be followed by.
\<close>

definition reads :: "(token list \<Rightarrow> bool) \<Rightarrow> node parse \<Rightarrow> node \<Rightarrow> token list \<Rightarrow> bool" where
  "reads S operand n ts \<longleftrightarrow>
     (\<forall>p r. rest p = ts @ r \<longrightarrow> S r \<longrightarrow> operand p = Inr (n, (report n p)\<lparr>rest := r\<rparr>))"

lemma readsD: "reads S f n ts \<Longrightarrow> rest p = ts @ r \<Longrightarrow> S r \<Longrightarrow> f p = Inr (n, (report n p)\<lparr>rest := r\<rparr>)"
  by (simp add: reads_def)

lemma join_Cons: "join [t] (map f (n # ns)) = f n @ concat (map (\<lambda>n. t # f n) ns)"
  by (induction ns arbitrary: n) simp_all

lemma operand_loop_reads:
  assumes "\<forall>n \<in> set ns. reads S operand n (atom n)"
    and "tkind t = op" "\<And>ts. S (t # ts)" "S r" "\<not> (r \<noteq> [] \<and> tkind (hd r) = op)"
    and "length ns \<le> fuel" "rest p = concat (map (\<lambda>n. t # atom n) ns) @ r"
  shows "operand_loop fuel op operand acc p = Inr (acc @ ns, (fold report ns p)\<lparr>rest := r\<rparr>)"
  using assms(1,6,7)
proof (induction ns arbitrary: fuel acc p)
  case Nil
  then have "\<not> peek_is op p" "p\<lparr>rest := r\<rparr> = p"
    using assms(5) by (auto simp: peek_is_def split: list.splits)
  then show ?case by (simp add: operand_loop.simps)
next
  case (Cons n ns)
  then obtain fuel' where fuel: "fuel = Suc fuel'" "length ns \<le> fuel'"
    by (cases fuel) auto
  let ?r = "concat (map (\<lambda>n. t # atom n) ns) @ r"
  have S: "S ?r"
    using assms(3,4) by (cases ns) auto
  have p: "rest p = t # atom n @ ?r" "rest (advance p) = atom n @ ?r"
    using Cons.prems(3) by (simp_all add: advance_def)
  have "reads S operand n (atom n)"
    using Cons.prems(1) by simp
  then have "operand (advance p) = Inr (n, (report n (advance p))\<lparr>rest := ?r\<rparr>)"
    using S p(2) by (simp only: reads_def)
  moreover have "peek_is op p"
    using p(1) assms(2) by (simp add: peek_is_def)
  ultimately have "operand_loop fuel op operand acc p =
      operand_loop fuel' op operand (acc @ [n]) ((report n (advance p))\<lparr>rest := ?r\<rparr>)"
    using fuel by (simp add: operand_loop.simps [of "Suc fuel'"])
  also have "\<dots> = Inr (acc @ n # ns, (fold report (n # ns) p)\<lparr>rest := r\<rparr>)"
    using Cons.prems(1) fuel(2) by (subst Cons.IH) (simp_all add: advance_def)
  finally show ?case .
qed

lemma operands_reads:
  assumes "ns \<noteq> []" "\<forall>n \<in> set ns. reads S operand n (atom n)"
    and "tkind t = op" "\<And>ts. S (t # ts)" "S r" "\<not> (r \<noteq> [] \<and> tkind (hd r) = op)"
    and "rest p = join [t] (map atom ns) @ r"
  shows "operands op k mk operand p =
    Inr (if length ns = 1 then hd ns else mk (flatten k ns), (fold report ns p)\<lparr>rest := r\<rparr>)"
proof -
  obtain n ms where ns: "ns = n # ms"
    using assms(1) by (cases ns) auto
  let ?r = "concat (map (\<lambda>n. t # atom n) ms) @ r"
  have "rest p = atom n @ ?r"
    using assms(7) by (simp only: ns join_Cons append_assoc)
  moreover have "S ?r"
    using assms(4,5) by (cases ms) auto
  ultimately have "operand p = Inr (n, (report n p)\<lparr>rest := ?r\<rparr>)"
    using assms(2) unfolding ns reads_def by simp
  moreover have "operand_loop (length ?r) op operand [n] ((report n p)\<lparr>rest := ?r\<rparr>) =
      Inr ([n] @ ms, (fold report ms ((report n p)\<lparr>rest := ?r\<rparr>))\<lparr>rest := r\<rparr>)"
    by (rule operand_loop_reads [OF _ assms(3-6)])
      (use assms(2) in \<open>auto simp: ns length_concat comp_def sum_list_Suc\<close>)
  ultimately show ?thesis
    by (simp add: operands_def ns)
qed

definition conj_stops :: "token list \<Rightarrow> bool" where
  "conj_stops r \<longleftrightarrow> r = [] \<or> tkind (hd r) \<in> {TOr, TClose}"

definition closes :: "token list \<Rightarrow> bool" where
  "closes r \<longleftrightarrow> r = [] \<or> tkind (hd r) = TClose"

lemma flatten_none: "list_all (\<lambda>n. node_kind n \<noteq> k) ns \<Longrightarrow> flatten k ns = ns"
  by (induction ns) (simp_all add: flatten_def)

lemma operands_many:
  assumes "\<forall>n \<in> set ns. reads S operand n (atom n)"
    and "2 \<le> length ns" "list_all (\<lambda>n. node_kind n \<noteq> k) ns" "\<And>p. report (mk ns) p = fold report ns p"
    and "tkind t = op" "\<And>ts. S (t # ts)" "\<And>r. S' r \<Longrightarrow> S r \<and> \<not> (r \<noteq> [] \<and> tkind (hd r) = op)"
  shows "reads S' (operands op k mk operand) (mk ns) (join [t] (map atom ns))"
  unfolding reads_def
proof (intro allI impI)
  fix p :: parser and r
  assume p: "rest p = join [t] (map atom ns) @ r" and r: "S' r"
  have "ns \<noteq> []" "length ns \<noteq> 1" using assms(2) by auto
  then show "operands op k mk operand p = Inr (mk ns, (report (mk ns) p)\<lparr>rest := r\<rparr>)"
    using operands_reads [OF _ assms(1,5,6) _ _ p, of k mk] assms(3,4,7) r by (simp add: flatten_none)
qed

lemma operands_single:
  assumes "reads S operand n ts" "\<And>r. S' r \<Longrightarrow> S r \<and> \<not> (r \<noteq> [] \<and> tkind (hd r) = op)"
  shows "reads S' (operands op k mk operand) n ts"
  unfolding reads_def
proof (intro allI impI)
  fix p :: parser and r
  assume "rest p = ts @ r" "S' r"
  moreover from this(2) have "S r" "\<not> (r \<noteq> [] \<and> tkind (hd r) = op)"
    using assms(2) by blast+
  ultimately have "operand p = Inr (n, (report n p)\<lparr>rest := r\<rparr>)"
    and "\<not> peek_is op ((report n p)\<lparr>rest := r\<rparr>)"
    using assms(1) by (auto simp: reads_def peek_is_def split: list.splits)
  then show "operands op k mk operand p = Inr (n, (report n p)\<lparr>rest := r\<rparr>)"
    by (simp add: operands_def operand_loop.simps)
qed

lemma conjunction_single:
  "reads stops (primary l f) n ts \<Longrightarrow> reads conj_stops (conjunction l f) n ts"
  unfolding conjunction_def
  by (erule operands_single) (auto simp: stops_def conj_stops_def)

lemma conjunction_many:
  assumes "\<forall>n \<in> set ns. reads stops (primary l f) n (atom n)" "wf_node l (And ns)"
  shows "reads conj_stops (conjunction l f) (And ns) (render (And ns))"
  unfolding conjunction_def render.simps
  by (rule operands_many [OF assms(1)]) (use assms(2) in \<open>auto simp: stops_def conj_stops_def\<close>)

lemma expression_single:
  "reads conj_stops (conjunction l (expression_at d l)) n ts \<Longrightarrow> reads closes (expression_at (Suc d) l) n ts"
  unfolding expression_at.simps [abs_def]
  by (erule operands_single) (auto simp: closes_def conj_stops_def)

lemma expression_many:
  assumes "\<forall>n \<in> set ns. reads conj_stops (conjunction l (expression_at d l)) n (atom n)"
    and "wf_node l (Or ns)"
  shows "reads closes (expression_at (Suc d) l) (Or ns) (render (Or ns))"
  unfolding expression_at.simps [abs_def] render.simps
  by (rule operands_many [OF assms(1)]) (use assms(2) in \<open>auto simp: closes_def conj_stops_def\<close>)

text \<open>A leaf, or a subexpression in parentheses, is read by \<open>primary\<close>.\<close>

lemma primary_atom:
  assumes "wf_node l n" "\<not> is_leaf n \<Longrightarrow> reads closes f n (render n)"
  shows "reads stops (primary l f) n (atom n)"
  unfolding reads_def
proof (intro allI impI)
  fix p :: parser and r
  assume p: "rest p = atom n @ r" and r: "stops r"
  show "primary l f p = Inr (n, (report n p)\<lparr>rest := r\<rparr>)"
  proof (cases "is_leaf n")
    case True
    with p r assms(1) show ?thesis by (simp add: primary_leaf)
  next
    case False
    let ?r = "tok TClose '')'' # r"
    from False p have "rest p = paren (render n) @ r"
      by simp
    moreover from this have "f (advance p) = Inr (n, (report n (advance p))\<lparr>rest := ?r\<rparr>)"
      using assms(2) [OF False] by (simp add: reads_def advance_def closes_def)
    ultimately have "primary l f p = Inr (n, (report n (advance p))\<lparr>rest := r\<rparr>)"
      by (rule primary_paren)
    then show ?thesis by (simp add: advance_def)
  qed
qed

lemma leaf_reads:
  assumes "wf_node l n" "is_leaf n" "0 < levels"
  shows "reads closes (expression_at levels l) n (render n)"
proof -
  obtain d where levels: "levels = Suc d"
    using assms(3) by (cases levels) auto
  have "reads stops (primary l (expression_at d l)) n (render n)"
    using assms(1,2) primary_leaf by (simp add: reads_def)
  then show ?thesis
    unfolding levels by (intro expression_single conjunction_single)
qed

lemma expression_reads:
  "wf_node l n \<Longrightarrow> node_depth n < levels \<Longrightarrow> reads closes (expression_at levels l) n (render n)"
proof (induction n arbitrary: levels)
  case (And ns)
  then obtain d where levels: "levels = Suc d" by (cases levels) auto
  have "reads stops (primary l (expression_at d l)) n (atom n)" if "n \<in> set ns" for n
    by (rule primary_atom)
      (use And that node_depth_child(1) [of n ns] in \<open>auto simp: list_all_iff levels less_Suc_eq_le\<close>)
  with And.prems(1) show ?case
    unfolding levels by (intro expression_single conjunction_many) auto
next
  case (Or ns)
  then obtain d where levels: "levels = Suc d" by (cases levels) auto
  have "reads stops (primary l (expression_at d l)) n (atom n)" if "n \<in> set ns" for n
    by (rule primary_atom)
      (use Or that node_depth_child(2) [of n ns] in \<open>auto simp: list_all_iff levels less_Suc_eq_le\<close>)
  then have "\<forall>n \<in> set ns. reads conj_stops (conjunction l (expression_at d l)) n (atom n)"
    by (intro ballI conjunction_single)
  then show ?case
    unfolding levels using Or.prems(1) by (rule expression_many)
qed (rule leaf_reads; simp)+

subsection \<open>Every parsed tree is well-formed\<close>

text \<open>
  \<open>sound_parse l f\<close>: what \<open>f\<close> returns is well-formed, its reports are those of the tree, and
  it consumes at least one token.
\<close>

definition consumed :: "parser \<Rightarrow> parser \<Rightarrow> bool" where
  "consumed p q \<longleftrightarrow> length (rest q) < length (rest p) \<and> set (rest q) \<subseteq> set (rest p)"

definition sound_parse :: "licenses_if \<Rightarrow> node parse \<Rightarrow> bool" where
  "sound_parse l f \<longleftrightarrow>
     (\<forall>p n q. list_all token_ok (rest p) \<longrightarrow> f p = Inr (n, q) \<longrightarrow>
        wf_node l n \<and> q = (report n p)\<lparr>rest := rest q\<rparr> \<and> consumed p q)"

lemma sound_parseD:
  assumes "sound_parse l f" "list_all token_ok (rest p)" "f p = Inr (n, q)"
  shows "wf_node l n" "q = (report n p)\<lparr>rest := rest q\<rparr>" "consumed p q" "list_all token_ok (rest q)"
  using assms unfolding sound_parse_def consumed_def list_all_iff by blast+

lemma consumed_trans: "consumed p q \<Longrightarrow> consumed q r \<Longrightarrow> consumed p r"
  by (auto simp: consumed_def)

lemma consumed_advance: "rest p \<noteq> [] \<Longrightarrow> consumed p (advance p)"
  by (cases "rest p") (auto simp: consumed_def advance_def)

lemma tokens_ok_advance: "list_all token_ok (rest p) \<Longrightarrow> list_all token_ok (rest (advance p))"
  by (cases "rest p") (auto simp: advance_def)

lemma peek_is_nonempty: "peek_is k p \<Longrightarrow> rest p \<noteq> []"
  by (auto simp: peek_is_def split: list.splits)

context canonical_licenses
begin

lemma simple_wf:
  assumes "valid_id txt" "simple l txt p = (n, q)"
  shows "wf_node l n \<and> node_kind n \<in> {KindLicense, KindReference} \<and> q = report n p"
proof (cases "is_reference_id txt \<or> license_of l txt = None")
  case True
  with assms show ?thesis
    by (auto simp: simple_def report_def split: if_splits)
next
  case False
  then obtain c d where cd: "license_of l txt = Some (c, d)" by auto
  from False license_canonical [OF assms(1) _ cd] have
    "valid_id c" "\<not> is_reference_id c" "license_of l c = Some (c, d)" by auto
  with False cd assms(2) show ?thesis
    by (auto simp: simple_def report_def)
qed

lemma with_exception_sound:
  assumes "wf_node l m" "node_kind m \<in> {KindLicense, KindReference}"
    and "list_all token_ok (rest p)" "with_exception l m p = Inr (n, q)"
  shows "\<exists>e k d. n = With m e k d \<and> wf_node l n \<and>
    q = p\<lparr>rest := tl (rest p), unknown := unknown p @ (if k then [] else [e]),
           deprecated := deprecated p @ (if d then [e] else [])\<rparr> \<and> rest p \<noteq> []"
proof -
  from assms(4) obtain t ts where t: "rest p = t # ts" "tkind t = TId"
    by (auto simp: with_exception_def split: list.splits if_splits)
  with assms(3) have "valid_id (ttext t)"
    by (simp add: token_ok_def)
  show ?thesis
  proof (cases "exception_of l (ttext t)")
    case None
    with assms(4) t have "n = With m (ttext t) False False"
      and "q = p\<lparr>rest := ts, unknown := unknown p @ [ttext t]\<rparr>"
      by (simp_all add: with_exception_def advance_def)
    moreover have "wf_node l (With m (ttext t) False False)"
      using None assms(1,2) \<open>valid_id (ttext t)\<close> by simp
    ultimately show ?thesis
      using t(1) by (intro exI [of _ "ttext t"] exI [of _ False]) simp
  next
    case (Some cd)
    then obtain c d where cd: "exception_of l (ttext t) = Some (c, d)" by (cases cd) auto
    from assms(4) t cd have "n = With m c True d"
      and "q = (if d then p\<lparr>rest := ts, deprecated := deprecated p @ [c]\<rparr> else p\<lparr>rest := ts\<rparr>)"
      by (cases d; simp add: with_exception_def advance_def Let_def)+
    moreover have "wf_node l (With m c True d)"
      using exception_canonical [OF \<open>valid_id (ttext t)\<close> cd] assms(1,2) by simp
    ultimately show ?thesis
      using t(1) by (intro exI [of _ c] exI [of _ True] exI [of _ d]) simp
  qed
qed

lemma license_term_sound:
  assumes "valid_id txt" "list_all token_ok (rest p)" "rest p \<noteq> []" "license_term l txt p = Inr (n, q)"
  shows "wf_node l n \<and> q = (report n p)\<lparr>rest := rest q\<rparr> \<and> consumed p q"
proof -
  obtain m p1 where s: "simple l txt (advance p) = (m, p1)"
    by (cases "simple l txt (advance p)")
  note wf = simple_wf [OF assms(1) s]
  define plus where "plus = peek_is TPlus p1"
  define p2 where "p2 = (if plus then advance p1 else p1)"
  define m' where "m' = set_or_later plus m"
  have m': "wf_node l m'" "node_kind m' \<in> {KindLicense, KindReference}" "report m' p = report m p"
    using wf by (cases m; simp add: m'_def report_def)+
  have p2: "p2 = (report m p)\<lparr>rest := rest p2\<rparr>" "consumed p p2" "list_all token_ok (rest p2)"
  proof -
    have p1: "p1 = (report m p)\<lparr>rest := tl (rest p)\<rparr>"
      using wf by (simp add: advance_def)
    then show "p2 = (report m p)\<lparr>rest := rest p2\<rparr>"
      by (simp add: p2_def advance_def)
    show "list_all token_ok (rest p2)"
      using p1 assms(2) by (cases "rest p"; cases "tl (rest p)") (auto simp: p2_def advance_def)
    show "consumed p p2"
      using p1 assms(3) by (cases "rest p"; cases "tl (rest p)") (auto simp: p2_def advance_def consumed_def)
  qed
  from assms(4) have "if peek_is TWith p2 then with_exception l m' (advance p2) = Inr (n, q)
      else (n, q) = (m', p2)"
    unfolding license_term_def s
    by (simp add: Let_def plus_def [symmetric] p2_def [symmetric] m'_def [symmetric] split: if_splits)
  then show ?thesis
  proof (cases "peek_is TWith p2")
    case False
    with \<open>if peek_is TWith p2 then _ else _\<close> have "n = m'" "q = p2" by simp_all
    with p2(1,2) m'(1,3) show ?thesis by metis
  next
    case True
    with \<open>if peek_is TWith p2 then _ else _\<close> have "with_exception l m' (advance p2) = Inr (n, q)"
      by simp
    from with_exception_sound [OF m'(1,2) tokens_ok_advance [OF p2(3)] this]
    obtain e k d where n: "n = With m' e k d" "wf_node l n" "rest (advance p2) \<noteq> []"
      and q: "q = (advance p2)\<lparr>rest := tl (rest (advance p2)),
        unknown := unknown (advance p2) @ (if k then [] else [e]),
        deprecated := deprecated (advance p2) @ (if d then [e] else [])\<rparr>" by blast
    have "consumed (advance p2) q"
      using n(3) q by (cases "rest (advance p2)") (auto simp: consumed_def)
    with p2(2) peek_is_nonempty [OF True] have "consumed p q"
      by (blast intro: consumed_trans consumed_advance)
    moreover from p2(1) obtain r where "p2 = (report m' p)\<lparr>rest := r\<rparr>"
      using m'(3) by metis
    then have "q = (report n p)\<lparr>rest := rest q\<rparr>"
      using q n(1) by (simp add: report_def advance_def)
    ultimately show ?thesis using n(2) by blast
  qed
qed

lemma primary_sound:
  assumes "sound_parse l f"
  shows "sound_parse l (primary l f)"
  unfolding sound_parse_def
proof (intro allI impI)
  fix p n q
  assume ok: "list_all token_ok (rest p)" and pr: "primary l f p = Inr (n, q)"
  then obtain t ts where p: "rest p = t # ts"
    by (auto simp: primary_def split: list.splits)
  show "wf_node l n \<and> q = (report n p)\<lparr>rest := rest q\<rparr> \<and> consumed p q"
  proof (cases "tkind t")
    case TId
    with pr p ok license_term_sound [of "ttext t" p n q] show ?thesis
      by (simp add: primary_def token_ok_def)
  next
    case TOpen
    with pr p obtain q' where q': "f (advance p) = Inr (n, q')" "q = advance q'" "peek_is TClose q'"
      by (auto simp: primary_def split: sum.splits prod.splits if_splits)
    note sound = sound_parseD [OF assms tokens_ok_advance [OF ok] q'(1)]
    from sound(2) have "q = (report n p)\<lparr>rest := rest q\<rparr>"
      unfolding q'(2) advance_def by (metis (no_types, lifting) parser.surjective parser.update_convs(1)
          report_rest)
    moreover have "consumed p q"
      using sound(3) q'(2,3) p
      by (metis consumed_advance consumed_trans list.distinct(1) peek_is_nonempty)
    ultimately show ?thesis using sound(1) by blast
  qed (use pr p in \<open>auto simp: primary_def\<close>)
qed

lemma operand_loop_sound:
  assumes "sound_parse l operand" "list_all token_ok (rest p)"
    and "operand_loop fuel op operand acc p = Inr (cs, q)"
  shows "\<exists>ns. cs = acc @ ns \<and> list_all (wf_node l) ns \<and> q = (fold report ns p)\<lparr>rest := rest q\<rparr> \<and>
    (ns = [] \<and> q = p \<or> consumed p q)"
  using assms(2,3)
proof (induction fuel arbitrary: acc p)
  case 0
  then show ?case by (auto simp: operand_loop.simps split: if_splits)
next
  case (Suc fuel)
  show ?case
  proof (cases "peek_is op p")
    case False
    with Suc.prems show ?thesis by (simp add: operand_loop.simps)
  next
    case True
    with Suc.prems(2) obtain n p' where n: "operand (advance p) = Inr (n, p')"
        "operand_loop fuel op operand (acc @ [n]) p' = Inr (cs, q)"
      by (auto simp: operand_loop.simps [of "Suc fuel"] split: sum.splits prod.splits)
    note sound = sound_parseD [OF assms(1) tokens_ok_advance [OF Suc.prems(1)] n(1)]
    have c: "consumed p p'"
      using consumed_trans [OF consumed_advance [OF peek_is_nonempty [OF True]] sound(3)] .
    from Suc.IH [OF sound(4) n(2)] obtain ns where ns: "cs = (acc @ [n]) @ ns"
        "list_all (wf_node l) ns" "q = (fold report ns p')\<lparr>rest := rest q\<rparr>"
        "ns = [] \<and> q = p' \<or> consumed p' q" by blast
    from sound(2) obtain r where "p' = (report n p)\<lparr>rest := r\<rparr>"
      by (simp add: advance_def)
    with ns(3) have "q = (fold report (n # ns) p)\<lparr>rest := rest q\<rparr>" by simp
    with ns(1,2,4) sound(1) c show ?thesis
      by (intro exI [of _ "n # ns"]) (auto intro: consumed_trans)
  qed
qed

lemma flatten_wf:
  assumes "list_all (wf_node l) ns" "2 \<le> length ns" "(k, mk) = (KindAnd, And) \<or> (k, mk) = (KindOr, Or)"
  shows "wf_node l (mk (flatten k ns))" "report (mk (flatten k ns)) p = fold report ns p"
proof -
  let ?c = "\<lambda>n. if node_kind n = k then node_children n else [n]"
  have c: "list_all (wf_node l) (?c n) \<and> list_all (\<lambda>m. node_kind m \<noteq> k) (?c n) \<and> ?c n \<noteq> []"
    if "wf_node l n" for n
    using that assms(3) by (cases n) auto
  have len: "length ns \<le> length (flatten k ns)"
    using assms(1)
  proof (induction ns)
    case (Cons n ns)
    then have "?c n \<noteq> []" using c by simp
    then have "1 \<le> length (?c n)" by (simp only: Suc_le_eq length_greater_0_conv One_nat_def not_False_eq_True)
    with Cons show ?case by (simp add: flatten_def)
  qed simp
  have all: "list_all P (flatten k ns)" if "\<And>n. wf_node l n \<Longrightarrow> list_all P (?c n)" for P
    using assms(1) that by (induction ns) (simp_all add: flatten_def)
  have "list_all (wf_node l) (flatten k ns)" "list_all (\<lambda>m. node_kind m \<noteq> k) (flatten k ns)"
    using c by (blast intro: all)+
  then show "wf_node l (mk (flatten k ns))"
    using assms(2,3) len by auto
  have eq: "concat (map f (flatten k ns)) = concat (map f ns)"
    if "\<And>m. node_kind m = k \<Longrightarrow> concat (map f (node_children m)) = f m" for f :: "node \<Rightarrow> string list"
    using that by (induction ns) (simp_all add: flatten_def)
  have "concat (map f (node_children m)) = f m"
    if "node_kind m = k" "f \<in> {unknown_of, refs_of, deprecated_of}" for f m
    using that assms(3) by (cases m) auto
  then show "report (mk (flatten k ns)) p = fold report ns p"
    using assms(3) eq by (auto simp: fold_report)
qed

lemma operands_sound:
  assumes "sound_parse l operand" "(k, mk) = (KindAnd, And) \<or> (k, mk) = (KindOr, Or)"
  shows "sound_parse l (operands op k mk operand)"
  unfolding sound_parse_def
proof (intro allI impI)
  fix p n q
  assume ok: "list_all token_ok (rest p)" and op: "operands op k mk operand p = Inr (n, q)"
  then obtain m p' cs where m: "operand p = Inr (m, p')"
      "operand_loop (length (rest p')) op operand [m] p' = Inr (cs, q)"
      "n = (if length cs = 1 then m else mk (flatten k cs))"
    by (auto simp: operands_def split: sum.splits prod.splits)
  note sound = sound_parseD [OF assms(1) ok m(1)]
  from operand_loop_sound [OF assms(1) sound(4) m(2)] obtain ns where ns: "cs = m # ns"
      "list_all (wf_node l) ns" "q = (fold report ns p')\<lparr>rest := rest q\<rparr>" "ns = [] \<and> q = p' \<or> consumed p' q"
    by auto
  from sound(2) obtain r where "p' = (report m p)\<lparr>rest := r\<rparr>" by blast
  with ns(3) have q: "q = (fold report cs p)\<lparr>rest := rest q\<rparr>" by (simp add: ns(1))
  show "wf_node l n \<and> q = (report n p)\<lparr>rest := rest q\<rparr> \<and> consumed p q"
  proof (cases "ns = []")
    case True
    with ns m(3) sound q show ?thesis by (auto simp: consumed_def)
  next
    case False
    then have cs: "list_all (wf_node l) cs" "2 \<le> length cs" "length cs \<noteq> 1"
      using ns(1,2) sound(1) by (cases ns; simp)+
    with flatten_wf [OF cs(1,2) assms(2)] q ns(4) sound(3) m(3) False show ?thesis
      by (auto intro: consumed_trans)
  qed
qed

lemma expression_sound: "sound_parse l (expression_at levels l)"
proof (induction levels)
  case 0
  show ?case by (simp add: sound_parse_def)
next
  case (Suc d)
  then show ?case
    unfolding expression_at.simps [abs_def] conjunction_def
    by (intro operands_sound primary_sound) simp_all
qed

end

subsection \<open>Fuel\<close>

definition progress :: "node parse \<Rightarrow> bool" where
  "progress f \<longleftrightarrow> (\<forall>p. f p \<noteq> Inl LoopFuel) \<and>
     (\<forall>p n q. f p = Inr (n, q) \<longrightarrow> length (rest q) < length (rest p))"

lemma length_advance [simp]: "length (rest (advance p)) = length (rest p) - 1"
  by (simp add: advance_def)

lemma peek_is_length: "peek_is k p \<Longrightarrow> 0 < length (rest p)"
  using peek_is_nonempty by simp

lemma with_exception_progress:
  "with_exception l m p \<noteq> Inl LoopFuel"
  "with_exception l m p = Inr (n, q) \<Longrightarrow> length (rest q) < length (rest p)"
  by (auto simp: with_exception_def advance_def Let_def split: list.splits if_splits option.splits)

lemma simple_rest: "simple l txt p = (n, q) \<Longrightarrow> rest q = rest p"
  by (auto simp: simple_def split: if_splits option.splits)

lemma license_term_progress:
  assumes "rest p \<noteq> []"
  shows "license_term l txt p \<noteq> Inl LoopFuel"
    "license_term l txt p = Inr (n, q) \<Longrightarrow> length (rest q) < length (rest p)"
proof -
  obtain m p' where s: "simple l txt (advance p) = (m, p')"
    by (cases "simple l txt (advance p)")
  then have "length (rest p') < length (rest p)"
    using assms simple_rest [OF s] by simp
  moreover have "length (rest q) < length (rest p')" if "with_exception l x (advance p') = Inr (n, q)" for x
    using with_exception_progress(2) [OF that] by simp
  moreover have "length (rest q) < length (rest p')"
    if "with_exception l x (advance (advance p')) = Inr (n, q)" for x
    using with_exception_progress(2) [OF that] by simp
  ultimately show "license_term l txt p \<noteq> Inl LoopFuel"
    "license_term l txt p = Inr (n, q) \<Longrightarrow> length (rest q) < length (rest p)"
    by (fastforce simp: license_term_def s Let_def with_exception_progress(1) split: if_splits)+
qed

lemma primary_progress: "progress f \<Longrightarrow> progress (primary l f)"
  unfolding progress_def
  by (auto simp: primary_def license_term_progress split: list.splits token_kind.splits sum.splits
      prod.splits if_splits dest: license_term_progress(2) [rotated]) force+

lemma operand_loop_progress:
  assumes "progress operand"
  shows "length (rest p) \<le> fuel \<Longrightarrow> operand_loop fuel op operand acc p \<noteq> Inl LoopFuel"
    "operand_loop fuel op operand acc p = Inr (cs, q) \<Longrightarrow> length (rest q) \<le> length (rest p)"
proof (induction fuel arbitrary: acc p)
  case 0
  {
    case 1
    then have "\<not> peek_is op p" using peek_is_length by fastforce
    then show ?case by (simp add: operand_loop.simps)
  next
    case 2
    then show ?case by (simp add: operand_loop.simps split: if_splits)
  }
next
  case (Suc fuel)
  have shorter: "length (rest q') < length (rest p) - 1" if "operand (advance p) = Inr (n, q')" for p n q'
    using assms that by (fastforce simp: progress_def)
  {
    case 1
    have "operand_loop fuel op operand acc' q' \<noteq> Inl LoopFuel"
      if "operand (advance p) = Inr (n, q')" for n q' acc'
      by (rule Suc(1)) (use shorter [OF that] 1 in linarith)
    then show ?case
      using assms by (auto simp: operand_loop.simps [of "Suc fuel"] progress_def split: sum.splits)
  next
    case 2
    then show ?case
      using Suc(2) shorter
      by (fastforce simp: operand_loop.simps [of "Suc fuel"] split: sum.splits if_splits)
  }
qed

lemma operands_progress: "progress operand \<Longrightarrow> progress (operands op k mk operand)"
  using operand_loop_progress [of operand]
  by (fastforce simp: operands_def progress_def split: sum.splits)

lemma expression_progress: "progress (expression_at levels l)"
proof (induction levels)
  case 0
  show ?case by (simp add: progress_def)
next
  case (Suc d)
  then show ?case
    unfolding expression_at.simps [abs_def] conjunction_def
    by (intro operands_progress primary_progress)
qed

subsection \<open>Parse\<close>

definition is_sentinel :: "string \<Rightarrow> bool" where
  "is_sentinel s \<longleftrightarrow> s = [] \<or> equal_fold s ''NOASSERTION'' \<or> equal_fold s ''NONE'' \<or>
     equal_fold s ''UNLICENSED''"

lemma tokenize_ok:
  assumes "tokenize s = Inr ts"
  shows "list_all token_ok ts" "length ts \<le> max_tokens" "scan s = Some ts" "ts \<noteq> []"
  using assms tokenize_loop_sound [of s "[]"] scan_tokens_ok [of s]
  by (auto simp: tokenize_def split: sum.splits if_splits)

lemma parse_with_Some:
  assumes "expression (parse_with r l) = Some n"
  obtains ts p where "tokenize (trim_space r) = Inr ts"
    "expression_at (max_depth + 1) l \<lparr>rest = ts, unknown = [], refs = [], deprecated = []\<rparr> = Inr (n, p)"
    "rest p = []"
    "parse_with r l = \<lparr>raw = r, status = (if unknown p = [] then StatusParsed else StatusUnknownTerms),
       expression = Some n, normalized = node_string n, unknown_terms = unknown p,
       references = refs p, deprecated_terms = deprecated p, problem = None\<rparr>"
  using assms that
  by (auto simp: parse_with_def Let_def empty_result_def parse_tokens_def
      split: if_splits sum.splits prod.splits list.splits)

definition solid_ends :: "string \<Rightarrow> bool" where
  "solid_ends s \<longleftrightarrow> s \<noteq> [] \<and> solid (hd s) \<and> solid (last s)"

lemma solid_ends_append: "solid_ends s \<Longrightarrow> solid_ends t \<Longrightarrow> solid_ends (s @ u @ t)"
  by (simp add: solid_ends_def)

lemma solid_ends_join: "xs \<noteq> [] \<Longrightarrow> list_all solid_ends xs \<Longrightarrow> solid_ends (join sep xs)"
  by (induction sep xs rule: join.induct) (auto intro: solid_ends_append)

lemma valid_id_solid: "valid_id i \<Longrightarrow> solid_ends i"
proof -
  assume i: "valid_id i"
  have "solid c" if "is_id_byte c" for c
    using that by (auto simp: solid_def id_byte_defs)
  with i show ?thesis
    by (auto simp: valid_id_def solid_ends_def list_all_iff)
qed

lemma node_string_solid: "wf_node l n \<Longrightarrow> solid_ends (node_string n)"
proof (induction n)
  case (License i later k d)
  then show ?case
    using valid_id_solid [of i] by (auto simp: solid_ends_def solid_def)
next
  case (With n e k d)
  then show ?case
    using solid_ends_append [of "node_string n" e "'' WITH ''"] valid_id_solid [of e] by simp
next
  case (And ns)
  then show ?case
    by (auto intro!: solid_ends_join simp: list_all_iff) (auto simp: solid_ends_def solid_def)
next
  case (Or ns)
  then show ?case
    by (auto intro!: solid_ends_join simp: list_all_iff) (auto simp: solid_ends_def solid_def)
qed (simp add: valid_id_solid)

lemma join_nonempty: "2 \<le> length xs \<Longrightarrow> sep \<noteq> [] \<Longrightarrow> join sep xs \<noteq> []"
  by (induction sep xs rule: join.induct) simp_all

lemma render_nonempty: "wf_node l n \<Longrightarrow> render n \<noteq> []"
  by (cases n) (auto simp: join_nonempty)

context canonical_licenses
begin

lemma parse_wf:
  assumes "expression (parse_with r l) = Some n"
  shows "wf_node l n"
    "parse_with r l = \<lparr>raw = r, status = (if unknown_of n = [] then StatusParsed else StatusUnknownTerms),
       expression = Some n, normalized = node_string n, unknown_terms = unknown_of n,
       references = refs_of n, deprecated_terms = deprecated_of n, problem = None\<rparr>"
proof -
  obtain ts p where ts: "tokenize (trim_space r) = Inr ts"
    and p: "expression_at (max_depth + 1) l \<lparr>rest = ts, unknown = [], refs = [], deprecated = []\<rparr> = Inr (n, p)"
    and res: "parse_with r l = \<lparr>raw = r, status = (if unknown p = [] then StatusParsed else StatusUnknownTerms),
       expression = Some n, normalized = node_string n, unknown_terms = unknown p,
       references = refs p, deprecated_terms = deprecated p, problem = None\<rparr>"
    by (rule parse_with_Some [OF assms])
  note sound = sound_parseD [OF expression_sound _ p]
  show "wf_node l n"
    using sound(1) tokenize_ok(1) [OF ts] by simp
  have "p = (report n \<lparr>rest = ts, unknown = [], refs = [], deprecated = []\<rparr>)\<lparr>rest := rest p\<rparr>"
    using sound(2) tokenize_ok(1) [OF ts] by simp
  then have "unknown p = unknown_of n" "refs p = refs_of n" "deprecated p = deprecated_of n"
    by (simp_all add: report_def) (metis parser.select_convs)+
  with res show "parse_with r l = \<lparr>raw = r, status = (if unknown_of n = [] then StatusParsed
       else StatusUnknownTerms), expression = Some n, normalized = node_string n,
       unknown_terms = unknown_of n, references = refs_of n, deprecated_terms = deprecated_of n,
       problem = None\<rparr>"
    by simp
qed

end

lemma parse_node_string:
  assumes "wf_node l n" "\<not> is_sentinel (node_string n)"
    and "length (node_string n) \<le> max_input_bytes" "length (render n) \<le> max_tokens" "node_depth n \<le> max_depth"
  shows "parse_with (node_string n) l = \<lparr>raw = node_string n,
       status = (if unknown_of n = [] then StatusParsed else StatusUnknownTerms),
       expression = Some n, normalized = node_string n, unknown_terms = unknown_of n,
       references = refs_of n, deprecated_terms = deprecated_of n, problem = None\<rparr>"
proof -
  have trim: "trim_space (node_string n) = node_string n"
    using node_string_solid [OF assms(1)] by (simp add: solid_ends_def trim_space_solid)
  have scan: "scan (node_string n) = Some (render n)"
    by (rule scan_node_string [OF assms(1)])
  then have "tokenize_loop (node_string n) [] = Inr (render n)"
    using tokenize_loop_complete [of _ "render n" "[]"] assms(4) by simp
  moreover have "render n \<noteq> []"
    by (rule render_nonempty [OF assms(1)])
  ultimately have tok: "tokenize (node_string n) = Inr (render n)"
    by (simp add: tokenize_def)
  have "reads closes (expression_at (max_depth + 1) l) n (render n)"
    using assms(1,5) by (intro expression_reads) simp_all
  then have "parse_tokens l (render n) =
      Inr (n, report n \<lparr>rest = [], unknown = [], refs = [], deprecated = []\<rparr>)"
    by (simp add: parse_tokens_def reads_def closes_def report_def)
  with trim tok assms(2,3) show ?thesis
    by (simp add: parse_with_def is_sentinel_def report_def Let_def)
qed

subsection \<open>Rendering loses no structure\<close>

lemma node_string_inj:
  assumes "wf_node l n" "wf_node l m" "node_string n = node_string m"
  shows "n = m"
proof -
  have render: "render n = render m"
    using scan_node_string [OF assms(1)] scan_node_string [OF assms(2)] assms(3) by simp
  let ?d = "Suc (max (node_depth n) (node_depth m))"
  let ?p = "\<lparr>rest = render n, unknown = [], refs = [], deprecated = []\<rparr>"
  have "reads closes (expression_at ?d l) n (render n)" "reads closes (expression_at ?d l) m (render m)"
    using assms(1,2) by (intro expression_reads; simp add: less_Suc_eq_le)+
  then have "expression_at ?d l ?p = Inr (n, (report n ?p)\<lparr>rest := []\<rparr>)"
    and "expression_at ?d l ?p = Inr (m, (report m ?p)\<lparr>rest := []\<rparr>)"
    using render by (auto intro!: readsD simp: closes_def simp del: expression_at.simps)
  then have "Inr (n, (report n ?p)\<lparr>rest := []\<rparr>) = (Inr (m, (report m ?p)\<lparr>rest := []\<rparr>) :: spdx_error + _)"
    by (rule trans [OF sym])
  then show ?thesis by simp
qed

lemma node_equal_refl: "node_equal n n"
  by (induction n) (simp_all add: list.rel_refl_strong)

lemma node_equal_wf: "wf_node l n \<Longrightarrow> wf_node l m \<Longrightarrow> node_equal n m \<Longrightarrow> n = m"
proof (induction n arbitrary: m)
  case (And ns)
  then obtain ms where m: "m = And ms" "list_all2 node_equal ns ms"
    by (cases m) auto
  from m(2) And.IH And.prems have "list_all2 (=) ns ms"
    by (intro list.rel_mono_strong [OF m(2)]) (auto simp: list_all_iff m(1))
  with m(1) show ?case by (simp add: list.rel_eq)
next
  case (Or ns)
  then obtain ms where m: "m = Or ms" "list_all2 node_equal ns ms"
    by (cases m) auto
  from m(2) Or.IH Or.prems have "list_all2 (=) ns ms"
    by (intro list.rel_mono_strong [OF m(2)]) (auto simp: list_all_iff m(1))
  with m(1) show ?case by (simp add: list.rel_eq)
next
  case (License i later k d)
  then show ?case by (cases m) (auto split: if_splits)
next
  case (With n e k d)
  then show ?case by (cases m) (auto split: if_splits)
next
  case (Reference i)
  then show ?case by (cases m) auto
qed

lemma node_equal_iff: "wf_node l n \<Longrightarrow> wf_node l m \<Longrightarrow> node_equal n m \<longleftrightarrow> n = m"
  using node_equal_wf node_equal_refl by blast

end
