(* ===== verification/Spdx_List.thy ===== *)
theory Spdx_List
  imports Spdx_Lexing
begin

text \<open>
  The license list that the program embeds (SPDX License List 3.27.0): the lines of
  \<open>licenses.tsv\<close> and \<open>exceptions.tsv\<close> of \<open>internal/supplychain/spdxexpr\<close>, the list
  \<open>pinned\<close> loaded from them, and the proof that it meets the contract the parser relies on.
\<close>

definition row :: "string \<Rightarrow> string \<Rightarrow> string" where
  "row ident flags = ident @ [CHR 0x09] @ flags"

definition licenses_tsv :: "string list" where
  "licenses_tsv =
    [''# SPDX License List 3.27.0 (https://github.com/spdx/license-list-data/tree/v3.27.0)'',
     ''# id<TAB>flags: D=deprecated O=OSI approved F=FSF libre'', row ''0BSD'' ''O'',
     row ''3D-Slicer-1.0'' '''', row ''AAL'' ''O'', row ''Abstyles'' '''', row ''AdaCore-doc'' '''',
     row ''Adobe-2006'' '''', row ''Adobe-Display-PostScript'' '''', row ''Adobe-Glyph'' '''',
     row ''Adobe-Utopia'' '''', row ''ADSL'' '''', row ''AFL-1.1'' ''OF'', row ''AFL-1.2'' ''OF'',
     row ''AFL-2.0'' ''OF'', row ''AFL-2.1'' ''OF'', row ''AFL-3.0'' ''OF'', row ''Afmparse'' '''',
     row ''AGPL-1.0'' ''DF'', row ''AGPL-1.0-only'' '''', row ''AGPL-1.0-or-later'' '''',
     row ''AGPL-3.0'' ''DOF'', row ''AGPL-3.0-only'' ''OF'', row ''AGPL-3.0-or-later'' ''OF'',
     row ''Aladdin'' '''', row ''AMD-newlib'' '''', row ''AMDPLPA'' '''', row ''AML'' '''',
     row ''AML-glslang'' '''', row ''AMPAS'' '''', row ''ANTLR-PD'' '''',
     row ''ANTLR-PD-fallback'' '''', row ''any-OSI'' '''', row ''any-OSI-perl-modules'' '''',
     row ''Apache-1.0'' ''F'', row ''Apache-1.1'' ''OF'', row ''Apache-2.0'' ''OF'',
     row ''APAFML'' '''', row ''APL-1.0'' ''O'', row ''App-s2p'' '''', row ''APSL-1.0'' ''O'',
     row ''APSL-1.1'' ''O'', row ''APSL-1.2'' ''O'', row ''APSL-2.0'' ''OF'',
     row ''Arphic-1999'' '''', row ''Artistic-1.0'' ''O'', row ''Artistic-1.0-cl8'' ''O'',
     row ''Artistic-1.0-Perl'' ''O'', row ''Artistic-2.0'' ''OF'', row ''Artistic-dist'' '''',
     row ''Aspell-RU'' '''', row ''ASWF-Digital-Assets-1.0'' '''',
     row ''ASWF-Digital-Assets-1.1'' '''', row ''Baekmuk'' '''', row ''Bahyph'' '''',
     row ''Barr'' '''', row ''bcrypt-Solar-Designer'' '''', row ''Beerware'' '''',
     row ''Bitstream-Charter'' '''', row ''Bitstream-Vera'' '''', row ''BitTorrent-1.0'' '''',
     row ''BitTorrent-1.1'' ''F'', row ''blessing'' '''', row ''BlueOak-1.0.0'' ''O'',
     row ''Boehm-GC'' '''', row ''Boehm-GC-without-fee'' '''', row ''Borceux'' '''',
     row ''Brian-Gladman-2-Clause'' '''', row ''Brian-Gladman-3-Clause'' '''',
     row ''BSD-1-Clause'' ''O'', row ''BSD-2-Clause'' ''OF'', row ''BSD-2-Clause-Darwin'' '''',
     row ''BSD-2-Clause-first-lines'' '''', row ''BSD-2-Clause-FreeBSD'' ''DF'',
     row ''BSD-2-Clause-NetBSD'' ''DF'', row ''BSD-2-Clause-Patent'' ''O'',
     row ''BSD-2-Clause-pkgconf-disclaimer'' '''', row ''BSD-2-Clause-Views'' '''',
     row ''BSD-3-Clause'' ''OF'', row ''BSD-3-Clause-acpica'' '''',
     row ''BSD-3-Clause-Attribution'' '''', row ''BSD-3-Clause-Clear'' ''F'',
     row ''BSD-3-Clause-flex'' '''', row ''BSD-3-Clause-HP'' '''', row ''BSD-3-Clause-LBNL'' ''O'',
     row ''BSD-3-Clause-Modification'' '''', row ''BSD-3-Clause-No-Military-License'' '''',
     row ''BSD-3-Clause-No-Nuclear-License'' '''',
     row ''BSD-3-Clause-No-Nuclear-License-2014'' '''',
     row ''BSD-3-Clause-No-Nuclear-Warranty'' '''', row ''BSD-3-Clause-Open-MPI'' '''',
     row ''BSD-3-Clause-Sun'' '''', row ''BSD-4-Clause'' ''F'', row ''BSD-4-Clause-Shortened'' '''',
     row ''BSD-4-Clause-UC'' '''', row ''BSD-4.3RENO'' '''', row ''BSD-4.3TAHOE'' '''',
     row ''BSD-Advertising-Acknowledgement'' '''', row ''BSD-Attribution-HPND-disclaimer'' '''',
     row ''BSD-Inferno-Nettverk'' '''', row ''BSD-Protection'' '''',
     row ''BSD-Source-beginning-file'' '''', row ''BSD-Source-Code'' '''',
     row ''BSD-Systemics'' '''', row ''BSD-Systemics-W3Works'' '''', row ''BSL-1.0'' ''OF'',
     row ''BUSL-1.1'' '''', row ''bzip2-1.0.5'' ''D'', row ''bzip2-1.0.6'' '''',
     row ''C-UDA-1.0'' '''', row ''CAL-1.0'' ''O'', row ''CAL-1.0-Combined-Work-Exception'' ''O'',
     row ''Caldera'' '''', row ''Caldera-no-preamble'' '''', row ''Catharon'' '''',
     row ''CATOSL-1.1'' ''O'', row ''CC-BY-1.0'' '''', row ''CC-BY-2.0'' '''',
     row ''CC-BY-2.5'' '''', row ''CC-BY-2.5-AU'' '''', row ''CC-BY-3.0'' '''',
     row ''CC-BY-3.0-AT'' '''', row ''CC-BY-3.0-AU'' '''', row ''CC-BY-3.0-DE'' '''',
     row ''CC-BY-3.0-IGO'' '''', row ''CC-BY-3.0-NL'' '''', row ''CC-BY-3.0-US'' '''',
     row ''CC-BY-4.0'' ''F'', row ''CC-BY-NC-1.0'' '''', row ''CC-BY-NC-2.0'' '''',
     row ''CC-BY-NC-2.5'' '''', row ''CC-BY-NC-3.0'' '''', row ''CC-BY-NC-3.0-DE'' '''',
     row ''CC-BY-NC-4.0'' '''', row ''CC-BY-NC-ND-1.0'' '''', row ''CC-BY-NC-ND-2.0'' '''',
     row ''CC-BY-NC-ND-2.5'' '''', row ''CC-BY-NC-ND-3.0'' '''', row ''CC-BY-NC-ND-3.0-DE'' '''',
     row ''CC-BY-NC-ND-3.0-IGO'' '''', row ''CC-BY-NC-ND-4.0'' '''', row ''CC-BY-NC-SA-1.0'' '''',
     row ''CC-BY-NC-SA-2.0'' '''', row ''CC-BY-NC-SA-2.0-DE'' '''', row ''CC-BY-NC-SA-2.0-FR'' '''',
     row ''CC-BY-NC-SA-2.0-UK'' '''', row ''CC-BY-NC-SA-2.5'' '''', row ''CC-BY-NC-SA-3.0'' '''',
     row ''CC-BY-NC-SA-3.0-DE'' '''', row ''CC-BY-NC-SA-3.0-IGO'' '''',
     row ''CC-BY-NC-SA-4.0'' '''', row ''CC-BY-ND-1.0'' '''', row ''CC-BY-ND-2.0'' '''',
     row ''CC-BY-ND-2.5'' '''', row ''CC-BY-ND-3.0'' '''', row ''CC-BY-ND-3.0-DE'' '''',
     row ''CC-BY-ND-4.0'' '''', row ''CC-BY-SA-1.0'' '''', row ''CC-BY-SA-2.0'' '''',
     row ''CC-BY-SA-2.0-UK'' '''', row ''CC-BY-SA-2.1-JP'' '''', row ''CC-BY-SA-2.5'' '''',
     row ''CC-BY-SA-3.0'' '''', row ''CC-BY-SA-3.0-AT'' '''', row ''CC-BY-SA-3.0-DE'' '''',
     row ''CC-BY-SA-3.0-IGO'' '''', row ''CC-BY-SA-4.0'' ''F'', row ''CC-PDDC'' '''',
     row ''CC-PDM-1.0'' '''', row ''CC-SA-1.0'' '''', row ''CC0-1.0'' ''F'',
     row ''CDDL-1.0'' ''OF'', row ''CDDL-1.1'' '''', row ''CDL-1.0'' '''',
     row ''CDLA-Permissive-1.0'' '''', row ''CDLA-Permissive-2.0'' '''',
     row ''CDLA-Sharing-1.0'' '''', row ''CECILL-1.0'' '''', row ''CECILL-1.1'' '''',
     row ''CECILL-2.0'' ''F'', row ''CECILL-2.1'' ''O'', row ''CECILL-B'' ''F'',
     row ''CECILL-C'' ''F'', row ''CERN-OHL-1.1'' '''', row ''CERN-OHL-1.2'' '''',
     row ''CERN-OHL-P-2.0'' ''O'', row ''CERN-OHL-S-2.0'' ''O'', row ''CERN-OHL-W-2.0'' ''O'',
     row ''CFITSIO'' '''', row ''check-cvs'' '''', row ''checkmk'' '''', row ''ClArtistic'' ''F'',
     row ''Clips'' '''', row ''CMU-Mach'' '''', row ''CMU-Mach-nodoc'' '''',
     row ''CNRI-Jython'' '''', row ''CNRI-Python'' ''O'', row ''CNRI-Python-GPL-Compatible'' '''',
     row ''COIL-1.0'' '''', row ''Community-Spec-1.0'' '''', row ''Condor-1.1'' ''F'',
     row ''copyleft-next-0.3.0'' '''', row ''copyleft-next-0.3.1'' '''',
     row ''Cornell-Lossless-JPEG'' '''', row ''CPAL-1.0'' ''OF'', row ''CPL-1.0'' ''OF'',
     row ''CPOL-1.02'' '''', row ''Cronyx'' '''', row ''Crossword'' '''', row ''CryptoSwift'' '''',
     row ''CrystalStacker'' '''', row ''CUA-OPL-1.0'' ''O'', row ''Cube'' '''', row ''curl'' '''',
     row ''cve-tou'' '''', row ''D-FSL-1.0'' '''', row ''DEC-3-Clause'' '''', row ''diffmark'' '''',
     row ''DL-DE-BY-2.0'' '''', row ''DL-DE-ZERO-2.0'' '''', row ''DOC'' '''',
     row ''DocBook-DTD'' '''', row ''DocBook-Schema'' '''', row ''DocBook-Stylesheet'' '''',
     row ''DocBook-XML'' '''', row ''Dotseqn'' '''', row ''DRL-1.0'' '''', row ''DRL-1.1'' '''',
     row ''DSDP'' '''', row ''dtoa'' '''', row ''dvipdfm'' '''', row ''ECL-1.0'' ''O'',
     row ''ECL-2.0'' ''OF'', row ''eCos-2.0'' ''DF'', row ''EFL-1.0'' ''O'', row ''EFL-2.0'' ''OF'',
     row ''eGenix'' '''', row ''Elastic-2.0'' '''', row ''Entessa'' ''O'', row ''EPICS'' '''',
     row ''EPL-1.0'' ''OF'', row ''EPL-2.0'' ''OF'', row ''ErlPL-1.1'' '''',
     row ''etalab-2.0'' '''', row ''EUDatagrid'' ''OF'', row ''EUPL-1.0'' '''',
     row ''EUPL-1.1'' ''OF'', row ''EUPL-1.2'' ''OF'', row ''Eurosym'' '''', row ''Fair'' ''O'',
     row ''FBM'' '''', row ''FDK-AAC'' '''', row ''Ferguson-Twofish'' '''',
     row ''Frameworx-1.0'' ''O'', row ''FreeBSD-DOC'' '''', row ''FreeImage'' '''',
     row ''FSFAP'' ''F'', row ''FSFAP-no-warranty-disclaimer'' '''', row ''FSFUL'' '''',
     row ''FSFULLR'' '''', row ''FSFULLRSD'' '''', row ''FSFULLRWD'' '''',
     row ''FSL-1.1-ALv2'' '''', row ''FSL-1.1-MIT'' '''', row ''FTL'' ''F'', row ''Furuseth'' '''',
     row ''fwlw'' '''', row ''Game-Programming-Gems'' '''', row ''GCR-docs'' '''', row ''GD'' '''',
     row ''generic-xts'' '''', row ''GFDL-1.1'' ''DF'', row ''GFDL-1.1-invariants-only'' '''',
     row ''GFDL-1.1-invariants-or-later'' '''', row ''GFDL-1.1-no-invariants-only'' '''',
     row ''GFDL-1.1-no-invariants-or-later'' '''', row ''GFDL-1.1-only'' ''F'',
     row ''GFDL-1.1-or-later'' ''F'', row ''GFDL-1.2'' ''DF'',
     row ''GFDL-1.2-invariants-only'' '''', row ''GFDL-1.2-invariants-or-later'' '''',
     row ''GFDL-1.2-no-invariants-only'' '''', row ''GFDL-1.2-no-invariants-or-later'' '''',
     row ''GFDL-1.2-only'' ''F'', row ''GFDL-1.2-or-later'' ''F'', row ''GFDL-1.3'' ''DF'',
     row ''GFDL-1.3-invariants-only'' '''', row ''GFDL-1.3-invariants-or-later'' '''',
     row ''GFDL-1.3-no-invariants-only'' '''', row ''GFDL-1.3-no-invariants-or-later'' '''',
     row ''GFDL-1.3-only'' ''F'', row ''GFDL-1.3-or-later'' ''F'', row ''Giftware'' '''',
     row ''GL2PS'' '''', row ''Glide'' '''', row ''Glulxe'' '''', row ''GLWTPL'' '''',
     row ''gnuplot'' ''F'', row ''GPL-1.0'' ''D'', row ''GPL-1.0+'' ''D'',
     row ''GPL-1.0-only'' '''', row ''GPL-1.0-or-later'' '''', row ''GPL-2.0'' ''DOF'',
     row ''GPL-2.0+'' ''DOF'', row ''GPL-2.0-only'' ''OF'', row ''GPL-2.0-or-later'' ''OF'',
     row ''GPL-2.0-with-autoconf-exception'' ''D'', row ''GPL-2.0-with-bison-exception'' ''D'',
     row ''GPL-2.0-with-classpath-exception'' ''D'', row ''GPL-2.0-with-font-exception'' ''D'',
     row ''GPL-2.0-with-GCC-exception'' ''D'', row ''GPL-3.0'' ''DOF'', row ''GPL-3.0+'' ''DOF'',
     row ''GPL-3.0-only'' ''OF'', row ''GPL-3.0-or-later'' ''OF'',
     row ''GPL-3.0-with-autoconf-exception'' ''D'', row ''GPL-3.0-with-GCC-exception'' ''DO'',
     row ''Graphics-Gems'' '''', row ''gSOAP-1.3b'' '''', row ''gtkbook'' '''',
     row ''Gutmann'' '''', row ''HaskellReport'' '''', row ''HDF5'' '''', row ''hdparm'' '''',
     row ''HIDAPI'' '''', row ''Hippocratic-2.1'' '''', row ''HP-1986'' '''', row ''HP-1989'' '''',
     row ''HPND'' ''OF'', row ''HPND-DEC'' '''', row ''HPND-doc'' '''', row ''HPND-doc-sell'' '''',
     row ''HPND-export-US'' '''', row ''HPND-export-US-acknowledgement'' '''',
     row ''HPND-export-US-modify'' '''', row ''HPND-export2-US'' '''',
     row ''HPND-Fenneberg-Livingston'' '''', row ''HPND-INRIA-IMAG'' '''', row ''HPND-Intel'' '''',
     row ''HPND-Kevlin-Henney'' '''', row ''HPND-Markus-Kuhn'' '''',
     row ''HPND-merchantability-variant'' '''', row ''HPND-MIT-disclaimer'' '''',
     row ''HPND-Netrek'' '''', row ''HPND-Pbmplus'' '''',
     row ''HPND-sell-MIT-disclaimer-xserver'' '''', row ''HPND-sell-regexpr'' '''',
     row ''HPND-sell-variant'' '''', row ''HPND-sell-variant-MIT-disclaimer'' '''',
     row ''HPND-sell-variant-MIT-disclaimer-rev'' '''', row ''HPND-UC'' '''',
     row ''HPND-UC-export-US'' '''', row ''HTMLTIDY'' '''', row ''IBM-pibs'' '''',
     row ''ICU'' ''O'', row ''IEC-Code-Components-EULA'' '''', row ''IJG'' ''F'',
     row ''IJG-short'' '''', row ''ImageMagick'' '''', row ''iMatix'' ''F'', row ''Imlib2'' ''F'',
     row ''Info-ZIP'' '''', row ''Inner-Net-2.0'' '''', row ''InnoSetup'' '''',
     row ''Intel'' ''OF'', row ''Intel-ACPI'' '''', row ''Interbase-1.0'' '''', row ''IPA'' ''OF'',
     row ''IPL-1.0'' ''OF'', row ''ISC'' ''OF'', row ''ISC-Veillard'' '''', row ''Jam'' ''O'',
     row ''JasPer-2.0'' '''', row ''jove'' '''', row ''JPL-image'' '''', row ''JPNIC'' '''',
     row ''JSON'' '''', row ''Kastrup'' '''', row ''Kazlib'' '''', row ''Knuth-CTAN'' '''',
     row ''LAL-1.2'' '''', row ''LAL-1.3'' '''', row ''Latex2e'' '''',
     row ''Latex2e-translated-notice'' '''', row ''Leptonica'' '''', row ''LGPL-2.0'' ''DO'',
     row ''LGPL-2.0+'' ''DO'', row ''LGPL-2.0-only'' ''O'', row ''LGPL-2.0-or-later'' ''O'',
     row ''LGPL-2.1'' ''DOF'', row ''LGPL-2.1+'' ''DOF'', row ''LGPL-2.1-only'' ''OF'',
     row ''LGPL-2.1-or-later'' ''OF'', row ''LGPL-3.0'' ''DOF'', row ''LGPL-3.0+'' ''DOF'',
     row ''LGPL-3.0-only'' ''OF'', row ''LGPL-3.0-or-later'' ''OF'', row ''LGPLLR'' '''',
     row ''Libpng'' '''', row ''libpng-1.6.35'' '''', row ''libpng-2.0'' '''',
     row ''libselinux-1.0'' '''', row ''libtiff'' '''', row ''libutil-David-Nugent'' '''',
     row ''LiLiQ-P-1.1'' ''O'', row ''LiLiQ-R-1.1'' ''O'', row ''LiLiQ-Rplus-1.1'' ''O'',
     row ''Linux-man-pages-1-para'' '''', row ''Linux-man-pages-copyleft'' '''',
     row ''Linux-man-pages-copyleft-2-para'' '''', row ''Linux-man-pages-copyleft-var'' '''',
     row ''Linux-OpenIB'' '''', row ''LOOP'' '''', row ''LPD-document'' '''', row ''LPL-1.0'' ''O'',
     row ''LPL-1.02'' ''OF'', row ''LPPL-1.0'' '''', row ''LPPL-1.1'' '''', row ''LPPL-1.2'' ''F'',
     row ''LPPL-1.3a'' ''F'', row ''LPPL-1.3c'' ''O'', row ''lsof'' '''',
     row ''Lucida-Bitmap-Fonts'' '''', row ''LZMA-SDK-9.11-to-9.20'' '''',
     row ''LZMA-SDK-9.22'' '''', row ''Mackerras-3-Clause'' '''',
     row ''Mackerras-3-Clause-acknowledgment'' '''', row ''magaz'' '''', row ''mailprio'' '''',
     row ''MakeIndex'' '''', row ''man2html'' '''', row ''Martin-Birgmeier'' '''',
     row ''McPhee-slideshow'' '''', row ''metamail'' '''', row ''Minpack'' '''', row ''MIPS'' '''',
     row ''MirOS'' ''O'', row ''MIT'' ''OF'', row ''MIT-0'' ''O'', row ''MIT-advertising'' '''',
     row ''MIT-Click'' '''', row ''MIT-CMU'' '''', row ''MIT-enna'' '''', row ''MIT-feh'' '''',
     row ''MIT-Festival'' '''', row ''MIT-Khronos-old'' '''', row ''MIT-Modern-Variant'' ''O'',
     row ''MIT-open-group'' '''', row ''MIT-testregex'' '''', row ''MIT-Wu'' '''',
     row ''MITNFA'' '''', row ''MMIXware'' '''', row ''Motosoto'' ''O'', row ''MPEG-SSG'' '''',
     row ''mpi-permissive'' '''', row ''mpich2'' '''', row ''MPL-1.0'' ''O'',
     row ''MPL-1.1'' ''OF'', row ''MPL-2.0'' ''OF'', row ''MPL-2.0-no-copyleft-exception'' ''O'',
     row ''mplus'' '''', row ''MS-LPL'' '''', row ''MS-PL'' ''OF'', row ''MS-RL'' ''OF'',
     row ''MTLL'' '''', row ''MulanPSL-1.0'' '''', row ''MulanPSL-2.0'' ''O'',
     row ''Multics'' ''O'', row ''Mup'' '''', row ''NAIST-2003'' '''', row ''NASA-1.3'' ''O'',
     row ''Naumen'' ''O'', row ''NBPL-1.0'' '''', row ''NCBI-PD'' '''', row ''NCGL-UK-2.0'' '''',
     row ''NCL'' '''', row ''NCSA'' ''OF'', row ''Net-SNMP'' ''D'', row ''NetCDF'' '''',
     row ''Newsletr'' '''', row ''NGPL'' ''O'', row ''ngrep'' '''', row ''NICTA-1.0'' '''',
     row ''NIST-PD'' '''', row ''NIST-PD-fallback'' '''', row ''NIST-Software'' '''',
     row ''NLOD-1.0'' '''', row ''NLOD-2.0'' '''', row ''NLPL'' '''', row ''Nokia'' ''OF'',
     row ''NOSL'' ''F'', row ''Noweb'' '''', row ''NPL-1.0'' ''F'', row ''NPL-1.1'' ''F'',
     row ''NPOSL-3.0'' ''O'', row ''NRL'' '''', row ''NTIA-PD'' '''', row ''NTP'' ''O'',
     row ''NTP-0'' '''', row ''Nunit'' ''DF'', row ''O-UDA-1.0'' '''', row ''OAR'' '''',
     row ''OCCT-PL'' '''', row ''OCLC-2.0'' ''O'', row ''ODbL-1.0'' ''F'', row ''ODC-By-1.0'' '''',
     row ''OFFIS'' '''', row ''OFL-1.0'' ''F'', row ''OFL-1.0-no-RFN'' '''',
     row ''OFL-1.0-RFN'' '''', row ''OFL-1.1'' ''OF'', row ''OFL-1.1-no-RFN'' ''O'',
     row ''OFL-1.1-RFN'' ''O'', row ''OGC-1.0'' '''', row ''OGDL-Taiwan-1.0'' '''',
     row ''OGL-Canada-2.0'' '''', row ''OGL-UK-1.0'' '''', row ''OGL-UK-2.0'' '''',
     row ''OGL-UK-3.0'' '''', row ''OGTSL'' ''O'', row ''OLDAP-1.1'' '''', row ''OLDAP-1.2'' '''',
     row ''OLDAP-1.3'' '''', row ''OLDAP-1.4'' '''', row ''OLDAP-2.0'' '''',
     row ''OLDAP-2.0.1'' '''', row ''OLDAP-2.1'' '''', row ''OLDAP-2.2'' '''',
     row ''OLDAP-2.2.1'' '''', row ''OLDAP-2.2.2'' '''', row ''OLDAP-2.3'' ''F'',
     row ''OLDAP-2.4'' '''', row ''OLDAP-2.5'' '''', row ''OLDAP-2.6'' '''',
     row ''OLDAP-2.7'' ''F'', row ''OLDAP-2.8'' ''O'', row ''OLFL-1.3'' ''O'', row ''OML'' '''',
     row ''OpenPBS-2.3'' '''', row ''OpenSSL'' ''F'', row ''OpenSSL-standalone'' '''',
     row ''OpenVision'' '''', row ''OPL-1.0'' '''', row ''OPL-UK-3.0'' '''', row ''OPUBL-1.0'' '''',
     row ''OSET-PL-2.1'' ''O'', row ''OSL-1.0'' ''OF'', row ''OSL-1.1'' ''F'',
     row ''OSL-2.0'' ''OF'', row ''OSL-2.1'' ''OF'', row ''OSL-3.0'' ''OF'', row ''PADL'' '''',
     row ''Parity-6.0.0'' '''', row ''Parity-7.0.0'' '''', row ''PDDL-1.0'' '''',
     row ''PHP-3.0'' ''O'', row ''PHP-3.01'' ''OF'', row ''Pixar'' '''', row ''pkgconf'' '''',
     row ''Plexus'' '''', row ''pnmstitch'' '''', row ''PolyForm-Noncommercial-1.0.0'' '''',
     row ''PolyForm-Small-Business-1.0.0'' '''', row ''PostgreSQL'' ''O'', row ''PPL'' '''',
     row ''PSF-2.0'' '''', row ''psfrag'' '''', row ''psutils'' '''', row ''Python-2.0'' ''OF'',
     row ''Python-2.0.1'' '''', row ''python-ldap'' '''', row ''Qhull'' '''',
     row ''QPL-1.0'' ''OF'', row ''QPL-1.0-INRIA-2004'' '''', row ''radvd'' '''',
     row ''Rdisc'' '''', row ''RHeCos-1.1'' '''', row ''RPL-1.1'' ''O'', row ''RPL-1.5'' ''O'',
     row ''RPSL-1.0'' ''OF'', row ''RSA-MD'' '''', row ''RSCPL'' ''O'', row ''Ruby'' ''F'',
     row ''Ruby-pty'' '''', row ''SAX-PD'' '''', row ''SAX-PD-2.0'' '''', row ''Saxpath'' '''',
     row ''SCEA'' '''', row ''SchemeReport'' '''', row ''Sendmail'' '''',
     row ''Sendmail-8.23'' '''', row ''Sendmail-Open-Source-1.1'' '''', row ''SGI-B-1.0'' '''',
     row ''SGI-B-1.1'' '''', row ''SGI-B-2.0'' ''F'', row ''SGI-OpenGL'' '''', row ''SGP4'' '''',
     row ''SHL-0.5'' '''', row ''SHL-0.51'' '''', row ''SimPL-2.0'' ''O'', row ''SISSL'' ''OF'',
     row ''SISSL-1.2'' '''', row ''SL'' '''', row ''Sleepycat'' ''OF'', row ''SMAIL-GPL'' '''',
     row ''SMLNJ'' ''F'', row ''SMPPL'' '''', row ''SNIA'' '''', row ''snprintf'' '''',
     row ''SOFA'' '''', row ''softSurfer'' '''', row ''Soundex'' '''', row ''Spencer-86'' '''',
     row ''Spencer-94'' '''', row ''Spencer-99'' '''', row ''SPL-1.0'' ''OF'',
     row ''ssh-keyscan'' '''', row ''SSH-OpenSSH'' '''', row ''SSH-short'' '''',
     row ''SSLeay-standalone'' '''', row ''SSPL-1.0'' '''', row ''StandardML-NJ'' ''DF'',
     row ''SugarCRM-1.1.3'' '''', row ''SUL-1.0'' '''', row ''Sun-PPP'' '''',
     row ''Sun-PPP-2000'' '''', row ''SunPro'' '''', row ''SWL'' '''', row ''swrule'' '''',
     row ''Symlinks'' '''', row ''TAPR-OHL-1.0'' '''', row ''TCL'' '''', row ''TCP-wrappers'' '''',
     row ''TermReadKey'' '''', row ''TGPPL-1.0'' '''', row ''ThirdEye'' '''',
     row ''threeparttable'' '''', row ''TMate'' '''', row ''TORQUE-1.1'' '''', row ''TOSL'' '''',
     row ''TPDL'' '''', row ''TPL-1.0'' '''', row ''TrustedQSL'' '''', row ''TTWL'' '''',
     row ''TTYP0'' '''', row ''TU-Berlin-1.0'' '''', row ''TU-Berlin-2.0'' '''',
     row ''Ubuntu-font-1.0'' '''', row ''UCAR'' '''', row ''UCL-1.0'' ''O'', row ''ulem'' '''',
     row ''UMich-Merit'' '''', row ''Unicode-3.0'' ''O'', row ''Unicode-DFS-2015'' '''',
     row ''Unicode-DFS-2016'' ''O'', row ''Unicode-TOU'' '''', row ''UnixCrypt'' '''',
     row ''Unlicense'' ''OF'', row ''Unlicense-libtelnet'' '''',
     row ''Unlicense-libwhirlpool'' '''', row ''UPL-1.0'' ''OF'', row ''URT-RLE'' '''',
     row ''Vim'' ''F'', row ''VOSTROM'' '''', row ''VSL-1.0'' ''O'', row ''W3C'' ''OF'',
     row ''W3C-19980720'' '''', row ''W3C-20150513'' ''O'', row ''w3m'' '''',
     row ''Watcom-1.0'' ''O'', row ''Widget-Workshop'' '''', row ''Wsuipa'' '''',
     row ''WTFPL'' ''F'', row ''wwl'' '''', row ''wxWindows'' ''DO'', row ''X11'' ''F'',
     row ''X11-distribute-modifications-variant'' '''', row ''X11-swapped'' '''',
     row ''Xdebug-1.03'' '''', row ''Xerox'' '''', row ''Xfig'' '''', row ''XFree86-1.1'' ''F'',
     row ''xinetd'' ''F'', row ''xkeyboard-config-Zinoviev'' '''', row ''xlock'' '''',
     row ''Xnet'' ''O'', row ''xpp'' '''', row ''XSkat'' '''', row ''xzoom'' '''',
     row ''YPL-1.0'' '''', row ''YPL-1.1'' ''F'', row ''Zed'' '''', row ''Zeeff'' '''',
     row ''Zend-2.0'' ''F'', row ''Zimbra-1.3'' ''F'', row ''Zimbra-1.4'' '''', row ''Zlib'' ''OF'',
     row ''zlib-acknowledgement'' '''', row ''ZPL-1.1'' '''', row ''ZPL-2.0'' ''OF'',
     row ''ZPL-2.1'' ''OF'']"

definition exceptions_tsv :: "string list" where
  "exceptions_tsv =
    [''# SPDX License List 3.27.0 exceptions'', ''# id<TAB>flags: D=deprecated'',
     row ''389-exception'' '''', row ''Asterisk-exception'' '''',
     row ''Asterisk-linking-protocols-exception'' '''', row ''Autoconf-exception-2.0'' '''',
     row ''Autoconf-exception-3.0'' '''', row ''Autoconf-exception-generic'' '''',
     row ''Autoconf-exception-generic-3.0'' '''', row ''Autoconf-exception-macro'' '''',
     row ''Bison-exception-1.24'' '''', row ''Bison-exception-2.2'' '''',
     row ''Bootloader-exception'' '''', row ''CGAL-linking-exception'' '''',
     row ''Classpath-exception-2.0'' '''', row ''CLISP-exception-2.0'' '''',
     row ''cryptsetup-OpenSSL-exception'' '''', row ''Digia-Qt-LGPL-exception-1.1'' '''',
     row ''DigiRule-FOSS-exception'' '''', row ''eCos-exception-2.0'' '''',
     row ''erlang-otp-linking-exception'' '''', row ''Fawkes-Runtime-exception'' '''',
     row ''FLTK-exception'' '''', row ''fmt-exception'' '''', row ''Font-exception-2.0'' '''',
     row ''freertos-exception-2.0'' '''', row ''GCC-exception-2.0'' '''',
     row ''GCC-exception-2.0-note'' '''', row ''GCC-exception-3.1'' '''',
     row ''Gmsh-exception'' '''', row ''GNAT-exception'' '''',
     row ''GNOME-examples-exception'' '''', row ''GNU-compiler-exception'' '''',
     row ''gnu-javamail-exception'' '''', row ''GPL-3.0-389-ds-base-exception'' '''',
     row ''GPL-3.0-interface-exception'' '''', row ''GPL-3.0-linking-exception'' '''',
     row ''GPL-3.0-linking-source-exception'' '''', row ''GPL-CC-1.0'' '''',
     row ''GStreamer-exception-2005'' '''', row ''GStreamer-exception-2008'' '''',
     row ''harbour-exception'' '''', row ''i2p-gpl-java-exception'' '''',
     row ''Independent-modules-exception'' '''', row ''KiCad-libraries-exception'' '''',
     row ''LGPL-3.0-linking-exception'' '''', row ''libpri-OpenH323-exception'' '''',
     row ''Libtool-exception'' '''', row ''Linux-syscall-note'' '''', row ''LLGPL'' '''',
     row ''LLVM-exception'' '''', row ''LZMA-exception'' '''', row ''mif-exception'' '''',
     row ''mxml-exception'' '''', row ''Nokia-Qt-exception-1.1'' ''D'',
     row ''OCaml-LGPL-linking-exception'' '''', row ''OCCT-exception-1.0'' '''',
     row ''OpenJDK-assembly-exception-1.0'' '''', row ''openvpn-openssl-exception'' '''',
     row ''PCRE2-exception'' '''', row ''polyparse-exception'' '''',
     row ''PS-or-PDF-font-exception-20170817'' '''', row ''QPL-1.0-INRIA-2004-exception'' '''',
     row ''Qt-GPL-exception-1.0'' '''', row ''Qt-LGPL-exception-1.1'' '''',
     row ''Qwt-exception-1.0'' '''', row ''romic-exception'' '''',
     row ''RRDtool-FLOSS-exception-2.0'' '''', row ''SANE-exception'' '''', row ''SHL-2.0'' '''',
     row ''SHL-2.1'' '''', row ''stunnel-exception'' '''', row ''SWI-exception'' '''',
     row ''Swift-exception'' '''', row ''Texinfo-exception'' '''',
     row ''u-boot-exception-2.0'' '''', row ''UBDL-exception'' '''',
     row ''Universal-FOSS-exception-1.0'' '''', row ''vsftpd-openssl-exception'' '''',
     row ''WxWindows-exception-3.1'' '''', row ''x11vnc-openssl-exception'' '''']"

definition pinned :: licenses_if where
  "pinned = as_licenses (must_load licenses_tsv exceptions_tsv)"

text \<open>\<open>Parse\<close>: the parser against the embedded list.\<close>

definition spdx_parse :: "string \<Rightarrow> spdx_result" where
  "spdx_parse r = parse_with r pinned"

lemma licenses_tsv_ascii: "list_all ascii_string licenses_tsv"
  by (simp only: licenses_tsv_def row_def list.pred_inject list_all_append is_ascii_Char simp_thms append.simps)

lemma exceptions_tsv_ascii: "list_all ascii_string exceptions_tsv"
  by code_simp

interpretation embedded: loaded_licenses licenses_tsv exceptions_tsv
  by unfold_locales (fact licenses_tsv_ascii exceptions_tsv_ascii)+

end
