(* ===== verification/Spdx_Properties.thy ===== *)
theory Spdx_Properties
  imports Spdx_Roundtrip Spdx_List
begin

text \<open>
  The properties of the SPDX component, over any list loaded from ASCII files; the embedded list
  is one (interpretation \<open>embedded\<close>).
\<close>

abbreviation loaded :: "string list \<Rightarrow> string list \<Rightarrow> licenses_if" where
  "loaded ls es \<equiv> as_licenses (must_load ls es)"

lemma loaded_canonical:
  "list_all ascii_string ls \<Longrightarrow> list_all ascii_string es \<Longrightarrow> canonical_licenses (loaded ls es)"
  by (rule loaded_licenses.list_canonical [OF loaded_licenses.intro])

text \<open>The list the witnesses below evaluate the parser on.\<close>

definition sample_lines :: "string list" where
  "sample_lines = [''MIT'', ''ISC'']"

lemma sample_ascii: "list_all ascii_string sample_lines" "list_all ascii_string []"
  by (simp_all add: sample_lines_def)

definition sample_node :: node where
  "sample_node = Or [License ''MIT'' False True False, License ''X'' False False False]"

lemma sample_parse: "expression (parse_with ''mit or X'' (loaded sample_lines [])) = Some sample_node"
  by code_simp

lemma sample_parse_again:
  "expression (parse_with ''(MIT OR X)'' (loaded sample_lines [])) = Some sample_node"
  by code_simp

text \<open>
  C1 (round trip).  Take any expression that parses.  If its canonical rendering is within the
  limits of the parser (4096 bytes, 512 tokens, 32 levels of parentheses) and is not one of the
  sentinel words, parsing the rendering gives the same result again: the same tree, status,
  rendering and reports.
\<close>

theorem parse_roundtrip:
  assumes "list_all ascii_string ls" "list_all ascii_string es"
    and "expression (parse_with r (loaded ls es)) = Some n"
    and "length (node_string n) \<le> max_input_bytes" "length (render n) \<le> max_tokens"
    and "node_depth n \<le> max_depth" "\<not> is_sentinel (node_string n)"
  shows "parse_with (normalized (parse_with r (loaded ls es))) (loaded ls es) =
    (parse_with r (loaded ls es))\<lparr>raw := normalized (parse_with r (loaded ls es))\<rparr>"
  using canonical_licenses.parse_wf [OF loaded_canonical [OF assms(1,2)] assms(3)]
    parse_node_string [of "loaded ls es" n] assms(4-7) by simp

theorem parse_roundtrip_witness:
  "parse_with (normalized (parse_with ''mit or X'' (loaded sample_lines []))) (loaded sample_lines []) =
    (parse_with ''mit or X'' (loaded sample_lines []))
      \<lparr>raw := normalized (parse_with ''mit or X'' (loaded sample_lines []))\<rparr>"
proof (rule parse_roundtrip [OF sample_ascii sample_parse])
  show "length (node_string sample_node) \<le> max_input_bytes" by code_simp
  show "length (render sample_node) \<le> max_tokens" by code_simp
  show "node_depth sample_node \<le> max_depth" by code_simp
  show "\<not> is_sentinel (node_string sample_node)" by code_simp
qed

text \<open>
  C36 (what a parse reports).  The tree of an accepted expression is well-formed: operators have
  at least two operands and no operand with the same operator, every identifier marked known is
  in the canonical spelling of the list, every other one is not on the list.  The unknown terms,
  references and deprecated identifiers reported are exactly those of the tree, in order, and the
  status is \<open>parsed\<close> exactly when there is no unknown term.
\<close>

theorem parse_reports_tree:
  assumes "list_all ascii_string ls" "list_all ascii_string es"
    and "expression (parse_with r (loaded ls es)) = Some n"
  shows "wf_node (loaded ls es) n \<and>
    unknown_terms (parse_with r (loaded ls es)) = unknown_of n \<and>
    references (parse_with r (loaded ls es)) = refs_of n \<and>
    deprecated_terms (parse_with r (loaded ls es)) = deprecated_of n \<and>
    status (parse_with r (loaded ls es)) =
      (if unknown_of n = [] then StatusParsed else StatusUnknownTerms)"
  using canonical_licenses.parse_wf [OF loaded_canonical [OF assms(1,2)] assms(3)] by simp

theorem parse_reports_tree_witness:
  "unknown_terms (parse_with ''mit or X'' (loaded sample_lines [])) = [''X'']"
  using parse_reports_tree [OF sample_ascii sample_parse] by (simp add: sample_node_def)

text \<open>
  C37 (comparison).  Two accepted expressions are structurally equal (\<open>Equal\<close>) exactly when their
  canonical renderings are the same string: the rendering loses no structure, and two spellings
  of one expression have one rendering.
\<close>

theorem equal_iff_same_rendering:
  assumes "list_all ascii_string ls" "list_all ascii_string es"
    and "expression (parse_with r (loaded ls es)) = Some n"
    and "expression (parse_with r' (loaded ls es)) = Some m"
  shows "equal_nodes (expression (parse_with r (loaded ls es))) (expression (parse_with r' (loaded ls es))) \<longleftrightarrow>
    normalized (parse_with r (loaded ls es)) = normalized (parse_with r' (loaded ls es))"
proof -
  note wf = canonical_licenses.parse_wf [OF loaded_canonical [OF assms(1,2)]]
  show ?thesis
    using wf [OF assms(3)] wf [OF assms(4)] node_equal_iff [of _ n m] node_string_inj [of _ n m]
    by (auto simp: equal_nodes_def)
qed

theorem equal_iff_same_rendering_witness:
  "equal_nodes (expression (parse_with ''mit or X'' (loaded sample_lines [])))
     (expression (parse_with ''(MIT OR X)'' (loaded sample_lines []))) \<longleftrightarrow>
   normalized (parse_with ''mit or X'' (loaded sample_lines [])) =
     normalized (parse_with ''(MIT OR X)'' (loaded sample_lines []))"
  by (rule equal_iff_same_rendering [OF sample_ascii sample_parse sample_parse_again])

text \<open>
  C38 (termination).  The operand loops of the parser never run out of fuel: on every input and
  every list the parser ends with a tree or with one of the errors of the source.
\<close>

theorem parse_never_out_of_fuel: "problem (parse_with r l) \<noteq> Some LoopFuel"
proof -
  have loop: "tokenize_loop s acc \<noteq> Inl LoopFuel" for s acc
    by (induction s acc rule: tokenize_loop.induct) (auto simp: tokenize_loop.simps Let_def)
  have "expression_at d l p \<noteq> Inl LoopFuel" for d p
    using expression_progress by (simp add: progress_def)
  with loop show ?thesis
    by (auto simp: parse_with_def parse_tokens_def tokenize_def empty_result_def Let_def
        simp del: expression_at.simps split: sum.splits prod.splits list.splits if_splits)
qed

text \<open>
  The sentinel words are only recognised bare: in parentheses each is an unknown license, whose
  rendering is the bare word, which reads back as the sentinel.
\<close>

theorem parenthesised_sentinel:
  "status (parse_with ''(NONE)'' (loaded sample_lines [])) = StatusUnknownTerms \<and>
   normalized (parse_with ''(NONE)'' (loaded sample_lines [])) = ''NONE'' \<and>
   status (parse_with ''NONE'' (loaded sample_lines [])) = StatusNone"
  by code_simp

end
