(* ===== verification/Go_Sha256.thy ===== *)
theory Go_Sha256
  imports Go_Prelude "HOL-Library.Word"
begin

text \<open>
  \<open>crypto/sha256\<close> of Go's standard library (FIPS 180-4), on byte strings: the digest that
  evidence fingerprints, session tokens and authorization codes are stored under.
\<close>

unbundle bit_operations_syntax

type_synonym u32 = "32 word"

definition sha_k :: "u32 list" where
  "sha_k =
     [0x428A2F98, 0x71374491, 0xB5C0FBCF, 0xE9B5DBA5, 0x3956C25B, 0x59F111F1, 0x923F82A4,
      0xAB1C5ED5, 0xD807AA98, 0x12835B01, 0x243185BE, 0x550C7DC3, 0x72BE5D74, 0x80DEB1FE,
      0x9BDC06A7, 0xC19BF174, 0xE49B69C1, 0xEFBE4786, 0x0FC19DC6, 0x240CA1CC, 0x2DE92C6F,
      0x4A7484AA, 0x5CB0A9DC, 0x76F988DA, 0x983E5152, 0xA831C66D, 0xB00327C8, 0xBF597FC7,
      0xC6E00BF3, 0xD5A79147, 0x06CA6351, 0x14292967, 0x27B70A85, 0x2E1B2138, 0x4D2C6DFC,
      0x53380D13, 0x650A7354, 0x766A0ABB, 0x81C2C92E, 0x92722C85, 0xA2BFE8A1, 0xA81A664B,
      0xC24B8B70, 0xC76C51A3, 0xD192E819, 0xD6990624, 0xF40E3585, 0x106AA070, 0x19A4C116,
      0x1E376C08, 0x2748774C, 0x34B0BCB5, 0x391C0CB3, 0x4ED8AA4A, 0x5B9CCA4F, 0x682E6FF3,
      0x748F82EE, 0x78A5636F, 0x84C87814, 0x8CC70208, 0x90BEFFFA, 0xA4506CEB, 0xBEF9A3F7,
      0xC67178F2]"

definition sha_h0 :: "u32 list" where
  "sha_h0 =
     [0x6A09E667, 0xBB67AE85, 0x3C6EF372, 0xA54FF53A, 0x510E527F, 0x9B05688C, 0x1F83D9AB,
      0x5BE0CD19]"

fun be_word :: "string \<Rightarrow> u32" where
  "be_word s = foldl (\<lambda>w c. push_bit 8 w OR of_nat (byte c)) 0 s"

definition word_be :: "u32 \<Rightarrow> string" where
  "word_be w = map (\<lambda>n. char_of (unat (drop_bit n w) mod 256)) [24, 16, 8, 0]"

definition length_be :: "nat \<Rightarrow> string" where
  "length_be n = map (\<lambda>i. char_of (n div 2 ^ i mod 256)) [56, 48, 40, 32, 24, 16, 8, 0]"

definition sha_pad :: "string \<Rightarrow> string" where
  "sha_pad s = s @ [CHR 0x80] @ replicate ((119 - length s mod 64) mod 64) (CHR 0x00) @
     length_be (8 * length s)"

fun chunks :: "nat \<Rightarrow> 'a list \<Rightarrow> 'a list list" where
  "chunks n [] = []"
| "chunks n (x # xs) = (if n = 0 then [] else take n (x # xs) # chunks n (drop n (x # xs)))"

definition rotr :: "nat \<Rightarrow> u32 \<Rightarrow> u32" where
  "rotr n x = drop_bit n x OR push_bit (32 - n) x"

definition small_sigma0 :: "u32 \<Rightarrow> u32" where
  "small_sigma0 x = rotr 7 x XOR rotr 18 x XOR drop_bit 3 x"

definition small_sigma1 :: "u32 \<Rightarrow> u32" where
  "small_sigma1 x = rotr 17 x XOR rotr 19 x XOR drop_bit 10 x"

text \<open>The message schedule, newest word first.\<close>

fun sha_schedule :: "nat \<Rightarrow> u32 list \<Rightarrow> u32 list" where
  "sha_schedule 0 ws = ws"
| "sha_schedule (Suc n) ws =
     sha_schedule n
       ((small_sigma1 (ws ! 1) + ws ! 6 + small_sigma0 (ws ! 14) + ws ! 15) # ws)"

fun sha_round :: "u32 list \<Rightarrow> u32 \<times> u32 \<Rightarrow> u32 list" where
  "sha_round [a, b, c, d, e, f, g, h] (k, w) =
     (let s1 = rotr 6 e XOR rotr 11 e XOR rotr 25 e;
          ch = (e AND f) XOR (NOT e AND g);
          t1 = h + s1 + ch + k + w;
          s0 = rotr 2 a XOR rotr 13 a XOR rotr 22 a;
          maj = (a AND b) XOR (a AND c) XOR (b AND c)
      in [t1 + s0 + maj, a, b, c, d + t1, e, f, g])"
| "sha_round st _ = st"

definition sha_block :: "u32 list \<Rightarrow> string \<Rightarrow> u32 list" where
  "sha_block st blk =
     (let ws = rev (sha_schedule 48 (rev (map be_word (chunks 4 blk))))
      in map2 (+) st (foldl sha_round st (zip sha_k ws)))"

definition sha256 :: "string \<Rightarrow> string" where
  "sha256 s = concat (map word_be (foldl sha_block sha_h0 (chunks 64 (sha_pad s))))"

definition hex_digit :: "nat \<Rightarrow> char" where
  "hex_digit n = ''0123456789abcdef'' ! (n mod 16)"

text \<open>\<open>hex.EncodeToString\<close>.\<close>

definition hex_encode :: "string \<Rightarrow> string" where
  "hex_encode s = concat (map (\<lambda>c. [hex_digit (byte c div 16), hex_digit (byte c)]) s)"

subsection \<open>Digests have 32 bytes\<close>

lemma length_sha_round: "length st = 8 \<Longrightarrow> length (sha_round st kw) = 8"
  by (induction st kw rule: sha_round.induct) (simp_all add: Let_def)

lemma length_sha_block: "length st = 8 \<Longrightarrow> length (sha_block st blk) = 8"
proof -
  assume st: "length st = 8"
  have "length (foldl sha_round st' kws) = 8" if "length st' = 8" for st' kws
    using that by (induction kws arbitrary: st') (simp_all add: length_sha_round)
  with st show ?thesis by (simp add: sha_block_def Let_def)
qed

lemma length_sha256: "length (sha256 s) = 32"
proof -
  have "length (foldl sha_block st bs) = 8" if "length st = 8" for st bs
    using that by (induction bs arbitrary: st) (simp_all add: length_sha_block)
  then have "length (foldl sha_block sha_h0 (chunks 64 (sha_pad s))) = 8"
    by (simp add: sha_h0_def)
  moreover have "length (concat (map word_be ws)) = 4 * length ws" for ws
    by (induction ws) (simp_all add: word_be_def)
  ultimately show ?thesis by (simp add: sha256_def)
qed

subsection \<open>Hexadecimal encoding is injective\<close>

lemma hex_digit_inj: "m < 16 \<Longrightarrow> n < 16 \<Longrightarrow> hex_digit m = hex_digit n \<Longrightarrow> m = n"
proof -
  have "distinct ''0123456789abcdef''" by simp
  then show "m < 16 \<Longrightarrow> n < 16 \<Longrightarrow> hex_digit m = hex_digit n \<Longrightarrow> m = n"
    by (simp add: hex_digit_def nth_eq_iff_index_eq del: distinct.simps nth_Cons_numeral)
qed

lemma hex_byte_inj:
  assumes "hex_digit (byte c div 16) = hex_digit (byte d div 16)" "hex_digit (byte c) = hex_digit (byte d)"
  shows "c = d"
proof -
  have lt: "byte x < 256" for x :: char
    by (rule nat_of_char_less_256)
  have "byte c div 16 = byte d div 16"
    using assms(1) lt by (intro hex_digit_inj) (auto simp: less_mult_imp_div_less)
  moreover have "hex_digit n = hex_digit (n mod 16)" for n
    by (simp add: hex_digit_def)
  with assms(2) have "byte c mod 16 = byte d mod 16"
    by (metis hex_digit_inj mod_less_divisor zero_less_numeral)
  ultimately have "byte c = byte d"
    by (metis div_mult_mod_eq)
  then show ?thesis by simp
qed

lemma hex_encode_inj: "hex_encode s = hex_encode t \<Longrightarrow> s = t"
proof (induction s arbitrary: t)
  case Nil
  then show ?case by (cases t) (simp_all add: hex_encode_def)
next
  case (Cons c s)
  then show ?case by (cases t) (auto simp: hex_encode_def dest: hex_byte_inj)
qed

end
