(* ===== verification/License_Evidence.thy ===== *)
theory License_Evidence
  imports Spdx_Roundtrip Go_Sha256
begin

text \<open>
  License evidence and its assessment: \<open>evidence.go\<close>, \<open>assess.go\<close> and the types of \<open>store.go\<close>
  in \<open>internal/supplychain/license\<close>.  The pinned license list is the argument \<open>l\<close> of the
  functions that parse.  Times are nanoseconds since the epoch.  The field \<open>Detail\<close> of
  \<open>Evidence\<close> (a free-form JSON object that nothing reads back) is left out.
\<close>

type_synonym time = int

datatype source =
    SourceProducerDeclared | SourceProducerConcluded | SourceRegistryNPM | SourceRegistryNuGet
  | SourceRegistryMaven | SourceImport | SourceHuman

datatype raw_kind =
    RawExpression | RawExpressionOrFile | RawLicenseFile | RawLicenseURL | RawLicenseName
  | RawLegacyObject | RawMissing | RawSentinel

datatype outcome =
    OutcomeResolved | OutcomeNotFound | OutcomeNoLicenseMetadata | OutcomeUnavailable
  | OutcomeRejected | OutcomeTooLarge | OutcomeMalformed

fun source_string :: "source \<Rightarrow> string" where
  "source_string SourceProducerDeclared = ''producer_declared''"
| "source_string SourceProducerConcluded = ''producer_concluded''"
| "source_string SourceRegistryNPM = ''registry_npm''"
| "source_string SourceRegistryNuGet = ''registry_nuget''"
| "source_string SourceRegistryMaven = ''registry_maven''"
| "source_string SourceImport = ''import''"
| "source_string SourceHuman = ''human''"

fun raw_kind_string :: "raw_kind \<Rightarrow> string" where
  "raw_kind_string RawExpression = ''expression''"
| "raw_kind_string RawExpressionOrFile = ''expression_or_file''"
| "raw_kind_string RawLicenseFile = ''license_file''"
| "raw_kind_string RawLicenseURL = ''license_url''"
| "raw_kind_string RawLicenseName = ''license_name''"
| "raw_kind_string RawLegacyObject = ''legacy_object''"
| "raw_kind_string RawMissing = ''missing''"
| "raw_kind_string RawSentinel = ''sentinel''"

fun outcome_string :: "outcome \<Rightarrow> string" where
  "outcome_string OutcomeResolved = ''resolved''"
| "outcome_string OutcomeNotFound = ''not_found''"
| "outcome_string OutcomeNoLicenseMetadata = ''no_license_metadata''"
| "outcome_string OutcomeUnavailable = ''unavailable''"
| "outcome_string OutcomeRejected = ''rejected''"
| "outcome_string OutcomeTooLarge = ''too_large''"
| "outcome_string OutcomeMalformed = ''malformed''"

fun status_string :: "status \<Rightarrow> string" where
  "status_string StatusParsed = ''parsed''"
| "status_string StatusUnknownTerms = ''unknown_terms''"
| "status_string StatusNoAssertion = ''no_assertion''"
| "status_string StatusNone = ''none''"
| "status_string StatusUnlicensed = ''unlicensed''"
| "status_string StatusInvalid = ''invalid''"
| "status_string NotApplicable = ''not_applicable''"

record coordinates =
  ecosystem :: string
  namespace :: string
  pkg_name :: string
  version :: string

text \<open>The field \<open>Message\<close>: a fixed text, or the problem the parser reported.\<close>

datatype message = Message string | ParseProblem spdx_error

record evidence =
  ev_id :: int
  ev_source :: source
  route :: string
  ev_coordinates :: coordinates
  artifact_sha256 :: string
  raw_value :: string
  raw_kind :: raw_kind
  parse_status :: status
  normalized_expression :: string
  expression_tree :: "node option"
  ev_unknown_terms :: "string list"
  license_url :: string
  license_file_name :: string
  resolver_version :: int
  license_list_version :: string
  content_sha256 :: string
  fetched_at :: time
  expires_at :: "time option"
  outcome :: outcome
  http_status :: "int option"
  message :: "message option"

definition list_version :: string where "list_version = ''3.27.0''"
definition resolver_version_const :: int where "resolver_version_const = 1"
definition negative_ttl :: time where "negative_ttl = 24 * 3600 * 1000000000"

subsection \<open>Fingerprints\<close>

text \<open>Each part is written to the hash followed by a zero byte.\<close>

definition terminated :: "string list \<Rightarrow> string" where
  "terminated parts = concat (map (\<lambda>p. p @ [CHR 0x00]) parts)"

definition fingerprint_parts :: "evidence \<Rightarrow> string list" where
  "fingerprint_parts e =
     [source_string (ev_source e), route e, ecosystem (ev_coordinates e),
      namespace (ev_coordinates e), pkg_name (ev_coordinates e), version (ev_coordinates e),
      artifact_sha256 e, raw_value e, raw_kind_string (raw_kind e),
      status_string (parse_status e), normalized_expression e, license_url e,
      license_file_name e, outcome_string (outcome e)]"

definition fingerprint :: "evidence \<Rightarrow> string" where
  "fingerprint e = sha256 (terminated (fingerprint_parts e))"

subsection \<open>Classification of raw values\<close>

text \<open>\<open>classify\<close> parses a raw expression candidate into the fields of an evidence row.\<close>

definition classify :: "licenses_if \<Rightarrow> evidence \<Rightarrow> string \<Rightarrow> raw_kind \<Rightarrow> evidence" where
  "classify l e rw k =
     (let e = e\<lparr>raw_value := rw, raw_kind := k, license_list_version := list_version,
                resolver_version := resolver_version_const\<rparr>
      in if k \<noteq> RawExpression \<and> k \<noteq> RawExpressionOrFile \<and> k \<noteq> RawLicenseName
         then e\<lparr>parse_status := NotApplicable\<rparr>
         else let parsed = parse_with rw l;
                  e = e\<lparr>parse_status := status parsed,
                        normalized_expression := normalized parsed,
                        expression_tree := expression parsed,
                        ev_unknown_terms := unknown_terms parsed\<rparr>
           in if status parsed = StatusInvalid
              then e\<lparr>message := map_option ParseProblem (problem parsed)\<rparr> else e)"

text \<open>The exported \<open>Classify\<close>: sentinels keep a raw kind of their own.\<close>

definition classify_declaration :: "licenses_if \<Rightarrow> evidence \<Rightarrow> string \<Rightarrow> evidence" where
  "classify_declaration l e rw =
     (let trimmed = trim_space rw; upper = to_upper trimmed; e' = classify l e rw RawExpression
      in if upper = [] \<or> upper = ''NOASSERTION'' \<or> upper = ''NONE'' \<or> upper = ''UNLICENSED''
         then e'\<lparr>raw_kind := (if trimmed = [] then RawMissing else RawSentinel)\<rparr>
         else e')"

definition negative :: "evidence \<Rightarrow> outcome \<Rightarrow> int option \<Rightarrow> string \<Rightarrow> evidence" where
  "negative e oc st msg =
     e\<lparr>outcome := oc, http_status := st, message := Some (Message msg), raw_kind := RawMissing,
       parse_status := NotApplicable, resolver_version := resolver_version_const,
       license_list_version := list_version, expires_at := Some (fetched_at e + negative_ttl)\<rparr>"

text \<open>The errors of a route, as \<open>errors.Is\<close> tells them apart.\<close>

datatype route_error =
    ErrRouteMissing | ErrRouteRejected | ErrResponseLarge | ErrUnavailable | ErrNotFound
  | ErrMalformed | ErrNamespaceDeny | OtherError

fun from_fetch_error :: "evidence \<Rightarrow> route_error \<Rightarrow> evidence" where
  "from_fetch_error e ErrRouteRejected =
     negative e OutcomeRejected None ''request rejected by the registry route policy''"
| "from_fetch_error e ErrNamespaceDeny =
     negative e OutcomeRejected None ''request rejected by the registry route policy''"
| "from_fetch_error e ErrResponseLarge =
     negative e OutcomeTooLarge None ''registry response exceeds the configured limit''"
| "from_fetch_error e _ = negative e OutcomeUnavailable None ''registry unavailable''"

definition status_outcome :: "evidence \<Rightarrow> int \<Rightarrow> evidence \<times> bool" where
  "status_outcome e st =
     (if st = 200 then (e, True)
      else if st = 404 \<or> st = 410 then
        (negative e OutcomeNotFound (Some st) ''package version not found at the configured route'', False)
      else if st = 401 \<or> st = 403 then
        (negative e OutcomeUnavailable (Some st) ''registry refused the configured credentials'', False)
      else (negative e OutcomeUnavailable (Some st) ''registry returned an unexpected status'', False))"

definition truncate :: "string \<Rightarrow> nat \<Rightarrow> string" where
  "truncate value m =
     (let value = trim_space value in if length value > m then take m value else value)"

definition parse_for_export :: "licenses_if \<Rightarrow> string \<Rightarrow> string" where
  "parse_for_export l rw =
     (let parsed = parse_with rw l in
      case status parsed of
        StatusParsed \<Rightarrow> normalized parsed
      | StatusNoAssertion \<Rightarrow> ''NOASSERTION''
      | StatusNone \<Rightarrow> ''NONE''
      | _ \<Rightarrow> [])"

subsection \<open>Assessments\<close>

datatype assessment_status =
    AssessmentUnknown | AssessmentDeclared | AssessmentResolved | AssessmentConflict
  | AssessmentUnlicensed | AssessmentNotApplicable | AssessmentPending

record assessment =
  as_component :: int
  as_snapshot :: int
  as_status :: assessment_status
  as_expression :: string
  evidence_ids :: "int list"
  conflict_detail :: string
  assessed_at :: time
  evidence_fingerprint :: string

record candidate =
  label :: string
  cand_expression :: "node option"
  cand_normalized :: string
  cand_status :: status

definition describe :: "candidate list \<Rightarrow> string" where
  "describe items = join '' | '' (map (\<lambda>i.
     label i @ '': '' @ (if cand_normalized i = [] then to_upper (status_string (cand_status i))
                          else cand_normalized i)) items)"

text \<open>
  \<open>consider\<close>: the candidate a producer's raw value contributes, and the bytes it adds to the
  hash.
\<close>

definition consider_raw :: "licenses_if \<Rightarrow> string \<Rightarrow> string \<Rightarrow> candidate list \<times> string" where
  "consider_raw l lab rw =
     (let parsed = parse_with rw l;
          cands = (case status parsed of
              StatusParsed \<Rightarrow> [\<lparr>label = lab, cand_expression = expression parsed,
                 cand_normalized = normalized parsed, cand_status = status parsed\<rparr>]
            | StatusUnknownTerms \<Rightarrow> [\<lparr>label = lab, cand_expression = expression parsed,
                 cand_normalized = normalized parsed, cand_status = status parsed\<rparr>]
            | StatusNone \<Rightarrow> [\<lparr>label = lab, cand_expression = None, cand_normalized = [],
                 cand_status = status parsed\<rparr>]
            | StatusUnlicensed \<Rightarrow> [\<lparr>label = lab, cand_expression = None, cand_normalized = [],
                 cand_status = status parsed\<rparr>]
            | _ \<Rightarrow> [])
      in (cands, terminated [lab, rw, status_string (status parsed)]))"

definition consider_option :: "licenses_if \<Rightarrow> string \<Rightarrow> string option \<Rightarrow> candidate list \<times> string" where
  "consider_option l lab rw = (case rw of None \<Rightarrow> ([], []) | Some r \<Rightarrow> consider_raw l lab r)"

text \<open>The candidate of one evidence row, in the loop over the registry.\<close>

definition registry_candidate :: "licenses_if \<Rightarrow> evidence \<Rightarrow> candidate list" where
  "registry_candidate l e =
     (let lab = source_string (ev_source e) @ ''@'' @ route e in
      if outcome e \<noteq> OutcomeResolved then []
      else if parse_status e = StatusParsed \<or> parse_status e = StatusUnknownTerms then
        (let tree = (case expression_tree e of
               Some t \<Rightarrow> Some t
             | None \<Rightarrow> expression (parse_with (normalized_expression e) l))
         in case tree of
              None \<Rightarrow> []
            | Some t \<Rightarrow> [\<lparr>label = lab, cand_expression = Some t,
                cand_normalized = normalized_expression e, cand_status = parse_status e\<rparr>])
      else if parse_status e = StatusNone \<or> parse_status e = StatusUnlicensed then
        [\<lparr>label = lab, cand_expression = None, cand_normalized = [], cand_status = parse_status e\<rparr>]
      else [])"

text \<open>
  What \<open>Assess\<close> concludes from the candidates: status, expression and conflict detail.  The
  flag \<open>pending\<close> of the source is never set, so its branch is kept with \<open>False\<close>.
\<close>

definition conclude :: "candidate list \<Rightarrow> assessment_status \<times> string \<times> string" where
  "conclude candidates =
     (if candidates = [] then
        (if False then AssessmentPending else AssessmentUnknown, [], [])
      else
        let expressions = filter (\<lambda>c. cand_expression c \<noteq> None) candidates;
            refusals = filter (\<lambda>c. cand_expression c = None) candidates
        in if \<not> list_all (\<lambda>c. equal_nodes (cand_expression (hd expressions)) (cand_expression c))
                (tl expressions)
           then (AssessmentConflict, [], describe expressions)
           else if expressions \<noteq> [] \<and> refusals \<noteq> []
           then (AssessmentConflict, [], describe (expressions @ refusals))
           else if expressions = [] then (AssessmentUnlicensed, [], [])
           else (if list_ex (\<lambda>c. has_prefix (label c) ''registry_'') expressions
                 then AssessmentResolved else AssessmentDeclared,
                 cand_normalized (hd expressions), []))"

definition assess :: "licenses_if \<Rightarrow> int \<Rightarrow> int \<Rightarrow> string option \<Rightarrow> string option \<Rightarrow> evidence list \<Rightarrow>
    time \<Rightarrow> assessment" where
  "assess l component snapshot declared concluded registry now =
     (let (c1, h1) = consider_option l ''producer_concluded'' concluded;
          (c2, h2) = consider_option l ''producer_declared'' declared;
          registry = sort_key ev_id registry;
          candidates = c1 @ c2 @ concat (map (registry_candidate l) registry);
          (st, expr, detail) = conclude candidates
      in \<lparr>as_component = component, as_snapshot = snapshot, as_status = st, as_expression = expr,
          evidence_ids = map ev_id registry, conflict_detail = detail, assessed_at = now,
          evidence_fingerprint = sha256 (h1 @ h2 @ concat (map fingerprint registry))\<rparr>)"

text \<open>The newest resolved human row: the first with the greatest identifier.\<close>

fun newest_human :: "evidence option \<Rightarrow> evidence list \<Rightarrow> evidence option" where
  "newest_human best [] = best"
| "newest_human best (e # es) =
     newest_human
       (if ev_source e = SourceHuman \<and> outcome e = OutcomeResolved \<and>
           (case best of None \<Rightarrow> True | Some b \<Rightarrow> ev_id e > ev_id b)
        then Some e else best) es"

definition override_detail :: "evidence \<Rightarrow> assessment \<Rightarrow> string \<Rightarrow> string" where
  "override_detail human without expr =
     (if as_status without \<noteq> AssessmentUnknown \<and>
         (as_expression without \<noteq> expr \<or> as_status without = AssessmentConflict)
      then ''human conclusion ('' @ normalized_expression human @ '') overrides automated evidence'' @
        (if conflict_detail without \<noteq> [] then '': '' @ conflict_detail without
         else if as_expression without \<noteq> [] then '': '' @ as_expression without
         else [])
      else [])"

definition assess_with_human :: "licenses_if \<Rightarrow> int \<Rightarrow> int \<Rightarrow> string option \<Rightarrow> string option \<Rightarrow>
    evidence list \<Rightarrow> time \<Rightarrow> assessment" where
  "assess_with_human l component snapshot declared concluded registry now =
     (let base = assess l component snapshot declared concluded registry now in
      case newest_human None registry of
        None \<Rightarrow> base
      | Some human \<Rightarrow>
          let automated = filter (\<lambda>e. ev_source e \<noteq> SourceHuman) registry;
              without = assess l component snapshot declared concluded automated now;
              decided = (\<lambda>st expr. base\<lparr>as_status := st, as_expression := expr,
                 conflict_detail := override_detail human without expr\<rparr>)
          in case parse_status human of
               StatusParsed \<Rightarrow> decided AssessmentResolved (normalized_expression human)
             | StatusUnknownTerms \<Rightarrow> decided AssessmentResolved (normalized_expression human)
             | StatusNone \<Rightarrow> decided AssessmentUnlicensed []
             | StatusUnlicensed \<Rightarrow> decided AssessmentUnlicensed []
             | _ \<Rightarrow> base)"

end
