(* ===== verification/License_Properties.thy ===== *)
theory License_Properties
  imports License_Evidence "HOL-Library.Multiset"
begin

text \<open>
  Properties of the license assessment: the decision table of \<open>Assess\<close>, its independence of the
  order of the evidence rows, the precedence of human conclusions, and the injectivity of the
  fingerprint's encoding.
\<close>

subsection \<open>Structural equality is an equivalence\<close>

lemma node_equal_sym: "node_equal n m \<Longrightarrow> node_equal m n"
proof (induction n m rule: node_equal.induct)
  case (4 ns ns')
  then show ?case by (auto simp: list_all2_conv_all_nth)
next
  case (5 ns ns')
  then show ?case by (auto simp: list_all2_conv_all_nth)
qed auto

lemma list_all2_node_trans:
  assumes "\<And>n m k. n \<in> set ns \<Longrightarrow> node_equal n m \<Longrightarrow> node_equal m k \<Longrightarrow> node_equal n k"
    and "list_all2 node_equal ns ms" "list_all2 node_equal ms ks"
  shows "list_all2 node_equal ns ks"
  using assms(2,3,1)
proof (induction ns ms arbitrary: ks rule: list_all2_induct)
  case (Cons n ns m ms)
  then obtain k ks' where ks: "ks = k # ks'" "node_equal m k" "list_all2 node_equal ms ks'"
    by (auto simp: list_all2_Cons1)
  have "node_equal n k"
    using Cons.prems(2) [of n m k] Cons.hyps(1) ks(2) by simp
  moreover have "list_all2 node_equal ns ks'"
    using Cons.IH [OF ks(3)] Cons.prems(2) by (meson list.set_intros(2))
  ultimately show ?case by (simp add: ks(1))
qed simp

lemma node_equal_trans: "node_equal n m \<Longrightarrow> node_equal m k \<Longrightarrow> node_equal n k"
proof (induction n arbitrary: m k)
  case (And ns)
  from And.prems obtain ms ks where "m = And ms" "k = And ks"
    by (cases m; cases k) auto
  then show ?case using And.prems list_all2_node_trans [of ns ms ks] And.IH by auto
next
  case (Or ns)
  from Or.prems obtain ms ks where "m = Or ms" "k = Or ks"
    by (cases m; cases k) auto
  then show ?case using Or.prems list_all2_node_trans [of ns ms ks] Or.IH by auto
next
  case (License i later k' d)
  then show ?case by (cases m; cases k) auto
next
  case (Reference i)
  then show ?case by (cases m; cases k) auto
next
  case (With n e k' d)
  from With.prems obtain m' e' k1 d1 n2 e2 k2 d2 where "m = With m' e' k1 d1" "k = With n2 e2 k2 d2"
    by (cases m; cases k) auto
  with With.prems With.IH [of m' n2] show ?case by simp
qed

lemma equal_nodes_refl: "equal_nodes n n"
  by (simp add: equal_nodes_def node_equal_refl split: option.splits)

lemma equal_nodes_sym: "equal_nodes n m \<Longrightarrow> equal_nodes m n"
  by (auto simp: equal_nodes_def node_equal_sym split: option.splits)

lemma equal_nodes_trans: "equal_nodes n m \<Longrightarrow> equal_nodes m k \<Longrightarrow> equal_nodes n k"
  by (auto simp: equal_nodes_def intro: node_equal_trans split: option.splits)

lemma equal_nodes_None: "equal_nodes n None \<longleftrightarrow> n = None"
  by (cases n) (simp_all add: equal_nodes_def)

subsection \<open>The decision table\<close>

definition assess_candidates :: "licenses_if \<Rightarrow> string option \<Rightarrow> string option \<Rightarrow> evidence list \<Rightarrow>
    candidate list" where
  "assess_candidates l declared concluded registry =
     fst (consider_option l ''producer_concluded'' concluded) @
     fst (consider_option l ''producer_declared'' declared) @
     concat (map (registry_candidate l) (sort_key ev_id registry))"

lemma assess_conclude:
  "(as_status (assess l c s d k r t), as_expression (assess l c s d k r t),
    conflict_detail (assess l c s d k r t)) = conclude (assess_candidates l d k r)"
  by (simp add: assess_def assess_candidates_def Let_def split: prod.splits)

definition disagree :: "candidate list \<Rightarrow> bool" where
  "disagree cs \<longleftrightarrow> (\<exists>c \<in> set cs. \<exists>d \<in> set cs. \<not> equal_nodes (cand_expression c) (cand_expression d))"

lemma disagree_Nil: "\<not> disagree []"
  by (simp add: disagree_def)

lemma disagree_filter:
  "disagree cs \<longleftrightarrow>
     disagree (filter (\<lambda>c. cand_expression c \<noteq> None) cs) \<or>
     filter (\<lambda>c. cand_expression c \<noteq> None) cs \<noteq> [] \<and> filter (\<lambda>c. cand_expression c = None) cs \<noteq> []"
  (is "_ \<longleftrightarrow> disagree ?es \<or> ?es \<noteq> [] \<and> ?rs \<noteq> []")
proof
  assume "disagree cs"
  then obtain c d where cd: "c \<in> set cs" "d \<in> set cs" "\<not> equal_nodes (cand_expression c) (cand_expression d)"
    by (auto simp: disagree_def)
  show "disagree ?es \<or> ?es \<noteq> [] \<and> ?rs \<noteq> []"
  proof (cases "cand_expression c \<noteq> None \<and> cand_expression d \<noteq> None")
    case True
    with cd show ?thesis by (auto simp: disagree_def)
  next
    case False
    with cd have "(c \<in> set ?es \<and> d \<in> set ?rs) \<or> (d \<in> set ?es \<and> c \<in> set ?rs)"
      by (auto simp: equal_nodes_def split: option.splits)
    then have "?es \<noteq> [] \<and> ?rs \<noteq> []" by (metis empty_iff empty_set)
    then show ?thesis by simp
  qed
next
  assume "disagree ?es \<or> ?es \<noteq> [] \<and> ?rs \<noteq> []"
  then show "disagree cs"
  proof
    assume "disagree ?es"
    then show ?thesis by (auto simp: disagree_def)
  next
    assume "?es \<noteq> [] \<and> ?rs \<noteq> []"
    then obtain c d where "c \<in> set ?es" "d \<in> set ?rs" by (meson list.set_sel(1))
    then have "c \<in> set cs" "d \<in> set cs" "\<not> equal_nodes (cand_expression c) (cand_expression d)"
      by (auto simp: equal_nodes_None)
    then show ?thesis unfolding disagree_def by blast
  qed
qed

lemma disagree_hd:
  "list_all (\<lambda>c. equal_nodes (cand_expression (hd cs)) (cand_expression c)) (tl cs) \<longleftrightarrow> \<not> disagree cs"
proof (cases cs)
  case (Cons c cs')
  then show ?thesis
    by (auto simp: disagree_def list_all_iff equal_nodes_refl)
      (metis equal_nodes_sym equal_nodes_trans)+
qed (simp add: disagree_def)

lemma agree_hd:
  assumes "\<not> disagree cs" "c \<in> set cs"
  shows "cand_expression c = None \<longleftrightarrow> cand_expression (hd cs) = None"
proof -
  have "hd cs \<in> set cs" using assms(2) by (cases cs) simp_all
  with assms have "equal_nodes (cand_expression c) (cand_expression (hd cs))"
    unfolding disagree_def by blast
  then show ?thesis by (metis equal_nodes_None equal_nodes_sym)
qed

lemma list_all_const:
  assumes "\<And>x. x \<in> set xs \<Longrightarrow> P x \<longleftrightarrow> p" "xs \<noteq> []"
  shows "list_all P xs \<longleftrightarrow> p"
  using assms by (cases xs) (auto simp: list_all_iff)

lemma conclude_cases:
  "conclude cs =
     (if cs = [] then (AssessmentUnknown, [], [])
      else if disagree cs then
        (AssessmentConflict, [], if disagree (filter (\<lambda>c. cand_expression c \<noteq> None) cs)
           then describe (filter (\<lambda>c. cand_expression c \<noteq> None) cs)
           else describe (filter (\<lambda>c. cand_expression c \<noteq> None) cs @
                          filter (\<lambda>c. cand_expression c = None) cs))
      else if cand_expression (hd cs) = None then (AssessmentUnlicensed, [], [])
      else (if list_ex (\<lambda>c. has_prefix (label c) ''registry_'') cs
            then AssessmentResolved else AssessmentDeclared, cand_normalized (hd cs), []))"
proof -
  have all: "filter (\<lambda>c. cand_expression c \<noteq> None) cs =
      (if cand_expression (hd cs) = None then [] else cs)"
    if "\<not> disagree cs" "cs \<noteq> []"
    by (simp only: agree_hd [OF that(1)] cong: filter_cong) simp
  let ?es = "filter (\<lambda>c. cand_expression c \<noteq> None) cs"
  let ?rs = "filter (\<lambda>c. cand_expression c = None) cs"
  show ?thesis
  proof (cases "cs = []"; cases "disagree cs")
    assume "cs \<noteq> []" "disagree cs"
    with disagree_filter [of cs] show ?thesis
      by (cases "disagree ?es") (simp_all add: conclude_def Let_def disagree_hd del: filter_empty_conv)
  next
    assume "cs \<noteq> []" "\<not> disagree cs"
    then have "?es = (if cand_expression (hd cs) = None then [] else cs)" "\<not> disagree ?es"
        "\<not> (?es \<noteq> [] \<and> ?rs \<noteq> [])" "cs \<noteq> []" "\<not> disagree cs"
      using all disagree_filter [of cs] by blast+
    then show ?thesis
      by (simp only: conclude_def Let_def disagree_hd) simp
  qed (simp_all add: conclude_def)
qed

subsection \<open>Order of the rows and rows without an opinion\<close>

lemma sort_key_mset_eq:
  assumes "mset xs = mset ys" "distinct (map f ys)"
  shows "sort_key f xs = sort_key f ys"
  using assms by (metis (no_types, lifting) distinct_map inj_on_subset mset_eq_setD
      properties_for_sort_key sort_key_inj_key_eq subset_refl sorted_sort_key mset_sort)

lemma registry_candidate_unresolved: "outcome e \<noteq> OutcomeResolved \<Longrightarrow> registry_candidate l e = []"
  by (simp add: registry_candidate_def)

subsection \<open>The encoding of fingerprints\<close>

lemma terminated_Cons: "terminated (p # ps) = p @ CHR 0x00 # terminated ps"
  by (simp add: terminated_def)

lemma append_terminator_eq:
  assumes "a @ z # u = b @ z # v" "z \<notin> set a" "z \<notin> set b"
  shows "a = b \<and> u = v"
  using assms by (induction a arbitrary: b) (auto simp: Cons_eq_append_conv append_eq_Cons_conv)

lemma terminated_inj:
  assumes "terminated ps = terminated qs" "length ps = length qs"
    and "\<And>p. p \<in> set ps \<union> set qs \<Longrightarrow> CHR 0x00 \<notin> set p"
  shows "ps = qs"
  using assms(2,1,3)
proof (induction ps qs rule: list_induct2)
  case (Cons p ps q qs)
  then show ?case
    using append_terminator_eq [of p "CHR 0x00" "terminated ps" q "terminated qs"]
    by (auto simp: terminated_Cons)
qed simp

lemma source_string_inj: "source_string a = source_string b \<Longrightarrow> a = b"
  by (cases a; cases b) simp_all

lemma raw_kind_string_inj: "raw_kind_string a = raw_kind_string b \<Longrightarrow> a = b"
  by (cases a; cases b) simp_all

lemma status_string_inj: "status_string a = status_string b \<Longrightarrow> a = b"
  by (cases a; cases b) simp_all

lemma outcome_string_inj: "outcome_string a = outcome_string b \<Longrightarrow> a = b"
  by (cases a; cases b) simp_all

lemmas name_injs = source_string_inj raw_kind_string_inj status_string_inj outcome_string_inj

subsection \<open>The newest human row\<close>

abbreviation human_row :: "evidence \<Rightarrow> bool" where
  "human_row e \<equiv> ev_source e = SourceHuman \<and> outcome e = OutcomeResolved"

lemma newest_human_skip:
  "(\<And>e. e \<in> set r \<Longrightarrow> human_row e \<Longrightarrow> \<not> ev_id b < ev_id e) \<Longrightarrow> newest_human (Some b) r = Some b"
  by (induction r) auto

lemma newest_human_max:
  assumes "h \<in> set r" "human_row h"
    and "\<And>e. e \<in> set r \<Longrightarrow> human_row e \<Longrightarrow> e = h \<or> ev_id e < ev_id h"
    and "case best of None \<Rightarrow> True | Some b \<Rightarrow> ev_id b < ev_id h"
  shows "newest_human best r = Some h"
  using assms
proof (induction r arbitrary: best)
  case (Cons e r)
  show ?case
  proof (cases "e = h")
    case True
    with Cons.prems have "newest_human best (e # r) = newest_human (Some h) r"
      by (simp split: option.splits)
    also have "\<dots> = Some h"
      using Cons.prems(3) by (intro newest_human_skip) fastforce
    finally show ?thesis .
  next
    case False
    with Cons.prems have "ev_id e < ev_id h" if "human_row e"
      using that by auto
    with False Cons.prems show ?thesis
      by (auto intro!: Cons.IH split: option.splits)
  qed
qed simp

lemma newest_human_None: "\<not> list_ex human_row r \<Longrightarrow> newest_human None r = None"
  by (induction r) auto

subsection \<open>The properties\<close>

text \<open>
  The assumptions of the witnesses below: rows of one component, as the registry resolvers and a
  reviewer write them.
\<close>

definition sample_evidence :: "int \<Rightarrow> source \<Rightarrow> outcome \<Rightarrow> evidence" where
  "sample_evidence i src oc =
     \<lparr>ev_id = i, ev_source = src, route = ''npm'',
      ev_coordinates = \<lparr>ecosystem = ''npm'', namespace = [], pkg_name = ''p'', version = ''1''\<rparr>,
      artifact_sha256 = [], raw_value = ''MIT'', raw_kind = RawExpression, parse_status = StatusParsed,
      normalized_expression = ''MIT'', expression_tree = Some (License ''MIT'' False True False),
      ev_unknown_terms = [], license_url = [], license_file_name = [], resolver_version = 1,
      license_list_version = list_version, content_sha256 = [], fetched_at = 0, expires_at = None,
      outcome = oc, http_status = None, message = None\<rparr>"

definition no_licenses :: licenses_if where
  "no_licenses = as_licenses (must_load [] [])"

text \<open>
  C3 (decision table of \<open>Assess\<close>).  Let the candidates be the opinions of the producer and of
  the resolved registry rows.  The status is \<open>unknown\<close> exactly when there is none, \<open>conflict\<close>
  exactly when two of them differ structurally (a refusal differs from every expression),
  \<open>unlicensed\<close> exactly when there are some and all are refusals, and otherwise \<open>resolved\<close> or
  \<open>declared\<close> according to whether a registry is among them; \<open>pending\<close> and \<open>not_applicable\<close> never
  occur.  Only in the last two cases is there an expression, and it is the rendering of a
  candidate that every candidate agrees with.
\<close>

theorem assess_decision_table:
  "let cs = assess_candidates l d k r; a = assess l c s d k r t in
    (as_status a = AssessmentUnknown \<longleftrightarrow> cs = []) \<and>
    (as_status a = AssessmentConflict \<longleftrightarrow> disagree cs) \<and>
    (as_status a = AssessmentUnlicensed \<longleftrightarrow>
       cs \<noteq> [] \<and> list_all (\<lambda>x. cand_expression x = None) cs) \<and>
    (as_status a = AssessmentResolved \<longleftrightarrow> cs \<noteq> [] \<and> \<not> disagree cs \<and>
       list_all (\<lambda>x. cand_expression x \<noteq> None) cs \<and>
       list_ex (\<lambda>x. has_prefix (label x) ''registry_'') cs) \<and>
    (as_status a = AssessmentDeclared \<longleftrightarrow> cs \<noteq> [] \<and> \<not> disagree cs \<and>
       list_all (\<lambda>x. cand_expression x \<noteq> None) cs \<and>
       \<not> list_ex (\<lambda>x. has_prefix (label x) ''registry_'') cs) \<and>
    as_status a \<noteq> AssessmentPending \<and> as_status a \<noteq> AssessmentNotApplicable \<and>
    as_expression a = (if as_status a = AssessmentResolved \<or> as_status a = AssessmentDeclared
       then cand_normalized (hd cs) else [])"
proof -
  define cs where "cs = assess_candidates l d k r"
  define a where "a = assess l c s d k r t"
  have uniform: "list_all (\<lambda>x. cand_expression x = None) cs \<longleftrightarrow> cand_expression (hd cs) = None"
    "list_all (\<lambda>x. cand_expression x \<noteq> None) cs \<longleftrightarrow> cand_expression (hd cs) \<noteq> None"
    if "\<not> disagree cs" "cs \<noteq> []"
    using list_all_const [OF agree_hd [OF that(1)] that(2)]
      list_all_const [OF arg_cong [where f = Not, OF agree_hd [OF that(1)]] that(2)] by simp_all
  have refusals: "\<not> list_all (\<lambda>x. cand_expression x = None) cs" if "disagree cs"
    using that unfolding list_all_iff disagree_def by (metis equal_nodes_refl)
  have "(as_status a, as_expression a, conflict_detail a) = conclude cs"
    unfolding a_def cs_def by (rule assess_conclude)
  then show ?thesis
    unfolding conclude_cases [of cs] Let_def cs_def [symmetric] a_def [symmetric]
    by (cases "cs = []"; cases "disagree cs"; cases "cand_expression (hd cs)")
      (simp_all add: uniform refusals disagree_Nil del: not_None_eq)
qed

text \<open>
  The assessment does not depend on the order in which the store
  returns the evidence rows, as long as their identifiers are distinct.
\<close>

theorem assess_order_independent:
  assumes "mset r = mset r'" "distinct (map ev_id r')"
  shows "assess l c s d k r t = assess l c s d k r' t"
  unfolding assess_def by (simp only: sort_key_mset_eq [OF assms])

theorem assess_order_independent_witness:
  "let a = sample_evidence 1 SourceRegistryNPM OutcomeResolved; b = sample_evidence 2 SourceHuman OutcomeResolved
   in assess no_licenses 1 1 None None [b, a] 0 = assess no_licenses 1 1 None None [a, b] 0"
  unfolding Let_def
  by (rule assess_order_independent) (simp_all add: sample_evidence_def add_mset_commute)

text \<open>
  C39 (fingerprints).  The bytes that are hashed into a fingerprint determine every material field
  of the evidence: rows whose fields have no zero byte and differ in one of the fourteen fields
  have different preimages.
\<close>

theorem fingerprint_preimage_injective:
  assumes "terminated (fingerprint_parts e) = terminated (fingerprint_parts f)"
    and "list_all (\<lambda>p. CHR 0x00 \<notin> set p) (fingerprint_parts e @ fingerprint_parts f)"
  shows "ev_source e = ev_source f \<and> route e = route f \<and>
    ecosystem (ev_coordinates e) = ecosystem (ev_coordinates f) \<and>
    namespace (ev_coordinates e) = namespace (ev_coordinates f) \<and>
    pkg_name (ev_coordinates e) = pkg_name (ev_coordinates f) \<and>
    version (ev_coordinates e) = version (ev_coordinates f) \<and>
    artifact_sha256 e = artifact_sha256 f \<and> raw_value e = raw_value f \<and> raw_kind e = raw_kind f \<and>
    parse_status e = parse_status f \<and> normalized_expression e = normalized_expression f \<and>
    license_url e = license_url f \<and> license_file_name e = license_file_name f \<and>
    outcome e = outcome f"
proof -
  have "fingerprint_parts e = fingerprint_parts f"
    by (rule terminated_inj [OF assms(1)])
      (simp add: fingerprint_parts_def, use assms(2) in \<open>auto simp: list_all_iff\<close>)
  then show ?thesis
    by (auto simp: fingerprint_parts_def intro: name_injs)
qed

theorem fingerprint_preimage_injective_witness:
  "raw_value (sample_evidence 1 SourceHuman OutcomeResolved) =
   raw_value (sample_evidence 2 SourceHuman OutcomeResolved)"
  using fingerprint_preimage_injective [of "sample_evidence 1 SourceHuman OutcomeResolved"
      "sample_evidence 2 SourceHuman OutcomeResolved"]
  by (simp add: sample_evidence_def fingerprint_parts_def)

text \<open>
  C30 (human conclusions).  When a resolved human row exists, the newest one (the greatest
  identifier) decides: an expression makes the assessment \<open>resolved\<close> with that expression, a
  refusal makes it \<open>unlicensed\<close>, and a human row that did not parse leaves the automated result.
  The evidence identifiers and the fingerprint cover every row as without the human row's
  precedence, so a later automated change is still detected.
\<close>

theorem human_conclusion_decides:
  assumes "h \<in> set r" "ev_source h = SourceHuman" "outcome h = OutcomeResolved"
    and "\<forall>e \<in> set r. ev_source e = SourceHuman \<and> outcome e = OutcomeResolved \<longrightarrow>
           e = h \<or> ev_id e < ev_id h"
  shows "let a = assess_with_human l c s d k r t; b = assess l c s d k r t in
    evidence_ids a = evidence_ids b \<and> evidence_fingerprint a = evidence_fingerprint b \<and>
    (as_status a, as_expression a) =
      (if parse_status h = StatusParsed \<or> parse_status h = StatusUnknownTerms
       then (AssessmentResolved, normalized_expression h)
       else if parse_status h = StatusNone \<or> parse_status h = StatusUnlicensed
       then (AssessmentUnlicensed, [])
       else (as_status b, as_expression b))"
proof -
  have "newest_human None r = Some h"
    using assms by (intro newest_human_max) auto
  then show ?thesis
    by (cases "parse_status h") (simp_all add: assess_with_human_def Let_def)
qed

theorem human_conclusion_decides_witness:
  "let r = [sample_evidence 2 SourceHuman OutcomeResolved, sample_evidence 1 SourceRegistryNPM OutcomeResolved]
   in as_status (assess_with_human no_licenses 1 1 None None r 0) = AssessmentResolved"
  using human_conclusion_decides [of "sample_evidence 2 SourceHuman OutcomeResolved"
      "[sample_evidence 2 SourceHuman OutcomeResolved, sample_evidence 1 SourceRegistryNPM OutcomeResolved]"
      no_licenses 1 1 None None 0]
  by (simp add: sample_evidence_def Let_def)

end
