(* ===== verification/License_Policy.thy ===== *)
theory License_Policy
  imports Spdx_Roundtrip
begin

text \<open>
  License policies: \<open>internal/supplychain/policy/policy.go\<close>.  A policy classifies the leaves of an
  expression tree; conjunctions take the worst verdict, disjunctions the best.  The pinned list of
  identifiers is the argument \<open>l\<close> of the functions that parse.
\<close>

datatype verdict = VerdictApproved | VerdictReviewRequired | VerdictUnknown | VerdictProhibited

fun verdict_string :: "verdict \<Rightarrow> string" where
  "verdict_string VerdictApproved = ''approved''"
| "verdict_string VerdictProhibited = ''prohibited''"
| "verdict_string VerdictReviewRequired = ''review_required''"
| "verdict_string VerdictUnknown = ''unknown''"

record rules =
  approved :: "string list"
  review_required :: "string list"
  prohibited :: "string list"
  allow_or_later :: bool

record policy =
  policy_id :: int
  policy_name :: string
  policy_version :: int
  policy_kind :: string
  policy_rules :: rules
  unknown_handling :: verdict
  policy_description :: string
  policy_created_by :: string
  policy_active :: bool

record policy_result =
  verdict :: verdict
  explanation :: string
  acceptable_branches :: "string list"
  term_results :: "(string \<times> verdict) list"

subsection \<open>Validation of rules\<close>

datatype policy_class = ClassApproved | ClassReviewRequired | ClassProhibited

datatype policy_error =
    UnknownTerm string
  | CompoundTerm string
  | InClass policy_class policy_error
  | ListedTwice string policy_class policy_class

definition canonical_term :: "licenses_if \<Rightarrow> string \<Rightarrow> policy_error + string" where
  "canonical_term l term0 =
     (let trm = trim_space term0; lower = to_lower trm in
      if trm = ''*'' then Inr ''*''
      else if has_prefix lower ''licenseref-'' \<or> has_prefix lower ''documentref-'' then Inr trm
      else let parsed = parse_with trm l in
        (case expression parsed of
           None \<Rightarrow> Inl (UnknownTerm trm)
         | Some n \<Rightarrow>
             if status parsed \<noteq> StatusParsed then Inl (UnknownTerm trm)
             else if node_kind n \<noteq> KindLicense \<and> node_kind n \<noteq> KindWith then Inl (CompoundTerm trm)
             else Inr (normalized parsed)))"

fun class_terms :: "rules \<Rightarrow> policy_class \<Rightarrow> string list" where
  "class_terms r ClassApproved = approved r"
| "class_terms r ClassReviewRequired = review_required r"
| "class_terms r ClassProhibited = prohibited r"

text \<open>The loop over the terms of one class; \<open>seen\<close> maps a canonical term to its class.\<close>

fun check_terms :: "licenses_if \<Rightarrow> policy_class \<Rightarrow> string list \<Rightarrow> (string \<rightharpoonup> policy_class) \<Rightarrow>
    policy_error + (string \<rightharpoonup> policy_class)" where
  "check_terms l c [] seen = Inr seen"
| "check_terms l c (t # ts) seen =
     (case canonical_term l t of
        Inl e \<Rightarrow> Inl (InClass c e)
      | Inr canonical \<Rightarrow>
          (case seen canonical of
             Some previous \<Rightarrow>
               if previous \<noteq> c then Inl (ListedTwice t previous c)
               else check_terms l c ts (seen(canonical \<mapsto> c))
           | None \<Rightarrow> check_terms l c ts (seen(canonical \<mapsto> c))))"

fun check_classes :: "licenses_if \<Rightarrow> rules \<Rightarrow> policy_class list \<Rightarrow> (string \<rightharpoonup> policy_class) \<Rightarrow>
    policy_error option" where
  "check_classes l r [] seen = None"
| "check_classes l r (c # cs) seen =
     (case check_terms l c (class_terms r c) seen of
        Inl e \<Rightarrow> Some e
      | Inr seen' \<Rightarrow> check_classes l r cs seen')"

text \<open>
  \<open>ParseRules\<close> after the JSON decoder returned \<open>r\<close>.  The classes are the keys of a Go map, whose
  iteration order is not specified: \<open>order\<close> is the order of the run.
\<close>

definition parse_rules :: "licenses_if \<Rightarrow> policy_class list \<Rightarrow> rules \<Rightarrow> policy_error + rules" where
  "parse_rules l order r =
     (case check_classes l r order Map.empty of None \<Rightarrow> Inr r | Some e \<Rightarrow> Inl e)"

subsection \<open>The index of a policy\<close>

record rule_index =
  by_term :: "string \<rightharpoonup> verdict"
  wildcard :: "verdict option"

definition index_term :: "licenses_if \<Rightarrow> verdict \<Rightarrow> rule_index \<Rightarrow> string \<Rightarrow> rule_index" where
  "index_term l v idx t =
     (case canonical_term l t of
        Inl _ \<Rightarrow> idx
      | Inr canonical \<Rightarrow>
          if canonical = ''*'' then idx\<lparr>wildcard := Some v\<rparr>
          else idx\<lparr>by_term := (by_term idx)(to_lower canonical \<mapsto> v)\<rparr>)"

definition index_add :: "licenses_if \<Rightarrow> string list \<Rightarrow> verdict \<Rightarrow> rule_index \<Rightarrow> rule_index" where
  "index_add l ts v idx = foldl (index_term l v) idx ts"

definition rule_index_of :: "licenses_if \<Rightarrow> policy \<Rightarrow> rule_index" where
  "rule_index_of l pol =
     index_add l (approved (policy_rules pol)) VerdictApproved
      (index_add l (review_required (policy_rules pol)) VerdictReviewRequired
        (index_add l (prohibited (policy_rules pol)) VerdictProhibited
          \<lparr>by_term = Map.empty, wildcard = None\<rparr>))"

definition first_some :: "'a option \<Rightarrow> 'a option \<Rightarrow> 'a option" where
  "first_some a b = (case a of None \<Rightarrow> b | Some _ \<Rightarrow> a)"

text \<open>The part of \<open>classifyLeaf\<close> for a term that is not listed itself.\<close>

fun classify_unlisted :: "policy \<Rightarrow> rule_index \<Rightarrow> node \<Rightarrow> verdict" where
  "classify_unlisted pol idx (Reference i) =
     (case wildcard idx of Some v \<Rightarrow> v | None \<Rightarrow> unknown_handling pol)"
| "classify_unlisted pol idx (License i later known dep) =
     (if \<not> known then unknown_handling pol
      else case first_some
          (if later \<and> allow_or_later (policy_rules pol) then by_term idx (to_lower i) else None)
          (if allow_or_later (policy_rules pol) \<and> has_suffix i ''-or-later''
           then by_term idx (to_lower (trim_suffix i ''-or-later'' @ ''-only'')) else None) of
        Some v \<Rightarrow> v
      | None \<Rightarrow> unknown_handling pol)"
| "classify_unlisted pol idx (With n e known dep) =
     (if \<not> known then unknown_handling pol else VerdictReviewRequired)"
| "classify_unlisted pol idx _ = unknown_handling pol"

definition classify_leaf :: "policy \<Rightarrow> rule_index \<Rightarrow> node \<Rightarrow> verdict" where
  "classify_leaf pol idx n =
     (case by_term idx (to_lower (node_string n)) of
        Some v \<Rightarrow> v
      | None \<Rightarrow> classify_unlisted pol idx n)"

subsection \<open>Evaluation\<close>

fun severity :: "verdict \<Rightarrow> nat" where
  "severity VerdictApproved = 0"
| "severity VerdictReviewRequired = 1"
| "severity VerdictUnknown = 2"
| "severity VerdictProhibited = 3"

definition worse :: "verdict \<Rightarrow> verdict \<Rightarrow> verdict" where
  "worse left right = (if severity right > severity left then right else left)"

definition better :: "verdict \<Rightarrow> verdict \<Rightarrow> verdict" where
  "better left right = (if severity right < severity left then right else left)"

text \<open>
  \<open>evaluate\<close> threads the result record: the terms it meets and the acceptable branches.
  \<open>evaluate_all\<close> is the loop of a conjunction over the remaining children, \<open>evaluate_any\<close> that of
  a disjunction, where \<open>best\<close> is \<open>None\<close> before the first child.
\<close>

type_synonym trace = "string list \<times> (string \<times> verdict) list"

function (sequential) evaluate :: "policy \<Rightarrow> rule_index \<Rightarrow> node \<Rightarrow> trace \<Rightarrow> verdict \<times> trace"
  and evaluate_all :: "policy \<Rightarrow> rule_index \<Rightarrow> node list \<Rightarrow> verdict \<Rightarrow> trace \<Rightarrow> verdict \<times> trace"
  and evaluate_any :: "policy \<Rightarrow> rule_index \<Rightarrow> node list \<Rightarrow> verdict option \<Rightarrow> trace \<Rightarrow> verdict \<times> trace"
where
  "evaluate pol idx (And ns) tr = evaluate_all pol idx ns VerdictApproved tr"
| "evaluate pol idx (Or ns) tr = evaluate_any pol idx ns None tr"
| "evaluate pol idx n tr =
     (let v = classify_leaf pol idx n in (v, fst tr, snd tr @ [(node_string n, v)]))"
| "evaluate_all pol idx [] worst tr = (worst, tr)"
| "evaluate_all pol idx (n # ns) worst tr =
     (let (v, tr') = evaluate pol idx n tr in evaluate_all pol idx ns (worse worst v) tr')"
| "evaluate_any pol idx [] best tr = ((case best of None \<Rightarrow> VerdictProhibited | Some b \<Rightarrow> b), tr)"
| "evaluate_any pol idx (n # ns) best tr =
     (let (v, tr') = evaluate pol idx n tr;
          tr'' = (if v = VerdictApproved then (fst tr' @ [node_string n], snd tr') else tr')
      in evaluate_any pol idx ns
           (Some (case best of None \<Rightarrow> v | Some b \<Rightarrow> better b v)) tr'')"
  by pat_completeness simp_all
termination
  by (relation "measure (case_sum (\<lambda>(pol, idx, n, tr). size n)
    (case_sum (\<lambda>(pol, idx, ns, v, tr). size_list size ns) (\<lambda>(pol, idx, ns, v, tr). size_list size ns)))")
    simp_all

definition explain :: "policy \<Rightarrow> node \<Rightarrow> verdict \<Rightarrow> trace \<Rightarrow> string" where
  "explain pol n v tr =
     (let parts = sort (map (\<lambda>(t, w). t @ '': '' @ verdict_string w) (snd tr));
          text0 = verdict_string v @ '' under '' @ policy_name pol @ '' v'' @
            decimal (policy_version pol) @ ''; terms: '' @ join '', '' parts
      in if node_kind n = KindOr \<and> fst tr \<noteq> [] \<and> length (fst tr) < length (node_children n)
         then text0 @ ''; acceptable only by choosing '' @ join '' or '' (fst tr) @
           '' (a recorded choice is a separate decision)''
         else text0)"

definition evaluate_expression :: "licenses_if \<Rightarrow> policy \<Rightarrow> node option \<Rightarrow> policy_result" where
  "evaluate_expression l pol expr =
     (case expr of
        None \<Rightarrow> \<lparr>verdict = unknown_handling pol,
          explanation = ''no license expression is available; '' @
            verdict_string (unknown_handling pol) @ '' by policy for unknown licensing'',
          acceptable_branches = [], term_results = []\<rparr>
      | Some n \<Rightarrow>
          let (v, tr) = evaluate pol (rule_index_of l pol) n ([], [])
          in \<lparr>verdict = v, explanation = explain pol n v tr,
              acceptable_branches = fst tr, term_results = snd tr\<rparr>)"

text \<open>The example policy, a fixture.\<close>

definition example_rules :: rules where
  "example_rules =
     \<lparr>approved = [''MIT'', ''ISC'', ''BSD-2-Clause'', ''BSD-3-Clause'', ''Apache-2.0'', ''0BSD'',
        ''Unlicense'', ''CC0-1.0'', ''Zlib'', ''GPL-2.0-only WITH Classpath-exception-2.0''],
      review_required = [''LGPL-2.1-only'', ''LGPL-2.1-or-later'', ''LGPL-3.0-only'',
        ''LGPL-3.0-or-later'', ''MPL-2.0'', ''EPL-1.0'', ''EPL-2.0'', ''CDDL-1.0'', ''*''],
      prohibited = [''GPL-2.0-only'', ''GPL-2.0-or-later'', ''GPL-3.0-only'', ''GPL-3.0-or-later'',
        ''AGPL-3.0-only'', ''AGPL-3.0-or-later'', ''SSPL-1.0'', ''BUSL-1.1''],
      allow_or_later = False\<rparr>"

definition example :: policy where
  "example =
     \<lparr>policy_id = 0, policy_name = ''graphnest-example'', policy_version = 1,
      policy_kind = ''example'', policy_rules = example_rules,
      unknown_handling = VerdictReviewRequired,
      policy_description = ''EXAMPLE FIXTURE for demonstration and tests. Not legal advice and not an organization policy; replace with your own before relying on verdicts.'',
      policy_created_by = [], policy_active = False\<rparr>"

end
