(* ===== verification/Policy_Properties.thy ===== *)
theory Policy_Properties
  imports License_Policy Spdx_Properties
begin

text \<open>
  Properties of license policies: evaluation is the And/Or lattice over the classification of the
  leaves, validation of rules accepts exactly the rules whose classes are disjoint, and no term
  that is not on the license list is approved.
\<close>

subsection \<open>Verdicts are ordered by severity\<close>

instantiation verdict :: linorder
begin

definition less_eq_verdict :: "verdict \<Rightarrow> verdict \<Rightarrow> bool" where
  "less_eq_verdict v w \<longleftrightarrow> severity v \<le> severity w"

definition less_verdict :: "verdict \<Rightarrow> verdict \<Rightarrow> bool" where
  "less_verdict v w \<longleftrightarrow> severity v < severity w"

instance
proof
  fix v w :: verdict
  show "v \<le> w \<Longrightarrow> w \<le> v \<Longrightarrow> v = w"
    by (cases v; cases w) (simp_all add: less_eq_verdict_def)
qed (auto simp: less_eq_verdict_def less_verdict_def)

end

lemma worse_le: "worse v w \<le> u \<longleftrightarrow> v \<le> u \<and> w \<le> u"
  by (auto simp: worse_def less_eq_verdict_def)

lemma better_le: "better v w \<le> u \<longleftrightarrow> v \<le> u \<or> w \<le> u"
  by (auto simp: better_def less_eq_verdict_def)


subsection \<open>The verdict of a tree\<close>

fun leaves :: "node \<Rightarrow> node list" where
  "leaves (And ns) = concat (map leaves ns)"
| "leaves (Or ns) = concat (map leaves ns)"
| "leaves n = [n]"

text \<open>\<open>holds p n\<close>: the formula \<open>n\<close> over its leaves, when \<open>p\<close> tells which leaves hold.\<close>

fun holds :: "(node \<Rightarrow> bool) \<Rightarrow> node \<Rightarrow> bool" where
  "holds p (And ns) = list_all (holds p) ns"
| "holds p (Or ns) = list_ex (holds p) ns"
| "holds p n = p n"


lemma evaluate_le:
  "wf_node l n \<Longrightarrow> fst (evaluate pol idx n tr) \<le> v \<longleftrightarrow> holds (\<lambda>x. classify_leaf pol idx x \<le> v) n"
  "list_all (wf_node l) ns \<Longrightarrow> fst (evaluate_all pol idx ns w tr) \<le> v \<longleftrightarrow>
     w \<le> v \<and> list_all (holds (\<lambda>x. classify_leaf pol idx x \<le> v)) ns"
  "list_all (wf_node l) ns \<Longrightarrow> b \<noteq> None \<or> ns \<noteq> [] \<Longrightarrow> fst (evaluate_any pol idx ns b tr) \<le> v \<longleftrightarrow>
     (\<exists>w. b = Some w \<and> w \<le> v) \<or> list_ex (holds (\<lambda>x. classify_leaf pol idx x \<le> v)) ns"
proof (induction pol idx n tr and pol idx ns w tr and pol idx ns b tr
    rule: evaluate_evaluate_all_evaluate_any.induct)
  case (1 pol idx ns tr)
  then show ?case by (simp add: less_eq_verdict_def)
next
  case (2 pol idx ns tr)
  then show ?case by (cases ns) auto
next
  case (5 pol idx n ns worst tr)
  then show ?case by (auto simp: worse_le better_le Let_def split: prod.splits option.splits)
next
  case (7 pol idx n ns best tr)
  then show ?case by (auto simp: worse_le better_le Let_def split: prod.splits option.splits)
qed (auto simp: worse_le better_le Let_def split: option.splits)

lemma evaluate_terms:
  "snd (snd (evaluate pol idx n tr)) =
     snd tr @ map (\<lambda>x. (node_string x, classify_leaf pol idx x)) (leaves n)"
  "snd (snd (evaluate_all pol idx ns w tr)) =
     snd tr @ map (\<lambda>x. (node_string x, classify_leaf pol idx x)) (concat (map leaves ns))"
  "snd (snd (evaluate_any pol idx ns b tr)) =
     snd tr @ map (\<lambda>x. (node_string x, classify_leaf pol idx x)) (concat (map leaves ns))"
  by (induction pol idx n tr and pol idx ns w tr and pol idx ns b tr
      rule: evaluate_evaluate_all_evaluate_any.induct)
    (auto simp: Let_def split: prod.splits)

subsection \<open>Validation of rules\<close>

definition canonical_set :: "licenses_if \<Rightarrow> rules \<Rightarrow> policy_class \<Rightarrow> string set" where
  "canonical_set l r c = {t'. \<exists>t \<in> set (class_terms r c). canonical_term l t = Inr t'}"

definition terms_valid :: "licenses_if \<Rightarrow> rules \<Rightarrow> policy_class \<Rightarrow> bool" where
  "terms_valid l r c \<longleftrightarrow> list_all (\<lambda>t. \<exists>t'. canonical_term l t = Inr t') (class_terms r c)"

lemma check_terms_ok:
  "(\<exists>seen'. check_terms l c ts seen = Inr seen') \<longleftrightarrow>
     (\<forall>t \<in> set ts. case canonical_term l t of
        Inl _ \<Rightarrow> False | Inr t' \<Rightarrow> seen t' = None \<or> seen t' = Some c)"
proof (induction ts arbitrary: seen)
  case (Cons t ts)
  show ?case
    by (cases "canonical_term l t"; cases "seen (projr (canonical_term l t))")
      (auto simp: Cons.IH split: sum.splits)
qed simp

lemma check_terms_seen:
  "check_terms l c ts seen = Inr seen' \<Longrightarrow>
     seen' t' = (if \<exists>t \<in> set ts. canonical_term l t = Inr t' then Some c else seen t')"
proof (induction ts arbitrary: seen)
  case (Cons t ts)
  from Cons.prems show ?case
    by (auto simp: Cons.IH split: sum.splits option.splits if_splits)
qed simp

lemma disjoint_insert_class:
  assumes "c \<notin> S"
  shows "(\<forall>x \<in> insert c S. V x \<and> A x \<inter> D = {} \<and> (\<forall>y \<in> insert c S. x \<noteq> y \<longrightarrow> A x \<inter> A y = {})) \<longleftrightarrow>
    V c \<and> A c \<inter> D = {} \<and>
    (\<forall>x \<in> S. V x \<and> A x \<inter> (D \<union> A c) = {} \<and> (\<forall>y \<in> S. x \<noteq> y \<longrightarrow> A x \<inter> A y = {}))"
proof -
  have neq: "x \<in> S \<Longrightarrow> (x = c) = False" "x \<in> S \<Longrightarrow> (c = x) = False" for x using assms by auto
  show ?thesis
    by (simp add: neq Int_Un_distrib Int_commute [of "A c"] ball_conj_distrib cong: ball_cong) argo
qed

lemma check_classes_ok:
  assumes "distinct cs" "\<And>t c. seen t = Some c \<Longrightarrow> c \<notin> set cs"
  shows "check_classes l r cs seen = None \<longleftrightarrow>
     (\<forall>c \<in> set cs. terms_valid l r c \<and> canonical_set l r c \<inter> dom seen = {} \<and>
        (\<forall>d \<in> set cs. c \<noteq> d \<longrightarrow> canonical_set l r c \<inter> canonical_set l r d = {}))"
  using assms
proof (induction cs arbitrary: seen)
  case (Cons c cs)
  have fresh: "seen t \<noteq> Some c" for t
    using Cons.prems(2) by auto
  have ok: "(\<exists>seen'. check_terms l c (class_terms r c) seen = Inr seen') \<longleftrightarrow>
      terms_valid l r c \<and> canonical_set l r c \<inter> dom seen = {}"
    unfolding check_terms_ok terms_valid_def canonical_set_def list_all_iff disjoint_iff dom_def
    by (simp add: fresh split: sum.split) (metis Inr_not_Inl old.sum.exhaust sum.inject(2))
  show ?case
  proof (cases "check_terms l c (class_terms r c) seen")
    case (Inl e)
    with ok have "\<not> (terms_valid l r c \<and> canonical_set l r c \<inter> dom seen = {})" by simp
    with Inl show ?thesis by auto
  next
    case (Inr seen')
    with ok have "terms_valid l r c \<and> canonical_set l r c \<inter> dom seen = {}" by blast
    moreover have dom: "dom seen' = dom seen \<union> canonical_set l r c"
      using check_terms_seen [OF Inr] by (auto simp: canonical_set_def dom_def split: if_splits)
    moreover have "check_classes l r cs seen' = None \<longleftrightarrow>
      (\<forall>c \<in> set cs. terms_valid l r c \<and> canonical_set l r c \<inter> dom seen' = {} \<and>
        (\<forall>d \<in> set cs. c \<noteq> d \<longrightarrow> canonical_set l r c \<inter> canonical_set l r d = {}))"
    proof (rule Cons.IH)
      show "c' \<notin> set cs" if "seen' t = Some c'" for t c'
        using that Cons.prems check_terms_seen [OF Inr, of t] by (auto split: if_splits)
    qed (use Cons.prems in simp)
    moreover have "c \<notin> set cs" using Cons.prems(1) by simp
    ultimately show ?thesis
      unfolding list.set disjoint_insert_class [OF \<open>c \<notin> set cs\<close>] by (simp add: Inr)
  qed
qed simp

subsection \<open>Terms that are not on the list\<close>












subsection \<open>The index of a policy\<close>




subsection \<open>The properties\<close>

text \<open>
  C4 (evaluation).  For every verdict \<open>v\<close>, a well-formed expression is evaluated to \<open>v\<close> or better
  exactly when the expression, read as a propositional formula (\<open>AND\<close> needs every operand, \<open>OR\<close>
  one of them), holds of its leaves that are classified \<open>v\<close> or better.  In particular it is
  approved exactly when its approved leaves satisfy it.  The reported terms are its leaves, in
  written order, each with its classification.
\<close>

theorem evaluate_is_formula:
  assumes "wf_node l n"
  shows "(\<forall>v. verdict (evaluate_expression l pol (Some n)) \<le> v \<longleftrightarrow>
      holds (\<lambda>x. classify_leaf pol (rule_index_of l pol) x \<le> v) n) \<and>
    term_results (evaluate_expression l pol (Some n)) =
      map (\<lambda>x. (node_string x, classify_leaf pol (rule_index_of l pol) x)) (leaves n)"
  using evaluate_le(1) [OF assms, of pol "rule_index_of l pol" "([], [])"]
    evaluate_terms(1) [of pol "rule_index_of l pol" n "([], [])"]
  by (cases "evaluate pol (rule_index_of l pol) n ([], [])") (simp add: evaluate_expression_def)

text \<open>The policy and the list of the witnesses: \<open>MIT\<close> is approved, \<open>ISC\<close> prohibited.\<close>

definition sample_policy :: policy where
  "sample_policy =
     \<lparr>policy_id = 1, policy_name = ''p'', policy_version = 1, policy_kind = ''organization'',
      policy_rules = \<lparr>approved = [''MIT''], review_required = [], prohibited = [''ISC''],
        allow_or_later = False\<rparr>,
      unknown_handling = VerdictUnknown, policy_description = [], policy_created_by = [],
      policy_active = True\<rparr>"

lemma sample_wf: "wf_node (loaded sample_lines []) sample_node"
  by code_simp

theorem evaluate_is_formula_witness:
  "verdict (evaluate_expression (loaded sample_lines []) sample_policy (Some sample_node)) \<le> VerdictApproved \<longleftrightarrow>
   holds (\<lambda>x. classify_leaf sample_policy (rule_index_of (loaded sample_lines []) sample_policy) x
     \<le> VerdictApproved) sample_node"
  using evaluate_is_formula [OF sample_wf, of sample_policy] by blast

text \<open>
  Validation of rules.  Whatever the order in which the run visits the three classes,
  \<open>ParseRules\<close> accepts the decoded rules exactly when every term is valid and no two classes have
  a canonical term in common; accepted rules are returned unchanged.
\<close>

theorem parse_rules_accepts:
  assumes "set order = {ClassApproved, ClassReviewRequired, ClassProhibited}" "distinct order"
  shows "(\<exists>r'. parse_rules l order r = Inr r') \<longleftrightarrow>
    (\<forall>c. terms_valid l r c \<and> (\<forall>d. c \<noteq> d \<longrightarrow> canonical_set l r c \<inter> canonical_set l r d = {}))"
proof -
  have all: "c \<in> set order" for c
    using assms(1) by (cases c) auto
  show ?thesis
    using check_classes_ok [OF assms(2), of Map.empty l r] all
    by (auto simp: parse_rules_def split: option.splits)
qed

theorem parse_rules_accepts_witness:
  "(\<exists>r'. parse_rules (loaded [] []) [ClassApproved, ClassReviewRequired, ClassProhibited]
      \<lparr>approved = [], review_required = [''*''], prohibited = [], allow_or_later = False\<rparr> = Inr r') \<longleftrightarrow>
   (\<forall>c. terms_valid (loaded [] [])
      \<lparr>approved = [], review_required = [''*''], prohibited = [], allow_or_later = False\<rparr> c \<and>
      (\<forall>d. c \<noteq> d \<longrightarrow>
        canonical_set (loaded [] [])
          \<lparr>approved = [], review_required = [''*''], prohibited = [], allow_or_later = False\<rparr> c \<inter>
        canonical_set (loaded [] [])
          \<lparr>approved = [], review_required = [''*''], prohibited = [], allow_or_later = False\<rparr> d = {}))"
  by (rule parse_rules_accepts) auto








text \<open>
  Branches of nested disjunctions.  The acceptable branches of an explanation are collected
  from every disjunction of the tree, also below a prohibited conjunction: here the expression is
  prohibited, and its explanation says that it is acceptable by choosing \<open>MIT\<close>.
\<close>

theorem nested_branch_reported:
  "let n = Or [And [License ''ISC'' False True False,
                    Or [License ''MIT'' False True False, License ''ISC'' False True False]],
               License ''ISC'' False True False];
       res = evaluate_expression (loaded sample_lines []) sample_policy (Some n)
   in verdict res = VerdictProhibited \<and> acceptable_branches res = [''MIT''] \<and>
      has_suffix (explanation res)
        ''; acceptable only by choosing MIT (a recorded choice is a separate decision)''"
  by code_simp

text \<open>
  Validation compares references with regard to case, the index
  without: rules that prohibit \<open>LicenseRef-X\<close> and approve \<open>licenseref-x\<close> are accepted, and
  approve the reference.
\<close>

theorem reference_case_collision:
  "let r = \<lparr>approved = [''licenseref-x''], review_required = [], prohibited = [''LicenseRef-X''],
            allow_or_later = False\<rparr>;
       l = loaded [] []
   in parse_rules l [ClassApproved, ClassReviewRequired, ClassProhibited] r = Inr r \<and>
      verdict (evaluate_expression l (sample_policy\<lparr>policy_rules := r\<rparr>)
        (Some (Reference ''LicenseRef-X''))) = VerdictApproved"
  by code_simp

text \<open>
  Exceptions of unknown licenses.  Under a policy that prohibits unknown licensing, an
  unknown license is prohibited, but the same license \<open>WITH\<close> a known exception is only sent to
  review.
\<close>

theorem with_ignores_unknown_base:
  "let l = loaded [''MIT''] [''E'']; pol = sample_policy\<lparr>unknown_handling := VerdictProhibited\<rparr>;
       evaluated = (\<lambda>r. verdict (evaluate_expression l pol (expression (parse_with r l))))
   in evaluated ''X'' = VerdictProhibited \<and> evaluated ''X WITH E'' = VerdictReviewRequired"
  by code_simp

end
