(* ===== verification/Index_Queue.thy ===== *)
theory Index_Queue
  imports Go_Prelude "HOL-Library.Product_Lexorder"
begin

text \<open>
  The index job queue: \<open>internal/postgres/queue.go\<close>.  The state is the part of the database the
  queries touch (tables of \<open>internal/postgres/migrations\<close>).  A function of the store is one or
  more transactions; a transaction is atomic, and an error rolls it back.  \<open>now()\<close> is the argument
  \<open>now\<close> (microseconds; constant in a transaction), \<open>random()\<close> times the back-off cap is the
  argument \<open>jitter\<close>.  Columns that no query of the file reads (times of creation, \<open>error_message\<close>,
  the attempt counters of graph jobs) are left out; \<open>skip locked\<close> has no effect on transactions that run one after the other.
\<close>

type_synonym micros = int

subsection \<open>Tables\<close>

record installation =
  inst_id :: int
  inst_github :: int
  inst_status :: string

record repo =
  r_id :: int
  r_github :: int
  r_installation :: int
  r_owner :: string
  r_name :: string
  default_branch :: string
  archived :: bool
  enabled :: bool
  desired_sha :: "string option"
  indexed_sha :: "string option"
  r_status :: string
  r_error :: "string option"
  last_indexed_at :: "micros option"

datatype job_state = Queued | Running | Succeeded | Failed | Superseded

record index_job =
  j_id :: int
  j_repository :: int
  target_ref :: string
  target_sha :: string
  j_reason :: string
  priority :: int
  max_attempts :: int
  j_state :: job_state
  attempt :: int
  run_after :: micros
  lease_owner :: "string option"
  lease_expires :: "micros option"
  j_error :: "string option"
  j_updated :: micros

record graph_job =
  g_id :: int
  g_repository :: int
  g_sha :: string
  g_state :: job_state
  g_owner :: "string option"
  g_expires :: "micros option"
  g_error :: "string option"

record queue_db =
  installations :: "installation list"
  repositories :: "repo list"
  index_jobs :: "index_job list"
  graph_jobs :: "graph_job list"
  deliveries :: "(int \<times> micros) list"
  next_index_job :: int
  next_graph_job :: int

datatype queue_error =
    ErrNoJob | ErrLeaseLost | ErrNoRows | ErrScanNull | ErrConstraint | ErrInvalidArtifact | ErrGraph

text \<open>The index request, with the fields of the Go struct.\<close>

record index_request =
  q_repository :: int
  q_sha :: string
  q_ref :: string
  q_reason :: string
  q_priority :: int
  q_max :: int

subsection \<open>Constraints\<close>

definition is_sha :: "string \<Rightarrow> bool" where
  "is_sha s \<longleftrightarrow> length s = 40 \<and>
     list_all (\<lambda>c. is_digit c \<or> (97 \<le> byte c \<and> byte c \<le> 102)) s"

definition job_check :: "index_job \<Rightarrow> bool" where
  "job_check j \<longleftrightarrow> is_sha (target_sha j) \<and> 0 \<le> attempt j \<and> attempt j \<le> 5 \<and>
     1 \<le> max_attempts j \<and> max_attempts j \<le> 5 \<and>
     ((j_state j = Running) \<longleftrightarrow> (lease_owner j \<noteq> None \<and> lease_expires j \<noteq> None)) \<and>
     ((j_state j \<noteq> Running) \<longrightarrow> (lease_owner j = None \<and> lease_expires j = None))"

definition graph_check :: "graph_job \<Rightarrow> bool" where
  "graph_check g \<longleftrightarrow> is_sha (g_sha g) \<and>
     (if g_state g = Running then g_owner g \<noteq> None
      else g_owner g = None \<and> g_expires g = None)"

definition one_per_repository :: "job_state \<Rightarrow> index_job list \<Rightarrow> bool" where
  "one_per_repository st js \<longleftrightarrow> distinct (map j_repository (filter (\<lambda>j. j_state j = st) js))"

definition one_graph_per_repository :: "job_state \<Rightarrow> graph_job list \<Rightarrow> bool" where
  "one_graph_per_repository st gs \<longleftrightarrow> distinct (map g_repository (filter (\<lambda>g. g_state g = st) gs))"

definition constraints :: "queue_db \<Rightarrow> bool" where
  "constraints db \<longleftrightarrow>
     list_all job_check (index_jobs db) \<and> list_all graph_check (graph_jobs db) \<and>
     one_per_repository Queued (index_jobs db) \<and> one_per_repository Running (index_jobs db) \<and>
     one_graph_per_repository Queued (graph_jobs db) \<and> one_graph_per_repository Running (graph_jobs db) \<and>
     distinct (map r_id (repositories db)) \<and>
     list_all (\<lambda>r. case desired_sha r of None \<Rightarrow> True | Some s \<Rightarrow> is_sha s) (repositories db)"

text \<open>A statement that would violate a constraint fails.\<close>

definition checked :: "queue_db \<Rightarrow> queue_error + queue_db" where
  "checked db = (if constraints db then Inr db else Inl ErrConstraint)"

definition and_then :: "'e + 'a \<Rightarrow> ('a \<Rightarrow> 'e + 'b) \<Rightarrow> 'e + 'b" where
  "and_then r f = (case r of Inl e \<Rightarrow> Inl e | Inr x \<Rightarrow> f x)"

text \<open>\<open>commit\<close>: the result of a transaction, and the database after it.\<close>

definition commit :: "queue_db \<Rightarrow> queue_error + ('a \<times> queue_db) \<Rightarrow> (queue_error + 'a) \<times> queue_db" where
  "commit db r = (case r of Inl e \<Rightarrow> (Inl e, db) | Inr (x, db') \<Rightarrow> (Inr x, db'))"

subsection \<open>Queries\<close>

definition find_repo :: "queue_db \<Rightarrow> int \<Rightarrow> repo option" where
  "find_repo db i = find (\<lambda>r. r_id r = i) (repositories db)"

definition find_installation :: "queue_db \<Rightarrow> int \<Rightarrow> installation option" where
  "find_installation db i = find (\<lambda>x. inst_id x = i) (installations db)"

text \<open>The join of a job with its repository and installation.\<close>

definition owner_rows :: "queue_db \<Rightarrow> index_job \<Rightarrow> (repo \<times> installation) option" where
  "owner_rows db j =
     (case find_repo db (j_repository j) of
        None \<Rightarrow> None
      | Some r \<Rightarrow>
          (case find_installation db (r_installation r) of None \<Rightarrow> None | Some i \<Rightarrow> Some (r, i)))"

definition available :: "repo \<Rightarrow> installation \<Rightarrow> bool" where
  "available r i \<longleftrightarrow> enabled r \<and> \<not> archived r \<and> inst_status i = ''active''"

definition coalesce :: "string option \<Rightarrow> string" where
  "coalesce s = (case s of None \<Rightarrow> [] | Some x \<Rightarrow> x)"

definition live_lease :: "micros \<Rightarrow> string \<Rightarrow> index_job \<Rightarrow> bool" where
  "live_lease now owner j \<longleftrightarrow> j_state j = Running \<and> lease_owner j = Some owner \<and>
     (case lease_expires j of None \<Rightarrow> False | Some e \<Rightarrow> e > now)"

text \<open>The row a worker holds: the job, its repository and its installation.\<close>

definition leased :: "micros \<Rightarrow> int \<Rightarrow> string \<Rightarrow> queue_db \<Rightarrow> (index_job \<times> repo \<times> installation) option" where
  "leased now i owner db =
     (case find (\<lambda>j. j_id j = i \<and> live_lease now owner j) (index_jobs db) of
        None \<Rightarrow> None
      | Some j \<Rightarrow> (case owner_rows db j of None \<Rightarrow> None | Some (r, inst) \<Rightarrow> Some (j, r, inst)))"

subsection \<open>Updates\<close>

definition update_jobs :: "(index_job \<Rightarrow> bool) \<Rightarrow> (index_job \<Rightarrow> index_job) \<Rightarrow> queue_db \<Rightarrow> queue_db" where
  "update_jobs p f db = db\<lparr>index_jobs := map (\<lambda>j. if p j then f j else j) (index_jobs db)\<rparr>"

definition update_graphs :: "(graph_job \<Rightarrow> bool) \<Rightarrow> (graph_job \<Rightarrow> graph_job) \<Rightarrow> queue_db \<Rightarrow> queue_db" where
  "update_graphs p f db = db\<lparr>graph_jobs := map (\<lambda>g. if p g then f g else g) (graph_jobs db)\<rparr>"

definition update_repos :: "(repo \<Rightarrow> bool) \<Rightarrow> (repo \<Rightarrow> repo) \<Rightarrow> queue_db \<Rightarrow> queue_db" where
  "update_repos p f db = db\<lparr>repositories := map (\<lambda>r. if p r then f r else r) (repositories db)\<rparr>"

definition active_graph :: "graph_job \<Rightarrow> bool" where
  "active_graph g \<longleftrightarrow> g_state g = Queued \<or> g_state g = Running"

definition lease_time :: micros where
  "lease_time = 2 * 60 * 1000000"

subsection \<open>Enqueueing\<close>

definition with_defaults :: "string \<Rightarrow> index_request \<Rightarrow> index_request" where
  "with_defaults branch q =
     q\<lparr>q_ref := (if q_ref q = [] then ''refs/heads/'' @ branch else q_ref q),
       q_reason := (if q_reason q = [] then ''reconcile'' else q_reason q),
       q_max := (if q_max q \<le> 0 \<or> q_max q > 5 then 5 else q_max q)\<rparr>"

definition new_job :: "micros \<Rightarrow> index_request \<Rightarrow> int \<Rightarrow> index_job" where
  "new_job now q i =
     \<lparr>j_id = i, j_repository = q_repository q, target_ref = q_ref q, target_sha = q_sha q,
      j_reason = q_reason q, priority = q_priority q, max_attempts = q_max q, j_state = Queued,
      attempt = 0, run_after = now, lease_owner = None, lease_expires = None, j_error = None,
      j_updated = now\<rparr>"

definition enqueue_index_tx :: "micros \<Rightarrow> index_request \<Rightarrow> queue_db \<Rightarrow> queue_error + (unit \<times> queue_db)" where
  "enqueue_index_tx now q0 db =
     (case find_repo db (q_repository q0) of
        None \<Rightarrow> Inl ErrNoRows
      | Some r \<Rightarrow>
          let q = with_defaults (default_branch r) q0;
              same = (\<lambda>j. j_repository j = q_repository q)
          in and_then (checked (update_repos (\<lambda>x. r_id x = q_repository q)
               (\<lambda>x. x\<lparr>desired_sha := Some (q_sha q), r_status := ''pending'', r_error := None\<rparr>) db))
             (\<lambda>db1.
               if desired_sha r = Some (q_sha q) \<and>
                  list_ex (\<lambda>j. same j \<and> (j_state j = Queued \<or> j_state j = Running) \<and>
                               target_sha j = q_sha q) (index_jobs db1)
               then Inr ((), db1)
               else let db2 = db1\<lparr>index_jobs :=
                        filter (\<lambda>j. \<not> (same j \<and> j_state j = Queued)) (index_jobs db1)\<rparr>
                    in and_then (checked (db2\<lparr>index_jobs := index_jobs db2 @ [new_job now q (next_index_job db2)],
                                             next_index_job := next_index_job db2 + 1\<rparr>))
                       (\<lambda>db3. Inr ((), db3))))"

definition enqueue_index :: "micros \<Rightarrow> index_request \<Rightarrow> queue_db \<Rightarrow> (queue_error + unit) \<times> queue_db" where
  "enqueue_index now q db = commit db (enqueue_index_tx now q db)"

definition enqueue_admin_index :: "micros \<Rightarrow> int \<Rightarrow> string \<Rightarrow> string \<Rightarrow> string \<Rightarrow> queue_db \<Rightarrow>
    (queue_error + unit) \<times> queue_db" where
  "enqueue_admin_index now repository sha ref reason =
     enqueue_index now \<lparr>q_repository = repository, q_sha = sha, q_ref = ref, q_reason = reason,
       q_priority = 0, q_max = 0\<rparr>"

subsection \<open>Claiming and renewing\<close>

definition claimable :: "micros \<Rightarrow> queue_db \<Rightarrow> index_job \<Rightarrow> bool" where
  "claimable now db j \<longleftrightarrow>
     j_state j = Queued \<and> run_after j \<le> now \<and>
     (case owner_rows db j of None \<Rightarrow> False | Some (r, i) \<Rightarrow> available r i) \<and>
     \<not> list_ex (\<lambda>k. j_repository k = j_repository j \<and> j_state k = Running) (index_jobs db)"

definition claim_order :: "index_job \<Rightarrow> int \<times> micros \<times> int" where
  "claim_order j = (- priority j, run_after j, j_id j)"

definition claim_row :: "micros \<Rightarrow> string \<Rightarrow> index_job \<Rightarrow> index_job" where
  "claim_row now owner j =
     j\<lparr>j_state := Running, attempt := attempt j + 1, lease_owner := Some owner,
       lease_expires := Some (now + lease_time), j_updated := now\<rparr>"

definition claim_index :: "micros \<Rightarrow> string \<Rightarrow> queue_db \<Rightarrow> (queue_error + index_job) \<times> queue_db" where
  "claim_index now owner db = commit db
     (case sort_key claim_order (filter (claimable now db) (index_jobs db)) of
        [] \<Rightarrow> Inl ErrNoJob
      | j # _ \<Rightarrow>
          and_then (checked (update_jobs (\<lambda>k. j_id k = j_id j) (claim_row now owner) db))
            (\<lambda>db'. Inr (claim_row now owner j, db')))"

definition renew_lease :: "micros \<Rightarrow> int \<Rightarrow> string \<Rightarrow> queue_db \<Rightarrow> (queue_error + unit) \<times> queue_db" where
  "renew_lease now i owner db = commit db
     (let p = (\<lambda>j. j_id j = i \<and> live_lease now owner j) in
      and_then (checked (update_jobs p (\<lambda>j. j\<lparr>lease_expires := Some (now + lease_time), j_updated := now\<rparr>) db))
        (\<lambda>db'. if list_ex p (index_jobs db) then Inr ((), db') else Inl ErrLeaseLost))"

subsection \<open>Publication\<close>

definition enqueue_graph :: "int \<Rightarrow> string \<Rightarrow> string \<Rightarrow> queue_db \<Rightarrow> queue_error + queue_db" where
  "enqueue_graph repository sha owner db =
     and_then (checked (update_graphs (\<lambda>g. g_repository g = repository \<and> active_graph g \<and> g_sha g \<noteq> sha)
         (\<lambda>g. g\<lparr>g_state := Superseded, g_owner := None, g_expires := None\<rparr>) db))
     (\<lambda>db1.
       let p = (\<lambda>g. g_repository g = repository \<and> g_sha g = sha \<and> active_graph g) in
       and_then (checked (update_graphs p
           (\<lambda>g. g\<lparr>g_state := Running, g_owner := Some owner, g_expires := None, g_error := None\<rparr>) db1))
       (\<lambda>db2.
         if list_ex p (graph_jobs db1) then Inr db2
         else checked (db2\<lparr>graph_jobs := graph_jobs db2 @
                  [\<lparr>g_id = next_graph_job db2, g_repository = repository, g_sha = sha, g_state = Running,
                    g_owner = Some owner, g_expires = None, g_error = None\<rparr>],
                next_graph_job := next_graph_job db2 + 1\<rparr>)))"

definition publish_index :: "micros \<Rightarrow> int \<Rightarrow> string \<Rightarrow> queue_db \<Rightarrow> (queue_error + unit) \<times> queue_db" where
  "publish_index now i owner db = commit db
     (case leased now i owner db of
        None \<Rightarrow> Inl ErrLeaseLost
      | Some (j, r, inst) \<Rightarrow>
          if available r inst \<and> coalesce (desired_sha r) = target_sha j then
            and_then (checked (update_repos (\<lambda>x. r_id x = r_id r)
                (\<lambda>x. x\<lparr>indexed_sha := Some (target_sha j), r_status := ''ready'', r_error := None,
                       last_indexed_at := Some now\<rparr>) db))
            (\<lambda>db1. and_then (enqueue_graph (r_id r) (target_sha j) owner db1) (\<lambda>db2. Inr ((), db2)))
          else Inr ((), db))"

subsection \<open>Completion\<close>

text \<open>
  What the graph tables need from an artifact: the repository and commit it is for.  Its
  validation and the replacement of the stored graph are arguments of \<open>complete_index\<close>.
\<close>

record artifact =
  art_repository :: int
  art_commit :: string

record enrichment =
  e_artifact :: "artifact option"
  e_error :: string

definition close_graphs :: "int \<Rightarrow> string \<Rightarrow> job_state \<Rightarrow> string option \<Rightarrow> queue_db \<Rightarrow> queue_db" where
  "close_graphs repository sha st err =
     update_graphs (\<lambda>g. g_repository g = repository \<and> g_sha g = sha \<and> active_graph g)
       (\<lambda>g. g\<lparr>g_state := st, g_owner := None, g_expires := None, g_error := err\<rparr>)"

definition close_job :: "micros \<Rightarrow> int \<Rightarrow> job_state \<Rightarrow> string option \<Rightarrow> queue_db \<Rightarrow> queue_db" where
  "close_job now i st err =
     update_jobs (\<lambda>j. j_id j = i)
       (\<lambda>j. j\<lparr>j_state := st, lease_owner := None, lease_expires := None, j_error := err, j_updated := now\<rparr>)"

definition nullif :: "string \<Rightarrow> string option" where
  "nullif s = (if s = [] then None else Some s)"

definition finish_graph :: "(artifact \<Rightarrow> bool) \<Rightarrow> (artifact \<Rightarrow> bool) \<Rightarrow> int \<Rightarrow> string \<Rightarrow> enrichment option \<Rightarrow>
    queue_error + (job_state \<times> string)" where
  "finish_graph valid_artifact replace_graph repository sha en =
     (let st = (case en of None \<Rightarrow> \<lparr>e_artifact = None, e_error = ''enrichment_disabled''\<rparr> | Some s \<Rightarrow> s) in
      case e_artifact st of
        Some a \<Rightarrow>
          if art_repository a \<noteq> repository \<or> art_commit a \<noteq> sha \<or> \<not> valid_artifact a
          then Inl ErrInvalidArtifact
          else if \<not> replace_graph a then Inl ErrGraph
          else Inr (Succeeded, [])
      | None \<Rightarrow> Inr (Failed, if e_error st = [] then ''enrichment_failed'' else e_error st))"

definition complete_tx :: "(artifact \<Rightarrow> bool) \<Rightarrow> (artifact \<Rightarrow> bool) \<Rightarrow> micros \<Rightarrow> int \<Rightarrow> string \<Rightarrow>
    enrichment option \<Rightarrow> queue_db \<Rightarrow> queue_error + (unit \<times> queue_db)" where
  "complete_tx valid_artifact replace_graph now i owner en db =
     (case leased now i owner db of
        None \<Rightarrow> Inl ErrLeaseLost
      | Some (j, r, inst) \<Rightarrow>
          if coalesce (indexed_sha r) \<noteq> target_sha j then
            let code = (if \<not> available r inst then ''repository_unavailable''
                        else if coalesce (desired_sha r) \<noteq> target_sha j then ''superseded''
                        else ''stale_indexed_sha'')
            in and_then (checked (close_graphs (r_id r) (target_sha j) Superseded (Some code) db))
               (\<lambda>db1. and_then (checked (close_job now i Superseded (Some code) db1)) (\<lambda>db2. Inr ((), db2)))
          else
            and_then (finish_graph valid_artifact replace_graph (r_id r) (target_sha j) en)
            (\<lambda>(gst, gerr).
              and_then (checked (close_graphs (r_id r) (target_sha j) gst (nullif gerr) db))
              (\<lambda>db1.
                let (st, code) =
                      (if \<not> available r inst then (Superseded, ''repository_unavailable'')
                       else if coalesce (desired_sha r) = target_sha j then (Succeeded, [])
                       else (Superseded, ''superseded''))
                in and_then (checked (close_job now i st (nullif code) db1)) (\<lambda>db2. Inr ((), db2)))))"

definition inline_published :: "int \<Rightarrow> string \<Rightarrow> queue_db \<Rightarrow> bool" where
  "inline_published i owner db \<longleftrightarrow>
     list_ex (\<lambda>j. j_id j = i \<and>
       list_ex (\<lambda>g. g_repository g = j_repository j \<and> g_sha g = target_sha j \<and> g_state g = Running \<and>
                    g_owner g = Some owner \<and> g_expires g = None) (graph_jobs db)) (index_jobs db)"

text \<open>\<open>CompleteIndex\<close> is two transactions; \<open>now\<close> and \<open>now'\<close> are their times.\<close>

definition complete_index :: "(artifact \<Rightarrow> bool) \<Rightarrow> (artifact \<Rightarrow> bool) \<Rightarrow> micros \<Rightarrow> micros \<Rightarrow> int \<Rightarrow> string \<Rightarrow>
    enrichment option \<Rightarrow> queue_db \<Rightarrow> (queue_error + unit) \<times> queue_db" where
  "complete_index valid_artifact replace_graph now now' i owner en db =
     (case (if en \<noteq> None \<and> inline_published i owner db then (Inr (), db)
            else publish_index now i owner db) of
        (Inl e, db1) \<Rightarrow> (Inl e, db1)
      | (Inr _, db1) \<Rightarrow> commit db1 (complete_tx valid_artifact replace_graph now' i owner en db1))"

subsection \<open>Failure and expiry\<close>

definition backoff_cap :: "int \<Rightarrow> micros" where
  "backoff_cap n = min (5 * 2 ^ nat (n - 1)) 300 * 1000000"

definition finish_inline_graph :: "int \<Rightarrow> string \<Rightarrow> job_state \<Rightarrow> string \<Rightarrow> queue_db \<Rightarrow> queue_db" where
  "finish_inline_graph repository sha st err =
     update_graphs (\<lambda>g. g_repository g = repository \<and> g_sha g = sha \<and> g_state g = Running \<and> g_expires g = None)
       (\<lambda>g. g\<lparr>g_state := st, g_owner := None, g_expires := None, g_error := Some err\<rparr>)"

definition release_job :: "micros \<Rightarrow> (micros \<Rightarrow> micros) \<Rightarrow> int \<Rightarrow> job_state \<Rightarrow> string \<Rightarrow> queue_db \<Rightarrow> queue_db" where
  "release_job now jitter i st err =
     update_jobs (\<lambda>j. j_id j = i)
       (\<lambda>j. j\<lparr>j_state := st, lease_owner := None, lease_expires := None, j_error := Some err,
              run_after := (if st = Queued then now + jitter (backoff_cap (attempt j)) else run_after j),
              j_updated := now\<rparr>)"

definition failure_state :: "bool \<Rightarrow> bool \<Rightarrow> index_job \<Rightarrow> string \<Rightarrow> job_state" where
  "failure_state avail retry j desired =
     (if \<not> avail then Superseded
      else if desired \<noteq> target_sha j then Superseded
      else if retry \<and> attempt j < max_attempts j then Queued
      else Failed)"

text \<open>The statements that \<open>finishFailure\<close> and the loop of \<open>ReapExpired\<close> share.\<close>

definition end_job :: "micros \<Rightarrow> (micros \<Rightarrow> micros) \<Rightarrow> index_job \<Rightarrow> int \<Rightarrow> job_state \<Rightarrow> string \<Rightarrow>
    queue_db \<Rightarrow> queue_error + queue_db" where
  "end_job now jitter j repository st code db =
     and_then (checked (release_job now jitter (j_id j) st code db))
     (\<lambda>db1. and_then (if st \<noteq> Queued then checked (finish_inline_graph repository (target_sha j) st code db1)
                      else Inr db1)
     (\<lambda>db2. if st = Failed
            then checked (update_repos (\<lambda>x. r_id x = repository \<and> enabled x)
                   (\<lambda>x. x\<lparr>r_status := ''failed'', r_error := Some code\<rparr>) db2)
            else Inr db2))"

definition fail_index :: "micros \<Rightarrow> (micros \<Rightarrow> micros) \<Rightarrow> int \<Rightarrow> string \<Rightarrow> string \<Rightarrow> bool \<Rightarrow> queue_db \<Rightarrow>
    (queue_error + unit) \<times> queue_db" where
  "fail_index now jitter i owner code retry db = commit db
     (case leased now i owner db of
        None \<Rightarrow> Inl ErrLeaseLost
      | Some (j, r, inst) \<Rightarrow>
          (case desired_sha r of
             None \<Rightarrow> Inl ErrScanNull
           | Some desired \<Rightarrow>
               let st = failure_state (available r inst) retry j desired;
                   code' = (if \<not> available r inst then ''repository_unavailable'' else code)
               in and_then (end_job now jitter j (r_id r) st code' db) (\<lambda>db'. Inr ((), db'))))"

definition expired :: "micros \<Rightarrow> index_job \<Rightarrow> bool" where
  "expired now j \<longleftrightarrow> j_state j = Running \<and> (case lease_expires j of None \<Rightarrow> False | Some e \<Rightarrow> e \<le> now)"

definition reap_order :: "index_job \<Rightarrow> micros \<times> int" where
  "reap_order j = ((case lease_expires j of None \<Rightarrow> 0 | Some e \<Rightarrow> e), j_id j)"

definition expired_jobs :: "micros \<Rightarrow> nat \<Rightarrow> queue_db \<Rightarrow> (index_job \<times> repo \<times> installation) list" where
  "expired_jobs now n db =
     take n (concat (map (\<lambda>j. case owner_rows db j of None \<Rightarrow> [] | Some (r, i) \<Rightarrow> [(j, r, i)])
       (sort_key reap_order (filter (expired now) (index_jobs db)))))"

fun reap_loop :: "micros \<Rightarrow> (micros \<Rightarrow> micros) \<Rightarrow> (index_job \<times> repo \<times> installation) list \<Rightarrow> queue_db \<Rightarrow>
    queue_error + queue_db" where
  "reap_loop now jitter [] db = Inr db"
| "reap_loop now jitter ((j, r, inst) # jobs) db =
     (let st = failure_state (available r inst) True j (coalesce (desired_sha r));
          code = (if \<not> available r inst then ''repository_unavailable'' else ''lease_expired'')
      in and_then (end_job now jitter j (r_id r) st code db) (reap_loop now jitter jobs))"

definition reap_expired :: "micros \<Rightarrow> (micros \<Rightarrow> micros) \<Rightarrow> nat \<Rightarrow> queue_db \<Rightarrow> (queue_error + nat) \<times> queue_db" where
  "reap_expired now jitter n db = commit db
     (let jobs = expired_jobs now n db in
      if list_ex (\<lambda>(j, r, i). desired_sha r = None) jobs then Inl ErrScanNull
      else and_then (reap_loop now jitter jobs db) (\<lambda>db'. Inr (length jobs, db')))"

subsection \<open>Administration\<close>

definition in_scope :: "int \<Rightarrow> int list \<Rightarrow> repo \<Rightarrow> installation \<Rightarrow> bool" where
  "in_scope installation ids r i \<longleftrightarrow>
     installation = 0 \<and> ids = [] \<or>
     (installation = 0 \<or> inst_github i = installation) \<and> r_github r \<in> set ids"

definition retryable :: "int \<Rightarrow> int list \<Rightarrow> int \<Rightarrow> queue_db \<Rightarrow> index_job \<Rightarrow> bool" where
  "retryable installation ids i db j \<longleftrightarrow>
     j_id j = i \<and> j_state j = Failed \<and>
     (case owner_rows db j of
        None \<Rightarrow> False
      | Some (r, inst) \<Rightarrow> desired_sha r = Some (target_sha j) \<and> available r inst \<and> in_scope installation ids r inst)"

definition retry_admin_job :: "micros \<Rightarrow> int \<Rightarrow> int list \<Rightarrow> int \<Rightarrow> queue_db \<Rightarrow> (queue_error + unit) \<times> queue_db" where
  "retry_admin_job now installation ids i db = commit db
     (let p = retryable installation ids i db in
      and_then (checked (update_jobs p
          (\<lambda>j. j\<lparr>j_state := Queued, run_after := now, lease_owner := None, lease_expires := None,
                 j_error := None, attempt := 0, j_updated := now\<rparr>) db))
        (\<lambda>db'. if list_ex p (index_jobs db) then Inr ((), db') else Inl ErrNoRows))"

text \<open>One page of the job list: the rows after the cursor and whether there are more.\<close>

definition admin_jobs :: "int \<Rightarrow> int list \<Rightarrow> nat \<Rightarrow> (micros \<times> int) option \<Rightarrow> queue_db \<Rightarrow> index_job list \<times> bool" where
  "admin_jobs installation ids n cursor db =
     (let visible = (\<lambda>j. case owner_rows db j of
              None \<Rightarrow> False
            | Some (r, i) \<Rightarrow>
                (installation = 0 \<and> ids = [] \<and> available r i \<or>
                 (installation = 0 \<or> inst_github i = installation) \<and> r_github r \<in> set ids) \<and>
                (case cursor of None \<Rightarrow> True | Some (u, c) \<Rightarrow> (j_updated j, j_id j) < (u, c)));
          items = take (n + 1) (rev (sort_key (\<lambda>j. (j_updated j, j_id j)) (filter visible (index_jobs db))))
      in (take n items, length items > n))"

definition active_job_ids :: "micros \<Rightarrow> queue_db \<Rightarrow> int set" where
  "active_job_ids now db =
     set (map j_id (filter (\<lambda>j. j_state j = Running \<and>
       (case lease_expires j of None \<Rightarrow> False | Some e \<Rightarrow> e > now)) (index_jobs db)))"

definition queue_depth :: "queue_db \<Rightarrow> job_state \<Rightarrow> nat" where
  "queue_depth db st = length (filter (\<lambda>j. j_state j = st) (index_jobs db))"

definition terminal :: "index_job \<Rightarrow> bool" where
  "terminal j \<longleftrightarrow> j_state j = Succeeded \<or> j_state j = Failed \<or> j_state j = Superseded"

text \<open>\<open>row_number()\<close> of a terminal job among those of its repository, newest first.\<close>

definition terminal_rank :: "queue_db \<Rightarrow> index_job \<Rightarrow> nat" where
  "terminal_rank db j =
     length (filter (\<lambda>k. terminal k \<and> j_repository k = j_repository j \<and>
       (j_updated j, j_id j) \<le> (j_updated k, j_id k)) (index_jobs db))"

definition prune :: "micros \<Rightarrow> queue_db \<Rightarrow> (nat \<times> nat) \<times> queue_db" where
  "prune now db =
     (let old = (\<lambda>(i, received). received < now - 30 * 24 * 3600 * 1000000);
          surplus = (\<lambda>j. terminal j \<and> terminal_rank db j > 100)
      in ((length (filter old (deliveries db)), length (filter surplus (index_jobs db))),
          db\<lparr>deliveries := filter (\<lambda>d. \<not> old d) (deliveries db),
             index_jobs := filter (\<lambda>j. \<not> surplus j) (index_jobs db)\<rparr>))"

subsection \<open>Other writers\<close>

text \<open>
  \<open>delivery.go\<close> and \<open>repository.go\<close> take repositories out of service: their queued jobs are superseded.
\<close>

definition supersede_queued :: "micros \<Rightarrow> (int \<Rightarrow> bool) \<Rightarrow> queue_db \<Rightarrow> queue_db" where
  "supersede_queued now p =
     update_jobs (\<lambda>j. j_state j = Queued \<and> p (j_repository j))
       (\<lambda>j. j\<lparr>j_state := Superseded, j_error := Some ''repository_unavailable'', j_updated := now\<rparr>)"

definition disable_repository :: "micros \<Rightarrow> int \<Rightarrow> string \<Rightarrow> queue_db \<Rightarrow> (queue_error + unit) \<times> queue_db" where
  "disable_repository now github code db = commit db
     (and_then (checked (update_repos (\<lambda>r. r_github r = github)
         (\<lambda>r. r\<lparr>enabled := False, r_status := ''disabled'', r_error := nullif code\<rparr>) db))
      (\<lambda>db1. and_then (checked (supersede_queued now
           (\<lambda>i. list_ex (\<lambda>r. r_github r = github \<and> r_id r = i) (repositories db1)) db1))
        (\<lambda>db2. Inr ((), db2))))"

definition disable_installation :: "micros \<Rightarrow> int \<Rightarrow> string \<Rightarrow> queue_db \<Rightarrow> (queue_error + unit) \<times> queue_db" where
  "disable_installation now github st db = commit db
     (let of_installation = (\<lambda>r. list_ex (\<lambda>x. inst_github x = github \<and> inst_id x = r_installation r) (installations db)) in
      if list_ex (\<lambda>x. inst_github x = github) (installations db) \<and> st \<notin> {''active'', ''suspended'', ''deleted''}
      then Inl ErrConstraint
      else
        and_then (checked (update_repos of_installation (\<lambda>r. r\<lparr>enabled := False, r_status := ''disabled''\<rparr>)
          (db\<lparr>installations := map (\<lambda>x. if inst_github x = github then x\<lparr>inst_status := st\<rparr> else x) (installations db)\<rparr>)))
        (\<lambda>db1. and_then (checked (supersede_queued now
             (\<lambda>i. list_ex (\<lambda>r. of_installation r \<and> r_id r = i) (repositories db)) db1))
          (\<lambda>db2. Inr ((), db2))))"

end
