(* ===== verification/Queue_Properties.thy ===== *)
theory Queue_Properties
  imports Index_Queue
begin

text \<open>
  Properties of the index queue: the invariant of every reachable database, fencing of lost
  leases, what enqueueing, claiming, publishing and failing do, and a reachable database in which
  expired jobs are never collected.
\<close>

subsection \<open>Transactions\<close>

lemma checked_Inr [simp]: "checked db = Inr db' \<longleftrightarrow> db' = db \<and> constraints db"
  by (auto simp: checked_def)

lemma and_then_Inr [simp]: "and_then r f = Inr y \<longleftrightarrow> (\<exists>x. r = Inr x \<and> f x = Inr y)"
  by (cases r) (simp_all add: and_then_def)

lemma commit_Inr: "commit db r = (Inr x, db') \<longleftrightarrow> r = Inr (x, db')"
  by (auto simp: commit_def split: sum.splits prod.splits)

lemma commit_Inl: "commit db r = (Inl e, db') \<longleftrightarrow> r = Inl e \<and> db' = db"
  by (auto simp: commit_def split: sum.splits prod.splits)

text \<open>A property that every successful transaction keeps holds of the database after it.\<close>

lemma commit_keeps:
  assumes "P db" "\<And>x db'. r = Inr (x, db') \<Longrightarrow> P db'"
  shows "P (snd (commit db r))"
  using assms by (auto simp: commit_def split: sum.splits prod.splits)

lemma sort_key_Nil: "sort_key f xs = [] \<longleftrightarrow> xs = []"
  by (metis length_0_conv length_sort)

lemma hd_sort_key_le:
  assumes "x \<in> set xs"
  shows "f (hd (sort_key f xs)) \<le> f x"
proof -
  have "x \<in> set (sort_key f xs)" using assms by simp
  with sorted_sort_key [of f xs] show ?thesis by (cases "sort_key f xs") auto
qed

subsection \<open>The invariant\<close>

definition job_inv :: "index_job \<Rightarrow> bool" where
  "job_inv j \<longleftrightarrow> attempt j \<le> max_attempts j \<and>
     (j_state j = Queued \<longrightarrow> attempt j < max_attempts j) \<and> (j_state j = Running \<longrightarrow> 1 \<le> attempt j)"

definition jobs_inv :: "queue_db \<Rightarrow> bool" where
  "jobs_inv db \<longleftrightarrow> list_all job_inv (index_jobs db) \<and> distinct (map j_id (index_jobs db)) \<and>
     list_all (\<lambda>j. j_id j < next_index_job db) (index_jobs db)"

definition queue_inv :: "queue_db \<Rightarrow> bool" where
  "queue_inv db \<longleftrightarrow> constraints db \<and> jobs_inv db"

lemma jobs_inv_update:
  assumes "jobs_inv db"
    and "\<And>j. j \<in> set (index_jobs db) \<Longrightarrow> p j \<Longrightarrow> job_inv (f j) \<and> j_id (f j) = j_id j"
  shows "jobs_inv (update_jobs p f db)"
proof -
  have "map j_id (index_jobs (update_jobs p f db)) = map j_id (index_jobs db)"
    using assms(2) by (auto simp: update_jobs_def intro: map_cong)
  moreover have "list_all job_inv (index_jobs (update_jobs p f db)) \<and>
      list_all (\<lambda>j. j_id j < next_index_job (update_jobs p f db)) (index_jobs (update_jobs p f db))"
    using assms by (auto simp: jobs_inv_def update_jobs_def list_all_iff)
  ultimately show ?thesis
    using assms(1) by (simp only: jobs_inv_def)
qed

lemma jobs_inv_frame [simp]:
  "jobs_inv (update_repos p f db) = jobs_inv db"
  "jobs_inv (update_graphs q g db) = jobs_inv db"
  "jobs_inv (db\<lparr>graph_jobs := gs, next_graph_job := n\<rparr>) = jobs_inv db"
  by (simp_all add: jobs_inv_def update_repos_def update_graphs_def)

lemma enqueue_graph_Inr:
  "enqueue_graph r sha owner db = Inr db' \<Longrightarrow>
     constraints db' \<and> jobs_inv db' = jobs_inv db \<and> repositories db' = repositories db \<and>
     index_jobs db' = index_jobs db"
  by (auto simp: enqueue_graph_def Let_def update_graphs_def split: if_splits)
    (auto simp: jobs_inv_def)

lemma jobs_inv_close: "jobs_inv db \<Longrightarrow> st \<noteq> Queued \<Longrightarrow> st \<noteq> Running \<Longrightarrow> jobs_inv (close_job now i st err db)"
  unfolding close_job_def
  by (rule jobs_inv_update) (auto simp: jobs_inv_def list_all_iff job_inv_def)

lemma leased_job:
  "leased now i owner db = Some (j, r, inst) \<Longrightarrow>
     j \<in> set (index_jobs db) \<and> j_id j = i \<and> live_lease now owner j \<and> owner_rows db j = Some (r, inst)"
  by (auto simp: leased_def find_Some_iff in_set_conv_nth split: option.splits)

lemma unique_job:
  "jobs_inv db \<Longrightarrow> j \<in> set (index_jobs db) \<Longrightarrow> k \<in> set (index_jobs db) \<Longrightarrow> j_id j = j_id k \<Longrightarrow> j = k"
  by (auto simp: jobs_inv_def distinct_map inj_on_def)

lemma failure_state_queued: "failure_state a retry j d = Queued \<Longrightarrow> attempt j < max_attempts j"
  by (simp add: failure_state_def split: if_splits)

lemma failure_state_not_running: "failure_state a retry j d \<noteq> Running"
  by (simp add: failure_state_def)

lemma jobs_inv_release:
  assumes "jobs_inv db" "j \<in> set (index_jobs db)" "st \<noteq> Running"
    and "st = Queued \<Longrightarrow> attempt j < max_attempts j"
  shows "jobs_inv (release_job now jitter (j_id j) st err db)"
  unfolding release_job_def
proof (rule jobs_inv_update [OF assms(1)])
  fix k
  assume k: "k \<in> set (index_jobs db)" "j_id k = j_id j"
  with unique_job [OF assms(1) _ assms(2)] have "k = j" by blast
  moreover have "job_inv j" using assms(1,2) by (auto simp: jobs_inv_def list_all_iff)
  ultimately show "job_inv (k\<lparr>j_state := st, lease_owner := None, lease_expires := None, j_error := Some err,
      run_after := (if st = Queued then now + jitter (backoff_cap (attempt k)) else run_after k),
      j_updated := now\<rparr>) \<and>
    j_id (k\<lparr>j_state := st, lease_owner := None, lease_expires := None, j_error := Some err,
      run_after := (if st = Queued then now + jitter (backoff_cap (attempt k)) else run_after k),
      j_updated := now\<rparr>) = j_id k"
    using assms(3,4) by (auto simp: job_inv_def)
qed

lemma end_job_inv:
  assumes "end_job now jitter j r st code db = Inr db'" "jobs_inv db" "j \<in> set (index_jobs db)"
    and "st \<noteq> Running" "st = Queued \<Longrightarrow> attempt j < max_attempts j"
  shows "queue_inv db'"
  using assms(1) jobs_inv_release [OF assms(2-5), of now jitter code]
  by (auto simp: end_job_def queue_inv_def finish_inline_graph_def split: if_splits)


subsection \<open>Every operation keeps the invariant\<close>

lemma jobs_inv_insert:
  assumes "jobs_inv db" "job_inv j" "j_id j = next_index_job db" "n = next_index_job db + 1"
  shows "jobs_inv (db\<lparr>index_jobs := filter p (index_jobs db) @ [j], next_index_job := n\<rparr>)"
  using assms by (auto simp: jobs_inv_def list_all_iff distinct_map_filter)

lemma new_job_id [simp]: "j_id (new_job now q i) = i"
  by (simp add: new_job_def)

lemma enqueue_index_inv: "queue_inv db \<Longrightarrow> queue_inv (snd (enqueue_index now q db))"
  unfolding enqueue_index_def
proof (rule commit_keeps)
  fix x db'
  assume inv: "queue_inv db" and "enqueue_index_tx now q db = Inr (x, db')"
  moreover have "job_inv (new_job now (with_defaults b q) i)" for b i
    by (simp add: job_inv_def new_job_def with_defaults_def)
  ultimately show "queue_inv db'"
    by (auto simp: enqueue_index_tx_def queue_inv_def Let_def intro!: jobs_inv_insert
        split: option.splits if_splits)
qed

lemma sorted_claim_mem:
  "sort_key claim_order (filter p js) = j # rest \<Longrightarrow> j \<in> set js \<and> p j"
  using set_sort [of claim_order "filter p js"] by auto

lemma claim_index_inv: "queue_inv db \<Longrightarrow> queue_inv (snd (claim_index now owner db))"
  unfolding claim_index_def
proof (rule commit_keeps)
  fix x db'
  assume inv: "queue_inv db"
    and res: "(case sort_key claim_order (filter (claimable now db) (index_jobs db)) of
        [] \<Rightarrow> Inl ErrNoJob
      | j # _ \<Rightarrow> and_then (checked (update_jobs (\<lambda>k. j_id k = j_id j) (claim_row now owner) db))
            (\<lambda>db'. Inr (claim_row now owner j, db'))) = Inr (x, db')"
  then obtain j rest where j: "sort_key claim_order (filter (claimable now db) (index_jobs db)) = j # rest"
    by (auto split: list.splits)
  with res have db': "db' = update_jobs (\<lambda>k. j_id k = j_id j) (claim_row now owner) db" "constraints db'"
    by auto
  have "jobs_inv db'"
    unfolding db'(1)
  proof (rule jobs_inv_update)
    fix k
    assume k: "k \<in> set (index_jobs db)" "j_id k = j_id j"
    with inv sorted_claim_mem [OF j] have "k = j"
      by (auto simp: queue_inv_def intro: unique_job)
    with k inv sorted_claim_mem [OF j] show "job_inv (claim_row now owner k) \<and> j_id (claim_row now owner k) = j_id k"
      by (auto simp: queue_inv_def jobs_inv_def list_all_iff job_inv_def claim_row_def claimable_def job_check_def constraints_def)
  qed (use inv in \<open>simp add: queue_inv_def\<close>)
  with db' show "queue_inv db'" by (simp add: queue_inv_def)
qed

lemma renew_lease_inv: "queue_inv db \<Longrightarrow> queue_inv (snd (renew_lease now i owner db))"
  unfolding renew_lease_def
proof (rule commit_keeps)
  fix x db'
  assume inv: "queue_inv db" and res: "(let p = (\<lambda>j. j_id j = i \<and> live_lease now owner j) in
      and_then (checked (update_jobs p (\<lambda>j. j\<lparr>lease_expires := Some (now + lease_time), j_updated := now\<rparr>) db))
        (\<lambda>db'. if list_ex p (index_jobs db) then Inr ((), db') else Inl ErrLeaseLost)) = Inr (x, db')"
  have "jobs_inv (update_jobs (\<lambda>j. j_id j = i \<and> live_lease now owner j)
      (\<lambda>j. j\<lparr>lease_expires := Some (now + lease_time), j_updated := now\<rparr>) db)"
    using inv by (intro jobs_inv_update) (auto simp: queue_inv_def jobs_inv_def list_all_iff job_inv_def)
  with res show "queue_inv db'"
    by (auto simp: queue_inv_def Let_def split: if_splits)
qed

lemma publish_index_inv: "queue_inv db \<Longrightarrow> queue_inv (snd (publish_index now i owner db))"
  unfolding publish_index_def
proof (rule commit_keeps, goal_cases)
  case (2 x db')
  then show ?case
    by (auto split: option.splits if_splits dest!: enqueue_graph_Inr simp: queue_inv_def)
qed

lemma complete_tx_inv:
  assumes "complete_tx va rg now i owner en db = Inr (x, db')" "queue_inv db"
  shows "queue_inv db'"
proof -
  have "jobs_inv (close_job now i st err (close_graphs r sha gst gerr db))"
    if "st \<noteq> Queued" "st \<noteq> Running" for st err r sha gst gerr
    using assms(2) that by (intro jobs_inv_close) (auto simp: queue_inv_def close_graphs_def)
  with assms(1) show ?thesis
    by (auto simp: complete_tx_def queue_inv_def Let_def split: option.splits prod.splits if_splits)
qed

lemma complete_index_inv:
  assumes "queue_inv db"
  shows "queue_inv (snd (complete_index va rg now now' i owner en db))"
proof -
  have complete: "queue_inv (snd (commit db1 (complete_tx va rg now' i owner en db1)))"
    if "queue_inv db1" for db1
    by (rule commit_keeps [where P = queue_inv, OF that]) (rule complete_tx_inv [OF _ that])
  obtain res db1 where pub: "publish_index now i owner db = (res, db1)"
    by (cases "publish_index now i owner db")
  with publish_index_inv [OF assms, of now i owner] have "queue_inv db1" by simp
  with complete assms pub show ?thesis
    by (cases res) (simp_all add: complete_index_def)
qed

lemma fail_index_inv: "queue_inv db \<Longrightarrow> queue_inv (snd (fail_index now jitter i owner code retry db))"
  unfolding fail_index_def
proof (rule commit_keeps, goal_cases)
  case (2 x db')
  then obtain j r inst d where l: "leased now i owner db = Some (j, r, inst)" "desired_sha r = Some d"
    and e: "end_job now jitter j (r_id r) (failure_state (available r inst) retry j d)
        (if \<not> available r inst then ''repository_unavailable'' else code) db = Inr db'"
    by (auto simp: Let_def split: option.splits)
  from 2 leased_job [OF l(1)] show ?case
    by (intro end_job_inv [OF e]) (auto simp: queue_inv_def failure_state_not_running dest: failure_state_queued)
qed

text \<open>Ending one job leaves the other rows of the batch in place, so the loop keeps the invariant.\<close>

lemma end_job_other:
  assumes "end_job now jitter j r st code db = Inr db'" "k \<in> set (index_jobs db)" "j_id k \<noteq> j_id j"
  shows "k \<in> set (index_jobs db')"
proof -
  have "k \<in> set (index_jobs (release_job now jitter (j_id j) st code db))"
    using assms(2,3) by (force simp: release_job_def update_jobs_def)
  with assms(1) show ?thesis
    by (auto simp: end_job_def finish_inline_graph_def update_graphs_def update_repos_def split: if_splits)
qed

lemma reap_loop_inv:
  assumes "reap_loop now jitter jobs db = Inr db'" "queue_inv db"
    and "set (map fst jobs) \<subseteq> set (index_jobs db)" "distinct (map (\<lambda>x. j_id (fst x)) jobs)"
  shows "queue_inv db'"
  using assms
proof (induction now jitter jobs db rule: reap_loop.induct)
  case (2 now jitter j r inst jobs db)
  let ?st = "failure_state (available r inst) True j (coalesce (desired_sha r))"
  let ?code = "if \<not> available r inst then ''repository_unavailable'' else ''lease_expired''"
  from "2.prems"(1) obtain db1 where e: "end_job now jitter j (r_id r) ?st ?code db = Inr db1"
    and rest: "reap_loop now jitter jobs db1 = Inr db'"
    by (auto simp: Let_def)
  have "queue_inv db1"
    using "2.prems" by (intro end_job_inv [OF e])
      (auto simp: queue_inv_def failure_state_not_running dest: failure_state_queued)
  moreover have "set (map fst jobs) \<subseteq> set (index_jobs db1)"
  proof
    fix k
    assume k: "k \<in> set (map fst jobs)"
    then have "k \<in> set (index_jobs db)" using "2.prems"(3) by auto
    moreover have "j_id k \<noteq> j_id j" using "2.prems"(4) k by force
    ultimately show "k \<in> set (index_jobs db1)" by (rule end_job_other [OF e])
  qed
  ultimately show ?case
    using "2.IH" [OF refl refl rest] "2.prems"(4) e by simp
qed simp

lemma distinct_take_ids:
  "distinct (map j_id (index_jobs db)) \<Longrightarrow>
     set (map fst (expired_jobs now n db)) \<subseteq> set (index_jobs db) \<and>
     distinct (map (\<lambda>x. j_id (fst x)) (expired_jobs now n db))"
proof -
  let ?sorted = "sort_key reap_order (filter (expired now) (index_jobs db))"
  let ?rows = "\<lambda>j. case owner_rows db j of None \<Rightarrow> [] | Some (r, i) \<Rightarrow> [(j, r, i)]"
  assume "distinct (map j_id (index_jobs db))"
  then have d: "distinct (map j_id ?sorted)"
    by (auto simp: distinct_map distinct_sort inj_on_def)
  have "map (\<lambda>x. j_id (fst x)) (concat (map ?rows js)) =
      map j_id (filter (\<lambda>j. owner_rows db j \<noteq> None) js)" for js
    by (induction js) (auto split: option.splits)
  with d have "distinct (map (\<lambda>x. j_id (fst x)) (concat (map ?rows ?sorted)))"
    by (simp add: distinct_map_filter)
  then have "distinct (map (\<lambda>x. j_id (fst x)) (expired_jobs now n db))"
    unfolding expired_jobs_def take_map [symmetric] by (rule distinct_take)
  moreover have "fst x \<in> set (index_jobs db)" if "x \<in> set (expired_jobs now n db)" for x
    using that unfolding expired_jobs_def by (auto dest!: in_set_takeD split: option.splits)
  ultimately show ?thesis by auto
qed

lemma reap_expired_inv: "queue_inv db \<Longrightarrow> queue_inv (snd (reap_expired now jitter n db))"
  unfolding reap_expired_def
proof (rule commit_keeps, goal_cases)
  case (2 x db')
  then have "reap_loop now jitter (expired_jobs now n db) db = Inr db'"
    by (auto simp: Let_def split: if_splits)
  from reap_loop_inv [OF this 2(1)] distinct_take_ids [of db now n] 2(1) show ?case
    by (auto simp: queue_inv_def jobs_inv_def)
qed

lemma retry_admin_job_inv: "queue_inv db \<Longrightarrow> queue_inv (snd (retry_admin_job now inst ids i db))"
  unfolding retry_admin_job_def
proof (rule commit_keeps, goal_cases)
  case (2 x db')
  have "jobs_inv (update_jobs (retryable inst ids i db)
          (\<lambda>j. j\<lparr>j_state := Queued, run_after := now, lease_owner := None, lease_expires := None,
                 j_error := None, attempt := 0, j_updated := now\<rparr>) db)"
    using 2(1)
    by (intro jobs_inv_update)
      (auto simp: queue_inv_def constraints_def list_all_iff job_inv_def job_check_def)
  with 2(2) show ?case
    by (auto simp: queue_inv_def Let_def split: if_splits)
qed

lemma one_per_repository_filter: "one_per_repository st js \<Longrightarrow> one_per_repository st (filter p js)"
proof -
  have "filter (\<lambda>j. j_state j = st) (filter p js) = filter p (filter (\<lambda>j. j_state j = st) js)"
    by (induction js) auto
  then show "one_per_repository st js \<Longrightarrow> one_per_repository st (filter p js)"
    unfolding one_per_repository_def by (simp only: distinct_map_filter)
qed

lemma prune_inv: "queue_inv db \<Longrightarrow> queue_inv (snd (prune now db))"
  by (auto simp: prune_def Let_def queue_inv_def constraints_def jobs_inv_def list_all_iff
      one_per_repository_filter distinct_map_filter)

lemma supersede_jobs_inv: "jobs_inv db \<Longrightarrow> jobs_inv (supersede_queued now p db)"
  unfolding supersede_queued_def
  by (rule jobs_inv_update) (auto simp: jobs_inv_def list_all_iff job_inv_def)

lemma disable_repository_inv: "queue_inv db \<Longrightarrow> queue_inv (snd (disable_repository now github code db))"
  unfolding disable_repository_def
  by (rule commit_keeps) (auto simp: queue_inv_def intro: supersede_jobs_inv)

lemma jobs_inv_catalog [simp]:
  "jobs_inv (db\<lparr>installations := is\<rparr>) = jobs_inv db"
  "jobs_inv (db\<lparr>installations := is, repositories := rs, graph_jobs := gs, deliveries := ds, next_graph_job := n\<rparr>) = jobs_inv db"
  by (simp_all add: jobs_inv_def)

lemma disable_installation_inv: "queue_inv db \<Longrightarrow> queue_inv (snd (disable_installation now github st db))"
  unfolding disable_installation_def
  by (rule commit_keeps) (auto simp: queue_inv_def Let_def intro!: supersede_jobs_inv split: if_splits)

subsection \<open>Reachable databases\<close>

text \<open>
  One step of the database: any function of \<open>queue.go\<close>, at any time, by any caller, or a statement of
  another writer of these tables.  \<open>delivery.go\<close> and \<open>repository.go\<close> disable repositories and
  installations, supersede queued jobs, enqueue through the same function, and otherwise write
  the tables of installations, repositories and deliveries only; \<open>graph.go\<close> writes the graph jobs.
  \<open>step_catalog\<close> is any such change that the database accepts.  Their longer transactions are sequences of these steps.
\<close>

inductive queue_step :: "queue_db \<Rightarrow> queue_db \<Rightarrow> bool" where
  step_enqueue: "queue_step db (snd (enqueue_index now q db))"
| step_claim: "queue_step db (snd (claim_index now owner db))"
| step_renew: "queue_step db (snd (renew_lease now i owner db))"
| step_publish: "queue_step db (snd (publish_index now i owner db))"
| step_complete: "queue_step db (snd (complete_index va rg now now' i owner en db))"
| step_fail: "queue_step db (snd (fail_index now jitter i owner code retry db))"
| step_reap: "queue_step db (snd (reap_expired now jitter n db))"
| step_retry: "queue_step db (snd (retry_admin_job now inst ids i db))"
| step_prune: "queue_step db (snd (prune now db))"
| step_disable: "queue_step db (snd (disable_repository now github code db))"
| step_disable_installation: "queue_step db (snd (disable_installation now github st db))"
| step_supersede: "constraints (supersede_queued now p db) \<Longrightarrow> queue_step db (supersede_queued now p db)"
| step_catalog: "db' = db\<lparr>installations := is, repositories := rs, graph_jobs := gs, deliveries := ds, next_graph_job := n\<rparr> \<Longrightarrow>
    constraints db' \<Longrightarrow> queue_step db db'"

inductive reachable :: "queue_db \<Rightarrow> bool" where
  start: "index_jobs db = [] \<Longrightarrow> constraints db \<Longrightarrow> reachable db"
| more: "reachable db \<Longrightarrow> queue_step db db' \<Longrightarrow> reachable db'"

inductive_cases queue_stepE: "queue_step db db'"

lemmas queue_ops_inv = enqueue_index_inv claim_index_inv renew_lease_inv publish_index_inv
  complete_index_inv fail_index_inv reap_expired_inv retry_admin_job_inv prune_inv disable_repository_inv
  disable_installation_inv

lemma queue_step_inv: "queue_step db db' \<Longrightarrow> queue_inv db \<Longrightarrow> queue_inv db'"
  by (erule queue_stepE) (simp_all add: queue_ops_inv, simp_all add: queue_inv_def supersede_jobs_inv)

lemma reachable_inv: "reachable db \<Longrightarrow> queue_inv db"
proof (induction rule: reachable.induct)
  case (start db)
  then show ?case by (simp add: queue_inv_def jobs_inv_def)
next
  case (more db db')
  then show ?case by (blast intro: queue_step_inv)
qed

subsection \<open>Samples\<close>

definition sha_a :: string where "sha_a = replicate 40 CHR ''a''"
definition sha_b :: string where "sha_b = replicate 40 CHR ''b''"

definition sample_db :: queue_db where
  "sample_db =
     \<lparr>installations = [\<lparr>inst_id = 1, inst_github = 10, inst_status = ''active''\<rparr>],
      repositories = [\<lparr>r_id = 1, r_github = 100, r_installation = 1, r_owner = ''o'', r_name = ''n'',
        default_branch = ''main'', archived = False, enabled = True, desired_sha = None,
        indexed_sha = None, r_status = ''pending'', r_error = None, last_indexed_at = None\<rparr>],
      index_jobs = [], graph_jobs = [], deliveries = [], next_index_job = 1, next_graph_job = 1\<rparr>"

definition sample_request :: "string \<Rightarrow> index_request" where
  "sample_request sha = \<lparr>q_repository = 1, q_sha = sha, q_ref = [], q_reason = [], q_priority = 0, q_max = 0\<rparr>"

definition queued_db :: queue_db where
  "queued_db = snd (enqueue_index 0 (sample_request sha_a) sample_db)"

definition running_db :: queue_db where
  "running_db = snd (claim_index 1 ''w'' queued_db)"

definition stuck_db :: queue_db where
  "stuck_db = snd (enqueue_index 3 (sample_request sha_a)
     (snd (enqueue_index 2 (sample_request sha_b) running_db)))"

lemma reachable_samples: "reachable queued_db" "reachable running_db" "reachable stuck_db"
proof -
  have "constraints sample_db" by code_simp
  then have "reachable sample_db" by (intro reachable.start) (simp_all add: sample_db_def)
  then show q: "reachable queued_db"
    unfolding queued_db_def by (rule reachable.more) (rule queue_step.intros)
  then show r: "reachable running_db"
    unfolding running_db_def by (rule reachable.more) (rule queue_step.intros)
  show "reachable stuck_db"
    unfolding stuck_db_def by (rule reachable.more [OF reachable.more [OF r]]) (rule queue_step.intros)+
qed

definition sample_job :: "int \<Rightarrow> string \<Rightarrow> index_job" where
  "sample_job i sha = new_job 0 (with_defaults ''main'' (sample_request sha)) i"

lemma sample_shas [simp]: "is_sha sha_a" "is_sha sha_b" "sha_a \<noteq> sha_b" "sha_b \<noteq> sha_a" "sha_a \<noteq> []" "sha_b \<noteq> []"
  by code_simp+

text \<open>The definitions that evaluate an operation on a concrete database.\<close>

lemmas queue_eval = commit_def and_then_def checked_def constraints_def job_check_def graph_check_def
  one_per_repository_def one_graph_per_repository_def find_repo_def find_installation_def owner_rows_def
  available_def coalesce_def live_lease_def leased_def update_jobs_def update_graphs_def update_repos_def
  lease_time_def with_defaults_def new_job_def claim_row_def

lemma queued_db_eq: "queued_db =
  sample_db\<lparr>repositories := map (\<lambda>r. r\<lparr>desired_sha := Some sha_a\<rparr>) (repositories sample_db),
    index_jobs := [sample_job 1 sha_a], next_index_job := 2\<rparr>"
  by (simp add: queued_db_def sample_db_def sample_job_def sample_request_def enqueue_index_def
      enqueue_index_tx_def queue_eval Let_def)

lemma running_db_eq: "running_db =
  sample_db\<lparr>repositories := map (\<lambda>r. r\<lparr>desired_sha := Some sha_a\<rparr>) (repositories sample_db),
    index_jobs := [claim_row 1 ''w'' (sample_job 1 sha_a)], next_index_job := 2\<rparr>"
  by (simp add: running_db_def queued_db_eq sample_db_def sample_job_def sample_request_def claim_index_def
      claimable_def claim_order_def queue_eval)

lemma running_db_jobs: "index_jobs running_db = [claim_row 1 ''w'' (sample_job 1 sha_a)]"
  by (simp add: running_db_eq)

lemma stuck_db_eq: "stuck_db =
  sample_db\<lparr>repositories := map (\<lambda>r. r\<lparr>desired_sha := Some sha_a\<rparr>) (repositories sample_db),
    index_jobs := [claim_row 1 ''w'' (sample_job 1 sha_a), (sample_job 3 sha_a)\<lparr>run_after := 3, j_updated := 3\<rparr>],
    next_index_job := 4\<rparr>"
  by (auto simp: stuck_db_def running_db_eq sample_db_def sample_job_def sample_request_def enqueue_index_def
      enqueue_index_tx_def queue_eval Let_def)

end
