(* ===== verification/Queue_Claims.thy ===== *)
theory Queue_Claims
  imports Queue_Properties
begin

text \<open>
  What the operations of the index queue promise to the scheduler, the workers and the
  administrators.
\<close>

lemma not_leased:
  "\<not> list_ex (\<lambda>j. j_id j = i \<and> live_lease now owner j) (index_jobs db) \<Longrightarrow> leased now i owner db = None"
  by (auto simp: leased_def list_ex_iff find_None_iff split: option.splits dest: find_Some_iff [THEN iffD1])

text \<open>
  C32 (fencing).  A worker whose lease on a job is not live (expired, taken over or released)
  changes nothing: renewing, publishing, completing and failing report the lost lease and leave the
  database as it is.
\<close>

theorem lost_lease_is_fenced:
  assumes "reachable db" "now \<le> now'"
    and "\<not> list_ex (\<lambda>j. j_id j = i \<and> live_lease now owner j) (index_jobs db)"
  shows "renew_lease now i owner db = (Inl ErrLeaseLost, db) \<and>
    publish_index now i owner db = (Inl ErrLeaseLost, db) \<and>
    fail_index now jitter i owner code retry db = (Inl ErrLeaseLost, db) \<and>
    complete_index va rg now now' i owner en db = (Inl ErrLeaseLost, db)"
proof -
  note lost = not_leased [OF assms(3)]
  have "\<not> list_ex (\<lambda>j. j_id j = i \<and> live_lease now' owner j) (index_jobs db)"
    using assms(2,3) by (auto simp: list_ex_iff live_lease_def split: option.splits)
  note lost' = not_leased [OF this]
  have same: "update_jobs (\<lambda>j. j_id j = i \<and> live_lease now owner j) f db = db" for f
  proof -
    have "map (\<lambda>j. if j_id j = i \<and> live_lease now owner j then f j else j) (index_jobs db) = index_jobs db"
      using assms(3) by (intro map_idI) (auto simp: list_ex_iff)
    then show ?thesis by (simp add: update_jobs_def)
  qed
  have "renew_lease now i owner db = (Inl ErrLeaseLost, db)"
    using reachable_inv [OF assms(1)] assms(3)
    by (simp add: renew_lease_def same checked_def queue_inv_def and_then_def commit_def)
  moreover have publish: "publish_index now i owner db = (Inl ErrLeaseLost, db)"
    by (simp add: publish_index_def lost commit_def)
  moreover have "fail_index now jitter i owner code retry db = (Inl ErrLeaseLost, db)"
    by (simp add: fail_index_def lost commit_def)
  moreover have "complete_index va rg now now' i owner en db = (Inl ErrLeaseLost, db)"
    by (simp add: complete_index_def publish complete_tx_def lost' commit_def)
  ultimately show ?thesis by blast
qed

theorem lost_lease_is_fenced_witness:
  "publish_index 200000000 1 ''w'' running_db = (Inl ErrLeaseLost, running_db)"
  using lost_lease_is_fenced [OF reachable_samples(2), of 200000000 200000000 1 "''w''"]
  by (simp add: running_db_jobs live_lease_def claim_row_def lease_time_def)

text \<open>
  What the statements do to the unique indexes: changes that put no job into a state keep them, and
  one job may move to a state in which its repository has no other job.
\<close>

lemma shrink_one_per_repository:
  assumes "one_per_repository st js"
    and "\<And>k. k \<in> set js \<Longrightarrow> j_repository (f k) = j_repository k \<and> (j_state (f k) = st \<longrightarrow> j_state k = st)"
  shows "one_per_repository st (map f js)"
  using assms
proof (induction js)
  case (Cons k js)
  have "one_per_repository st js" using Cons.prems(1) by (simp add: one_per_repository_def split: if_splits)
  then have rest: "one_per_repository st (map f js)" by (rule Cons.IH) (simp add: Cons.prems(2))
  have "j_repository k \<notin> j_repository ` {x \<in> f ` set js. j_state x = st}" if "j_state k = st"
  proof
    assume "j_repository k \<in> j_repository ` {x \<in> f ` set js. j_state x = st}"
    then obtain x where "x \<in> set js" "j_repository (f x) = j_repository k" "j_state (f x) = st" by auto
    moreover from this have "j_repository x = j_repository k" "j_state x = st" using Cons.prems(2) [of x] by auto
    ultimately have "j_repository k \<in> j_repository ` {x \<in> set js. j_state x = st}" by (auto intro: image_eqI [of _ _ x])
    with Cons.prems(1) that show False by (simp add: one_per_repository_def)
  qed
  then show ?case
    using rest Cons.prems(2) [of k] by (cases "j_state (f k) = st") (simp_all add: one_per_repository_def)
qed simp

lemma move_one_per_repository:
  assumes "one_per_repository st js" "distinct (map j_id js)"
    and "\<And>k. k \<in> set js \<Longrightarrow> j_id k = i \<Longrightarrow> j_repository (f k) = r \<and> j_state (f k) = b \<and> j_repository k = r"
    and "\<And>k. k \<in> set js \<Longrightarrow> j_id k \<noteq> i \<Longrightarrow> st = b \<Longrightarrow> j_state k = b \<Longrightarrow> j_repository k \<noteq> r"
  shows "one_per_repository st (map (\<lambda>k. if j_id k = i then f k else k) js)"
  using assms
proof (induction js)
  case (Cons k js)
  have rest: "one_per_repository st (map (\<lambda>k. if j_id k = i then f k else k) js)"
    using Cons by (auto simp: one_per_repository_def split: if_splits)
  show ?case
  proof (cases "j_id k = i")
    case True
    then have other: "j_id x \<noteq> i" if "x \<in> set js" for x
      using Cons.prems(2) imageI [OF that, of j_id] by auto
    then have "map (\<lambda>k. if j_id k = i then f k else k) js = js"
      by (intro map_idI) simp
    with True Cons.prems other show ?thesis
      by (cases "st = b") (auto simp: one_per_repository_def split: if_splits)
  next
    case False
    have "j_repository k \<notin> j_repository ` {x \<in> (\<lambda>k. if j_id k = i then f k else k) ` set js. j_state x = j_state k}"
      if "j_state k = st"
      using Cons.prems that False by (auto simp: one_per_repository_def)
    with False rest show ?thesis
      by (auto simp: one_per_repository_def)
  qed
qed simp

lemma claim_constraints:
  assumes "queue_inv db" "j \<in> set (index_jobs db)" "claimable now db j"
  shows "constraints (update_jobs (\<lambda>k. j_id k = j_id j) (claim_row now owner) db)"
proof -
  have inv: "constraints db" "jobs_inv db" using assms(1) by (simp_all add: queue_inv_def)
  have only: "k = j" if "k \<in> set (index_jobs db)" "j_id k = j_id j" for k
    using unique_job [OF inv(2) that(1) assms(2) that(2)] .
  have j: "job_check j" "job_inv j" "j_state j = Queued"
    using inv assms(2,3) by (auto simp: constraints_def jobs_inv_def list_all_iff claimable_def)
  then have "job_check (claim_row now owner j)"
    by (auto simp: job_check_def job_inv_def claim_row_def)
  moreover have "one_per_repository st (map (\<lambda>k. if j_id k = j_id j then claim_row now owner k else k) (index_jobs db))"
    if "one_per_repository st (index_jobs db)" for st
    using that
  proof (rule move_one_per_repository [where r = "j_repository j" and b = Running])
    show "distinct (map j_id (index_jobs db))" using inv(2) by (simp add: jobs_inv_def)
    show "j_repository k \<noteq> j_repository j" if "k \<in> set (index_jobs db)" "j_state k = Running" for k
      using assms(3) that by (auto simp: claimable_def list_ex_iff)
    show "j_repository (claim_row now owner k) = j_repository j \<and> j_state (claim_row now owner k) = Running \<and>
        j_repository k = j_repository j"
      if "k \<in> set (index_jobs db)" "j_id k = j_id j" for k
      using only [OF that] j(3) by (simp add: claim_row_def)
  qed
  ultimately show ?thesis
    using inv(1) only by (auto simp: constraints_def update_jobs_def list_all_iff)
qed

text \<open>
  C10 (claiming).  Claiming never fails on a constraint: it reports that there is no job exactly
  when none is claimable, and otherwise returns a claimable job of the highest priority, and the
  earliest and oldest of these, running under the caller's lease of two minutes with one more
  attempt; every other row is unchanged.
\<close>

theorem claim_takes_best:
  assumes "reachable db"
  shows "(fst (claim_index now owner db) = Inl ErrNoJob \<longleftrightarrow> \<not> list_ex (claimable now db) (index_jobs db)) \<and>
    (list_ex (claimable now db) (index_jobs db) \<longrightarrow>
      (\<exists>j \<in> set (index_jobs db). claimable now db j \<and>
        (\<forall>k \<in> set (index_jobs db). claimable now db k \<longrightarrow> claim_order j \<le> claim_order k) \<and>
        claim_index now owner db =
          (Inr (claim_row now owner j),
           db\<lparr>index_jobs := map (\<lambda>k. if k = j then claim_row now owner k else k) (index_jobs db)\<rparr>)))"
proof (cases "sort_key claim_order (filter (claimable now db) (index_jobs db))")
  case Nil
  then have "filter (claimable now db) (index_jobs db) = []"
    by (simp only: sort_key_Nil)
  then have "\<not> list_ex (claimable now db) (index_jobs db)"
    by (simp add: filter_empty_conv list_ex_iff)
  with Nil show ?thesis by (simp add: claim_index_def commit_def)
next
  case (Cons j rest)
  note mem = sorted_claim_mem [OF Cons]
  have inv: "queue_inv db" by (rule reachable_inv [OF assms])
  have "claim_order j \<le> claim_order k" if "k \<in> set (index_jobs db)" "claimable now db k" for k
    using that hd_sort_key_le [of k "filter (claimable now db) (index_jobs db)" claim_order] Cons by simp
  moreover have "update_jobs (\<lambda>k. j_id k = j_id j) (claim_row now owner) db =
      db\<lparr>index_jobs := map (\<lambda>k. if k = j then claim_row now owner k else k) (index_jobs db)\<rparr>"
    unfolding update_jobs_def
    using unique_job [of db _ j] inv mem by (auto simp: queue_inv_def intro!: arg_cong [where f = "\<lambda>x. db\<lparr>index_jobs := x\<rparr>"])
  moreover have "list_ex (claimable now db) (index_jobs db)"
    using mem by (auto simp: list_ex_iff)
  ultimately show ?thesis
    using mem Cons claim_constraints [OF inv, of j now owner]
    by (auto simp: claim_index_def checked_def and_then_def commit_def)
qed

theorem claim_takes_best_witness:
  "fst (claim_index 1 ''w'' queued_db) = Inr (claim_row 1 ''w'' (sample_job 1 sha_a))"
proof -
  have jobs: "index_jobs queued_db = [sample_job 1 sha_a]" by code_simp
  have "list_ex (claimable 1 queued_db) (index_jobs queued_db)" by code_simp
  with claim_takes_best [OF reachable_samples(1), of 1 "''w''"] jobs show ?thesis by auto
qed

lemma update_repos_constraints:
  assumes "constraints db" "\<And>r. r \<in> set (repositories db) \<Longrightarrow> p r \<Longrightarrow> r_id (f r) = r_id r \<and>
      (case desired_sha (f r) of None \<Rightarrow> True | Some s \<Rightarrow> is_sha s)"
  shows "constraints (update_repos p f db)"
proof -
  have ids: "map r_id (repositories (update_repos p f db)) = map r_id (repositories db)"
    using assms(2) by (auto simp: update_repos_def intro: map_cong)
  have "list_all (\<lambda>r. case desired_sha r of None \<Rightarrow> True | Some s \<Rightarrow> is_sha s) (repositories (update_repos p f db))"
    using assms by (auto simp: constraints_def update_repos_def list_all_iff)
  then show ?thesis
    using assms(1) unfolding constraints_def ids by (simp add: update_repos_def)
qed

lemma insert_constraints:
  assumes "constraints db" "job_check j" "j_state j = Queued"
  shows "constraints (db\<lparr>index_jobs := filter (\<lambda>k. \<not> (j_repository k = j_repository j \<and> j_state k = Queued))
    (index_jobs db) @ [j], next_index_job := n\<rparr>)"
  using assms one_per_repository_filter [of Queued "index_jobs db"]
    one_per_repository_filter [of Running "index_jobs db"]
  by (auto simp: constraints_def list_all_iff) (auto simp: one_per_repository_def)

subsection \<open>Constraints\<close>

lemma update_jobs_constraints:
  assumes "constraints db"
    and "\<And>j. j \<in> set (index_jobs db) \<Longrightarrow> p j \<Longrightarrow> job_check (f j) \<and> j_repository (f j) = j_repository j \<and>
      (j_state (f j) = j_state j \<or> j_state (f j) \<notin> {Queued, Running})"
  shows "constraints (update_jobs p f db)"
proof -
  have "one_per_repository st (map (\<lambda>j. if p j then f j else j) (index_jobs db))"
    if "st \<in> {Queued, Running}" "one_per_repository st (index_jobs db)" for st
  proof (rule shrink_one_per_repository [OF that(2)])
    fix k assume "k \<in> set (index_jobs db)"
    then show "j_repository (if p k then f k else k) = j_repository k \<and> (j_state (if p k then f k else k) = st \<longrightarrow> j_state k = st)"
      using assms(2) [of k] that(1) by (cases "p k") auto
  qed
  moreover have "list_all job_check (map (\<lambda>j. if p j then f j else j) (index_jobs db))"
    using assms by (auto simp: constraints_def list_all_iff)
  ultimately show ?thesis
    using assms(1) by (simp add: constraints_def update_jobs_def)
qed

lemma shrink_one_graph:
  assumes "one_graph_per_repository st gs"
    and "\<And>g. g \<in> set gs \<Longrightarrow> g_repository (f g) = g_repository g \<and> (g_state (f g) = st \<longrightarrow> g_state g = st)"
  shows "one_graph_per_repository st (map f gs)"
  using assms
proof (induction gs)
  case (Cons k gs)
  have "one_graph_per_repository st gs" using Cons.prems(1) by (simp add: one_graph_per_repository_def split: if_splits)
  then have rest: "one_graph_per_repository st (map f gs)" by (rule Cons.IH) (simp add: Cons.prems(2))
  have "g_repository k \<notin> g_repository ` {x \<in> f ` set gs. g_state x = st}" if "g_state k = st"
  proof
    assume "g_repository k \<in> g_repository ` {x \<in> f ` set gs. g_state x = st}"
    then obtain x where "x \<in> set gs" "g_repository (f x) = g_repository k" "g_state (f x) = st" by auto
    moreover from this have "g_repository x = g_repository k" "g_state x = st" using Cons.prems(2) [of x] by auto
    ultimately have "g_repository k \<in> g_repository ` {x \<in> set gs. g_state x = st}" by (auto intro: image_eqI [of _ _ x])
    with Cons.prems(1) that show False by (simp add: one_graph_per_repository_def)
  qed
  then show ?case
    using rest Cons.prems(2) [of k] by (cases "g_state (f k) = st") (simp_all add: one_graph_per_repository_def)
qed simp

lemma update_graphs_constraints:
  assumes "constraints db"
    and "\<And>g. g \<in> set (graph_jobs db) \<Longrightarrow> p g \<Longrightarrow> graph_check (f g) \<and> g_repository (f g) = g_repository g \<and>
      (g_state (f g) = g_state g \<or> g_state (f g) \<notin> {Queued, Running})"
  shows "constraints (update_graphs p f db)"
proof -
  have "one_graph_per_repository st (map (\<lambda>g. if p g then f g else g) (graph_jobs db))"
    if "st \<in> {Queued, Running}" "one_graph_per_repository st (graph_jobs db)" for st
  proof (rule shrink_one_graph [OF that(2)])
    fix g assume "g \<in> set (graph_jobs db)"
    then show "g_repository (if p g then f g else g) = g_repository g \<and> (g_state (if p g then f g else g) = st \<longrightarrow> g_state g = st)"
      using assms(2) [of g] that(1) by (cases "p g") auto
  qed
  moreover have "list_all graph_check (map (\<lambda>g. if p g then f g else g) (graph_jobs db))"
    using assms by (auto simp: constraints_def list_all_iff)
  ultimately show ?thesis
    using assms(1) by (simp add: constraints_def update_graphs_def)
qed

text \<open>Jobs that end, graph jobs that end, and jobs that return to the queue.\<close>

lemma closed_constraints:
  assumes "constraints db" "st \<notin> {Queued, Running}"
  shows "constraints (close_job now i st err db)" "constraints (close_graphs r sha st err db)"
    "constraints (release_job now jitter i st code db)" "constraints (finish_inline_graph r sha st code db)"
    "constraints (supersede_queued now p db)"
proof -
  have checks: "\<And>j. j \<in> set (index_jobs db) \<Longrightarrow> job_check j" "\<And>g. g \<in> set (graph_jobs db) \<Longrightarrow> graph_check g"
    using assms(1) by (auto simp: constraints_def list_all_iff)
  note rules = update_jobs_constraints [OF assms(1)] update_graphs_constraints [OF assms(1)]
  show "constraints (close_job now i st err db)" "constraints (release_job now jitter i st code db)"
    unfolding close_job_def release_job_def
    by (rule rules(1), insert assms(2), auto dest!: checks(1) simp: job_check_def)+
  show "constraints (supersede_queued now p db)"
    unfolding supersede_queued_def by (rule rules(1)) (auto dest!: checks(1) simp: job_check_def)
  show "constraints (close_graphs r sha st err db)" "constraints (finish_inline_graph r sha st code db)"
    unfolding close_graphs_def finish_inline_graph_def
    by (rule rules(2), insert assms(2), auto dest!: checks(2) simp: graph_check_def)+
qed

lemma requeue_constraints:
  assumes "queue_inv db" "j \<in> set (index_jobs db)"
    and alone: "\<And>k. k \<in> set (index_jobs db) \<Longrightarrow> j_id k \<noteq> j_id j \<Longrightarrow> j_state k = Queued \<Longrightarrow> j_repository k \<noteq> j_repository j"
    and f: "f j = j\<lparr>j_state := Queued, lease_owner := None, lease_expires := None, j_error := err, run_after := after,
        attempt := n, j_updated := t\<rparr>" "0 \<le> n" "n \<le> 5"
  shows "constraints (update_jobs (\<lambda>k. j_id k = j_id j) f db)"
proof -
  have inv: "constraints db" "jobs_inv db" using assms(1) by (simp_all add: queue_inv_def)
  have only: "k = j" if "k \<in> set (index_jobs db)" "j_id k = j_id j" for k
    using unique_job [OF inv(2) that(1) assms(2) that(2)] .
  have "job_check (f j)"
    using inv(1) assms(2) f by (auto simp: constraints_def job_check_def list_all_iff)
  moreover have "one_per_repository st (map (\<lambda>k. if j_id k = j_id j then f k else k) (index_jobs db))"
    if "one_per_repository st (index_jobs db)" for st
    using that
  proof (rule move_one_per_repository [where r = "j_repository j" and b = Queued])
    show "distinct (map j_id (index_jobs db))" using inv(2) by (simp add: jobs_inv_def)
    show "j_repository (f k) = j_repository j \<and> j_state (f k) = Queued \<and> j_repository k = j_repository j"
      if "k \<in> set (index_jobs db)" "j_id k = j_id j" for k
      using only [OF that] f(1) by simp
    show "j_repository k \<noteq> j_repository j"
      if "k \<in> set (index_jobs db)" "j_id k \<noteq> j_id j" "st = Queued" "j_state k = Queued" for k
      using alone [OF that(1,2,4)] .
  qed
  ultimately show ?thesis
    using inv(1) only by (auto simp: constraints_def update_jobs_def list_all_iff)
qed

text \<open>\<open>contended db j\<close>: the repository of the job \<open>j\<close> has another job in the queue.\<close>

definition contended :: "queue_db \<Rightarrow> index_job \<Rightarrow> bool" where
  "contended db j \<longleftrightarrow> list_ex (\<lambda>k. k \<noteq> j \<and> j_repository k = j_repository j \<and> j_state k = Queued) (index_jobs db)"

lemma failed_repository:
  "constraints db \<Longrightarrow> constraints (update_repos p (\<lambda>x. x\<lparr>r_status := st, r_error := err\<rparr>) db)"
  by (rule update_repos_constraints) (auto simp: constraints_def list_all_iff)

lemma one_per_repositoryD:
  "one_per_repository st js \<Longrightarrow> x \<in> set js \<Longrightarrow> y \<in> set js \<Longrightarrow> j_state x = st \<Longrightarrow> j_state y = st \<Longrightarrow>
     j_repository x = j_repository y \<Longrightarrow> x = y"
  by (auto simp: one_per_repository_def distinct_map inj_on_def)

lemma contended_requeue:
  assumes "jobs_inv db" "j \<in> set (index_jobs db)" "contended db j" "p j"
    and "\<And>k. p k \<Longrightarrow> j_id k = j_id j"
    and f: "j_state (f j) = Queued" "j_repository (f j) = j_repository j" "j_id (f j) = j_id j"
  shows "\<not> constraints (update_jobs p f db)"
proof
  assume c: "constraints (update_jobs p f db)"
  obtain k where k: "k \<in> set (index_jobs db)" "k \<noteq> j" "j_repository k = j_repository j" "j_state k = Queued"
    using assms(3) by (auto simp: contended_def list_ex_iff)
  then have id: "j_id k \<noteq> j_id j" using unique_job [OF assms(1) k(1) assms(2)] by blast
  then have "\<not> p k" using assms(5) by blast
  then have "k \<in> set (index_jobs (update_jobs p f db))" "f j \<in> set (index_jobs (update_jobs p f db))"
    using k(1) assms(2,4) by (force simp: update_jobs_def)+
  moreover have "one_per_repository Queued (index_jobs (update_jobs p f db))"
    using c by (simp add: constraints_def)
  ultimately have "k = f j" using k f by (intro one_per_repositoryD) simp_all
  with id f(3) show False by simp
qed

text \<open>Ending a job violates a constraint exactly when the job returns to a queue that holds another job of its repository.\<close>

lemma end_job_constraint:
  assumes "queue_inv db" "j \<in> set (index_jobs db)" "st \<noteq> Running"
  shows "(\<exists>e. end_job now jitter j r st code db = Inl e) \<longleftrightarrow> st = Queued \<and> contended db j"
proof -
  have inv: "constraints db" "jobs_inv db" using assms(1) by (simp_all add: queue_inv_def)
  have "constraints (release_job now jitter (j_id j) st code db) \<longleftrightarrow> \<not> (st = Queued \<and> contended db j)"
  proof (cases "st = Queued")
    case True
    have "constraints (release_job now jitter (j_id j) Queued code db)" if "\<not> contended db j"
    proof -
      have alone: "\<And>k. k \<in> set (index_jobs db) \<Longrightarrow> j_id k \<noteq> j_id j \<Longrightarrow> j_state k = Queued \<Longrightarrow> j_repository k \<noteq> j_repository j"
        using that by (auto simp: contended_def list_ex_iff)
      have "0 \<le> attempt j" "attempt j \<le> 5"
        using inv(1) assms(2) by (auto simp: constraints_def job_check_def list_all_iff)
      then show ?thesis
        unfolding release_job_def
        by (intro requeue_constraints [OF assms(1,2) alone, where n = "attempt j"]) simp_all
    qed
    moreover have "\<not> constraints (release_job now jitter (j_id j) Queued code db)" if "contended db j"
      unfolding release_job_def by (rule contended_requeue [OF inv(2) assms(2) that]) simp_all
    ultimately show ?thesis using True by blast
  qed (use closed_constraints(3) [OF inv(1)] assms(3) in blast)
  moreover have "constraints (finish_inline_graph r sha st code db1)" if "constraints db1" "st \<noteq> Queued" for db1 sha
    using closed_constraints(4) [OF that(1)] that(2) assms(3) by blast
  ultimately show ?thesis
    by (auto simp: end_job_def and_then_def checked_def failed_repository)
qed

lemma end_job_error: "end_job now jitter j r st code db = Inl e \<Longrightarrow> e = ErrConstraint"
  by (auto simp: end_job_def and_then_def checked_def split: if_splits sum.splits)

lemma end_job_contended:
  assumes "end_job now jitter j r st code db = Inr db'" "contended db' k" "j_repository k \<noteq> j_repository j" "jobs_inv db"
    and "j \<in> set (index_jobs db)" "k \<in> set (index_jobs db)"
  shows "contended db k"
proof -
  have "index_jobs db' = index_jobs (release_job now jitter (j_id j) st code db)"
    using assms(1) by (auto simp: end_job_def finish_inline_graph_def update_graphs_def update_repos_def split: if_splits)
  with assms(2) obtain x where x: "x \<in> set (index_jobs db)" "j_id x \<noteq> j_id j \<or> j_repository x = j_repository k"
      "(if j_id x = j_id j then j_repository x = j_repository k else x \<noteq> k \<and> j_repository x = j_repository k \<and> j_state x = Queued)"
    by (auto simp: contended_def list_ex_iff release_job_def update_jobs_def split: if_splits)
  moreover have "j_id x \<noteq> j_id j"
  proof
    assume "j_id x = j_id j"
    with unique_job [OF assms(4) x(1) assms(5)] x(3) assms(3) show False by auto
  qed
  ultimately show ?thesis by (auto simp: contended_def list_ex_iff)
qed

lemma end_job_still_contended:
  assumes "end_job now jitter j r st code db = Inr db'" "contended db k" "j_state j = Running" "jobs_inv db"
    and "j \<in> set (index_jobs db)"
  shows "contended db' k"
proof -
  obtain x where x: "x \<in> set (index_jobs db)" "x \<noteq> k" "j_repository x = j_repository k" "j_state x = Queued"
    using assms(2) by (auto simp: contended_def list_ex_iff)
  then have "j_id x \<noteq> j_id j" using unique_job [OF assms(4) x(1) assms(5)] assms(3) by auto
  from end_job_other [OF assms(1) x(1) this] x show ?thesis by (auto simp: contended_def list_ex_iff)
qed

text \<open>\<open>stuck db row\<close>: the reaper would return this expired job to the queue, and cannot.\<close>

definition stuck :: "queue_db \<Rightarrow> index_job \<times> repo \<times> installation \<Rightarrow> bool" where
  "stuck db x = (case x of (j, r, inst) \<Rightarrow>
     failure_state (available r inst) True j (coalesce (desired_sha r)) = Queued \<and> contended db j)"

lemma reap_loop_constraint:
  assumes "queue_inv db" "set (map fst jobs) \<subseteq> set (index_jobs db)" "distinct (map (\<lambda>x. j_id (fst x)) jobs)"
    and "\<And>x. x \<in> set jobs \<Longrightarrow> j_state (fst x) = Running"
  shows "(\<exists>e. reap_loop now jitter jobs db = Inl e) \<longleftrightarrow> (\<exists>x \<in> set jobs. stuck db x)"
  using assms
proof (induction now jitter jobs db rule: reap_loop.induct)
  case (2 now jitter j r inst jobs db)
  let ?st = "failure_state (available r inst) True j (coalesce (desired_sha r))"
  let ?code = "if \<not> available r inst then ''repository_unavailable'' else ''lease_expired''"
  have mem: "j \<in> set (index_jobs db)" "j_state j = Running" and inv: "constraints db" "jobs_inv db"
    using "2.prems"(1,2) "2.prems"(4) [of "(j, r, inst)"] by (auto simp: queue_inv_def)
  have "(\<exists>e. end_job now jitter j (r_id r) ?st ?code db = Inl e) \<longleftrightarrow> stuck db (j, r, inst)"
    by (simp add: end_job_constraint [OF "2.prems"(1) mem(1)] failure_state_not_running stuck_def)
  note first = this
  show ?case
  proof (cases "end_job now jitter j (r_id r) ?st ?code db")
    case (Inl e)
    with first show ?thesis by (auto simp: Let_def and_then_def)
  next
    case (Inr db1)
    have inv1: "queue_inv db1"
      using inv(2) mem(1) by (intro end_job_inv [OF Inr]) (auto simp: failure_state_not_running dest: failure_state_queued)
    have other: "fst x \<in> set (index_jobs db1)" "j_repository (fst x) \<noteq> j_repository j"
        "fst x \<in> set (index_jobs db)" if "x \<in> set jobs" for x
    proof -
      show x: "fst x \<in> set (index_jobs db)" using "2.prems"(2) that by auto
      have "j_id (fst x) \<noteq> j_id j" using "2.prems"(3) that by force
      then show "fst x \<in> set (index_jobs db1)" "j_repository (fst x) \<noteq> j_repository j"
        using end_job_other [OF Inr x] one_per_repositoryD [of Running "index_jobs db" "fst x" j] x mem
          "2.prems"(4) [of x] that inv(1) by (auto simp: constraints_def)
    qed
    have "(\<exists>e. reap_loop now jitter jobs db1 = Inl e) \<longleftrightarrow> (\<exists>x \<in> set jobs. stuck db1 x)"
    proof (rule "2.IH" [OF refl refl inv1])
      show "set (map fst jobs) \<subseteq> set (index_jobs db1)" using other(1) by auto
      show "distinct (map (\<lambda>x. j_id (fst x)) jobs)" using "2.prems"(3) by simp
      show "j_state (fst x) = Running" if "x \<in> set jobs" for x using "2.prems"(4) [of x] that by simp
    qed
    moreover have "stuck db1 x \<longleftrightarrow> stuck db x" if "x \<in> set jobs" for x
      using end_job_contended [OF Inr _ other(2) inv(2) mem(1) other(3)] end_job_still_contended [OF Inr _ mem(2) inv(2) mem(1)] that
      by (cases x) (auto simp: stuck_def)
    moreover have "\<not> stuck db (j, r, inst)" using first Inr by simp
    ultimately show ?thesis using Inr by (simp add: Let_def and_then_def)
  qed
qed simp

lemma reap_loop_error: "reap_loop now jitter jobs db = Inl e \<Longrightarrow> e = ErrConstraint"
  by (induction now jitter jobs db rule: reap_loop.induct)
    (auto simp: Let_def and_then_def dest: end_job_error split: sum.splits)

text \<open>
  Enqueueing.  A request for a known repository and a valid commit always succeeds.  After it
  the repository desires that commit and is pending, some queued or running job of the repository
  builds it, and the running jobs are the same as before.
\<close>

theorem enqueue_schedules:
  assumes "reachable db" "find_repo db (q_repository q) = Some r" "is_sha (q_sha q)"
  shows "\<exists>db'. enqueue_index now q db = (Inr (), db') \<and>
    (\<forall>r' \<in> set (repositories db'). r_id r' = q_repository q \<longrightarrow>
       desired_sha r' = Some (q_sha q) \<and> r_status r' = ''pending'') \<and>
    list_ex (\<lambda>j. j_repository j = q_repository q \<and> target_sha j = q_sha q \<and>
       (j_state j = Queued \<or> j_state j = Running)) (index_jobs db') \<and>
    filter (\<lambda>j. j_state j = Running) (index_jobs db') = filter (\<lambda>j. j_state j = Running) (index_jobs db)"
proof -
  let ?q = "with_defaults (default_branch r) q"
  let ?db1 = "update_repos (\<lambda>x. r_id x = q_repository q)
     (\<lambda>x. x\<lparr>desired_sha := Some (q_sha q), r_status := ''pending'', r_error := None\<rparr>) db"
  let ?j = "new_job now ?q (next_index_job ?db1)"
  let ?db3 = "?db1\<lparr>index_jobs := filter (\<lambda>k. \<not> (j_repository k = q_repository q \<and> j_state k = Queued))
    (index_jobs ?db1) @ [?j], next_index_job := next_index_job ?db1 + 1\<rparr>"
  have q: "q_repository ?q = q_repository q" "q_sha ?q = q_sha q"
    by (simp_all add: with_defaults_def)
  have c1: "constraints ?db1"
    using reachable_inv [OF assms(1)] assms(3)
    by (intro update_repos_constraints) (auto simp: queue_inv_def)
  have j: "job_check ?j" "j_state ?j = Queued" "j_repository ?j = q_repository q" "target_sha ?j = q_sha q"
    using assms(3) by (simp_all add: new_job_def job_check_def with_defaults_def)
  from insert_constraints [OF c1 j(1,2)] have c3: "constraints ?db3" by (simp add: j(3))
  have repos: "\<forall>r' \<in> set (repositories ?db1). r_id r' = q_repository q \<longrightarrow>
      desired_sha r' = Some (q_sha q) \<and> r_status r' = ''pending''"
    by (auto simp: update_repos_def)
  have run: "filter (\<lambda>j. j_state j = Running) (index_jobs ?db1) = filter (\<lambda>j. j_state j = Running) (index_jobs db)"
    by (simp add: update_repos_def)
  show ?thesis
  proof (cases "desired_sha r = Some (q_sha q) \<and>
      list_ex (\<lambda>j. j_repository j = q_repository q \<and> (j_state j = Queued \<or> j_state j = Running) \<and>
        target_sha j = q_sha q) (index_jobs ?db1)")
    case True
    then have "enqueue_index now q db = (Inr (), ?db1)"
      using c1 by (simp add: enqueue_index_def enqueue_index_tx_def assms(2) q Let_def checked_def
          and_then_def commit_def)
    with True repos run show ?thesis by (auto simp: list_ex_iff)
  next
    case False
    then have "enqueue_index now q db = (Inr (), ?db3)"
      using c1 c3 by (auto simp: enqueue_index_def enqueue_index_tx_def assms(2) q Let_def checked_def
          and_then_def commit_def)
    moreover have "filter (\<lambda>j. j_state j = Running) (index_jobs ?db3) =
        filter (\<lambda>j. j_state j = Running) (index_jobs db)"
      using j(2) by (auto simp: update_repos_def intro: filter_cong)
    ultimately show ?thesis using repos j by auto
  qed
qed

theorem enqueue_schedules_witness:
  "\<exists>db'. enqueue_index 5 (sample_request sha_b) running_db = (Inr (), db')"
proof -
  have "find_repo running_db (q_repository (sample_request sha_b)) \<noteq> None" by code_simp
  then obtain r where "find_repo running_db (q_repository (sample_request sha_b)) = Some r" by blast
  moreover have "is_sha (q_sha (sample_request sha_b))" by code_simp
  ultimately show ?thesis
    using enqueue_schedules [OF reachable_samples(2)] by blast
qed

text \<open>No operation runs into a constraint unless a job cannot return to the queue.\<close>

lemma enqueue_graph_constraint:
  assumes "constraints db" "is_sha sha" and calm: "\<not> list_ex (\<lambda>g. g_state g = Queued) (graph_jobs db)"
  shows "\<exists>db'. enqueue_graph r sha owner db = Inr db'"
proof -
  let ?old = "\<lambda>g. g_repository g = r \<and> active_graph g \<and> g_sha g \<noteq> sha"
  let ?p = "\<lambda>g. g_repository g = r \<and> g_sha g = sha \<and> active_graph g"
  let ?db1 = "update_graphs ?old (\<lambda>g. g\<lparr>g_state := Superseded, g_owner := None, g_expires := None\<rparr>) db"
  let ?db2 = "update_graphs ?p (\<lambda>g. g\<lparr>g_state := Running, g_owner := Some owner, g_expires := None, g_error := None\<rparr>) ?db1"
  have c1: "constraints ?db1"
    by (rule update_graphs_constraints [OF assms(1)])
      (use assms(1) in \<open>auto simp: constraints_def graph_check_def list_all_iff\<close>)
  have calm1: "g_state g \<noteq> Queued" "g_repository g = r \<and> g_state g = Running \<longrightarrow> ?p g" if mem: "g \<in> set (graph_jobs ?db1)" for g
  proof -
    obtain h where h: "h \<in> set (graph_jobs db)"
        "g = (if ?old h then h\<lparr>g_state := Superseded, g_owner := None, g_expires := None\<rparr> else h)"
      using mem unfolding update_graphs_def by auto
    moreover have "g_state h \<noteq> Queued" using calm h(1) by (auto simp: list_ex_iff)
    ultimately show "g_state g \<noteq> Queued" "g_repository g = r \<and> g_state g = Running \<longrightarrow> ?p g"
      by (simp_all add: active_graph_def)
  qed
  have c2: "constraints ?db2"
  proof (rule update_graphs_constraints [OF c1], goal_cases)
    case (1 g)
    have "graph_check g" using c1 1(1) by (auto simp: constraints_def list_all_iff)
    moreover have "g_state g = Running" using calm1(1) [OF 1(1)] 1(2) by (simp add: active_graph_def)
    ultimately show ?case by (simp add: graph_check_def)
  qed
  have c3: "constraints (?db2\<lparr>graph_jobs := graph_jobs ?db2 @ [\<lparr>g_id = n, g_repository = r, g_sha = sha, g_state = Running,
        g_owner = Some owner, g_expires = None, g_error = None\<rparr>], next_graph_job := m\<rparr>)"
    if "\<not> list_ex ?p (graph_jobs ?db1)" for n m
  proof -
    have same: "graph_jobs ?db2 = graph_jobs ?db1"
      using that by (subst update_graphs_def) (auto simp: list_ex_iff intro!: map_idI)
    have "r \<notin> g_repository ` {g \<in> set (graph_jobs ?db1). g_state g = Running}"
    proof
      assume "r \<in> g_repository ` {g \<in> set (graph_jobs ?db1). g_state g = Running}"
      then obtain g where g: "g \<in> set (graph_jobs ?db1)" "g_repository g = r" "g_state g = Running" by blast
      with calm1(2) [OF g(1)] have "?p g" by simp
      with g(1) that show False unfolding list_ex_iff by blast
    qed
    then show ?thesis
      using c2 assms(2) unfolding constraints_def one_graph_per_repository_def
      by (simp only: same) (simp add: graph_check_def)
  qed
  show ?thesis
    using c1 c2 c3 by (auto simp: enqueue_graph_def Let_def and_then_def checked_def)
qed

lemma find_repo_mem: "find_repo db i = Some r \<Longrightarrow> r \<in> set (repositories db) \<and> r_id r = i"
  by (auto simp: find_repo_def find_Some_iff in_set_conv_nth)

lemma unique_repo:
  "constraints db \<Longrightarrow> r \<in> set (repositories db) \<Longrightarrow> r' \<in> set (repositories db) \<Longrightarrow> r_id r = r_id r' \<Longrightarrow> r = r'"
  by (auto simp: constraints_def distinct_map inj_on_def)

lemma leased_repo:
  "leased now i owner db = Some (j, r, inst) \<Longrightarrow> r \<in> set (repositories db) \<and> r_id r = j_repository j"
  by (drule leased_job) (auto simp: owner_rows_def dest: find_repo_mem split: option.splits)

lemma publish_constraint:
  assumes "queue_inv db" "\<not> list_ex (\<lambda>g. g_state g = Queued) (graph_jobs db)"
  shows "fst (publish_index now i owner db) \<noteq> Inl ErrConstraint"
proof (cases "leased now i owner db")
  case (Some x)
  obtain j r inst where x: "x = (j, r, inst)" by (cases x)
  have inv: "constraints db" using assms(1) by (simp add: queue_inv_def)
  have sha: "is_sha (target_sha j)"
    using leased_job [of now i owner db j r inst] Some x inv by (auto simp: constraints_def list_all_iff job_check_def)
  let ?db1 = "update_repos (\<lambda>x. r_id x = r_id r) (\<lambda>x. x\<lparr>indexed_sha := Some (target_sha j), r_status := ''ready'',
      r_error := None, last_indexed_at := Some now\<rparr>) db"
  have c1: "constraints ?db1"
    by (rule update_repos_constraints [OF inv]) (use inv in \<open>auto simp: constraints_def list_all_iff\<close>)
  have "\<not> list_ex (\<lambda>g. g_state g = Queued) (graph_jobs ?db1)" using assms(2) by (simp add: update_repos_def)
  from enqueue_graph_constraint [OF c1 sha this] obtain db2 where
    "enqueue_graph (r_id r) (target_sha j) owner ?db1 = Inr db2" by blast
  with Some x c1 show ?thesis
    by (simp add: publish_index_def commit_def and_then_def checked_def)
qed (simp add: publish_index_def commit_def)

lemma complete_tx_constraint:
  assumes "constraints db"
  shows "complete_tx va rg now i owner en db \<noteq> Inl ErrConstraint"
proof (cases "leased now i owner db")
  case (Some x)
  obtain j r inst where x: "x = (j, r, inst)" by (cases x)
  note closed = closed_constraints(1) [OF closed_constraints(2) [OF assms]] closed_constraints(2) [OF assms]
  have done_graph: "constraints (close_graphs (r_id r) (target_sha j) gst (nullif e) db) \<and> gst \<notin> {Queued, Running}"
    if "finish_graph va rg (r_id r) (target_sha j) en = Inr (gst, e)" for gst e
  proof -
    have "gst \<notin> {Queued, Running}"
      using that by (auto simp: finish_graph_def Let_def split: option.splits if_splits)
    with closed(2) show ?thesis by blast
  qed
  have "finish_graph va rg (r_id r) (target_sha j) en \<noteq> Inl ErrConstraint"
    by (simp add: finish_graph_def Let_def split: option.split)
  then show ?thesis
    using Some x done_graph
    by (cases "finish_graph va rg (r_id r) (target_sha j) en")
      (auto simp: complete_tx_def Let_def and_then_def checked_def closed closed_constraints(1))
qed (simp add: complete_tx_def)

lemma complete_constraint:
  assumes "queue_inv db" "\<not> list_ex (\<lambda>g. g_state g = Queued) (graph_jobs db)"
  shows "fst (complete_index va rg now now' i owner en db) \<noteq> Inl ErrConstraint"
proof -
  have ends: "fst (commit db1 (complete_tx va rg now' i owner en db1)) \<noteq> Inl ErrConstraint" if "queue_inv db1" for db1
    using complete_tx_constraint [of db1 va rg now' i owner en] that
    by (auto simp: commit_def queue_inv_def split: sum.splits)
  obtain res db1 where pub: "publish_index now i owner db = (res, db1)" by (cases "publish_index now i owner db")
  with publish_index_inv [OF assms(1), of now i owner] publish_constraint [OF assms, of now i owner]
  have "queue_inv db1" "res \<noteq> Inl ErrConstraint" by simp_all
  with ends assms(1) pub show ?thesis
    by (cases res) (simp_all add: complete_index_def)
qed

lemma renew_constraint:
  assumes "queue_inv db"
  shows "fst (renew_lease now i owner db) \<noteq> Inl ErrConstraint"
proof -
  have "constraints (update_jobs (\<lambda>j. j_id j = i \<and> live_lease now owner j)
      (\<lambda>j. j\<lparr>lease_expires := Some (now + lease_time), j_updated := now\<rparr>) db)"
  proof (rule update_jobs_constraints, goal_cases)
    case (2 j)
    then have "job_check j" using assms by (auto simp: queue_inv_def constraints_def list_all_iff)
    with 2 show ?case by (auto simp: job_check_def live_lease_def)
  qed (use assms in \<open>simp add: queue_inv_def\<close>)
  then show ?thesis by (simp add: renew_lease_def Let_def checked_def and_then_def commit_def)
qed

lemma retry_constraint:
  assumes "queue_inv db"
  shows "fst (retry_admin_job now inst ids i db) = Inl ErrConstraint \<longleftrightarrow>
    (\<exists>j \<in> set (index_jobs db). retryable inst ids i db j \<and> contended db j)"
proof -
  let ?f = "\<lambda>j. j\<lparr>j_state := Queued, run_after := now, lease_owner := None, lease_expires := None,
                 j_error := None, attempt := 0, j_updated := now\<rparr>"
  have inv: "constraints db" "jobs_inv db" using assms by (simp_all add: queue_inv_def)
  have ids: "j_id j = i" if "retryable inst ids i db j" for j
    using that by (simp add: retryable_def)
  have "constraints (update_jobs (retryable inst ids i db) ?f db)"
    if none: "\<forall>j \<in> set (index_jobs db). retryable inst ids i db j \<longrightarrow> \<not> contended db j"
  proof (cases "\<exists>j \<in> set (index_jobs db). retryable inst ids i db j")
    case True
    then obtain j where j: "j \<in> set (index_jobs db)" "retryable inst ids i db j" by blast
    have "update_jobs (retryable inst ids i db) ?f db = update_jobs (\<lambda>k. j_id k = j_id j) ?f db"
    proof -
      have "retryable inst ids i db k \<longleftrightarrow> j_id k = j_id j" if "k \<in> set (index_jobs db)" for k
        using unique_job [OF inv(2) that j(1)] j(2) ids [of k] ids [of j] by auto
      then have "map (\<lambda>k. if retryable inst ids i db k then ?f k else k) (index_jobs db) =
          map (\<lambda>k. if j_id k = j_id j then ?f k else k) (index_jobs db)"
        by (intro map_cong) simp_all
      then show ?thesis by (simp add: update_jobs_def)
    qed
    moreover have "constraints (update_jobs (\<lambda>k. j_id k = j_id j) ?f db)"
    proof (rule requeue_constraints [OF assms j(1)])
      show "j_repository k \<noteq> j_repository j" if "k \<in> set (index_jobs db)" "j_id k \<noteq> j_id j" "j_state k = Queued" for k
        using none j that by (auto simp: contended_def list_ex_iff)
      show "?f j = j\<lparr>j_state := Queued, lease_owner := None, lease_expires := None, j_error := None, run_after := now,
          attempt := 0, j_updated := now\<rparr>" by simp
    qed simp_all
    ultimately show ?thesis by simp
  next
    case False
    then have "map (\<lambda>j. if retryable inst ids i db j then ?f j else j) (index_jobs db) = index_jobs db"
      by (intro map_idI) simp
    with inv(1) show ?thesis by (simp add: update_jobs_def)
  qed
  moreover have "\<not> constraints (update_jobs (retryable inst ids i db) ?f db)"
    if "j \<in> set (index_jobs db)" "retryable inst ids i db j" "contended db j" for j
    by (rule contended_requeue [OF inv(2) that(1,3)]) (simp_all add: that(2) ids)
  ultimately show ?thesis
    by (auto simp: retry_admin_job_def Let_def and_then_def checked_def commit_def)
qed

lemma fail_constraint:
  assumes "queue_inv db"
  shows "fst (fail_index now jitter i owner code retry db) = Inl ErrConstraint \<longleftrightarrow>
    (\<exists>j r inst d. leased now i owner db = Some (j, r, inst) \<and> desired_sha r = Some d \<and>
       failure_state (available r inst) retry j d = Queued \<and> contended db j)"
proof (cases "leased now i owner db")
  case (Some x)
  obtain j r inst where x: "x = (j, r, inst)" by (cases x)
  with leased_job Some have j: "j \<in> set (index_jobs db)" by blast
  show ?thesis
  proof (cases "desired_sha r")
    case (Some d)
    let ?e = "end_job now jitter j (r_id r) (failure_state (available r inst) retry j d)
      (if \<not> available r inst then ''repository_unavailable'' else code) db"
    have "fst (fail_index now jitter i owner code retry db) = Inl ErrConstraint \<longleftrightarrow> (\<exists>e. ?e = Inl e)"
      using \<open>leased now i owner db = Some x\<close> x Some end_job_error
      by (cases ?e) (auto simp: fail_index_def Let_def and_then_def commit_def)
    with end_job_constraint [OF assms j failure_state_not_running] \<open>leased now i owner db = Some x\<close> x Some
    show ?thesis by simp
  qed (use Some x in \<open>simp add: fail_index_def commit_def\<close>)
qed (simp add: fail_index_def commit_def)

lemma reap_constraint:
  assumes "queue_inv db"
  shows "fst (reap_expired now jitter n db) = Inl ErrConstraint \<longleftrightarrow>
    \<not> list_ex (\<lambda>(j, r, x). desired_sha r = None) (expired_jobs now n db) \<and> list_ex (stuck db) (expired_jobs now n db)"
proof -
  have batch: "set (map fst (expired_jobs now n db)) \<subseteq> set (index_jobs db)"
      "distinct (map (\<lambda>x. j_id (fst x)) (expired_jobs now n db))"
    using distinct_take_ids [of db now n] assms by (simp_all add: queue_inv_def jobs_inv_def)
  have "j_state (fst x) = Running" if "x \<in> set (expired_jobs now n db)" for x
    using that unfolding expired_jobs_def by (auto dest!: in_set_takeD simp: expired_def split: option.splits)
  note loop = reap_loop_constraint [OF assms batch this, of now jitter]
  show ?thesis
  proof (cases "reap_loop now jitter (expired_jobs now n db) db")
    case (Inl e)
    with loop reap_loop_error [OF Inl] show ?thesis
      by (auto simp: reap_expired_def Let_def commit_def and_then_def list_ex_iff)
  next
    case (Inr db')
    with loop show ?thesis
      by (auto simp: reap_expired_def Let_def commit_def and_then_def list_ex_iff)
  qed
qed

lemma enqueue_constraint:
  assumes "reachable db" "is_sha (q_sha q)"
  shows "fst (enqueue_index now q db) \<noteq> Inl ErrConstraint"
proof (cases "find_repo db (q_repository q)")
  case (Some r)
  from enqueue_schedules [OF assms(1) Some assms(2), of now] show ?thesis by auto
qed (simp add: enqueue_index_def enqueue_index_tx_def commit_def)

lemma disable_constraint:
  assumes "queue_inv db"
  shows "fst (disable_repository now github code db) \<noteq> Inl ErrConstraint"
    "st \<in> {''active'', ''suspended'', ''deleted''} \<Longrightarrow> fst (disable_installation now github st db) \<noteq> Inl ErrConstraint"
proof -
  have inv: "constraints db" "constraints (db\<lparr>installations := is\<rparr>)" for "is"
    using assms by (simp_all add: queue_inv_def constraints_def)
  have off: "constraints (update_repos p f db1)" if "constraints db1"
      "\<And>r. r_id (f r) = r_id r \<and> desired_sha (f r) = desired_sha r" for p f db1
    by (rule update_repos_constraints [OF that(1)]) (use that in \<open>auto simp: constraints_def list_all_iff\<close>)
  have super: "constraints (supersede_queued now p db1)" if "constraints db1" for p db1
    using closed_constraints(5) [OF that, of Failed] by simp
  show "fst (disable_repository now github code db) \<noteq> Inl ErrConstraint"
    by (simp add: disable_repository_def commit_def and_then_def checked_def off [OF inv(1)] super)
  show "fst (disable_installation now github st db) \<noteq> Inl ErrConstraint"
    if "st \<in> {''active'', ''suspended'', ''deleted''}"
    using that by (auto simp: disable_installation_def Let_def commit_def and_then_def checked_def off [OF inv(2)] super)
qed

lemma stuck_expired:
  "expired_jobs (120000001 + int d) (Suc n) stuck_db =
     [(hd (index_jobs stuck_db), hd (repositories stuck_db), hd (installations stuck_db))]"
  by (simp add: expired_jobs_def expired_def reap_order_def stuck_db_eq sample_db_def sample_job_def
      sample_request_def queue_eval)

text \<open>
  C9 (constraints).  The statements of the queue respect the constraints of its tables: enqueueing a
  valid commit, claiming, renewing, disabling repositories and, when no graph job is queued,
  publishing and completing never fail on a check or unique index.  Failing a job, reaping expired
  jobs and retrying a failed job fail on a constraint exactly when the job would return to the
  queue while another job of its repository is queued.
\<close>

theorem constraints_never_hit:
  assumes "reachable db"
  shows "(is_sha (q_sha q) \<longrightarrow> fst (enqueue_index now q db) \<noteq> Inl ErrConstraint) \<and>
    fst (claim_index now owner db) \<noteq> Inl ErrConstraint \<and>
    fst (renew_lease now i owner db) \<noteq> Inl ErrConstraint \<and>
    fst (disable_repository now github why db) \<noteq> Inl ErrConstraint \<and>
    (\<not> list_ex (\<lambda>g. g_state g = Queued) (graph_jobs db) \<longrightarrow>
      fst (publish_index now i owner db) \<noteq> Inl ErrConstraint \<and>
      fst (complete_index va rg now now' i owner en db) \<noteq> Inl ErrConstraint) \<and>
    (fst (fail_index now jitter i owner code retry db) = Inl ErrConstraint \<longleftrightarrow>
      (\<exists>j r x d. leased now i owner db = Some (j, r, x) \<and> desired_sha r = Some d \<and>
        failure_state (available r x) retry j d = Queued \<and> contended db j)) \<and>
    (fst (reap_expired now jitter n db) = Inl ErrConstraint \<longleftrightarrow>
      \<not> list_ex (\<lambda>(j, r, x). desired_sha r = None) (expired_jobs now n db) \<and>
      list_ex (stuck db) (expired_jobs now n db)) \<and>
    (fst (retry_admin_job now inst ids i db) = Inl ErrConstraint \<longleftrightarrow>
      (\<exists>j \<in> set (index_jobs db). retryable inst ids i db j \<and> contended db j))"
proof -
  note inv = reachable_inv [OF assms]
  have "fst (claim_index now owner db) \<noteq> Inl ErrConstraint"
  proof (cases "sort_key claim_order (filter (claimable now db) (index_jobs db))")
    case (Cons j rest)
    from claim_constraints [OF inv, of j now owner] sorted_claim_mem [OF Cons] Cons show ?thesis
      by (simp add: claim_index_def checked_def and_then_def commit_def)
  qed (simp add: claim_index_def commit_def)
  with inv assms show ?thesis
    by (simp add: enqueue_constraint renew_constraint disable_constraint(1) publish_constraint complete_constraint
        fail_constraint reap_constraint retry_constraint)
qed

theorem constraints_never_hit_witness:
  "fst (reap_expired 120000001 (\<lambda>cap. cap) 1 stuck_db) = Inl ErrConstraint \<and>
   fst (publish_index 2 1 ''w'' running_db) \<noteq> Inl ErrConstraint"
proof -
  have batch: "expired_jobs 120000001 1 stuck_db =
      [(hd (index_jobs stuck_db), hd (repositories stuck_db), hd (installations stuck_db))]"
    using stuck_expired [of 0 0] by simp
  have "\<not> list_ex (\<lambda>(j, r, x). desired_sha r = None) (expired_jobs 120000001 1 stuck_db)"
      "list_ex (stuck stuck_db) (expired_jobs 120000001 1 stuck_db)"
    unfolding batch
    by (simp_all add: stuck_def contended_def failure_state_def stuck_db_eq sample_db_def sample_job_def
        sample_request_def queue_eval)
  moreover have "\<not> list_ex (\<lambda>g. g_state g = Queued) (graph_jobs running_db)"
    by (simp add: running_db_eq sample_db_def)
  ultimately show ?thesis
    using constraints_never_hit [OF reachable_samples(3), where now = 120000001 and n = 1 and jitter = "\<lambda>cap. cap",
        THEN conjunct2, THEN conjunct2, THEN conjunct2, THEN conjunct2, THEN conjunct2, THEN conjunct2, THEN conjunct1]
      constraints_never_hit [OF reachable_samples(2), where now = 2 and i = 1 and owner = "''w''",
        THEN conjunct2, THEN conjunct2, THEN conjunct2, THEN conjunct2, THEN conjunct1]
    by blast
qed

lemma desired_target:
  assumes "constraints db" "j \<in> set (index_jobs db)" "coalesce s = target_sha j"
  shows "s = Some (target_sha j)"
proof -
  have "target_sha j \<noteq> []"
    using assms(1,2) by (auto simp: constraints_def list_all_iff job_check_def is_sha_def)
  with assms(3) show ?thesis by (auto simp: coalesce_def split: option.splits)
qed

lemma publish_repos:
  assumes "constraints db" "publish_index now i owner db = (Inr (), db')"
  shows "list_all2 (\<lambda>r r'. r_id r' = r_id r \<and> desired_sha r' = desired_sha r \<and>
      (indexed_sha r' = indexed_sha r \<or> indexed_sha r' = desired_sha r)) (repositories db) (repositories db')"
proof -
  from assms(2) obtain j r inst where l: "leased now i owner db = Some (j, r, inst)"
    by (auto simp: publish_index_def commit_Inr split: option.splits)
  show ?thesis
  proof (cases "available r inst \<and> coalesce (desired_sha r) = target_sha j")
    case True
    then have "desired_sha r = Some (target_sha j)"
      using desired_target [OF assms(1)] leased_job [OF l] by blast
    moreover have "desired_sha x = desired_sha r" if "x \<in> set (repositories db)" "r_id x = r_id r" for x
      using unique_repo [OF assms(1) that(1), of r] leased_repo [OF l] that by auto
    moreover have "repositories db' = map (\<lambda>x. if r_id x = r_id r then
        x\<lparr>indexed_sha := Some (target_sha j), r_status := ''ready'', r_error := None,
          last_indexed_at := Some now\<rparr> else x) (repositories db)"
      using assms(2) l True
      by (auto simp: publish_index_def commit_Inr update_repos_def dest!: enqueue_graph_Inr)
    ultimately show ?thesis
      by (simp add: list_all2_map2) (rule list.rel_refl_strong, simp)
  next
    case False
    with assms(2) l have "db' = db" by (auto simp: publish_index_def commit_Inr)
    then show ?thesis by (simp add: list_all2_refl)
  qed
qed

text \<open>
  C11 (publication).  Publishing a job changes the indexed commit of a repository only to the
  commit the repository desires at that moment, and never the desired commit.
\<close>

theorem publish_only_desired:
  assumes "reachable db" "publish_index now i owner db = (Inr (), db')"
  shows "list_all2 (\<lambda>r r'. r_id r' = r_id r \<and> desired_sha r' = desired_sha r \<and>
      (indexed_sha r' = indexed_sha r \<or> indexed_sha r' = desired_sha r)) (repositories db) (repositories db')"
  by (rule publish_repos [OF _ assms(2)]) (use reachable_inv [OF assms(1)] in \<open>simp add: queue_inv_def\<close>)

theorem publish_only_desired_witness:
  "list_all2 (\<lambda>r r'. r_id r' = r_id r \<and> desired_sha r' = desired_sha r \<and>
      (indexed_sha r' = indexed_sha r \<or> indexed_sha r' = desired_sha r))
    (repositories running_db) (repositories (snd (publish_index 2 1 ''w'' running_db)))"
proof (rule publish_only_desired [OF reachable_samples(2)])
  show "publish_index 2 1 ''w'' running_db = (Inr (), snd (publish_index 2 1 ''w'' running_db))"
    by (simp add: publish_index_def enqueue_graph_def running_db_eq sample_db_def sample_job_def
        sample_request_def active_graph_def queue_eval Let_def)
qed

text \<open>
  C33 (completion).  A job that completes ends as succeeded or superseded, its lease released; it
  ends as succeeded only if its commit is both the desired and the indexed commit of its
  repository.
\<close>

theorem completed_is_published:
  assumes "reachable db" "complete_index va rg now now' i owner en db = (Inr (), db')"
    and "j' \<in> set (index_jobs db')" "j_id j' = i"
  shows "(j_state j' = Succeeded \<or> j_state j' = Superseded) \<and> lease_owner j' = None \<and>
    (j_state j' = Succeeded \<longrightarrow> (\<exists>r \<in> set (repositories db'). r_id r = j_repository j' \<and>
       indexed_sha r = Some (target_sha j') \<and> desired_sha r = Some (target_sha j')))"
proof -
  obtain db1 where db1: "queue_inv db1" "complete_tx va rg now' i owner en db1 = Inr ((), db')"
  proof (cases "en \<noteq> None \<and> inline_published i owner db")
    case True
    then show ?thesis
      using assms(2) by (intro that [OF reachable_inv [OF assms(1)]]) (simp add: complete_index_def commit_Inr)
  next
    case False
    obtain res db1 where pub: "publish_index now i owner db = (res, db1)"
      by (cases "publish_index now i owner db")
    then have "queue_inv db1"
      using publish_index_inv [OF reachable_inv [OF assms(1)], of now i owner] by simp
    moreover have "complete_tx va rg now' i owner en db1 = Inr ((), db')"
      using assms(2) False pub by (cases res) (simp_all add: complete_index_def commit_Inr del: not_None_eq)
    ultimately show ?thesis by (rule that)
  qed
  from db1(2) obtain j r inst where l: "leased now' i owner db1 = Some (j, r, inst)"
    by (auto simp: complete_tx_def split: option.splits)
  note job = leased_job [OF l] and repo = leased_repo [OF l]
  have inv: "constraints db1" "jobs_inv db1" using db1(1) by (simp_all add: queue_inv_def)
  have closed: "j_state j' = st \<and> lease_owner j' = None \<and> j_repository j' = j_repository j \<and>
      target_sha j' = target_sha j \<and> repositories db' = repositories db1"
    if "db' = close_job now' i st err (close_graphs (r_id r) (target_sha j) gst gerr db1)" for st err gst gerr
  proof -
    have "j' \<in> (\<lambda>k. if j_id k = i then k\<lparr>j_state := st, lease_owner := None, lease_expires := None,
        j_error := err, j_updated := now'\<rparr> else k) ` set (index_jobs db1)"
      using assms(3) unfolding that by (simp add: close_job_def close_graphs_def update_jobs_def update_graphs_def)
    then obtain k where k: "k \<in> set (index_jobs db1)" "j' = (if j_id k = i then k\<lparr>j_state := st,
        lease_owner := None, lease_expires := None, j_error := err, j_updated := now'\<rparr> else k)"
      by blast
    with assms(4) have "j_id k = i" by (auto split: if_splits)
    moreover from this k(1) job have "k = j" using unique_job [OF inv(2), of k j] by simp
    moreover have "repositories db' = repositories db1"
      unfolding that by (simp add: close_job_def close_graphs_def update_jobs_def update_graphs_def)
    ultimately show ?thesis using k(2) by simp
  qed
  show ?thesis
  proof (cases "coalesce (indexed_sha r) = target_sha j")
    case False
    with db1(2) l obtain err gst gerr where
      "db' = close_job now' i Superseded err (close_graphs (r_id r) (target_sha j) gst gerr db1)"
      by (auto simp: complete_tx_def Let_def)
    from closed [OF this] show ?thesis by simp
  next
    case True
    then have indexed: "indexed_sha r = Some (target_sha j)"
      using desired_target [OF inv(1)] job by blast
    from db1(2) l True obtain st err gst gerr where
      db': "db' = close_job now' i st err (close_graphs (r_id r) (target_sha j) gst gerr db1)"
      and st: "st = Superseded \<or> st = Succeeded \<and> coalesce (desired_sha r) = target_sha j"
      by (fastforce simp: complete_tx_def Let_def split: if_splits)
    from st desired_target [OF inv(1)] job have "st = Succeeded \<Longrightarrow> desired_sha r = Some (target_sha j)" by auto
    with closed [OF db'] st indexed repo show ?thesis by auto
  qed
qed

lemma complete_running: "complete_index (\<lambda>_. True) (\<lambda>_. True) 2 2 1 ''w'' None running_db =
  (Inr (), snd (complete_index (\<lambda>_. True) (\<lambda>_. True) 2 2 1 ''w'' None running_db)) \<and>
  index_jobs (snd (complete_index (\<lambda>_. True) (\<lambda>_. True) 2 2 1 ''w'' None running_db)) =
    [(sample_job 1 sha_a)\<lparr>j_state := Succeeded, attempt := 1, j_updated := 2\<rparr>]"
  by (simp add: complete_index_def complete_tx_def finish_graph_def close_graphs_def close_job_def nullif_def
      publish_index_def enqueue_graph_def running_db_eq sample_db_def sample_job_def
      sample_request_def active_graph_def queue_eval Let_def)

theorem completed_is_published_witness:
  "j_state ((sample_job 1 sha_a)\<lparr>j_state := Succeeded, attempt := 1, j_updated := 2\<rparr>) = Succeeded \<and>
   (\<exists>r \<in> set (repositories (snd (complete_index (\<lambda>_. True) (\<lambda>_. True) 2 2 1 ''w'' None running_db))).
     indexed_sha r = Some sha_a)"
  using completed_is_published [OF reachable_samples(2) conjunct1 [OF complete_running],
      of "(sample_job 1 sha_a)\<lparr>j_state := Succeeded, attempt := 1, j_updated := 2\<rparr>"] complete_running
  by (auto simp: sample_job_def new_job_def with_defaults_def sample_request_def)

lemma backoff_cap_bounds: "0 \<le> backoff_cap n" "backoff_cap n \<le> 300 * 1000000"
  by (simp_all add: backoff_cap_def)

lemma end_job_jobs:
  "end_job now jitter j r st code db = Inr db' \<Longrightarrow>
     index_jobs db' = index_jobs (release_job now jitter (j_id j) st code db)"
  by (auto simp: end_job_def finish_inline_graph_def update_graphs_def update_repos_def split: if_splits)

text \<open>
  Failure.  A worker that reports a failure under a live lease releases the lease.  The job is
  queued again only if the failure may be retried, an attempt is left and the repository is still
  available and still desires the commit; it then runs after a delay of at most five minutes.
\<close>

theorem failure_releases:
  assumes "reachable db" "leased now i owner db = Some (j, r, inst)"
    and "fail_index now jitter i owner code retry db = (Inr (), db')"
    and "\<forall>c. 0 \<le> c \<longrightarrow> 0 \<le> jitter c \<and> jitter c \<le> c"
  shows "\<exists>j' \<in> set (index_jobs db'). j_id j' = i \<and> lease_owner j' = None \<and> attempt j' = attempt j \<and>
    (j_state j' = Queued \<longleftrightarrow> available r inst \<and> desired_sha r = Some (target_sha j) \<and> retry \<and>
       attempt j < max_attempts j) \<and>
    (j_state j' = Queued \<longrightarrow> now \<le> run_after j' \<and> run_after j' \<le> now + 300 * 1000000)"
proof -
  from assms(2,3) obtain d where d: "desired_sha r = Some d"
    and e: "end_job now jitter j (r_id r) (failure_state (available r inst) retry j d)
        (if \<not> available r inst then ''repository_unavailable'' else code) db = Inr db'"
    by (auto simp: fail_index_def commit_Inr Let_def split: option.splits)
  let ?f = "\<lambda>k. k\<lparr>j_state := failure_state (available r inst) retry j d, lease_owner := None,
      lease_expires := None, j_error := Some (if \<not> available r inst then ''repository_unavailable'' else code),
      run_after := (if failure_state (available r inst) retry j d = Queued
        then now + jitter (backoff_cap (attempt k)) else run_after k), j_updated := now\<rparr>"
  have "?f j \<in> set (index_jobs db')"
    using leased_job [OF assms(2)] unfolding end_job_jobs [OF e]
    by (force simp: release_job_def update_jobs_def)
  moreover have "0 \<le> jitter (backoff_cap (attempt j))" "jitter (backoff_cap (attempt j)) \<le> 300 * 1000000"
    using assms(4) backoff_cap_bounds [of "attempt j"] order_trans by blast+
  ultimately show ?thesis
    using leased_job [OF assms(2)] d
    by (intro bexI [of _ "?f j"]) (auto simp: failure_state_def)
qed

lemma fail_running: "fail_index 2 (\<lambda>c. c) 1 ''w'' ''x'' True running_db =
    (Inr (), snd (fail_index 2 (\<lambda>c. c) 1 ''w'' ''x'' True running_db))"
  "leased 2 1 ''w'' running_db = Some (hd (index_jobs running_db), hd (repositories running_db), hd (installations running_db))"
  by (simp_all add: fail_index_def end_job_def release_job_def failure_state_def backoff_cap_def running_db_eq
      sample_db_def sample_job_def sample_request_def queue_eval Let_def)

theorem failure_releases_witness:
  "\<exists>j' \<in> set (index_jobs (snd (fail_index 2 (\<lambda>c. c) 1 ''w'' ''x'' True running_db))).
     j_id j' = 1 \<and> lease_owner j' = None"
  using failure_releases [OF reachable_samples(2) fail_running(2,1)] by auto

text \<open>
  C40 (a queue that is stuck).  A repository can be asked for commit A, then B, then A again while
  a worker runs the job of the first request; the queue then holds a running and a queued job for
  A.  When the worker is lost, collecting expired leases would queue the running job beside the
  queued one: the unique index rejects it and the whole batch is rolled back, on every later run.
  The queued job is not claimable while the other runs, so nothing of this repository is indexed.
\<close>

theorem expired_job_never_reaped:
  "reachable stuck_db \<and>
   reap_expired (120000001 + int d) jitter (Suc n) stuck_db = (Inl ErrConstraint, stuck_db) \<and>
   claim_index now owner stuck_db = (Inl ErrNoJob, stuck_db)"
proof (intro conjI)
  show "reachable stuck_db" by (rule reachable_samples)
  have "sort_key claim_order (filter (claimable now stuck_db) (index_jobs stuck_db)) = []"
    by (simp add: stuck_db_eq claimable_def sample_job_def new_job_def claim_row_def)
  then show "claim_index now owner stuck_db = (Inl ErrNoJob, stuck_db)"
    by (simp add: claim_index_def commit_def)
  let ?t = "120000001 + int d"
  have "\<not> constraints (release_job ?t jitter 1 Queued ''lease_expired'' stuck_db)"
    by (simp add: release_job_def stuck_db_eq sample_db_def sample_job_def sample_request_def queue_eval)
  then show "reap_expired ?t jitter (Suc n) stuck_db = (Inl ErrConstraint, stuck_db)"
    by (simp add: reap_expired_def stuck_expired Let_def end_job_def failure_state_def)
      (simp add: stuck_db_eq sample_db_def sample_job_def sample_request_def new_job_def claim_row_def
        with_defaults_def available_def coalesce_def and_then_def checked_def commit_def)
qed

text \<open>
  Pruning removes only finished jobs, and leaves at most one hundred of them per
  repository.
\<close>

theorem prune_bounds:
  "let db' = snd (prune now db) in
    filter (\<lambda>j. \<not> terminal j) (index_jobs db') = filter (\<lambda>j. \<not> terminal j) (index_jobs db) \<and>
    length (filter (\<lambda>j. terminal j \<and> j_repository j = r) (index_jobs db')) \<le> 100"
proof -
  let ?keep = "\<lambda>j. terminal j \<and> j_repository j = r \<and> terminal_rank db j \<le> 100"
  let ?kept = "filter ?keep (index_jobs db)"
  let ?age = "\<lambda>j. (j_updated j, j_id j)"
  have "length ?kept \<le> 100"
  proof (cases "?kept = []")
    case False
    define m where "m = hd (sort_key ?age ?kept)"
    have ne: "sort_key ?age ?kept \<noteq> []" using False unfolding sort_key_Nil .
    then have m: "m \<in> set ?kept" unfolding m_def by (rule hd_in_set [of "sort_key ?age ?kept", unfolded set_sort])
    have "?age m \<le> ?age k" if "k \<in> set ?kept" for k
      unfolding m_def using that by (rule hd_sort_key_le [where f = ?age])
    then have "?kept = filter (\<lambda>k. ?keep k \<and> ?age m \<le> ?age k) (index_jobs db)"
      by (intro filter_cong [OF refl]) auto
    then have "length ?kept = length (filter (\<lambda>k. ?keep k \<and> ?age m \<le> ?age k) (index_jobs db))"
      by (rule arg_cong)
    also have "\<dots> \<le> terminal_rank db m"
      unfolding terminal_rank_def length_filter_conv_card
      using m by (intro card_mono) auto
    also have "\<dots> \<le> 100" using m by simp
    finally show ?thesis .
  qed simp
  moreover have "filter (\<lambda>j. terminal j \<and> j_repository j = r) (index_jobs (snd (prune now db))) = ?kept"
    by (auto simp: prune_def Let_def intro: filter_cong)
  moreover have "filter (\<lambda>j. \<not> terminal j) (index_jobs (snd (prune now db))) = filter (\<lambda>j. \<not> terminal j) (index_jobs db)"
    by (auto simp: prune_def Let_def intro: filter_cong)
  ultimately show ?thesis by (simp only: Let_def)
qed

end
