(* ===== verification/Go_Calls.thy ===== *)
theory Go_Calls
  imports Main
begin

text \<open>
  Calls on a shared state that may return an error: the shape of a Go method with a result and an
  error.  A call gets the state and returns the error or the result, with the state after it; a
  failed call may have changed the state.
\<close>

type_synonym ('e, 's, 'a) call = "'s \<Rightarrow> ('e + 'a) \<times> 's"

definition return_ok :: "'a \<Rightarrow> ('e, 's, 'a) call" where
  "return_ok x s = (Inr x, s)"

definition return_error :: "'e \<Rightarrow> ('e, 's, 'a) call" where
  "return_error e s = (Inl e, s)"

text \<open>The pattern \<open>if err != nil { return err }\<close> after a call.\<close>

definition proceed :: "('e, 's, 'a) call \<Rightarrow> ('a \<Rightarrow> ('e, 's, 'b) call) \<Rightarrow> ('e, 's, 'b) call" where
  "proceed m f s = (case m s of (Inl e, s') \<Rightarrow> (Inl e, s') | (Inr x, s') \<Rightarrow> f x s')"

text \<open>A guard, a call whose error is handled, and one whose result is dropped.\<close>

definition require :: "bool \<Rightarrow> 'e \<Rightarrow> ('e, 's, 'a) call \<Rightarrow> ('e, 's, 'a) call" where
  "require b e m = (if b then m else return_error e)"

definition attempt_call :: "('e, 's, 'a) call \<Rightarrow> ('e + 'a \<Rightarrow> ('e, 's, 'b) call) \<Rightarrow> ('e, 's, 'b) call" where
  "attempt_call m f s = (case m s of (r, s') \<Rightarrow> f r s')"

definition ignore_error :: "('e, 's, 'a) call \<Rightarrow> ('e, 's, 'b) call \<Rightarrow> ('e, 's, 'b) call" where
  "ignore_error m k s = k (snd (m s))"

text \<open>A loop that stops at the first error.\<close>

fun for_each :: "'a list \<Rightarrow> ('a \<Rightarrow> ('e, 's, unit) call) \<Rightarrow> ('e, 's, unit) call" where
  "for_each [] f = return_ok ()"
| "for_each (x # xs) f = proceed (f x) (\<lambda>_. for_each xs f)"

lemmas call_defs = return_ok_def return_error_def proceed_def require_def attempt_call_def ignore_error_def

lemma proceed_Inr:
  "proceed m f s = (Inr y, s'') \<longleftrightarrow> (\<exists>x s'. m s = (Inr x, s') \<and> f x s' = (Inr y, s''))"
  by (auto simp: proceed_def split: prod.splits sum.splits)

lemma proceedE:
  assumes "proceed m f s = (Inr y, s'')"
  obtains x s' where "m s = (Inr x, s')" "f x s' = (Inr y, s'')"
  using assms by (auto simp: proceed_Inr)

lemma return_ok_Inr [simp]: "return_ok x s = (Inr y, s') \<longleftrightarrow> y = x \<and> s' = s"
  by (auto simp: return_ok_def)

lemma return_error_Inr [simp]: "return_error e s \<noteq> (Inr y, s')"
  by (simp add: return_error_def)

lemma require_Inr: "require b e m s = (Inr y, s') \<longleftrightarrow> b \<and> m s = (Inr y, s')"
  by (simp add: require_def)

subsection \<open>Preservation\<close>

text \<open>\<open>keeps P m\<close>: the call preserves the predicate \<open>P\<close> of the state, whether it succeeds or not.\<close>

definition keeps :: "('s \<Rightarrow> bool) \<Rightarrow> ('e, 's, 'a) call \<Rightarrow> bool" where
  "keeps P m \<longleftrightarrow> (\<forall>s. P s \<longrightarrow> P (snd (m s)))"

named_theorems keeps_intro \<comment> \<open>preservation rules for calls\<close>

lemma keepsD: "keeps P m \<Longrightarrow> P s \<Longrightarrow> P (snd (m s))"
  by (simp add: keeps_def)

lemma keeps_return [keeps_intro]: "keeps P (return_ok x)" "keeps P (return_error e)"
  by (simp_all add: keeps_def call_defs)

lemma keeps_proceed [keeps_intro]:
  assumes "keeps P m" "\<And>x. keeps P (f x)"
  shows "keeps P (proceed m f)"
  unfolding keeps_def
proof (intro allI impI)
  fix s
  assume "P s"
  with keepsD [OF assms(1)] have "P (snd (m s))" by blast
  then show "P (snd (proceed m f s))"
    using keepsD [OF assms(2)] by (cases "m s"; cases "fst (m s)") (auto simp: proceed_def)
qed

lemma keeps_require [keeps_intro]: "keeps P m \<Longrightarrow> keeps P (require b e m)"
  by (simp add: require_def keeps_return)

lemma keeps_attempt [keeps_intro]:
  assumes "keeps P m" "\<And>r. keeps P (f r)"
  shows "keeps P (attempt_call m f)"
  using assms by (auto simp: keeps_def attempt_call_def split: prod.splits)

lemma keeps_ignore [keeps_intro]: "keeps P m \<Longrightarrow> keeps P k \<Longrightarrow> keeps P (ignore_error m k)"
  by (simp add: keeps_def ignore_error_def)

lemma keeps_for_each [keeps_intro]: "(\<And>x. keeps P (f x)) \<Longrightarrow> keeps P (for_each xs f)"
  by (induction xs) (simp_all add: keeps_return keeps_proceed)

lemma keeps_if [keeps_intro]: "keeps P m \<Longrightarrow> keeps P k \<Longrightarrow> keeps P (if b then m else k)"
  by simp

text \<open>A call that only reads: the state after it is the state before.\<close>

definition reads_only :: "('e, 's, 'a) call \<Rightarrow> bool" where
  "reads_only m \<longleftrightarrow> (\<forall>s. snd (m s) = s)"

lemma reads_keeps: "reads_only m \<Longrightarrow> keeps P m"
  by (simp add: reads_only_def keeps_def)

named_theorems reads_intro \<comment> \<open>calls that only read\<close>

lemma reads_return [reads_intro]: "reads_only (return_ok x)" "reads_only (return_error e)"
  by (simp_all add: reads_only_def call_defs)

lemma reads_proceed [reads_intro]: "reads_only m \<Longrightarrow> (\<And>x. reads_only (f x)) \<Longrightarrow> reads_only (proceed m f)"
  unfolding reads_only_def proceed_def by (auto split: prod.split sum.split) (metis snd_conv)+

lemma reads_require [reads_intro]: "reads_only m \<Longrightarrow> reads_only (require b e m)"
  by (simp add: require_def reads_return)

lemma reads_attempt [reads_intro]: "reads_only m \<Longrightarrow> (\<And>r. reads_only (f r)) \<Longrightarrow> reads_only (attempt_call m f)"
  by (auto simp: reads_only_def attempt_call_def split: prod.split) (metis snd_conv)

text \<open>A call whose error means that nothing was changed, and a call that never fails.\<close>

definition atomic :: "('e, 's, 'a) call \<Rightarrow> bool" where
  "atomic m \<longleftrightarrow> (\<forall>s e s'. m s = (Inl e, s') \<longrightarrow> s' = s)"

definition never_fails :: "('e, 's, 'a) call \<Rightarrow> bool" where
  "never_fails m \<longleftrightarrow> (\<forall>s e s'. m s \<noteq> (Inl e, s'))"

named_theorems atomic_intro \<comment> \<open>calls whose errors leave the state\<close>

lemma atomic_reads: "reads_only m \<Longrightarrow> atomic m"
  unfolding reads_only_def atomic_def by (metis snd_conv)

lemma atomic_return [atomic_intro]: "atomic (return_ok x)" "atomic (return_error e)"
  by (simp_all add: atomic_reads reads_return)

lemma atomic_proceed [atomic_intro]: "reads_only m \<Longrightarrow> (\<And>x. atomic (f x)) \<Longrightarrow> atomic (proceed m f)"
  unfolding reads_only_def atomic_def proceed_def by (auto split: prod.splits sum.splits) (metis snd_conv)+

lemma atomic_require [atomic_intro]: "atomic m \<Longrightarrow> atomic (require b e m)"
  by (simp add: require_def atomic_return)

lemma atomic_attempt [atomic_intro]: "reads_only m \<Longrightarrow> (\<And>r. atomic (f r)) \<Longrightarrow> atomic (attempt_call m f)"
  unfolding reads_only_def atomic_def attempt_call_def by (auto split: prod.splits) (metis snd_conv)

lemma atomic_last: "atomic m \<Longrightarrow> (\<And>x. never_fails (f x)) \<Longrightarrow> atomic (proceed m f)"
  by (auto simp: atomic_def never_fails_def proceed_def split: prod.splits sum.splits)

lemma never_fails_return: "never_fails (return_ok x)"
  by (simp add: never_fails_def call_defs)

lemma never_fails_ignore: "never_fails k \<Longrightarrow> never_fails (ignore_error m k)"
  by (simp add: never_fails_def ignore_error_def)

lemma never_fails_proceed: "never_fails m \<Longrightarrow> (\<And>x. never_fails (f x)) \<Longrightarrow> never_fails (proceed m f)"
  by (auto simp: never_fails_def proceed_def split: prod.splits sum.splits)

subsection \<open>Transition systems\<close>

text \<open>
  What holds of the initial states and is preserved by every step holds of every state a run
  reaches.
\<close>

locale transition_system =
  fixes init inv :: "'s \<Rightarrow> bool" and step :: "'s \<Rightarrow> 's \<Rightarrow> bool"
  assumes init_inv: "init s \<Longrightarrow> inv s"
    and step_inv: "inv s \<Longrightarrow> step s s' \<Longrightarrow> inv s'"
begin

lemma run_inv:
  assumes "init s" "step\<^sup>*\<^sup>* s s'"
  shows "inv s'"
  using assms(2)
  by (induction rule: rtranclp_induct) (auto intro: init_inv step_inv assms(1))

end

end
