(* ===== verification/Supply_Store.thy ===== *)
theory Supply_Store
  imports License_Evidence Go_Calls "HOL-Library.Product_Lexorder"
begin

text \<open>
  The license part of the supply-chain database: \<open>internal/postgres/supply_chain_license.go\<close> over
  the tables of migrations 033, 034 and 036.  Every function is one statement or one transaction;
  errors of the connection are not modelled, so an error here is a broken constraint or a row that
  is not there.  A \<open>NULL\<close> fingerprint is the empty string (a stored one has 32 bytes).
\<close>

datatype store_error =
    ErrForbidden | ErrInvalidRequest | ErrNotFound | ErrStaleBasis
  | ErrNoPolicy | ErrNoRows | ErrNoJob | ErrFenced | ErrConstraint

subsection \<open>Tables\<close>

record component_row =
  c_id :: int
  c_snapshot :: int
  c_ordinal :: int
  c_element :: string
  c_name :: string
  c_version :: "string option"
  c_purl :: "string option"
  c_ecosystem :: "string option"
  c_purl_namespace :: "string option"
  c_purl_name :: "string option"
  c_purl_version :: "string option"
  c_declared :: "string option"
  c_concluded :: "string option"

record stream_row =
  st_repository :: int
  st_key :: string
  st_latest :: "int option"

datatype enrichment_state = EQueued | ERunning | ESucceeded | EFailed | ESkipped

record enrichment_job =
  e_id :: int
  e_coordinates :: coordinates
  e_route :: string
  e_state :: enrichment_state
  e_attempt :: int
  e_max_attempts :: int
  e_run_after :: time
  e_owner :: "string option"
  e_expires :: "time option"
  e_fence :: int
  e_error_code :: string

record license_db =
  components :: "component_row list"
  streams :: "stream_row list"
  evidence_rows :: "evidence list"
  next_evidence :: int
  enrichment_jobs :: "enrichment_job list"
  next_enrichment :: int
  assessments :: "assessment list"

definition coalesce1 :: "string option \<Rightarrow> string \<Rightarrow> string" where
  "coalesce1 a d = (case a of None \<Rightarrow> d | Some x \<Rightarrow> x)"

definition coalesce2 :: "string option \<Rightarrow> string option \<Rightarrow> string \<Rightarrow> string" where
  "coalesce2 a b d = (case a of Some x \<Rightarrow> x | None \<Rightarrow> coalesce1 b d)"

definition newest_first :: "('a \<Rightarrow> int) \<Rightarrow> nat \<Rightarrow> 'a list \<Rightarrow> 'a list" where
  "newest_first key n rows = take n (rev (sort_key key rows))"

definition first_row :: "'a list \<Rightarrow> 'a option" where
  "first_row rows = (case rows of [] \<Rightarrow> None | x # _ \<Rightarrow> Some x)"

subsection \<open>Evidence\<close>

definition scoped :: "coordinates \<Rightarrow> license_db \<Rightarrow> evidence list" where
  "scoped c db = filter (\<lambda>e. ev_coordinates e = c) (evidence_rows db)"

definition latest_evidence_row :: "coordinates \<Rightarrow> source \<Rightarrow> string \<Rightarrow> license_db \<Rightarrow> evidence option" where
  "latest_evidence_row c src rt db =
     first_row (newest_first ev_id 1 (filter (\<lambda>e. ev_source e = src \<and> route e = rt) (scoped c db)))"

text \<open>Appending a row: the identity column gives its identifier.\<close>

definition append_evidence :: "evidence \<Rightarrow> license_db \<Rightarrow> license_db" where
  "append_evidence e db =
     db\<lparr>evidence_rows := evidence_rows db @ [e\<lparr>ev_id := next_evidence db\<rparr>],
        next_evidence := next_evidence db + 1\<rparr>"

definition insert_license_evidence :: "evidence \<Rightarrow> (store_error, license_db, int \<times> bool) call" where
  "insert_license_evidence e db =
     (let duplicate = (case latest_evidence_row (ev_coordinates e) (ev_source e) (route e) db of
            None \<Rightarrow> False
          | Some previous \<Rightarrow> fingerprint previous = fingerprint e)
      in (Inr (next_evidence db, duplicate), append_evidence e db))"

definition same_origin :: "evidence \<Rightarrow> evidence \<Rightarrow> bool" where
  "same_origin e f \<longleftrightarrow> ev_source e = ev_source f \<and> route e = route f"

text \<open>\<open>distinct on (source, route) ... order by source, route, id desc\<close>.\<close>

definition newest_in :: "evidence list \<Rightarrow> evidence \<Rightarrow> bool" where
  "newest_in rows e \<longleftrightarrow> list_all (\<lambda>f. same_origin f e \<longrightarrow> ev_id f \<le> ev_id e) rows"

definition latest_license_evidence :: "coordinates \<Rightarrow> (store_error, license_db, evidence list) call" where
  "latest_license_evidence c db =
     (let rows = scoped c db;
          resolved = filter (\<lambda>e. outcome e = OutcomeResolved) rows;
          newest = filter (newest_in rows) rows;
          newest_resolved = filter (newest_in resolved) resolved;
          fallback = filter (\<lambda>e. list_ex (\<lambda>n. same_origin n e \<and> outcome n \<noteq> OutcomeResolved) newest)
                       newest_resolved
      in (Inr (sort_key ev_id (filter (\<lambda>e. e \<in> set newest \<or> e \<in> set fallback) rows)), db))"

definition license_evidence_history :: "coordinates \<Rightarrow> nat \<Rightarrow> (store_error, license_db, evidence list) call" where
  "license_evidence_history c n db = (Inr (newest_first ev_id n (scoped c db)), db)"

subsection \<open>Enrichment jobs\<close>

definition enrichment_lease :: time where
  "enrichment_lease = 2 * 60 * 1000000000"

definition active_job :: "enrichment_job \<Rightarrow> bool" where
  "active_job j \<longleftrightarrow> e_state j = EQueued \<or> e_state j = ERunning"

definition fresh_row :: "time \<Rightarrow> evidence \<Rightarrow> bool" where
  "fresh_row now e \<longleftrightarrow> outcome e = OutcomeResolved \<or>
     (case expires_at e of None \<Rightarrow> True | Some t \<Rightarrow> t > now)"

text \<open>\<open>now\<close> is the time of the first query, \<open>now'\<close> that of the check and the statement after it.\<close>

definition enqueue_enrichment :: "time \<Rightarrow> time \<Rightarrow> coordinates \<Rightarrow> string \<Rightarrow> (store_error, license_db, bool) call" where
  "enqueue_enrichment now now' c rt db =
     (let rows = filter (\<lambda>e. route e = rt) (scoped c db);
          fresh = list_ex (fresh_row now) rows;
          newest_fresh = (case first_row (newest_first ev_id 1 rows) of
             None \<Rightarrow> False | Some e \<Rightarrow> fresh_row now' e)
      in if fresh \<and> newest_fresh then (Inr False, db)
         else if list_ex (\<lambda>j. active_job j \<and> e_coordinates j = c \<and> e_route j = rt) (enrichment_jobs db)
         then (Inr False, db)
         else (Inr True,
           db\<lparr>enrichment_jobs := enrichment_jobs db @
                [\<lparr>e_id = next_enrichment db, e_coordinates = c, e_route = rt, e_state = EQueued,
                  e_attempt = 0, e_max_attempts = 3, e_run_after = now', e_owner = None, e_expires = None,
                  e_fence = 0, e_error_code = []\<rparr>],
              next_enrichment := next_enrichment db + 1\<rparr>))"

definition update_enrichment :: "(enrichment_job \<Rightarrow> bool) \<Rightarrow> (enrichment_job \<Rightarrow> enrichment_job) \<Rightarrow>
    license_db \<Rightarrow> license_db" where
  "update_enrichment p f db =
     db\<lparr>enrichment_jobs := map (\<lambda>j. if p j then f j else j) (enrichment_jobs db)\<rparr>"

definition claimed :: "time \<Rightarrow> string \<Rightarrow> enrichment_job \<Rightarrow> enrichment_job" where
  "claimed now owner j = j\<lparr>e_state := ERunning, e_attempt := e_attempt j + 1, e_owner := Some owner,
     e_fence := e_fence j + 1, e_expires := Some (now + enrichment_lease)\<rparr>"

definition claim_enrichment :: "time \<Rightarrow> string \<Rightarrow> (store_error, license_db, enrichment_job) call" where
  "claim_enrichment now owner db =
     (case sort_key (\<lambda>j. (e_run_after j, e_id j))
             (filter (\<lambda>j. e_state j = EQueued \<and> e_run_after j \<le> now) (enrichment_jobs db)) of
        [] \<Rightarrow> (Inl ErrNoJob, db)
      | j # _ \<Rightarrow>
          (Inr (claimed now owner j), update_enrichment (\<lambda>k. e_id k = e_id j) (claimed now owner) db))"

definition holds_lease :: "int \<Rightarrow> string \<Rightarrow> int \<Rightarrow> enrichment_job \<Rightarrow> bool" where
  "holds_lease i owner fence j \<longleftrightarrow>
     e_id j = i \<and> e_state j = ERunning \<and> e_owner j = Some owner \<and> e_fence j = fence"

definition renew_enrichment :: "time \<Rightarrow> int \<Rightarrow> string \<Rightarrow> int \<Rightarrow> (store_error, license_db, unit) call" where
  "renew_enrichment now i owner fence db =
     (let p = (\<lambda>j. holds_lease i owner fence j \<and> (case e_expires j of None \<Rightarrow> False | Some t \<Rightarrow> t > now))
      in if length (filter p (enrichment_jobs db)) \<noteq> 1 then (Inl ErrFenced, db)
         else (Inr (), update_enrichment p (\<lambda>j. j\<lparr>e_expires := Some (now + enrichment_lease)\<rparr>) db))"

text \<open>
  \<open>CompleteEnrichment\<close>: an unavailable registry is retried with back-off while attempts are left.
  \<open>jitter\<close> is the random multiple of the cap.
\<close>

definition retry_cap :: "int \<Rightarrow> time" where
  "retry_cap n = min (60 * 4 ^ nat (n - 1)) 3600 * 1000000000"

definition complete_row :: "time \<Rightarrow> (time \<Rightarrow> time) \<Rightarrow> outcome \<Rightarrow> string \<Rightarrow> enrichment_job \<Rightarrow> enrichment_job" where
  "complete_row now jitter oc code j =
     (let retry = (oc = OutcomeUnavailable \<and> e_attempt j < e_max_attempts j) in
      j\<lparr>e_state := (if retry then EQueued
                    else if oc = OutcomeUnavailable then EFailed
                    else if oc = OutcomeRejected then ESkipped else ESucceeded),
        e_run_after := (if retry then now + jitter (retry_cap (e_attempt j)) else e_run_after j),
        e_error_code := code, e_owner := None, e_expires := None\<rparr>)"

definition complete_enrichment :: "time \<Rightarrow> (time \<Rightarrow> time) \<Rightarrow> int \<Rightarrow> string \<Rightarrow> int \<Rightarrow> outcome \<Rightarrow> string \<Rightarrow>
    (store_error, license_db, unit) call" where
  "complete_enrichment now jitter i owner fence oc code db =
     (if length (filter (holds_lease i owner fence) (enrichment_jobs db)) \<noteq> 1 then (Inl ErrFenced, db)
      else (Inr (), update_enrichment (holds_lease i owner fence) (complete_row now jitter oc code) db))"

definition reapable :: "time \<Rightarrow> enrichment_job \<Rightarrow> bool" where
  "reapable now j \<longleftrightarrow> e_state j = ERunning \<and> (case e_expires j of None \<Rightarrow> False | Some t \<Rightarrow> t \<le> now)"

definition reap_row :: "time \<Rightarrow> enrichment_job \<Rightarrow> enrichment_job" where
  "reap_row now j =
     j\<lparr>e_state := (if e_attempt j < e_max_attempts j then EQueued else EFailed),
       e_error_code := ''lease_expired'', e_owner := None, e_expires := None,
       e_run_after := now + 30 * 1000000000\<rparr>"

definition reap_expired_enrichment :: "time \<Rightarrow> nat \<Rightarrow> (store_error, license_db, nat) call" where
  "reap_expired_enrichment now n db =
     (let ids = map e_id (take n (sort_key (\<lambda>j. (case e_expires j of None \<Rightarrow> 0 | Some t \<Rightarrow> t, e_id j))
                  (filter (reapable now) (enrichment_jobs db))))
      in (Inr (length ids), update_enrichment (\<lambda>j. e_id j \<in> set ids) (reap_row now) db))"

definition enrichment_queue_depth :: "license_db \<Rightarrow> enrichment_state \<Rightarrow> nat" where
  "enrichment_queue_depth db st = length (filter (\<lambda>j. e_state j = st) (enrichment_jobs db))"

subsection \<open>Components and assessments\<close>

definition component_coordinates :: "component_row \<Rightarrow> coordinates" where
  "component_coordinates c =
     \<lparr>ecosystem = coalesce1 (c_ecosystem c) [], namespace = coalesce1 (c_purl_namespace c) [],
      pkg_name = coalesce1 (c_purl_name c) [], version = coalesce2 (c_purl_version c) (c_version c) []\<rparr>"

text \<open>The join of the components with the streams whose latest snapshot holds them.\<close>

definition latest_components :: "license_db \<Rightarrow> (component_row \<times> stream_row) list" where
  "latest_components db =
     concat (map (\<lambda>c. map (Pair c) (filter (\<lambda>st. st_latest st = Some (c_snapshot c)) (streams db)))
       (sort_key c_id (components db)))"

definition carries :: "coordinates \<Rightarrow> component_row \<Rightarrow> bool" where
  "carries x c \<longleftrightarrow> c_ecosystem c = Some (ecosystem x) \<and> coalesce1 (c_purl_namespace c) [] = namespace x \<and>
     c_purl_name c = Some (pkg_name x) \<and> coalesce2 (c_purl_version c) (c_version c) [] = version x"

definition components_for_coordinates :: "coordinates \<Rightarrow> nat \<Rightarrow> (store_error, license_db, (int \<times> int) list) call" where
  "components_for_coordinates x n db =
     (Inr (take n (map (\<lambda>(c, st). (c_id c, c_snapshot c)) (filter (\<lambda>(c, st). carries x c) (latest_components db)))), db)"

definition component_declarations :: "int \<Rightarrow> (store_error, license_db, string option \<times> string option) call" where
  "component_declarations i db =
     (case find (\<lambda>c. c_id c = i) (components db) of
        None \<Rightarrow> (Inl ErrNoRows, db)
      | Some c \<Rightarrow> (Inr (c_declared c, c_concluded c), db))"

text \<open>The conflict clause of \<open>UpsertAssessment\<close> keeps the snapshot of the row that is there.\<close>

definition upsert_assessment :: "assessment \<Rightarrow> (store_error, license_db, unit) call" where
  "upsert_assessment a db =
     (Inr (),
      db\<lparr>assessments :=
          (if list_ex (\<lambda>x. as_component x = as_component a) (assessments db)
           then map (\<lambda>x. if as_component x = as_component a then a\<lparr>as_snapshot := as_snapshot x\<rparr> else x) (assessments db)
           else assessments db @ [a])\<rparr>)"

definition latest_snapshot_ids :: "(store_error, license_db, int list) call" where
  "latest_snapshot_ids db = (Inr (sort (concat (map (\<lambda>st. case st_latest st of None \<Rightarrow> [] | Some i \<Rightarrow> [i]) (streams db)))), db)"

definition coordinate_key :: "coordinates \<Rightarrow> string \<times> string \<times> string \<times> string" where
  "coordinate_key c = (ecosystem c, namespace c, pkg_name c, version c)"

definition snapshot_coordinates :: "int \<Rightarrow> (store_error, license_db, coordinates list) call" where
  "snapshot_coordinates i db =
     (Inr (sort_key coordinate_key (remdups (map component_coordinates
        (filter (\<lambda>c. c_snapshot c = i \<and> c_ecosystem c \<noteq> None \<and> c_purl_name c \<noteq> None \<and>
                     coalesce2 (c_purl_version c) (c_version c) [] \<noteq> []) (components db))))), db)"

record snapshot_component =
  sc_id :: int
  sc_coordinates :: coordinates
  sc_declared :: "string option"
  sc_concluded :: "string option"

definition snapshot_components :: "int \<Rightarrow> (store_error, license_db, snapshot_component list) call" where
  "snapshot_components i db =
     (Inr (map (\<lambda>c. \<lparr>sc_id = c_id c, sc_coordinates = component_coordinates c,
                     sc_declared = c_declared c, sc_concluded = c_concluded c\<rparr>)
        (sort_key c_ordinal (filter (\<lambda>c. c_snapshot c = i) (components db)))), db)"

definition supply_chain_assessments :: "int \<Rightarrow> int list \<Rightarrow> (store_error, license_db, int \<rightharpoonup> assessment) call" where
  "supply_chain_assessments i ids db =
     (Inr (\<lambda>k. if k \<in> set ids then find (\<lambda>a. as_snapshot a = i \<and> as_component a = k) (assessments db) else None), db)"

definition assessment_count :: "int \<Rightarrow> license_db \<Rightarrow> assessment_status \<Rightarrow> nat" where
  "assessment_count i db st = length (filter (\<lambda>a. as_snapshot a = i \<and> as_status a = st) (assessments db))"

end
