(* ===== verification/Review_Store.thy ===== *)
theory Review_Store
  imports Supply_Store License_Policy
begin

text \<open>
  The review tables: \<open>internal/postgres/supply_chain_review.go\<close>, with the records of
  \<open>internal/supplychain/review/review.go\<close> it stores.  Rows are never edited except for the columns
  \<open>active\<close>, \<open>current\<close> and \<open>superseded_by\<close>.  The argument \<open>now\<close> is the time of the transaction.
\<close>

subsection \<open>Records\<close>

datatype decision_kind = DecisionApprove | DecisionReject | DecisionException

record conclusion =
  cn_id :: int
  cn_coordinates :: coordinates
  cn_evidence :: int
  cn_basis :: string
  cn_reviewer :: string
  cn_reason :: string
  cn_created :: time
  cn_superseded :: "int option"

record eval_result =
  er_component :: int
  er_snapshot :: int
  er_policy :: int
  er_fingerprint :: string
  er_verdict :: verdict
  er_explanation :: string
  er_at :: time

record evaluation_target =
  tg_component :: int
  tg_snapshot :: int
  tg_status :: "assessment_status option"
  tg_expression :: string
  tg_fingerprint :: string

record decision =
  d_id :: int
  d_repository :: int
  d_coordinates :: coordinates
  d_kind :: decision_kind
  d_policy :: "int option"
  d_verdict :: "verdict option"
  d_fingerprint :: string
  d_reviewer :: string
  d_reason :: string
  d_usage :: string
  d_expires :: "time option"
  d_created :: time
  d_superseded :: "int option"

datatype queue_reason = NoReason | ExceptionExpired | EvidenceChanged | NotEvaluated | NoDecision

record queue_item =
  qi_component :: int
  qi_snapshot :: int
  qi_github :: int
  qi_repository :: string
  qi_element :: string
  qi_name :: string
  qi_version :: string
  qi_purl :: string
  qi_coordinates :: coordinates
  qi_status :: "assessment_status option"
  qi_expression :: string
  qi_fingerprint :: string
  qi_verdict :: "verdict option"
  qi_explanation :: string
  qi_policy :: "int option"
  qi_stale_decision :: "int option"
  qi_reason :: queue_reason

text \<open>The values of the JSON detail of an event.\<close>

datatype detail_value = DetailInt int | DetailString string | DetailBool bool | DetailTime time

record review_event =
  rv_id :: int
  rv_kind :: string
  rv_actor :: string
  rv_repository :: "int option"
  rv_target :: string
  rv_detail :: "(string \<times> detail_value) list"
  rv_created :: time

record result_row =
  rr_id :: int
  rr_result :: eval_result
  rr_current :: bool

record repository_row =
  rp_id :: int
  rp_github :: int
  rp_owner :: string
  rp_name :: string

record review_db =
  lic :: license_db
  repository_rows :: "repository_row list"
  snapshot_rows :: "(int \<times> int) list"
  policies :: "policy list"
  next_policy :: int
  results :: "result_row list"
  next_result :: int
  grants :: "(int \<times> string \<times> string) list"
  conclusions :: "conclusion list"
  next_conclusion :: int
  decisions :: "decision list"
  next_decision :: int
  review_events :: "review_event list"
  next_event :: int

text \<open>A function of the license store, on the whole database.\<close>

definition on_license :: "(store_error, license_db, 'a) call \<Rightarrow> (store_error, review_db, 'a) call" where
  "on_license m db = (case m (lic db) of (r, l) \<Rightarrow> (r, db\<lparr>lic := l\<rparr>))"

subsection \<open>Policies\<close>

definition policy_check :: "policy \<Rightarrow> bool" where
  "policy_check p \<longleftrightarrow> (policy_kind p = ''example'' \<or> policy_kind p = ''organization'') \<and>
     (unknown_handling p = VerdictReviewRequired \<or> unknown_handling p = VerdictProhibited)"

definition next_version :: "string \<Rightarrow> review_db \<Rightarrow> int" where
  "next_version name db =
     fold max (map policy_version (filter (\<lambda>p. policy_name p = name) (policies db))) 0 + 1"

definition create_policy :: "policy \<Rightarrow> bool \<Rightarrow> (store_error, review_db, policy) call" where
  "create_policy item activate db =
     (let old = (if activate then map (\<lambda>p. p\<lparr>policy_active := False\<rparr>) (policies db) else policies db);
          new = item\<lparr>policy_version := next_version (policy_name item) db, policy_active := activate,
                     policy_id := next_policy db\<rparr>
      in if policy_check new
         then (Inr new, db\<lparr>policies := old @ [new], next_policy := next_policy db + 1\<rparr>)
         else (Inl ErrConstraint, db))"

definition active_policy :: "(store_error, review_db, policy) call" where
  "active_policy db =
     (case find policy_active (policies db) of None \<Rightarrow> (Inl ErrNoPolicy, db) | Some p \<Rightarrow> (Inr p, db))"

definition policy_by_id :: "int \<Rightarrow> (store_error, review_db, policy) call" where
  "policy_by_id i db =
     (case find (\<lambda>p. policy_id p = i) (policies db) of None \<Rightarrow> (Inl ErrNoRows, db) | Some p \<Rightarrow> (Inr p, db))"

definition list_policies :: "nat \<Rightarrow> (store_error, review_db, policy list) call" where
  "list_policies n db = (Inr (newest_first policy_id n (policies db)), db)"

subsection \<open>Policy results\<close>

definition fingerprint_check :: "string \<Rightarrow> bool" where
  "fingerprint_check f \<longleftrightarrow> f = [] \<or> length f = 32"

definition upsert_policy_result :: "eval_result \<Rightarrow> (store_error, review_db, unit) call" where
  "upsert_policy_result r db =
     (if fingerprint_check (er_fingerprint r)
      then (Inr (),
        db\<lparr>results := map (\<lambda>x. if er_component (rr_result x) = er_component r \<and> rr_current x
                              then x\<lparr>rr_current := False\<rparr> else x) (results db) @
              [\<lparr>rr_id = next_result db, rr_result = r, rr_current = True\<rparr>],
           next_result := next_result db + 1\<rparr>)
      else (Inl ErrConstraint, db))"

definition current_result :: "int \<Rightarrow> review_db \<Rightarrow> eval_result option" where
  "current_result c db =
     map_option rr_result (find (\<lambda>x. er_component (rr_result x) = c \<and> rr_current x) (results db))"

definition policy_results :: "int \<Rightarrow> int list \<Rightarrow> (store_error, review_db, int \<rightharpoonup> eval_result) call" where
  "policy_results snapshot ids db =
     (Inr (\<lambda>c. if c \<in> set ids
               then map_option rr_result (find (\<lambda>x. er_component (rr_result x) = c \<and>
                      er_snapshot (rr_result x) = snapshot \<and> rr_current x) (results db))
               else None), db)"

definition policy_result_history :: "int \<Rightarrow> nat \<Rightarrow> (store_error, review_db, eval_result list) call" where
  "policy_result_history c n db =
     (Inr (map rr_result (newest_first rr_id n (filter (\<lambda>x. er_component (rr_result x) = c) (results db)))), db)"

definition assessment_of :: "int \<Rightarrow> review_db \<Rightarrow> assessment option" where
  "assessment_of c db = find (\<lambda>a. as_component a = c) (assessments (lic db))"

definition opt_fingerprint :: "assessment option \<Rightarrow> string" where
  "opt_fingerprint a = (case a of None \<Rightarrow> [] | Some x \<Rightarrow> evidence_fingerprint x)"

definition needs_evaluation :: "int \<Rightarrow> review_db \<Rightarrow> int \<Rightarrow> bool" where
  "needs_evaluation pid db c \<longleftrightarrow>
     (case current_result c db of
        None \<Rightarrow> True
      | Some r \<Rightarrow> er_policy r \<noteq> pid \<or> er_fingerprint r \<noteq> opt_fingerprint (assessment_of c db))"

definition components_needing_evaluation :: "int \<Rightarrow> nat \<Rightarrow> (store_error, review_db, evaluation_target list) call" where
  "components_needing_evaluation pid n db =
     (Inr (take n (map (\<lambda>(c, st).
         let a = assessment_of (c_id c) db in
         \<lparr>tg_component = c_id c, tg_snapshot = c_snapshot c, tg_status = map_option as_status a,
          tg_expression = (case a of None \<Rightarrow> [] | Some x \<Rightarrow> as_expression x),
          tg_fingerprint = opt_fingerprint a\<rparr>)
       (filter (\<lambda>(c, st). needs_evaluation pid db (c_id c)) (latest_components (lic db))))), db)"

subsection \<open>Grants\<close>

definition review_allowed :: "int \<Rightarrow> string \<Rightarrow> (store_error, review_db, bool) call" where
  "review_allowed repository subj db =
     (Inr (list_ex (\<lambda>(r, s, g). r = repository \<and> s = subj) (grants db)), db)"

definition set_review_grant :: "int \<Rightarrow> string \<Rightarrow> string \<Rightarrow> bool \<Rightarrow> (store_error, review_db, unit) call" where
  "set_review_grant repository subj granted_by allow db =
     (Inr (),
      if \<not> allow then db\<lparr>grants := filter (\<lambda>(r, s, g). \<not> (r = repository \<and> s = subj)) (grants db)\<rparr>
      else if list_ex (\<lambda>(r, s, g). r = repository \<and> s = subj) (grants db) then db
      else db\<lparr>grants := grants db @ [(repository, subj, granted_by)]\<rparr>)"

subsection \<open>Conclusions and decisions\<close>

definition record_conclusion :: "time \<Rightarrow> conclusion \<Rightarrow> evidence \<Rightarrow> (store_error, review_db, conclusion) call" where
  "record_conclusion now c e db =
     (let row = e\<lparr>ev_source := SourceHuman, route := [], ev_coordinates := cn_coordinates c,
                  artifact_sha256 := [], license_url := [], license_file_name := [], content_sha256 := [],
                  expires_at := None, http_status := None, outcome := OutcomeResolved\<rparr>;
          new = c\<lparr>cn_id := next_conclusion db, cn_evidence := next_evidence (lic db), cn_created := now,
                  cn_superseded := None\<rparr>
      in if resolver_version e > 0 \<and> length (cn_basis c) = 32
         then (Inr (c\<lparr>cn_id := next_conclusion db, cn_evidence := next_evidence (lic db), cn_created := now\<rparr>),
           db\<lparr>lic := append_evidence row (lic db),
              conclusions := map (\<lambda>x. if cn_coordinates x = cn_coordinates c \<and> cn_superseded x = None
                 then x\<lparr>cn_superseded := Some (next_conclusion db)\<rparr> else x) (conclusions db) @ [new],
              next_conclusion := next_conclusion db + 1\<rparr>)
         else (Inl ErrConstraint, db))"

definition conclusion_history :: "coordinates \<Rightarrow> nat \<Rightarrow> (store_error, review_db, conclusion list) call" where
  "conclusion_history c n db =
     (Inr (newest_first cn_id n (filter (\<lambda>x. cn_coordinates x = c) (conclusions db))), db)"

definition decision_check :: "decision \<Rightarrow> bool" where
  "decision_check d \<longleftrightarrow> length (d_fingerprint d) = 32 \<and> (d_kind d = DecisionException \<longrightarrow> d_expires d \<noteq> None)"

definition same_scope :: "int \<Rightarrow> coordinates \<Rightarrow> decision \<Rightarrow> bool" where
  "same_scope repository c d \<longleftrightarrow> d_repository d = repository \<and> d_coordinates d = c"

definition record_decision :: "time \<Rightarrow> decision \<Rightarrow> (store_error, review_db, decision) call" where
  "record_decision now d db =
     (let new = d\<lparr>d_id := next_decision db, d_created := now, d_superseded := None\<rparr> in
      if decision_check d
      then (Inr (d\<lparr>d_id := next_decision db, d_created := now\<rparr>),
        db\<lparr>decisions := map (\<lambda>x. if same_scope (d_repository d) (d_coordinates d) x \<and> d_superseded x = None
             then x\<lparr>d_superseded := Some (next_decision db)\<rparr> else x) (decisions db) @ [new],
           next_decision := next_decision db + 1\<rparr>)
      else (Inl ErrConstraint, db))"

definition current_decision :: "int \<Rightarrow> coordinates \<Rightarrow> (store_error, review_db, decision option) call" where
  "current_decision repository c db =
     (Inr (first_row (newest_first d_id 1
        (filter (\<lambda>d. same_scope repository c d \<and> d_superseded d = None) (decisions db)))), db)"

definition decision_history :: "int \<Rightarrow> coordinates \<Rightarrow> nat \<Rightarrow> (store_error, review_db, decision list) call" where
  "decision_history repository c n db =
     (Inr (newest_first d_id n (filter (same_scope repository c) (decisions db))), db)"

subsection \<open>The review queue\<close>

definition open_decision :: "int \<Rightarrow> coordinates \<Rightarrow> review_db \<Rightarrow> decision option" where
  "open_decision repository c db =
     first_row (newest_first d_id 1
       (filter (\<lambda>d. same_scope repository c d \<and> d_superseded d = None) (decisions db)))"

definition in_queue :: "time \<Rightarrow> eval_result option \<Rightarrow> assessment option \<Rightarrow> decision option \<Rightarrow> bool" where
  "in_queue now res a d \<longleftrightarrow>
     (case res of None \<Rightarrow> True | Some r \<Rightarrow> er_verdict r \<noteq> VerdictApproved) \<and>
     (case d of
        None \<Rightarrow> True
      | Some x \<Rightarrow>
          (case d_expires x of None \<Rightarrow> False | Some t \<Rightarrow> t \<le> now) \<or>
          (opt_fingerprint a \<noteq> [] \<and> d_fingerprint x \<noteq> opt_fingerprint a))"

definition queue_reason_of :: "time \<Rightarrow> eval_result option \<Rightarrow> assessment option \<Rightarrow> decision option \<Rightarrow> queue_reason" where
  "queue_reason_of now res a d =
     (case d of
        Some x \<Rightarrow>
          if (case d_expires x of None \<Rightarrow> False | Some t \<Rightarrow> t \<le> now) then ExceptionExpired
          else if opt_fingerprint a \<noteq> [] \<and> d_fingerprint x \<noteq> opt_fingerprint a then EvidenceChanged
          else NoReason
      | None \<Rightarrow> if res = None then NotEvaluated else NoDecision)"

definition queue_item_of :: "time \<Rightarrow> review_db \<Rightarrow> component_row \<Rightarrow> repository_row \<Rightarrow> queue_item" where
  "queue_item_of now db c r =
     (let a = assessment_of (c_id c) db; res = current_result (c_id c) db;
          d = open_decision (rp_id r) (component_coordinates c) db
      in \<lparr>qi_component = c_id c, qi_snapshot = c_snapshot c, qi_github = rp_github r,
          qi_repository = rp_owner r @ ''/'' @ rp_name r, qi_element = c_element c, qi_name = c_name c,
          qi_version = coalesce1 (c_version c) [], qi_purl = coalesce1 (c_purl c) [],
          qi_coordinates = component_coordinates c, qi_status = map_option as_status a,
          qi_expression = (case a of None \<Rightarrow> [] | Some x \<Rightarrow> as_expression x),
          qi_fingerprint = opt_fingerprint a, qi_verdict = map_option er_verdict res,
          qi_explanation = (case res of None \<Rightarrow> [] | Some x \<Rightarrow> er_explanation x),
          qi_policy = map_option er_policy res, qi_stale_decision = map_option d_id d,
          qi_reason = queue_reason_of now res a d\<rparr>)"

definition review_queue :: "int list \<Rightarrow> string \<Rightarrow> time \<Rightarrow> int \<Rightarrow> nat \<Rightarrow> (store_error, review_db, queue_item list) call" where
  "review_queue ids key now after n db =
     (if ids = [] then (Inr [], db)
      else (Inr (take n (concat (map (\<lambda>(c, st).
          if st_repository st \<in> set ids \<and> st_key st = key \<and> c_id c > after \<and>
             list_ex (\<lambda>(sn, rp). Some sn = st_latest st) (snapshot_rows db) \<and>
             in_queue now (current_result (c_id c) db) (assessment_of (c_id c) db)
               (open_decision (st_repository st) (component_coordinates c) db)
          then map (queue_item_of now db c) (filter (\<lambda>r. rp_id r = st_repository st) (repository_rows db))
          else []) (latest_components (lic db))))), db))"

subsection \<open>Events\<close>

text \<open>
  \<open>fault\<close> is the error the insert of an event of a kind meets, if any: a value that does not fit its
  column, a lost connection.
\<close>

definition record_review_event :: "(string \<Rightarrow> store_error option) \<Rightarrow> time \<Rightarrow> string \<Rightarrow> string \<Rightarrow> int option \<Rightarrow> string \<Rightarrow>
    (string \<times> detail_value) list \<Rightarrow> (store_error, review_db, unit) call" where
  "record_review_event fault now kind actor repository target detail db =
     (case fault kind of
        Some e \<Rightarrow> (Inl e, db)
      | None \<Rightarrow>
          (Inr (),
           db\<lparr>review_events := review_events db @
                [\<lparr>rv_id = next_event db, rv_kind = kind, rv_actor = actor, rv_repository = repository,
                  rv_target = target, rv_detail = detail, rv_created = now\<rparr>],
              next_event := next_event db + 1\<rparr>))"

definition list_review_events :: "int list \<Rightarrow> nat \<Rightarrow> (store_error, review_db, review_event list) call" where
  "list_review_events ids n db =
     (Inr (newest_first rv_id n
        (filter (\<lambda>e. case rv_repository e of None \<Rightarrow> True | Some r \<Rightarrow> r \<in> set ids) (review_events db))), db)"

definition snapshot_repository_id :: "int \<Rightarrow> (store_error, review_db, int) call" where
  "snapshot_repository_id i db =
     (case find (\<lambda>(sn, rp). sn = i) (snapshot_rows db) of
        None \<Rightarrow> (Inl ErrNoRows, db) | Some (sn, rp) \<Rightarrow> (Inr rp, db))"

end
