(* ===== verification/Review_Service.thy ===== *)
theory Review_Service
  imports Review_Store
begin

text \<open>
  The review application layer: \<open>internal/supplychain/review/review.go\<close>.  The service is written
  against the interfaces \<open>Store\<close> and \<open>Authorizer\<close>, as in the source: they are records of calls on
  a state that the service does not look into.  \<open>postgres_store\<close> is the implementation of
  \<open>Review_Store\<close>.  The license list \<open>l\<close>, the JSON decoder and the order in which a Go map is
  visited are fields of the service; its clock is read once per operation.
\<close>

subsection \<open>Interfaces\<close>

type_synonym ('s, 'a) store_call = "(store_error, 's, 'a) call"

record 's review_store =
  rs_create_policy :: "policy \<Rightarrow> bool \<Rightarrow> ('s, policy) store_call"
  rs_active_policy :: "('s, policy) store_call"
  rs_policies :: "nat \<Rightarrow> ('s, policy list) store_call"
  rs_upsert_policy_result :: "eval_result \<Rightarrow> ('s, unit) store_call"
  rs_policy_results :: "int \<Rightarrow> int list \<Rightarrow> ('s, int \<rightharpoonup> eval_result) store_call"
  rs_policy_result_history :: "int \<Rightarrow> nat \<Rightarrow> ('s, eval_result list) store_call"
  rs_components_needing_evaluation :: "int \<Rightarrow> nat \<Rightarrow> ('s, evaluation_target list) store_call"
  rs_review_allowed :: "int \<Rightarrow> string \<Rightarrow> ('s, bool) store_call"
  rs_set_review_grant :: "int \<Rightarrow> string \<Rightarrow> string \<Rightarrow> bool \<Rightarrow> ('s, unit) store_call"
  rs_record_conclusion :: "conclusion \<Rightarrow> evidence \<Rightarrow> ('s, conclusion) store_call"
  rs_conclusion_history :: "coordinates \<Rightarrow> nat \<Rightarrow> ('s, conclusion list) store_call"
  rs_record_decision :: "decision \<Rightarrow> ('s, decision) store_call"
  rs_current_decision :: "int \<Rightarrow> coordinates \<Rightarrow> ('s, decision option) store_call"
  rs_decision_history :: "int \<Rightarrow> coordinates \<Rightarrow> nat \<Rightarrow> ('s, decision list) store_call"
  rs_review_queue :: "int list \<Rightarrow> string \<Rightarrow> time \<Rightarrow> int \<Rightarrow> nat \<Rightarrow> ('s, queue_item list) store_call"
  rs_record_event :: "string \<Rightarrow> string \<Rightarrow> int option \<Rightarrow> string \<Rightarrow> (string \<times> detail_value) list \<Rightarrow>
     ('s, unit) store_call"
  rs_events :: "int list \<Rightarrow> nat \<Rightarrow> ('s, review_event list) store_call"
  rs_components_for :: "coordinates \<Rightarrow> nat \<Rightarrow> ('s, (int \<times> int) list) store_call"
  rs_declarations :: "int \<Rightarrow> ('s, string option \<times> string option) store_call"
  rs_latest_evidence :: "coordinates \<Rightarrow> ('s, evidence list) store_call"
  rs_upsert_assessment :: "assessment \<Rightarrow> ('s, unit) store_call"
  rs_assessments :: "int \<Rightarrow> int list \<Rightarrow> ('s, int \<rightharpoonup> assessment) store_call"
  rs_snapshot_repository :: "(int \<Rightarrow> ('s, int) store_call) option"

record principal =
  subject :: string
  administrator :: bool

text \<open>The repositories of a principal: their identifiers in the database, by GitHub identifier.\<close>

record authorizer =
  az_all :: "principal \<Rightarrow> store_error + int list"
  az_one :: "principal \<Rightarrow> int \<Rightarrow> store_error + int"

record 's review_service =
  sv_store :: "'s review_store"
  sv_authorizer :: authorizer
  sv_max_results :: int
  sv_now :: time
  sv_licenses :: licenses_if
  sv_decode :: "bytes \<Rightarrow> rules option"
  sv_class_order :: "policy_class list"

definition max_results :: "'s review_service \<Rightarrow> nat" where
  "max_results sv = (if sv_max_results sv \<le> 0 \<or> sv_max_results sv > 500 then 100 else nat (sv_max_results sv))"

definition from_result :: "'e + 'a \<Rightarrow> ('e, 's, 'a) call" where
  "from_result r = (case r of Inl e \<Rightarrow> return_error e | Inr x \<Rightarrow> return_ok x)"

definition can_review :: "'s review_service \<Rightarrow> principal \<Rightarrow> int \<Rightarrow> ('s, unit) store_call" where
  "can_review sv p repository =
     (if administrator p then return_ok ()
      else proceed (rs_review_allowed (sv_store sv) repository (subject p))
        (\<lambda>allowed. require allowed ErrForbidden (return_ok ())))"

definition authorized_repository :: "'s review_service \<Rightarrow> principal \<Rightarrow> int \<Rightarrow> ('s, int) store_call" where
  "authorized_repository sv p github =
     require (github \<ge> 1) ErrInvalidRequest
       (case az_one (sv_authorizer sv) p github of
          Inl ErrNoRows \<Rightarrow> return_error ErrNotFound
        | Inl e \<Rightarrow> return_error e
        | Inr r \<Rightarrow> return_ok r)"

definition coordinate_label :: "coordinates \<Rightarrow> string" where
  "coordinate_label c =
     (if namespace c \<noteq> []
      then ecosystem c @ '':'' @ namespace c @ ''/'' @ pkg_name c @ ''@'' @ version c
      else ecosystem c @ '':'' @ pkg_name c @ ''@'' @ version c)"

subsection \<open>Policies\<close>

definition service_create_policy :: "'s review_service \<Rightarrow> principal \<Rightarrow> string \<Rightarrow> string \<Rightarrow> bytes \<Rightarrow> verdict \<Rightarrow> bool \<Rightarrow>
    ('s, policy) store_call" where
  "service_create_policy sv p name0 description rules_json handling activate =
     (let name = trim_space name0 in
      require (administrator p) ErrForbidden
     (require (\<not> (name = [] \<or> length name > 128 \<or> length description > 4096 \<or> length rules_json > 65536)) ErrInvalidRequest
     (require (handling = VerdictReviewRequired \<or> handling = VerdictProhibited) ErrInvalidRequest
     (case sv_decode sv rules_json of
        None \<Rightarrow> return_error ErrInvalidRequest
      | Some decoded \<Rightarrow>
         (case parse_rules (sv_licenses sv) (sv_class_order sv) decoded of
            Inl _ \<Rightarrow> return_error ErrInvalidRequest
          | Inr parsed \<Rightarrow>
             proceed (rs_create_policy (sv_store sv)
               \<lparr>policy_id = 0, policy_name = name, policy_version = 0, policy_kind = ''organization'',
                policy_rules = parsed, unknown_handling = handling, policy_description = description,
                policy_created_by = subject p, policy_active = False\<rparr> activate)
             (\<lambda>created.
               ignore_error (rs_record_event (sv_store sv) ''policy_created'' (subject p) None
                 (name @ '' v'' @ decimal (policy_version created))
                 [(''policy_id'', DetailInt (policy_id created)), (''active'', DetailBool activate),
                  (''unknown_handling'', DetailString (verdict_string handling))])
               (return_ok created)))))))"

definition install_example_policy :: "'s review_service \<Rightarrow> principal \<Rightarrow> bool \<Rightarrow> ('s, policy) store_call" where
  "install_example_policy sv p activate =
     require (administrator p) ErrForbidden
     (proceed (rs_create_policy (sv_store sv) (example\<lparr>policy_created_by := subject p\<rparr>) activate)
     (\<lambda>created.
       ignore_error (rs_record_event (sv_store sv) ''policy_created'' (subject p) None
         (policy_name example @ '' v'' @ decimal (policy_version created))
         [(''policy_id'', DetailInt (policy_id created)), (''active'', DetailBool activate),
          (''kind'', DetailString ''example'')])
       (return_ok created)))"

definition service_policies :: "'s review_service \<Rightarrow> ('s, policy list) store_call" where
  "service_policies sv = rs_policies (sv_store sv) (max_results sv)"

definition evaluate_target :: "licenses_if \<Rightarrow> time \<Rightarrow> policy \<Rightarrow> evaluation_target \<Rightarrow> eval_result" where
  "evaluate_target l now active target =
     (let (v, expl) =
        (if tg_status target = Some AssessmentResolved \<or> tg_status target = Some AssessmentDeclared then
           let ev = evaluate_expression l active (expression (parse_with (tg_expression target) l))
           in (verdict ev, explanation ev)
         else if tg_status target = Some AssessmentConflict then
           (VerdictReviewRequired,
            ''review_required: evidence sources disagree; resolve the conflict with a human conclusion before applying '' @
            policy_name active)
         else if tg_status target = Some AssessmentUnlicensed then
           (VerdictProhibited, ''prohibited: the package asserts no license grant (UNLICENSED/NONE)'')
         else let ev = evaluate_expression l active None in (verdict ev, explanation ev))
      in \<lparr>er_component = tg_component target, er_snapshot = tg_snapshot target, er_policy = policy_id active,
          er_fingerprint = tg_fingerprint target, er_verdict = v, er_explanation = expl, er_at = now\<rparr>)"

definition evaluate_pending :: "'s review_service \<Rightarrow> int \<Rightarrow> ('s, nat) store_call" where
  "evaluate_pending sv limit =
     attempt_call (rs_active_policy (sv_store sv))
     (\<lambda>r. case r of
        Inl ErrNoPolicy \<Rightarrow> return_ok 0
      | Inl e \<Rightarrow> return_error e
      | Inr active \<Rightarrow>
          proceed (rs_components_needing_evaluation (sv_store sv) (policy_id active)
            (if limit \<le> 0 then 500 else nat limit))
          (\<lambda>targets.
            proceed (for_each targets (\<lambda>t. rs_upsert_policy_result (sv_store sv)
              (evaluate_target (sv_licenses sv) (sv_now sv) active t)))
            (\<lambda>_. return_ok (length targets))))"

subsection \<open>The queue\<close>

definition service_queue :: "'s review_service \<Rightarrow> principal \<Rightarrow> string \<Rightarrow> int \<Rightarrow> int \<Rightarrow>
    ('s, queue_item list \<times> bool) store_call" where
  "service_queue sv p key after limit_arg =
     proceed (from_result (az_all (sv_authorizer sv) p))
     (\<lambda>ids.
       let limit = (if limit_arg \<le> 0 \<or> limit_arg > int (max_results sv) then max_results sv else nat limit_arg) in
       proceed (rs_review_queue (sv_store sv) ids (if key = [] then ''github:source'' else key)
         (sv_now sv) after (limit + 1))
       (\<lambda>items. return_ok (take limit items, length items > limit)))"

subsection \<open>Conclusions\<close>

definition occurrence_in_repository :: "'s review_service \<Rightarrow> int \<Rightarrow> int \<Rightarrow> ('s, bool) store_call" where
  "occurrence_in_repository sv snapshot repository =
     (case rs_snapshot_repository (sv_store sv) of
        None \<Rightarrow> return_ok True
      | Some lookup \<Rightarrow> proceed (lookup snapshot) (\<lambda>owner. return_ok (owner = repository)))"

fun basis_loop :: "'s review_service \<Rightarrow> int \<Rightarrow> (int \<times> int) list \<Rightarrow> ('s, string) store_call" where
  "basis_loop sv repository [] = return_error ErrNotFound"
| "basis_loop sv repository ((c, snapshot) # more_occs) =
     proceed (rs_assessments (sv_store sv) snapshot [c])
     (\<lambda>as. case as c of
        None \<Rightarrow> basis_loop sv repository more_occs
      | Some a \<Rightarrow>
          proceed (occurrence_in_repository sv snapshot repository)
          (\<lambda>b. if b then return_ok (evidence_fingerprint a) else basis_loop sv repository more_occs))"

definition current_basis :: "'s review_service \<Rightarrow> int \<Rightarrow> coordinates \<Rightarrow> ('s, string) store_call" where
  "current_basis sv repository c =
     proceed (rs_components_for (sv_store sv) c 10000) (basis_loop sv repository)"

definition reassess_occurrence :: "'s review_service \<Rightarrow> evidence list \<Rightarrow> int \<times> int \<Rightarrow> ('s, unit) store_call" where
  "reassess_occurrence sv ev occ =
     proceed (rs_declarations (sv_store sv) (fst occ))
     (\<lambda>(declared, concluded).
       rs_upsert_assessment (sv_store sv)
         (assess_with_human (sv_licenses sv) (fst occ) (snd occ) declared concluded ev (sv_now sv)))"

definition service_reassess :: "'s review_service \<Rightarrow> coordinates \<Rightarrow> ('s, unit) store_call" where
  "service_reassess sv c =
     proceed (rs_latest_evidence (sv_store sv) c)
     (\<lambda>ev. proceed (rs_components_for (sv_store sv) c 10000)
     (\<lambda>occs. for_each occs (reassess_occurrence sv ev)))"

record conclude_request =
  cq_repository :: int
  cq_coordinates :: coordinates
  cq_expression :: string
  cq_reason :: string
  cq_basis :: string

definition exact_coordinates :: "coordinates \<Rightarrow> bool" where
  "exact_coordinates c \<longleftrightarrow> pkg_name c \<noteq> [] \<and> version c \<noteq> [] \<and> ecosystem c \<noteq> []"

definition human_evidence :: "licenses_if \<Rightarrow> time \<Rightarrow> principal \<Rightarrow> conclude_request \<Rightarrow> evidence" where
  "human_evidence l now p q =
     (let parsed = parse_with (cq_expression q) l in
      \<lparr>ev_id = 0, ev_source = SourceHuman, route = [], ev_coordinates = cq_coordinates q, artifact_sha256 = [],
       raw_value = trim_space (cq_expression q), raw_kind = RawExpression, parse_status = status parsed,
       normalized_expression = normalized parsed, expression_tree = expression parsed, ev_unknown_terms = [],
       license_url = [], license_file_name = [], resolver_version = resolver_version_const,
       license_list_version = list_version, content_sha256 = [], fetched_at = now, expires_at = None,
       outcome = OutcomeResolved, http_status = None,
       message = Some (Message (''human conclusion by '' @ subject p))\<rparr>)"

definition service_conclude :: "'s review_service \<Rightarrow> principal \<Rightarrow> conclude_request \<Rightarrow> ('s, conclusion) store_call" where
  "service_conclude sv p q =
     proceed (authorized_repository sv p (cq_repository q)) (\<lambda>repo.
     proceed (can_review sv p repo) (\<lambda>_.
     let reason = trim_space (cq_reason q); parsed = parse_with (cq_expression q) (sv_licenses sv) in
     require (\<not> (reason = [] \<or> length reason > 4096) \<and> exact_coordinates (cq_coordinates q)) ErrInvalidRequest
    (require (status parsed = StatusParsed \<or> status parsed = StatusNone \<or> status parsed = StatusUnlicensed) ErrInvalidRequest
    (proceed (current_basis sv repo (cq_coordinates q)) (\<lambda>basis.
     require (\<not> (cq_basis q = [] \<or> cq_basis q \<noteq> hex_encode basis)) ErrStaleBasis
    (proceed (rs_record_conclusion (sv_store sv)
        \<lparr>cn_id = 0, cn_coordinates = cq_coordinates q, cn_evidence = 0, cn_basis = basis,
         cn_reviewer = subject p, cn_reason = reason, cn_created = 0, cn_superseded = None\<rparr>
        (human_evidence (sv_licenses sv) (sv_now sv) p q)) (\<lambda>c.
     ignore_error (rs_record_event (sv_store sv) ''conclusion_recorded'' (subject p) (Some repo)
        (coordinate_label (cq_coordinates q))
        [(''conclusion_id'', DetailInt (cn_id c)), (''expression'', DetailString (normalized parsed)),
         (''basis'', DetailString (cq_basis q))])
     (proceed (service_reassess sv (cq_coordinates q)) (\<lambda>_. return_ok c)))))))))"

subsection \<open>Decisions\<close>

record decide_request =
  dq_repository :: int
  dq_coordinates :: coordinates
  dq_kind :: "decision_kind option"
  dq_reason :: string
  dq_usage :: string
  dq_expires :: "time option"
  dq_basis :: string

definition year_ns :: time where
  "year_ns = 366 * 24 * 3600 * 1000000000"

text \<open>The switch on the kind; \<open>None\<close> is a kind that is none of the three.\<close>

definition kind_ok :: "time \<Rightarrow> decision_kind option \<Rightarrow> time option \<Rightarrow> bool" where
  "kind_ok now k expires =
     (case k of
        Some DecisionApprove \<Rightarrow> expires = None
      | Some DecisionReject \<Rightarrow> expires = None
      | Some DecisionException \<Rightarrow>
          (case expires of None \<Rightarrow> False | Some t \<Rightarrow> t > now \<and> \<not> t > now + year_ns)
      | None \<Rightarrow> False)"

fun kind_string :: "decision_kind \<Rightarrow> string" where
  "kind_string DecisionApprove = ''approve''"
| "kind_string DecisionReject = ''reject''"
| "kind_string DecisionException = ''exception''"

fun verdict_loop :: "'s review_service \<Rightarrow> int \<Rightarrow> (int \<times> int) list \<Rightarrow> ('s, verdict option) store_call" where
  "verdict_loop sv repository [] = return_ok None"
| "verdict_loop sv repository ((c, snapshot) # more_occs) =
     attempt_call (occurrence_in_repository sv snapshot repository)
     (\<lambda>b. if b \<noteq> Inr True then verdict_loop sv repository more_occs
          else attempt_call (rs_policy_results (sv_store sv) snapshot [c])
            (\<lambda>res. case res of
               Inl _ \<Rightarrow> return_ok None
             | Inr rs \<Rightarrow>
                 (case rs c of None \<Rightarrow> verdict_loop sv repository more_occs | Some r \<Rightarrow> return_ok (Some (er_verdict r)))))"

definition current_verdict :: "'s review_service \<Rightarrow> int \<Rightarrow> coordinates \<Rightarrow> ('s, verdict option) store_call" where
  "current_verdict sv repository c =
     attempt_call (rs_components_for (sv_store sv) c 10000)
     (\<lambda>r. case r of Inl _ \<Rightarrow> return_ok None | Inr occs \<Rightarrow> verdict_loop sv repository occs)"

definition policy_context :: "'s review_service \<Rightarrow> int \<Rightarrow> coordinates \<Rightarrow> ('s, int option \<times> verdict option) store_call" where
  "policy_context sv repository c =
     attempt_call (rs_active_policy (sv_store sv))
     (\<lambda>r. case r of
        Inr active \<Rightarrow> proceed (current_verdict sv repository c) (\<lambda>v. return_ok (Some (policy_id active), v))
      | Inl ErrNoPolicy \<Rightarrow> return_ok (None, None)
      | Inl e \<Rightarrow> return_error e)"

definition service_decide :: "'s review_service \<Rightarrow> principal \<Rightarrow> decide_request \<Rightarrow> ('s, decision) store_call" where
  "service_decide sv p q =
     proceed (authorized_repository sv p (dq_repository q)) (\<lambda>repo.
     proceed (can_review sv p repo) (\<lambda>_.
     let reason = trim_space (dq_reason q) in
     require (\<not> (reason = [] \<or> length reason > 4096 \<or> length (dq_usage q) > 1024) \<and> exact_coordinates (dq_coordinates q)) ErrInvalidRequest
    (case dq_kind q of
       None \<Rightarrow> return_error ErrInvalidRequest
     | Some kind \<Rightarrow>
     require (kind_ok (sv_now sv) (Some kind) (dq_expires q)) ErrInvalidRequest
    (proceed (current_basis sv repo (dq_coordinates q)) (\<lambda>basis.
     require (\<not> (dq_basis q = [] \<or> dq_basis q \<noteq> hex_encode basis)) ErrStaleBasis
    (proceed (policy_context sv repo (dq_coordinates q)) (\<lambda>(pid, v).
     proceed (rs_record_decision (sv_store sv)
        \<lparr>d_id = 0, d_repository = repo, d_coordinates = dq_coordinates q, d_kind = kind, d_policy = pid,
         d_verdict = v, d_fingerprint = basis, d_reviewer = subject p, d_reason = reason,
         d_usage = trim_space (dq_usage q), d_expires = dq_expires q, d_created = 0, d_superseded = None\<rparr>) (\<lambda>d.
     ignore_error (rs_record_event (sv_store sv) ''decision_recorded'' (subject p) (Some repo)
        (coordinate_label (dq_coordinates q))
        ([(''decision_id'', DetailInt (d_id d)), (''kind'', DetailString (kind_string kind)),
          (''basis'', DetailString (dq_basis q)),
          (''policy_verdict'', DetailString (case v of None \<Rightarrow> [] | Some x \<Rightarrow> verdict_string x))] @
         (case dq_expires q of None \<Rightarrow> [] | Some t \<Rightarrow> [(''expires_at'', DetailTime t)])))
     (return_ok d)))))))))"

subsection \<open>History, grants and events\<close>

datatype stale_reason = NotStale | StaleExpired | StaleEvidence

record history =
  h_conclusions :: "conclusion list"
  h_decisions :: "decision list"
  h_current :: "decision option"
  h_stale :: stale_reason
  h_results :: "eval_result list"
  h_basis :: string

fun history_results :: "'s review_service \<Rightarrow> int \<Rightarrow> (int \<times> int) list \<Rightarrow> ('s, eval_result list) store_call" where
  "history_results sv repository [] = return_ok []"
| "history_results sv repository ((c, snapshot) # more_occs) =
     attempt_call (occurrence_in_repository sv snapshot repository)
     (\<lambda>b. if b = Inr True then rs_policy_result_history (sv_store sv) c (max_results sv)
          else history_results sv repository more_occs)"

definition stale_of :: "time \<Rightarrow> decision option \<Rightarrow> string option \<Rightarrow> stale_reason" where
  "stale_of now d basis =
     (case d of
        None \<Rightarrow> NotStale
      | Some x \<Rightarrow>
          if basis \<noteq> None \<and> basis \<noteq> Some (d_fingerprint x) then StaleEvidence
          else if (case d_expires x of None \<Rightarrow> False | Some t \<Rightarrow> \<not> t > now) then StaleExpired
          else NotStale)"

definition service_history :: "'s review_service \<Rightarrow> principal \<Rightarrow> int \<Rightarrow> coordinates \<Rightarrow> ('s, history) store_call" where
  "service_history sv p github c =
     proceed (authorized_repository sv p github) (\<lambda>repo.
     require (pkg_name c \<noteq> [] \<and> ecosystem c \<noteq> []) ErrInvalidRequest
    (proceed (rs_conclusion_history (sv_store sv) c (max_results sv)) (\<lambda>cs.
     proceed (rs_decision_history (sv_store sv) repo c (max_results sv)) (\<lambda>ds.
     proceed (rs_current_decision (sv_store sv) repo c) (\<lambda>current.
     attempt_call (current_basis sv repo c) (\<lambda>r.
       case r of
         Inr basis \<Rightarrow>
           proceed (rs_components_for (sv_store sv) c 10000) (\<lambda>occs.
           proceed (history_results sv repo occs) (\<lambda>rs.
           return_ok \<lparr>h_conclusions = cs, h_decisions = ds, h_current = current,
             h_stale = stale_of (sv_now sv) current (Some basis), h_results = rs, h_basis = hex_encode basis\<rparr>))
       | Inl ErrNotFound \<Rightarrow>
           return_ok \<lparr>h_conclusions = cs, h_decisions = ds, h_current = current,
             h_stale = stale_of (sv_now sv) current None, h_results = [], h_basis = []\<rparr>
       | Inl e \<Rightarrow> return_error e))))))"

definition service_set_grant :: "'s review_service \<Rightarrow> principal \<Rightarrow> int \<Rightarrow> string \<Rightarrow> bool \<Rightarrow> ('s, unit) store_call" where
  "service_set_grant sv p github subj allow =
     require (administrator p) ErrForbidden
    (require (\<not> (subj = [] \<or> length subj > 256)) ErrInvalidRequest
    (proceed (authorized_repository sv p github) (\<lambda>repo.
     proceed (rs_set_review_grant (sv_store sv) repo subj (subject p) allow) (\<lambda>_.
     rs_record_event (sv_store sv) ''review_grant_changed'' (subject p) (Some repo) subj
       [(''allow'', DetailBool allow)]))))"

definition service_events :: "'s review_service \<Rightarrow> principal \<Rightarrow> ('s, review_event list) store_call" where
  "service_events sv p =
     proceed (from_result (az_all (sv_authorizer sv) p)) (\<lambda>ids. rs_events (sv_store sv) ids (max_results sv))"

subsection \<open>The store of the server\<close>

definition postgres_store :: "(string \<Rightarrow> store_error option) \<Rightarrow> time \<Rightarrow> review_db review_store" where
  "postgres_store fault now =
     \<lparr>rs_create_policy = create_policy, rs_active_policy = active_policy, rs_policies = list_policies,
      rs_upsert_policy_result = upsert_policy_result, rs_policy_results = policy_results,
      rs_policy_result_history = policy_result_history,
      rs_components_needing_evaluation = components_needing_evaluation,
      rs_review_allowed = review_allowed, rs_set_review_grant = set_review_grant,
      rs_record_conclusion = record_conclusion now, rs_conclusion_history = conclusion_history,
      rs_record_decision = record_decision now, rs_current_decision = current_decision,
      rs_decision_history = decision_history, rs_review_queue = review_queue,
      rs_record_event = record_review_event fault now, rs_events = list_review_events,
      rs_components_for = (\<lambda>c n. on_license (components_for_coordinates c n)),
      rs_declarations = (\<lambda>i. on_license (component_declarations i)),
      rs_latest_evidence = (\<lambda>c. on_license (latest_license_evidence c)),
      rs_upsert_assessment = (\<lambda>a. on_license (upsert_assessment a)),
      rs_assessments = (\<lambda>i ids. on_license (supply_chain_assessments i ids)),
      rs_snapshot_repository = Some snapshot_repository_id\<rparr>"

end
