(* ===== verification/License_Worker.thy ===== *)
theory License_Worker
  imports Supply_Store
begin

text \<open>
  The enrichment worker: \<open>internal/supplychain/license/worker.go\<close>.  The worker is written against
  the interface \<open>Store\<close> of the package; \<open>postgres_license_store\<close> is the implementation of
  \<open>Supply_Store\<close>.  A resolver (npm, NuGet, Maven) is a function from coordinates to evidence or an
  error; the timer between two bursts of the loop \<open>Run\<close>, logging and metrics are left out.
\<close>

subsection \<open>Routes and resolvers\<close>

type_synonym resolver = "coordinates \<Rightarrow> route_error + evidence"

record route_config =
  rt_name :: string
  rt_ecosystem :: string

record registry =
  resolvers :: "string \<rightharpoonup> resolver"
  routes :: "string \<rightharpoonup> string"

datatype registry_error = UnsupportedEcosystem string | DuplicateRoute string | ResolverConfig

text \<open>\<open>build\<close> is the constructor of the resolver of the route's ecosystem; it may reject the route.\<close>

fun registry_loop :: "(route_config \<Rightarrow> resolver option) \<Rightarrow> route_config list \<Rightarrow> registry \<Rightarrow> registry_error + registry" where
  "registry_loop build [] reg = Inr reg"
| "registry_loop build (r # rs) reg =
     (if rt_ecosystem r \<noteq> ''npm'' \<and> rt_ecosystem r \<noteq> ''nuget'' \<and> rt_ecosystem r \<noteq> ''maven''
      then Inl (UnsupportedEcosystem (rt_ecosystem r))
      else case build r of
        None \<Rightarrow> Inl ResolverConfig
      | Some res \<Rightarrow>
          if resolvers reg (rt_ecosystem r) \<noteq> None then Inl (DuplicateRoute (rt_ecosystem r))
          else registry_loop build rs
            (reg\<lparr>resolvers := (resolvers reg)(rt_ecosystem r \<mapsto> res),
                 routes := (routes reg)(rt_ecosystem r \<mapsto> rt_name r)\<rparr>))"

definition new_registry :: "(route_config \<Rightarrow> resolver option) \<Rightarrow> route_config list \<Rightarrow> registry_error + registry" where
  "new_registry build rs = registry_loop build rs \<lparr>resolvers = Map.empty, routes = Map.empty\<rparr>"

definition ecosystems :: "registry \<Rightarrow> string list" where
  "ecosystems reg = filter (\<lambda>e. resolvers reg e \<noteq> None) [''npm'', ''nuget'', ''maven'']"

subsection \<open>The worker\<close>

type_synonym ('s, 'a) license_call = "(store_error, 's, 'a) call"

record 's license_store =
  ls_insert_evidence :: "evidence \<Rightarrow> ('s, int \<times> bool) license_call"
  ls_latest_evidence :: "coordinates \<Rightarrow> ('s, evidence list) license_call"
  ls_enqueue :: "coordinates \<Rightarrow> string \<Rightarrow> ('s, bool) license_call"
  ls_claim :: "string \<Rightarrow> ('s, enrichment_job) license_call"
  ls_reap :: "nat \<Rightarrow> ('s, nat) license_call"
  ls_complete :: "int \<Rightarrow> string \<Rightarrow> int \<Rightarrow> outcome \<Rightarrow> string \<Rightarrow> ('s, unit) license_call"
  ls_components_for :: "coordinates \<Rightarrow> nat \<Rightarrow> ('s, (int \<times> int) list) license_call"
  ls_upsert_assessment :: "assessment \<Rightarrow> ('s, unit) license_call"
  ls_snapshot_coordinates :: "int \<Rightarrow> ('s, coordinates list) license_call"
  ls_snapshot_components :: "int \<Rightarrow> ('s, snapshot_component list) license_call"
  ls_latest_snapshots :: "('s, int list) license_call"
  ls_declarations :: "(int \<Rightarrow> ('s, string option \<times> string option) license_call) option"

record 's license_worker =
  wk_store :: "'s license_store"
  wk_registry :: "registry option"
  wk_owner :: string
  wk_now :: time
  wk_licenses :: licenses_if

text \<open>
  \<open>assessSnapshot\<close>: the evidence of a package version is read once per snapshot; \<open>cache\<close> is the
  Go map.
\<close>

definition resolvable :: "coordinates \<Rightarrow> bool" where
  "resolvable c \<longleftrightarrow> ecosystem c \<noteq> [] \<and> pkg_name c \<noteq> [] \<and> version c \<noteq> []"

definition store_assessment :: "'s license_worker \<Rightarrow> int \<Rightarrow> snapshot_component \<Rightarrow> evidence list \<Rightarrow> ('s, unit) license_call" where
  "store_assessment wk snapshot c ev =
     ls_upsert_assessment (wk_store wk)
       (assess_with_human (wk_licenses wk) (sc_id c) snapshot (sc_declared c) (sc_concluded c) ev (wk_now wk))"

fun assess_loop :: "'s license_worker \<Rightarrow> int \<Rightarrow> snapshot_component list \<Rightarrow> (coordinates \<rightharpoonup> evidence list) \<Rightarrow>
    ('s, unit) license_call" where
  "assess_loop wk snapshot [] cache = return_ok ()"
| "assess_loop wk snapshot (c # cs) cache =
     (if resolvable (sc_coordinates c) then
        (case cache (sc_coordinates c) of
           Some ev \<Rightarrow> proceed (store_assessment wk snapshot c ev) (\<lambda>_. assess_loop wk snapshot cs cache)
         | None \<Rightarrow>
             proceed (ls_latest_evidence (wk_store wk) (sc_coordinates c))
             (\<lambda>ev. proceed (store_assessment wk snapshot c ev)
               (\<lambda>_. assess_loop wk snapshot cs (cache(sc_coordinates c \<mapsto> ev)))))
      else proceed (store_assessment wk snapshot c []) (\<lambda>_. assess_loop wk snapshot cs cache))"

definition assess_snapshot :: "'s license_worker \<Rightarrow> int \<Rightarrow> ('s, unit) license_call" where
  "assess_snapshot wk snapshot =
     proceed (ls_snapshot_components (wk_store wk) snapshot) (\<lambda>cs. assess_loop wk snapshot cs Map.empty)"

text \<open>
  The loops of \<open>EnqueueSnapshot\<close> and \<open>Backfill\<close> return the number of jobs created so far together
  with the error, so their result is a pair.
\<close>

fun enqueue_loop :: "'s license_worker \<Rightarrow> registry \<Rightarrow> coordinates list \<Rightarrow> nat \<Rightarrow> 's \<Rightarrow>
    (nat \<times> store_error option) \<times> 's" where
  "enqueue_loop wk reg [] created s = ((created, None), s)"
| "enqueue_loop wk reg (c # cs) created s =
     (case routes reg (ecosystem c) of
        None \<Rightarrow> enqueue_loop wk reg cs created s
      | Some rt \<Rightarrow>
          if version c = [] \<or> pkg_name c = [] then enqueue_loop wk reg cs created s
          else (case ls_enqueue (wk_store wk) c rt s of
              (Inl e, s') \<Rightarrow> ((created, Some e), s')
            | (Inr ok, s') \<Rightarrow> enqueue_loop wk reg cs (if ok then created + 1 else created) s'))"

definition enqueue_snapshot :: "'s license_worker \<Rightarrow> int \<Rightarrow> 's \<Rightarrow> (nat \<times> store_error option) \<times> 's" where
  "enqueue_snapshot wk snapshot s =
     (case assess_snapshot wk snapshot s of
        (Inl e, s1) \<Rightarrow> ((0, Some e), s1)
      | (Inr _, s1) \<Rightarrow>
          (case wk_registry wk of
             None \<Rightarrow> ((0, None), s1)
           | Some reg \<Rightarrow>
               (case ls_snapshot_coordinates (wk_store wk) snapshot s1 of
                  (Inl e, s2) \<Rightarrow> ((0, Some e), s2)
                | (Inr cs, s2) \<Rightarrow> enqueue_loop wk reg cs 0 s2)))"

fun backfill_loop :: "'s license_worker \<Rightarrow> int list \<Rightarrow> nat \<Rightarrow> 's \<Rightarrow> (nat \<times> store_error option) \<times> 's" where
  "backfill_loop wk [] created s = ((created, None), s)"
| "backfill_loop wk (i # is) created s =
     (case enqueue_snapshot wk i s of
        ((n, Some e), s') \<Rightarrow> ((created + n, Some e), s')
      | ((n, None), s') \<Rightarrow> backfill_loop wk is (created + n) s')"

definition backfill :: "'s license_worker \<Rightarrow> 's \<Rightarrow> (nat \<times> store_error option) \<times> 's" where
  "backfill wk s =
     (case wk_registry wk of
        None \<Rightarrow> ((0, None), s)
      | Some reg \<Rightarrow>
          if ecosystems reg = [] then ((0, None), s)
          else (case ls_latest_snapshots (wk_store wk) s of
              (Inl e, s') \<Rightarrow> ((0, Some e), s')
            | (Inr is, s') \<Rightarrow> backfill_loop wk is 0 s'))"

definition worker_declarations :: "'s license_worker \<Rightarrow> int \<Rightarrow> ('s, string option \<times> string option) license_call" where
  "worker_declarations wk i =
     (case ls_declarations (wk_store wk) of None \<Rightarrow> return_ok (None, None) | Some f \<Rightarrow> f i)"

definition worker_reassess :: "'s license_worker \<Rightarrow> coordinates \<Rightarrow> ('s, unit) license_call" where
  "worker_reassess wk c =
     proceed (ls_latest_evidence (wk_store wk) c) (\<lambda>ev.
     proceed (ls_components_for (wk_store wk) c 10000) (\<lambda>occs.
     for_each occs (\<lambda>(i, snapshot).
       proceed (worker_declarations wk i) (\<lambda>(declared, concluded).
       ls_upsert_assessment (wk_store wk)
         (assess_with_human (wk_licenses wk) i snapshot declared concluded ev (wk_now wk))))))"

text \<open>
  \<open>RunOnce\<close> with a registry: whether a job was processed and the error, if any.  \<open>cancelled\<close> tells
  whether the context ended during the lookup; the job then keeps its lease.
\<close>

datatype run_error = StoreFailed store_error | ContextDone

definition finish_run :: "(store_error + unit) \<times> 's \<Rightarrow> (bool \<times> run_error option) \<times> 's" where
  "finish_run r = (case r of (Inl e, s) \<Rightarrow> ((True, Some (StoreFailed e)), s) | (Inr _, s) \<Rightarrow> ((True, None), s))"

definition job_owner :: "enrichment_job \<Rightarrow> string" where
  "job_owner j = coalesce1 (e_owner j) []"

definition run_once :: "'s license_worker \<Rightarrow> registry \<Rightarrow> bool \<Rightarrow> 's \<Rightarrow> (bool \<times> run_error option) \<times> 's" where
  "run_once wk reg cancelled s =
     (case ls_claim (wk_store wk) (wk_owner wk) s of
        (Inl ErrNoJob, s1) \<Rightarrow> ((False, None), s1)
      | (Inl e, s1) \<Rightarrow> ((False, Some (StoreFailed e)), s1)
      | (Inr job, s1) \<Rightarrow>
          (case resolvers reg (ecosystem (e_coordinates job)) of
             None \<Rightarrow> finish_run (ls_complete (wk_store wk) (e_id job) (job_owner job) (e_fence job)
                       OutcomeRejected ''no_route'' s1)
           | Some resolve \<Rightarrow>
               (case resolve (e_coordinates job) of
                  Inl _ \<Rightarrow>
                    if cancelled then ((True, Some ContextDone), s1)
                    else finish_run (ls_complete (wk_store wk) (e_id job) (job_owner job) (e_fence job)
                           OutcomeUnavailable ''resolver_error'' s1)
                | Inr ev0 \<Rightarrow>
                    let ev = ev0\<lparr>route := e_route job\<rparr> in
                    (case ls_insert_evidence (wk_store wk) ev s1 of
                       (Inl e, s2) \<Rightarrow> ((True, Some (StoreFailed e)), s2)
                     | (Inr _, s2) \<Rightarrow>
                         (case ls_complete (wk_store wk) (e_id job) (job_owner job) (e_fence job) (outcome ev) [] s2 of
                            (Inl ErrFenced, s3) \<Rightarrow> ((True, None), s3)
                          | (Inl e, s3) \<Rightarrow> ((True, Some (StoreFailed e)), s3)
                          | (Inr _, s3) \<Rightarrow> finish_run (worker_reassess wk (e_coordinates job) s3))))))"

text \<open>
  The loop of \<open>Run\<close>: expired leases are collected, whatever the result, and one job is run.  The
  loop goes on at once when a job was processed without an error and waits otherwise;
  \<open>run_burst\<close> is the state in which it waits, \<open>None\<close> when that takes more than \<open>n\<close> iterations.
\<close>

definition run_iteration :: "'s license_worker \<Rightarrow> registry \<Rightarrow> 's \<Rightarrow> bool \<times> 's" where
  "run_iteration wk reg s =
     (case run_once wk reg False (snd (ls_reap (wk_store wk) 100 s)) of
        ((processed, err), s') \<Rightarrow> (processed \<and> err = None, s'))"

fun run_burst :: "'s license_worker \<Rightarrow> registry \<Rightarrow> nat \<Rightarrow> 's \<Rightarrow> 's option" where
  "run_burst wk reg 0 s = None"
| "run_burst wk reg (Suc n) s =
     (case run_iteration wk reg s of
        (True, s') \<Rightarrow> run_burst wk reg n s'
      | (False, s') \<Rightarrow> Some s')"

subsection \<open>The store of the server\<close>

definition postgres_license_store :: "time \<Rightarrow> (time \<Rightarrow> time) \<Rightarrow> license_db license_store" where
  "postgres_license_store now jitter =
     \<lparr>ls_insert_evidence = insert_license_evidence, ls_latest_evidence = latest_license_evidence,
      ls_enqueue = enqueue_enrichment now now, ls_claim = claim_enrichment now,
      ls_reap = reap_expired_enrichment now, ls_complete = complete_enrichment now jitter, ls_components_for = components_for_coordinates,
      ls_upsert_assessment = upsert_assessment, ls_snapshot_coordinates = snapshot_coordinates,
      ls_snapshot_components = snapshot_components, ls_latest_snapshots = latest_snapshot_ids,
      ls_declarations = Some component_declarations\<rparr>"

end
