(* ===== verification/Store_Properties.thy ===== *)
theory Store_Properties
  imports License_Worker License_Properties
begin

text \<open>
  Properties of the license store and of the enrichment worker: the invariant of the enrichment
  queue, fencing by tokens, what a request for enrichment does, the evidence an assessment is
  built from, and the cache of the worker.
\<close>

subsection \<open>The invariant\<close>

definition job_ok :: "enrichment_job \<Rightarrow> bool" where
  "job_ok j \<longleftrightarrow> 0 \<le> e_attempt j \<and> e_attempt j \<le> e_max_attempts j \<and>
     (e_state j = EQueued \<longrightarrow> e_attempt j < e_max_attempts j) \<and>
     (e_state j = ERunning \<longleftrightarrow> e_owner j \<noteq> None) \<and> (e_state j = ERunning \<longleftrightarrow> e_expires j \<noteq> None)"

definition one_active :: "enrichment_job list \<Rightarrow> bool" where
  "one_active js \<longleftrightarrow> distinct (map (\<lambda>j. (e_coordinates j, e_route j)) (filter active_job js))"

definition license_inv :: "license_db \<Rightarrow> bool" where
  "license_inv db \<longleftrightarrow>
     distinct (map ev_id (evidence_rows db)) \<and> list_all (\<lambda>e. ev_id e < next_evidence db) (evidence_rows db) \<and>
     distinct (map e_id (enrichment_jobs db)) \<and> list_all (\<lambda>j. e_id j < next_enrichment db) (enrichment_jobs db) \<and>
     list_all job_ok (enrichment_jobs db) \<and> one_active (enrichment_jobs db) \<and>
     distinct (map as_component (assessments db))"

lemma append_evidence_inv: "license_inv db \<Longrightarrow> license_inv (append_evidence e db)"
  by (auto simp: license_inv_def append_evidence_def list_all_iff)

lemma insert_evidence_keeps [keeps_intro]: "keeps license_inv (insert_license_evidence e)"
  by (simp add: keeps_def insert_license_evidence_def Let_def append_evidence_inv)

lemma enqueue_keeps [keeps_intro]: "keeps license_inv (enqueue_enrichment now now' c rt)"
  unfolding keeps_def
proof (intro allI impI)
  fix db
  assume inv: "license_inv db"
  show "license_inv (snd (enqueue_enrichment now now' c rt db))"
  proof (cases "list_ex (\<lambda>j. active_job j \<and> e_coordinates j = c \<and> e_route j = rt) (enrichment_jobs db)")
    case False
    then show ?thesis
      using inv by (auto simp: enqueue_enrichment_def Let_def license_inv_def list_all_iff list_ex_iff
          job_ok_def one_active_def active_job_def)
  qed (use inv in \<open>auto simp: enqueue_enrichment_def Let_def\<close>)
qed

text \<open>An update that keeps the key columns and makes no finished job active.\<close>

lemma update_enrichment_inv:
  assumes "license_inv db"
    and "\<And>j. j \<in> set (enrichment_jobs db) \<Longrightarrow> p j \<Longrightarrow>
      e_id (f j) = e_id j \<and> e_coordinates (f j) = e_coordinates j \<and> e_route (f j) = e_route j \<and>
      job_ok (f j) \<and> (active_job (f j) \<longrightarrow> active_job j)"
  shows "license_inv (update_enrichment p f db)"
proof -
  let ?js = "enrichment_jobs db" and ?g = "\<lambda>j. if p j then f j else j"
  let ?key = "\<lambda>j. (e_coordinates j, e_route j)"
  have jobs: "enrichment_jobs (update_enrichment p f db) = map ?g ?js"
    by (simp add: update_enrichment_def)
  have ids: "map e_id (enrichment_jobs (update_enrichment p f db)) = map e_id ?js"
    using assms(2) unfolding jobs by (auto intro: map_cong)
  have "map ?key (filter active_job (map ?g ?js)) =
      map ?key (filter (\<lambda>j. active_job (?g j)) ?js)"
    using assms(2) by (auto simp: filter_map comp_def intro: map_cong)
  moreover have "filter (\<lambda>j. active_job (?g j)) ?js = filter (\<lambda>j. active_job (?g j)) (filter active_job ?js)"
    using assms(2) by (auto intro: filter_cong)
  ultimately have "one_active (map ?g ?js)"
    using assms(1) by (simp only: one_active_def license_inv_def distinct_map_filter)
  moreover have "list_all job_ok (map ?g ?js) \<and> list_all (\<lambda>j. e_id j < next_enrichment db) (map ?g ?js)"
    using assms by (auto simp: license_inv_def list_all_iff)
  moreover have "distinct (map e_id (enrichment_jobs (update_enrichment p f db)))"
    using assms(1) unfolding ids license_inv_def by blast
  ultimately show ?thesis
    using assms(1) by (simp add: license_inv_def update_enrichment_def)
qed

lemma unique_enrichment:
  "license_inv db \<Longrightarrow> j \<in> set (enrichment_jobs db) \<Longrightarrow> k \<in> set (enrichment_jobs db) \<Longrightarrow> e_id j = e_id k \<Longrightarrow> j = k"
  by (auto simp: license_inv_def distinct_map inj_on_def)

lemma sorted_mem: "sort_key k (filter p js) = j # rs \<Longrightarrow> j \<in> set js \<and> p j"
  using set_sort [of k "filter p js"] by auto

lemma claim_cases:
  assumes "claim_enrichment now owner db = (r, db')"
  shows "(r = Inl ErrNoJob \<and> db' = db) \<or>
    (\<exists>j \<in> set (enrichment_jobs db). e_state j = EQueued \<and> e_run_after j \<le> now \<and>
       r = Inr (claimed now owner j) \<and> db' = update_enrichment (\<lambda>k. e_id k = e_id j) (claimed now owner) db)"
  using assms by (auto simp: claim_enrichment_def dest: sorted_mem split: list.splits)

lemma claim_keeps [keeps_intro]: "keeps license_inv (claim_enrichment now owner)"
  unfolding keeps_def
proof (intro allI impI)
  fix db
  assume inv: "license_inv db"
  obtain r db' where c: "claim_enrichment now owner db = (r, db')"
    by (cases "claim_enrichment now owner db")
  have "license_inv db'"
    using claim_cases [OF c]
  proof (elim disjE bexE conjE)
    fix j
    assume j: "j \<in> set (enrichment_jobs db)" "e_state j = EQueued"
      "db' = update_enrichment (\<lambda>k. e_id k = e_id j) (claimed now owner) db"
    have "job_ok j" using inv j(1) by (auto simp: license_inv_def list_all_iff)
    show "license_inv db'"
      unfolding j(3)
    proof (rule update_enrichment_inv [OF inv])
      fix k
      assume "k \<in> set (enrichment_jobs db)" "e_id k = e_id j"
      with unique_enrichment [OF inv _ j(1)] have "k = j" by blast
      with \<open>job_ok j\<close> j(2) show "e_id (claimed now owner k) = e_id k \<and>
          e_coordinates (claimed now owner k) = e_coordinates k \<and> e_route (claimed now owner k) = e_route k \<and>
          job_ok (claimed now owner k) \<and> (active_job (claimed now owner k) \<longrightarrow> active_job k)"
        by (simp add: claimed_def job_ok_def active_job_def)
    qed
  qed (use inv in simp)
  then show "license_inv (snd (claim_enrichment now owner db))" by (simp add: c)
qed

lemma renew_keeps [keeps_intro]: "keeps license_inv (renew_enrichment now i owner fence)"
  unfolding keeps_def
proof (intro allI impI)
  fix db
  assume inv: "license_inv db"
  have "license_inv (update_enrichment (\<lambda>j. holds_lease i owner fence j \<and>
      (case e_expires j of None \<Rightarrow> False | Some t \<Rightarrow> t > now)) (\<lambda>j. j\<lparr>e_expires := Some (now + enrichment_lease)\<rparr>) db)"
    using inv
    by (intro update_enrichment_inv)
      (auto simp: license_inv_def list_all_iff job_ok_def active_job_def split: option.splits)
  with inv show "license_inv (snd (renew_enrichment now i owner fence db))"
    by (simp add: renew_enrichment_def Let_def)
qed

lemma complete_keeps [keeps_intro]: "keeps license_inv (complete_enrichment now jitter i owner fence oc code)"
  unfolding keeps_def
proof (intro allI impI)
  fix db
  assume inv: "license_inv db"
  have "license_inv (update_enrichment (holds_lease i owner fence) (complete_row now jitter oc code) db)"
    using inv
    by (intro update_enrichment_inv)
      (auto simp: license_inv_def list_all_iff job_ok_def active_job_def complete_row_def Let_def holds_lease_def)
  with inv show "license_inv (snd (complete_enrichment now jitter i owner fence oc code db))"
    by (simp add: complete_enrichment_def)
qed

lemma reap_keeps [keeps_intro]: "keeps license_inv (reap_expired_enrichment now n)"
  unfolding keeps_def
proof (intro allI impI)
  fix db
  assume inv: "license_inv db"
  let ?batch = "take n (sort_key (\<lambda>j. (case e_expires j of None \<Rightarrow> 0 | Some t \<Rightarrow> t, e_id j))
    (filter (reapable now) (enrichment_jobs db)))"
  have "license_inv (update_enrichment (\<lambda>j. e_id j \<in> set (map e_id ?batch)) (reap_row now) db)"
  proof (rule update_enrichment_inv [OF inv])
    fix j
    assume j: "j \<in> set (enrichment_jobs db)" "e_id j \<in> set (map e_id ?batch)"
    then obtain k where k: "k \<in> set ?batch" "e_id j = e_id k" by auto
    then have "k \<in> set (enrichment_jobs db)" "reapable now k" by (auto dest: in_set_takeD)
    with unique_enrichment [OF inv j(1), of k] k(2) have "reapable now j" by blast
    moreover have "job_ok j" using inv j(1) by (auto simp: license_inv_def list_all_iff)
    ultimately show "e_id (reap_row now j) = e_id j \<and> e_coordinates (reap_row now j) = e_coordinates j \<and>
        e_route (reap_row now j) = e_route j \<and> job_ok (reap_row now j) \<and>
        (active_job (reap_row now j) \<longrightarrow> active_job j)"
      by (auto simp: reap_row_def reapable_def job_ok_def active_job_def)
  qed
  then show "license_inv (snd (reap_expired_enrichment now n db))"
    by (simp add: reap_expired_enrichment_def Let_def)
qed

lemma upsert_assessment_keeps [keeps_intro]: "keeps license_inv (upsert_assessment a)"
proof -
  have "map as_component (map (\<lambda>x. if as_component x = as_component a then a\<lparr>as_snapshot := as_snapshot x\<rparr> else x) xs) =
      map as_component xs" for xs
    by (auto intro: map_cong)
  then show ?thesis
    unfolding keeps_def upsert_assessment_def license_inv_def
    by (auto simp: list_ex_iff simp del: map_map)
qed

subsection \<open>Reachable databases\<close>

inductive license_step :: "license_db \<Rightarrow> license_db \<Rightarrow> bool" where
  step_insert: "license_step db (snd (insert_license_evidence e db))"
| step_enqueue: "license_step db (snd (enqueue_enrichment now now' c rt db))"
| step_claim: "license_step db (snd (claim_enrichment now owner db))"
| step_renew: "license_step db (snd (renew_enrichment now i owner fence db))"
| step_complete: "license_step db (snd (complete_enrichment now jitter i owner fence oc code db))"
| step_reap: "license_step db (snd (reap_expired_enrichment now n db))"
| step_assess: "license_step db (snd (upsert_assessment a db))"

inductive_cases license_stepE: "license_step db db'"

definition license_start :: "license_db \<Rightarrow> bool" where
  "license_start db \<longleftrightarrow> evidence_rows db = [] \<and> enrichment_jobs db = [] \<and> assessments db = []"

interpretation enrichment: transition_system license_start license_inv license_step
proof
  show "license_start db \<Longrightarrow> license_inv db" for db
    by (simp add: license_start_def license_inv_def one_active_def)
  show "license_inv db \<Longrightarrow> license_step db db' \<Longrightarrow> license_inv db'" for db db'
    by (erule license_stepE) (auto intro!: keepsD [of license_inv] keeps_intro)
qed

subsection \<open>The evidence of an assessment\<close>

abbreviation resolved_row :: "evidence \<Rightarrow> bool" where
  "resolved_row e \<equiv> outcome e = OutcomeResolved"

lemma newest_exists:
  assumes "e \<in> set rows"
  obtains n where "n \<in> set rows" "same_origin n e" "newest_in rows n"
proof -
  let ?S = "{f \<in> set rows. same_origin f e}"
  have "finite (ev_id ` ?S)" "ev_id ` ?S \<noteq> {}"
    using assms by (auto simp: same_origin_def)
  then have "Max (ev_id ` ?S) \<in> ev_id ` ?S" by (rule Max_in)
  then obtain n where n: "n \<in> ?S" "ev_id n = Max (ev_id ` ?S)" by auto
  have "newest_in rows n"
    unfolding newest_in_def list_all_iff
  proof (intro ballI impI)
    fix f
    assume "f \<in> set rows" "same_origin f n"
    with n(1) have "f \<in> ?S" by (auto simp: same_origin_def)
    then show "ev_id f \<le> ev_id n" unfolding n(2) by (intro Max_ge) auto
  qed
  with n(1) that show ?thesis by blast
qed

definition latest_rows :: "coordinates \<Rightarrow> license_db \<Rightarrow> evidence list" where
  "latest_rows c db = projr (fst (latest_license_evidence c db))"

lemma latest_license_evidence_eq: "latest_license_evidence c db = (Inr (latest_rows c db), db)"
  by (simp add: latest_license_evidence_def latest_rows_def Let_def)

lemma filter_sort_filter:
  "filter p (sort_key k (filter q xs)) = sort_key k (filter (\<lambda>x. p x \<and> q x) xs)"
  by (simp add: filter_sort conj_commute)

text \<open>The resolved rows of the result are the newest resolved row of every origin.\<close>

lemma latest_resolved:
  "filter resolved_row (latest_rows c db) =
     sort_key ev_id (filter (newest_in (filter resolved_row (scoped c db))) (filter resolved_row (scoped c db)))"
proof -
  let ?rows = "scoped c db"
  let ?res = "filter resolved_row ?rows"
  let ?newest = "filter (newest_in ?rows) ?rows"
  let ?fallback = "filter (\<lambda>e. list_ex (\<lambda>n. same_origin n e \<and> outcome n \<noteq> OutcomeResolved) ?newest)
    (filter (newest_in ?res) ?res)"
  have chosen: "(e \<in> set ?newest \<or> e \<in> set ?fallback) \<longleftrightarrow> newest_in ?res e"
    if e: "e \<in> set ?rows" "resolved_row e" for e
  proof
    assume "newest_in ?res e"
    obtain n where n: "n \<in> set ?rows" "same_origin n e" "newest_in ?rows n"
      using newest_exists [OF e(1)] by blast
    show "e \<in> set ?newest \<or> e \<in> set ?fallback"
    proof (cases "resolved_row n")
      case True
      with n \<open>newest_in ?res e\<close> have "ev_id n \<le> ev_id e"
        by (auto simp: newest_in_def list_all_iff)
      have "newest_in ?rows e"
        unfolding newest_in_def list_all_iff
      proof (intro ballI impI)
        fix f
        assume "f \<in> set ?rows" "same_origin f e"
        with n have "ev_id f \<le> ev_id n" by (auto simp: newest_in_def list_all_iff same_origin_def)
        with \<open>ev_id n \<le> ev_id e\<close> show "ev_id f \<le> ev_id e" by simp
      qed
      with e show ?thesis by simp
    next
      case False
      with n have "list_ex (\<lambda>n. same_origin n e \<and> outcome n \<noteq> OutcomeResolved) ?newest"
        by (auto simp: list_ex_iff)
      with e \<open>newest_in ?res e\<close> show ?thesis by simp
    qed
  qed (auto simp: newest_in_def list_all_iff)
  have "filter resolved_row (latest_rows c db) =
      sort_key ev_id (filter (\<lambda>e. resolved_row e \<and> (e \<in> set ?newest \<or> e \<in> set ?fallback)) ?rows)"
    unfolding latest_rows_def latest_license_evidence_def Let_def fst_conv sum.sel
    by (rule filter_sort_filter)
  also have "filter (\<lambda>e. resolved_row e \<and> (e \<in> set ?newest \<or> e \<in> set ?fallback)) ?rows =
      filter (\<lambda>e. resolved_row e \<and> newest_in ?res e) ?rows"
    using chosen by (intro filter_cong [OF refl]) blast
  finally show ?thesis by (simp add: conj_commute)
qed

text \<open>The status, the expression and the detail of an assessment depend on the resolved rows only.\<close>

lemma concat_map_filter: "(\<And>x. \<not> p x \<Longrightarrow> f x = []) \<Longrightarrow> concat (map f (filter p xs)) = concat (map f xs)"
  by (induction xs) auto

lemma assess_candidates_resolved:
  "assess_candidates l d k (filter resolved_row r) = assess_candidates l d k r"
  by (simp add: assess_candidates_def filter_sort [symmetric] concat_map_filter registry_candidate_unresolved)

lemma newest_human_resolved: "newest_human best (filter resolved_row r) = newest_human best r"
  by (induction r arbitrary: best) auto

abbreviation outcome_of :: "assessment \<Rightarrow> assessment_status \<times> string \<times> string" where
  "outcome_of a \<equiv> (as_status a, as_expression a, conflict_detail a)"

lemma assess_resolved:
  "outcome_of (assess l c s d k (filter resolved_row r) t) = outcome_of (assess l c s d k r t)"
  unfolding assess_conclude assess_candidates_resolved ..

lemma assess_with_human_resolved:
  "outcome_of (assess_with_human l c s d k (filter resolved_row r) t) = outcome_of (assess_with_human l c s d k r t)"
proof -
  let ?auto = "filter (\<lambda>e. ev_source e \<noteq> SourceHuman)"
  have "?auto (filter resolved_row r) = filter resolved_row (?auto r)"
    by (simp add: conj_commute)
  then have without: "outcome_of (assess l c s d k (?auto (filter resolved_row r)) t) =
      outcome_of (assess l c s d k (?auto r) t)"
    using assess_resolved by metis
  have override: "override_detail h (assess l c s d k (?auto (filter resolved_row r)) t) x =
      override_detail h (assess l c s d k (?auto r) t) x" for h x
    using without by (simp only: override_detail_def prod.inject)
  show ?thesis
  proof (cases "newest_human None r")
    case None
    then show ?thesis
      using assess_resolved by (simp add: assess_with_human_def newest_human_resolved Let_def)
  next
    case (Some h)
    have "newest_human None (filter resolved_row r) = Some h"
      by (simp add: newest_human_resolved Some)
    then show ?thesis
      using assess_resolved [of l c s d k r t]
      unfolding assess_with_human_def Some Let_def option.case override
      by (cases "parse_status h") simp_all
  qed
qed

text \<open>A row that is not resolved changes none of the resolved rows.\<close>

lemma scoped_append_unresolved:
  "\<not> resolved_row e \<Longrightarrow> filter resolved_row (scoped c (append_evidence e db)) = filter resolved_row (scoped c db)"
  by (simp add: scoped_def append_evidence_def)

lemma latest_rows_unresolved:
  "\<not> resolved_row e \<Longrightarrow>
     filter resolved_row (latest_rows c (append_evidence e db)) = filter resolved_row (latest_rows c db)"
  unfolding latest_resolved by (subst (1 2) scoped_append_unresolved) simp_all

subsection \<open>Fences\<close>

text \<open>The fence of the job with identifier \<open>i\<close>, when there is one, is at least \<open>f\<close>.\<close>

definition fence_from :: "int \<Rightarrow> int \<Rightarrow> license_db \<Rightarrow> bool" where
  "fence_from i f db \<longleftrightarrow> i < next_enrichment db \<and> list_all (\<lambda>j. e_id j = i \<longrightarrow> f \<le> e_fence j) (enrichment_jobs db)"

lemma update_enrichment_fence:
  assumes "fence_from i f db" "\<And>j. e_id (g j) = e_id j \<and> e_fence j \<le> e_fence (g j)"
  shows "fence_from i f (update_enrichment p g db)"
proof -
  have "f \<le> e_fence (g j)" if "j \<in> set (enrichment_jobs db)" "e_id (g j) = i" for j
    using assms(1) assms(2) [of j] that by (fastforce simp: fence_from_def list_all_iff)
  with assms(1) show ?thesis
    by (auto simp: fence_from_def update_enrichment_def list_all_iff)
qed

lemma step_fence: "license_step db db' \<Longrightarrow> fence_from i f db \<Longrightarrow> fence_from i f db'"
proof (induction rule: license_step.induct)
  case (step_insert db e)
  then show ?case by (simp add: insert_license_evidence_def append_evidence_def fence_from_def Let_def)
next
  case (step_enqueue db now now' c rt)
  then show ?case by (auto simp: enqueue_enrichment_def fence_from_def Let_def)
next
  case (step_claim db now owner)
  then show ?case
    using claim_cases [of now owner db "fst (claim_enrichment now owner db)" "snd (claim_enrichment now owner db)"]
    by (auto simp: claimed_def intro!: update_enrichment_fence)
next
  case (step_renew db now i owner fence)
  then show ?case by (auto simp: renew_enrichment_def Let_def intro: update_enrichment_fence)
next
  case (step_complete db now jitter i owner fence oc code)
  then show ?case
    by (auto simp: complete_enrichment_def complete_row_def Let_def intro: update_enrichment_fence)
next
  case (step_reap db now n)
  then show ?case by (auto simp: reap_expired_enrichment_def reap_row_def Let_def intro!: update_enrichment_fence)
next
  case (step_assess db a)
  then show ?case by (simp add: upsert_assessment_def fence_from_def)
qed

lemma claim_fence:
  assumes "license_inv db" "claim_enrichment now owner db = (Inr job, db')"
  shows "fence_from (e_id job) (e_fence job) db'"
proof -
  from claim_cases [OF assms(2)] obtain j where j: "j \<in> set (enrichment_jobs db)" "job = claimed now owner j"
    "db' = update_enrichment (\<lambda>k. e_id k = e_id j) (claimed now owner) db" by auto
  have "e_id j < next_enrichment db"
    using assms(1) j(1) by (auto simp: license_inv_def list_all_iff)
  moreover have "e_fence j \<le> e_fence k" if "k \<in> set (enrichment_jobs db)" "e_id k = e_id j" for k
    using unique_enrichment [OF assms(1) that(1) j(1) that(2)] by simp
  ultimately show ?thesis
    unfolding j(2,3) fence_from_def list_all_iff update_enrichment_def
    by (auto simp: claimed_def)
qed

lemma stale_fence:
  assumes "fence_from i f db" "g < f" "j \<in> set (enrichment_jobs db)"
  shows "\<not> holds_lease i owner g j"
  using assms by (auto simp: fence_from_def holds_lease_def list_all_iff)

interpretation fences: transition_system "fence_from i f" "fence_from i f" license_step for i f
  by unfold_locales (auto intro: step_fence)

end
