(* ===== verification/Store_Claims.thy ===== *)
theory Store_Claims
  imports Store_Properties
begin

text \<open>
  The worker over an abstract store, and the properties of the license store and the worker.
\<close>

subsection \<open>The evidence cache\<close>

text \<open>
  What \<open>assessSnapshot\<close> relies on: reading evidence changes nothing, and storing an assessment
  does not change what is read.
\<close>

locale evidence_source =
  fixes st :: "'s license_store"
  assumes latest_reads: "reads_only (ls_latest_evidence st c)"
    and upsert_evidence: "fst (ls_latest_evidence st c (snd (ls_upsert_assessment st a s))) = fst (ls_latest_evidence st c s)"
begin

text \<open>The loop without the cache.\<close>

definition assess_each :: "'s license_worker \<Rightarrow> int \<Rightarrow> snapshot_component \<Rightarrow> ('s, unit) license_call" where
  "assess_each wk snapshot c =
     (if resolvable (sc_coordinates c)
      then proceed (ls_latest_evidence st (sc_coordinates c)) (store_assessment wk snapshot c)
      else store_assessment wk snapshot c [])"

definition cache_ok :: "(coordinates \<rightharpoonup> evidence list) \<Rightarrow> 's \<Rightarrow> bool" where
  "cache_ok cache s \<longleftrightarrow> (\<forall>c ev. cache c = Some ev \<longrightarrow> fst (ls_latest_evidence st c s) = Inr ev)"

lemma latest_state:
  obtains r where "ls_latest_evidence st c s = (r, s)"
  using latest_reads [of c] by (cases "ls_latest_evidence st c s") (metis reads_only_def snd_conv)

lemma cache_store: "wk_store wk = st \<Longrightarrow> cache_ok cache s \<Longrightarrow> cache_ok cache (snd (store_assessment wk i c ev s))"
  by (simp add: cache_ok_def store_assessment_def upsert_evidence)

lemma cached_eq_direct:
  assumes "wk_store wk = st" "cache_ok cache s"
  shows "assess_loop wk i cs cache s = for_each cs (assess_each wk i) s"
  using assms(2)
proof (induction cs arbitrary: cache s)
  case (Cons c cs)
  have stored: "proceed (store_assessment wk i c ev) (\<lambda>_. assess_loop wk i cs cache') s =
      proceed (store_assessment wk i c ev) (\<lambda>_. for_each cs (assess_each wk i)) s" if "cache_ok cache' s" for ev cache'
    using Cons.IH [OF cache_store [OF assms(1) that, of i c ev]]
    by (auto simp: proceed_def split: prod.splits sum.splits)
  obtain r where r: "ls_latest_evidence st (sc_coordinates c) s = (r, s)"
    by (rule latest_state)
  show ?case
  proof (cases "resolvable (sc_coordinates c)")
    case False
    then show ?thesis using stored [OF Cons.prems] by (simp add: assess_each_def [of wk i c])
  next
    case resolvable: True
    show ?thesis
    proof (cases "cache (sc_coordinates c)")
      case None
      have "cache_ok (cache(sc_coordinates c \<mapsto> ev)) s" if "r = Inr ev" for ev
        using Cons.prems that r by (simp add: cache_ok_def)
      with None resolvable stored show ?thesis
        by (cases r) (simp_all add: assess_each_def [of wk i c] assms(1) r proceed_def)
    next
      case (Some ev)
      with Cons.prems have "r = Inr ev" using r by (fastforce simp: cache_ok_def)
      with Some resolvable stored [OF Cons.prems] show ?thesis
        by (simp add: assess_each_def [of wk i c] proceed_def r)
    qed
  qed
qed simp

end

interpretation pg_evidence: evidence_source "postgres_license_store now jitter" for now jitter
proof
  show "reads_only (ls_latest_evidence (postgres_license_store now jitter) c)" for c
    by (simp add: reads_only_def postgres_license_store_def latest_license_evidence_def Let_def)
  show "fst (ls_latest_evidence (postgres_license_store now jitter) c
      (snd (ls_upsert_assessment (postgres_license_store now jitter) a s))) =
      fst (ls_latest_evidence (postgres_license_store now jitter) c s)" for c a s
    by (simp add: postgres_license_store_def latest_license_evidence_def upsert_assessment_def scoped_def Let_def)
qed

subsection \<open>Predicates the worker preserves\<close>

text \<open>
  A predicate that the calls of a store preserve is preserved by the worker; the extension adds the
  call that creates jobs.
\<close>

locale stored_predicate =
  fixes st :: "'s license_store" and P :: "'s \<Rightarrow> bool"
  assumes insert_keeps: "keeps P (ls_insert_evidence st e)"
    and latest_keeps: "keeps P (ls_latest_evidence st c)"
    and claim_keeps: "keeps P (ls_claim st owner)"
    and reap_keeps: "keeps P (ls_reap st n)"
    and complete_keeps: "keeps P (ls_complete st i owner f oc code)"
    and components_keeps: "keeps P (ls_components_for st c n)"
    and upsert_keeps: "keeps P (ls_upsert_assessment st a)"
    and snapshot_components_keeps: "keeps P (ls_snapshot_components st i)"
    and declarations_keeps: "ls_declarations st = Some f' \<Longrightarrow> keeps P (f' i)"
begin

lemma declarations_of_keeps: "wk_store wk = st \<Longrightarrow> keeps P (worker_declarations wk i)"
  by (auto simp: worker_declarations_def keeps_return declarations_keeps split: option.splits)

lemma reassess_keeps: "wk_store wk = st \<Longrightarrow> keeps P (worker_reassess wk c)"
  unfolding worker_reassess_def
  by (simp add: keeps_intro latest_keeps components_keeps declarations_of_keeps upsert_keeps split: prod.split)

lemma assess_loop_keeps: "wk_store wk = st \<Longrightarrow> keeps P (assess_loop wk i cs cache)"
proof (induction cs arbitrary: cache)
  case (Cons c cs)
  then show ?case
    by (simp add: store_assessment_def keeps_intro upsert_keeps latest_keeps split: option.split)
qed (simp add: keeps_return)

lemma assess_snapshot_keeps: "wk_store wk = st \<Longrightarrow> keeps P (assess_snapshot wk i)"
  unfolding assess_snapshot_def
  by (simp add: keeps_intro snapshot_components_keeps assess_loop_keeps)

lemma finish_run_state: "snd (finish_run r) = snd r"
  by (auto simp: finish_run_def split: prod.splits sum.splits)

text \<open>After the claim, a run keeps the predicate.\<close>

lemma run_after_claim:
  assumes "wk_store wk = st" "ls_claim st (wk_owner wk) s = (r, s1)" "P s1"
  shows "P (snd (run_once wk reg cancelled s))"
proof (cases r)
  case (Inl e)
  with assms show ?thesis by (cases e) (simp_all add: run_once_def)
next
  case (Inr job)
  let ?complete = "ls_complete st (e_id job) (job_owner job) (e_fence job)"
  have stored: "P s2 \<Longrightarrow> P (snd (?complete oc code s2))" for s2 oc code
    by (rule keepsD [OF complete_keeps])
  show ?thesis
  proof (cases "resolvers reg (ecosystem (e_coordinates job))")
    case None
    with Inr assms stored show ?thesis by (simp add: run_once_def finish_run_state)
  next
    case (Some resolve)
    show ?thesis
    proof (cases "resolve (e_coordinates job)")
      case (Inl err)
      with Some Inr assms stored show ?thesis by (simp add: run_once_def finish_run_state)
    next
      case ev0: (Inr ev0)
      let ?ev = "ev0\<lparr>route := e_route job\<rparr>"
      obtain r2 s2 where i: "ls_insert_evidence st ?ev s1 = (r2, s2)" by fastforce
      obtain r3 s3 where c: "?complete (outcome ?ev) [] s2 = (r3, s3)" by fastforce
      have "P s2" using keepsD [OF insert_keeps assms(3), of ?ev] i by simp
      moreover from this have "P s3" using stored [of s2 "outcome ?ev" "[]"] c by simp
      moreover from this have "P (snd (worker_reassess wk (e_coordinates job) s3))"
        by (rule keepsD [OF reassess_keeps [OF assms(1)]])
      ultimately show ?thesis
        using Inr Some ev0 assms(1,2) i c
        by (auto simp: run_once_def finish_run_state split: sum.splits store_error.splits)
    qed
  qed
qed

lemma run_keeps:
  assumes "wk_store wk = st" "P s"
  shows "P (snd (run_once wk reg cancelled s))"
  using run_after_claim [OF assms(1) surjective_pairing keepsD [OF claim_keeps assms(2)]] .

end

locale enqueued_predicate = stored_predicate +
  assumes enqueue_keeps: "keeps P (ls_enqueue st c rt)"
    and coordinates_keeps: "keeps P (ls_snapshot_coordinates st i)"
    and snapshots_keeps: "keeps P (ls_latest_snapshots st)"
begin

lemma enqueue_loop_keeps: "wk_store wk = st \<Longrightarrow> P s \<Longrightarrow> P (snd (enqueue_loop wk reg cs n s))"
proof (induction cs arbitrary: n s)
  case (Cons c cs)
  show ?case
  proof (cases "routes reg (ecosystem c)")
    case (Some rt)
    obtain r s' where e: "ls_enqueue st c rt s = (r, s')" by fastforce
    with keepsD [OF enqueue_keeps Cons.prems(2), of c rt] have "P s'" by simp
    with Some Cons e show ?thesis by (cases r) simp_all
  qed (use Cons in simp)
qed simp

lemma enqueue_snapshot_keeps:
  assumes "wk_store wk = st" "P s"
  shows "P (snd (enqueue_snapshot wk i s))"
proof -
  obtain r1 s1 where a: "assess_snapshot wk i s = (r1, s1)" by fastforce
  with keepsD [OF assess_snapshot_keeps [OF assms(1)] assms(2), of i] have s1: "P s1" by simp
  obtain r2 s2 where b: "ls_snapshot_coordinates st i s1 = (r2, s2)" by fastforce
  with keepsD [OF coordinates_keeps s1, of i] have "P s2" by simp
  with s1 show ?thesis
    using a b assms(1) enqueue_loop_keeps [OF assms(1)]
    by (cases r1; cases r2) (simp_all add: enqueue_snapshot_def split: option.split)
qed

lemma backfill_loop_keeps: "wk_store wk = st \<Longrightarrow> P s \<Longrightarrow> P (snd (backfill_loop wk is n s))"
proof (induction "is" arbitrary: n s)
  case (Cons i "is")
  obtain m e s' where s: "enqueue_snapshot wk i s = ((m, e), s')" by (metis prod.collapse)
  with enqueue_snapshot_keeps [OF Cons.prems, of i] have "P s'" by simp
  with Cons s show ?case by (cases e) simp_all
qed simp

lemma backfill_keeps:
  assumes "wk_store wk = st" "P s"
  shows "P (snd (backfill wk s))"
proof -
  obtain r s' where s: "ls_latest_snapshots st s = (r, s')" by fastforce
  with keepsD [OF snapshots_keeps assms(2)] have "P s'" by simp
  with s assms show ?thesis
    by (cases r) (simp_all add: backfill_def backfill_loop_keeps split: option.split)
qed

end

lemma reading_keeps:
  "keeps P (latest_license_evidence c)" "keeps P (components_for_coordinates c n)"
  "keeps P (snapshot_components i)" "keeps P (component_declarations i)"
  "keeps P (snapshot_coordinates i)" "keeps P latest_snapshot_ids"
  by (simp_all add: keeps_def latest_license_evidence_def Let_def components_for_coordinates_def
      snapshot_components_def component_declarations_def snapshot_coordinates_def latest_snapshot_ids_def
      split: option.splits)

interpretation pg_invariant: enqueued_predicate "postgres_license_store now jitter" license_inv for now jitter
  by unfold_locales (auto simp: postgres_license_store_def intro: keeps_intro reading_keeps)

subsection \<open>The attempts left\<close>

definition attempts_left :: "license_db \<Rightarrow> int" where
  "attempts_left db = sum_list (map (\<lambda>j. e_max_attempts j - e_attempt j) (enrichment_jobs db))"

lemma attempts_left_nonneg: "license_inv db \<Longrightarrow> 0 \<le> attempts_left db"
  unfolding attempts_left_def by (rule sum_list_nonneg) (auto simp: license_inv_def list_all_iff job_ok_def)

lemma sum_list_update_key:
  fixes w :: "'a \<Rightarrow> int"
  assumes "distinct (map k xs)" "x \<in> set xs"
  shows "sum_list (map w (map (\<lambda>y. if k y = k x then f y else y) xs)) = sum_list (map w xs) - w x + w (f x)"
  using assms
proof (induction xs)
  case (Cons a xs)
  have same: "map (\<lambda>y. if k y = k x then f y else y) xs = xs" if "k x \<notin> k ` set xs"
    using that by (intro map_idI) (auto simp: image_iff)
  from Cons show ?case
    by (cases "a = x") (auto simp: same)
qed simp

lemma attempts_left_update:
  "(\<And>j. e_max_attempts (f j) = e_max_attempts j \<and> e_attempt (f j) = e_attempt j) \<Longrightarrow>
     attempts_left (update_enrichment p f db) = attempts_left db"
  unfolding attempts_left_def update_enrichment_def by (simp, intro arg_cong [of _ _ sum_list] map_cong) auto

lemma claim_attempts:
  assumes "license_inv db" "claim_enrichment now owner db = (Inr job, db')"
  shows "attempts_left db' = attempts_left db - 1"
proof -
  from claim_cases [OF assms(2)] obtain j where j: "j \<in> set (enrichment_jobs db)"
    "db' = update_enrichment (\<lambda>k. e_id k = e_id j) (claimed now owner) db" by auto
  have "distinct (map e_id (enrichment_jobs db))" using assms(1) by (simp add: license_inv_def)
  from sum_list_update_key [OF this j(1), of "\<lambda>j. e_max_attempts j - e_attempt j" "claimed now owner"]
  show ?thesis unfolding j(2) attempts_left_def update_enrichment_def by (simp add: claimed_def)
qed

lemma claim_attempts_le:
  "license_inv db \<Longrightarrow> attempts_left (snd (claim_enrichment now owner db)) \<le> attempts_left db"
  using claim_attempts [of db now owner] claim_cases [OF surjective_pairing, of now owner db]
  by (cases "claim_enrichment now owner db") fastforce

definition within_attempts :: "int \<Rightarrow> license_db \<Rightarrow> bool" where
  "within_attempts b db \<longleftrightarrow> license_inv db \<and> attempts_left db \<le> b"

lemma within_attempts_keeps:
  assumes "keeps license_inv m" "\<And>db. license_inv db \<Longrightarrow> attempts_left (snd (m db)) \<le> attempts_left db"
  shows "keeps (within_attempts b) m"
  using assms by (fastforce simp: keeps_def within_attempts_def)

interpretation pg_attempts: stored_predicate "postgres_license_store now jitter" "within_attempts b" for now jitter b
proof (unfold_locales, goal_cases)
  case (1 e)
  then show ?case unfolding postgres_license_store_def
    by (simp, rule within_attempts_keeps [OF insert_evidence_keeps])
      (simp add: insert_license_evidence_def append_evidence_def attempts_left_def Let_def)
next
  case (3 owner)
  then show ?case unfolding postgres_license_store_def
    by (simp, rule within_attempts_keeps [OF claim_keeps claim_attempts_le])
next
  case (4 n)
  then show ?case unfolding postgres_license_store_def
    by (simp, rule within_attempts_keeps [OF reap_keeps])
      (simp add: reap_expired_enrichment_def attempts_left_update reap_row_def Let_def)
next
  case (5 i owner f oc code)
  then show ?case unfolding postgres_license_store_def
    by (simp, rule within_attempts_keeps [OF complete_keeps])
      (simp add: complete_enrichment_def attempts_left_update complete_row_def Let_def)
next
  case (7 a)
  then show ?case unfolding postgres_license_store_def
    by (simp, rule within_attempts_keeps [OF upsert_assessment_keeps])
      (simp add: upsert_assessment_def attempts_left_def)
qed (auto simp: postgres_license_store_def intro: reading_keeps)

subsection \<open>Assessments by component\<close>

definition assessed :: "int \<Rightarrow> license_db \<Rightarrow> assessment option" where
  "assessed k db = find (\<lambda>a. as_component a = k) (assessments db)"

lemma find_map_keep:
  "(\<And>x. p (f x) = p x) \<Longrightarrow> find p (map f xs) = map_option f (find p xs)"
  by (induction xs) auto

lemma find_append: "find p (xs @ ys) = (case find p xs of None \<Rightarrow> find p ys | Some x \<Rightarrow> Some x)"
  by (induction xs) auto

lemma assessed_upsert:
  "assessed k (snd (upsert_assessment a db)) =
     (if k = as_component a
      then Some (a\<lparr>as_snapshot := (case assessed k db of None \<Rightarrow> as_snapshot a | Some x \<Rightarrow> as_snapshot x)\<rparr>)
      else assessed k db)"
proof (cases "list_ex (\<lambda>x. as_component x = as_component a) (assessments db)")
  case True
  then obtain y where "assessed (as_component a) db = Some y" "as_component y = as_component a"
    by (metis (mono_tags, lifting) assessed_def find_None_iff find_Some_iff list_ex_iff not_None_eq)
  moreover have "assessed k (snd (upsert_assessment a db)) =
      map_option (\<lambda>x. if as_component x = as_component a then a\<lparr>as_snapshot := as_snapshot x\<rparr> else x) (assessed k db)"
    using True by (simp add: upsert_assessment_def assessed_def) (subst find_map_keep; simp)
  moreover have "as_component x = k" if "assessed k db = Some x" for x
    using that by (auto simp: assessed_def find_Some_iff)
  ultimately show ?thesis by (cases "assessed k db") auto
next
  case False
  then have "assessed (as_component a) db = None"
    by (auto simp: assessed_def find_None_iff list_ex_iff)
  with False show ?thesis
    by (auto simp: upsert_assessment_def assessed_def find_append split: option.splits)
qed

text \<open>
  A loop that stores \<open>g x\<close> for every \<open>x\<close>: afterwards the assessment of the component of \<open>x\<close> is
  \<open>g x\<close>, up to the snapshot that an older row keeps.
\<close>

definition stores :: "license_db \<Rightarrow> int \<Rightarrow> assessment \<Rightarrow> bool" where
  "stores db k a \<longleftrightarrow> (\<exists>b. assessed k db = Some b \<and> b\<lparr>as_snapshot := as_snapshot a\<rparr> = a)"

lemma upsert_all:
  assumes "\<And>x y. x \<in> set xs \<Longrightarrow> y \<in> set xs \<Longrightarrow> as_component (g x) = as_component (g y) \<Longrightarrow> g x = g y"
  shows "\<exists>db'. for_each xs (\<lambda>x. upsert_assessment (g x)) db = (Inr (), db') \<and>
    db' = db\<lparr>assessments := assessments db'\<rparr> \<and>
    (\<forall>x \<in> set xs. stores db' (as_component (g x)) (g x)) \<and>
    (\<forall>k. k \<notin> (\<lambda>x. as_component (g x)) ` set xs \<longrightarrow> assessed k db' = assessed k db)"
  using assms
proof (induction xs arbitrary: db)
  case (Cons x xs)
  let ?db1 = "snd (upsert_assessment (g x) db)"
  have first: "upsert_assessment (g x) db = (Inr (), ?db1)" by (simp add: upsert_assessment_def)
  from Cons.IH [of ?db1] Cons.prems obtain db' where IH:
    "for_each xs (\<lambda>x. upsert_assessment (g x)) ?db1 = (Inr (), db')"
    "db' = ?db1\<lparr>assessments := assessments db'\<rparr>"
    "\<forall>x \<in> set xs. stores db' (as_component (g x)) (g x)"
    "\<forall>k. k \<notin> (\<lambda>x. as_component (g x)) ` set xs \<longrightarrow> assessed k db' = assessed k ?db1"
    by auto
  have "for_each (x # xs) (\<lambda>x. upsert_assessment (g x)) db = (Inr (), db')"
    unfolding for_each.simps proceed_def by (subst first) (simp add: IH(1))
  moreover have "db' = db\<lparr>assessments := assessments db'\<rparr>"
    by (subst IH(2)) (simp add: upsert_assessment_def)
  moreover have "stores db' (as_component (g x)) (g x)"
  proof (cases "as_component (g x) \<in> (\<lambda>x. as_component (g x)) ` set xs")
    case True
    then obtain y where "y \<in> set xs" "as_component (g x) = as_component (g y)" by auto
    with Cons.prems [of x y] IH(3) show ?thesis by simp
  next
    case False
    with IH(4) show ?thesis by (simp add: stores_def assessed_upsert)
  qed
  moreover have "assessed k db' = assessed k db" if "k \<notin> (\<lambda>x. as_component (g x)) ` set (x # xs)" for k
    using IH(4) that by (simp add: assessed_upsert)
  ultimately show ?case using IH(3) by auto
qed simp

lemma for_each_cong_state:
  assumes "\<And>x s. x \<in> set xs \<Longrightarrow> I s \<Longrightarrow> f x s = g x s" "\<And>x. x \<in> set xs \<Longrightarrow> keeps I (g x)" "I s"
  shows "for_each xs f s = for_each xs g s"
  using assms
proof (induction xs arbitrary: s)
  case (Cons x xs)
  have "I (snd (g x s))" using Cons.prems by (simp add: keeps_def)
  with Cons show ?case by (auto simp: proceed_def split: prod.splits sum.splits)
qed simp

lemma as_component_human [simp]: "as_component (assess_with_human l c s d k r t) = c"
  by (simp add: assess_with_human_def assess_def Let_def split: option.split status.split prod.split)

lemma as_snapshot_human [simp]: "as_snapshot (assess_with_human l c s d k r t) = s"
  by (simp add: assess_with_human_def assess_def Let_def split: option.split status.split prod.split)

lemma latest_rows_assessments [simp]: "latest_rows c (db\<lparr>assessments := x\<rparr>) = latest_rows c db"
  by (simp add: latest_rows_def latest_license_evidence_def scoped_def Let_def)

lemma postgres_reads [simp]:
  "ls_latest_evidence (postgres_license_store now jitter) = latest_license_evidence"
  "ls_upsert_assessment (postgres_license_store now jitter) = upsert_assessment"
  "ls_snapshot_components (postgres_license_store now jitter) = snapshot_components"
  by (simp_all add: postgres_license_store_def)

text \<open>What \<open>assessSnapshot\<close> stores for a component.\<close>

definition snapshot_assessment :: "license_db license_worker \<Rightarrow> int \<Rightarrow> license_db \<Rightarrow> snapshot_component \<Rightarrow> assessment" where
  "snapshot_assessment wk i db c =
     assess_with_human (wk_licenses wk) (sc_id c) i (sc_declared c) (sc_concluded c)
       (if resolvable (sc_coordinates c) then latest_rows (sc_coordinates c) db else []) (wk_now wk)"

lemma snapshot_component_id: "as_component (snapshot_assessment wk i db c) = sc_id c"
  by (simp add: snapshot_assessment_def)

lemma assess_snapshot_direct:
  assumes "wk_store wk = postgres_license_store now jitter"
  shows "assess_snapshot wk i db =
    for_each (projr (fst (snapshot_components i db))) (\<lambda>c. upsert_assessment (snapshot_assessment wk i db c)) db"
proof -
  have "assess_snapshot wk i db = assess_loop wk i (projr (fst (snapshot_components i db))) Map.empty db"
    by (simp add: assess_snapshot_def assms postgres_license_store_def snapshot_components_def proceed_def)
  also have "\<dots> = for_each (projr (fst (snapshot_components i db))) (pg_evidence.assess_each now jitter wk i) db"
    by (rule pg_evidence.cached_eq_direct [OF assms]) (simp add: pg_evidence.cache_ok_def)
  also have "\<dots> = for_each (projr (fst (snapshot_components i db)))
      (\<lambda>c. upsert_assessment (snapshot_assessment wk i db c)) db"
    by (rule for_each_cong_state [where I = "\<lambda>db'. \<exists>x. db' = db\<lparr>assessments := x\<rparr>"])
      (auto simp: pg_evidence.assess_each_def proceed_def store_assessment_def assms
        latest_license_evidence_eq snapshot_assessment_def keeps_def upsert_assessment_def
        intro: exI [of _ "assessments db"])
  finally show ?thesis .
qed

subsection \<open>Runs of the worker as runs of the store\<close>

interpretation pg_runs: enqueued_predicate "postgres_license_store now jitter" "license_step\<^sup>*\<^sup>* s0" for now jitter s0
  by unfold_locales
    (auto simp: postgres_license_store_def keeps_def intro: reading_keeps [unfolded keeps_def, rule_format]
      rtranclp.rtrancl_into_rtrancl license_step.intros)

subsection \<open>The properties\<close>

definition sample_coordinates :: coordinates where
  "sample_coordinates = \<lparr>ecosystem = ''npm'', namespace = [], pkg_name = ''p'', version = ''1''\<rparr>"

definition sample_component :: component_row where
  "sample_component = \<lparr>c_id = 7, c_snapshot = 1, c_ordinal = 0, c_element = ''e'', c_name = ''p'',
     c_version = Some ''1'', c_purl = None, c_ecosystem = Some ''npm'', c_purl_namespace = None,
     c_purl_name = Some ''p'', c_purl_version = Some ''1'', c_declared = None, c_concluded = None\<rparr>"

definition sample_license_db :: license_db where
  "sample_license_db = \<lparr>components = [sample_component],
     streams = [\<lparr>st_repository = 1, st_key = ''github:source'', st_latest = Some 1\<rparr>],
     evidence_rows = [], next_evidence = 1, enrichment_jobs = [], next_enrichment = 1, assessments = []\<rparr>"

definition sample_worker :: "license_db license_worker" where
  "sample_worker = \<lparr>wk_store = postgres_license_store 10 id, wk_registry = None, wk_owner = ''w'', wk_now = 10,
     wk_licenses = no_licenses\<rparr>"

lemmas sample_license = sample_license_db_def sample_component_def sample_coordinates_def

definition enqueued_db :: license_db where
  "enqueued_db = snd (enqueue_enrichment 0 0 sample_coordinates ''r'' sample_license_db)"

lemma enqueued_db_eq:
  "enqueued_db = sample_license_db\<lparr>enrichment_jobs :=
     [\<lparr>e_id = 1, e_coordinates = sample_coordinates, e_route = ''r'', e_state = EQueued, e_attempt = 0,
       e_max_attempts = 3, e_run_after = 0, e_owner = None, e_expires = None, e_fence = 0, e_error_code = []\<rparr>],
     next_enrichment := 2\<rparr>"
  by (simp add: enqueued_db_def enqueue_enrichment_def sample_license scoped_def first_row_def newest_first_def)

lemma enqueued_db_run: "license_start sample_license_db \<and> license_step\<^sup>*\<^sup>* sample_license_db enqueued_db"
  by (auto simp: enqueued_db_def license_start_def sample_license_db_def intro: license_step.intros)

lemma enqueued_db_inv: "license_inv enqueued_db"
  using enqueued_db_run by (blast intro: enrichment.run_inv)

text \<open>
  C14 (enrichment queue).  In every database that the functions of the store reach from empty
  tables, there is at most one active job for a package version and a route; a job has used at
  most its attempts, and a queued one has an attempt left; a job has an owner and a lease exactly
  while it runs; identifiers are unique; and a component has at most one assessment.
\<close>

theorem enrichment_invariant:
  assumes "license_start db" "license_step\<^sup>*\<^sup>* db db'"
  shows "distinct (map (\<lambda>j. (e_coordinates j, e_route j)) (filter active_job (enrichment_jobs db'))) \<and>
    list_all (\<lambda>j. 0 \<le> e_attempt j \<and> e_attempt j \<le> e_max_attempts j \<and>
      (e_state j = EQueued \<longrightarrow> e_attempt j < e_max_attempts j) \<and>
      (e_state j = ERunning \<longleftrightarrow> e_owner j \<noteq> None) \<and> (e_state j = ERunning \<longleftrightarrow> e_expires j \<noteq> None))
      (enrichment_jobs db') \<and>
    distinct (map e_id (enrichment_jobs db')) \<and> distinct (map ev_id (evidence_rows db')) \<and>
    distinct (map as_component (assessments db'))"
  using enrichment.run_inv [OF assms] unfolding license_inv_def one_active_def job_ok_def by blast

theorem enrichment_invariant_witness:
  "license_start sample_license_db \<and> license_step\<^sup>*\<^sup>* sample_license_db enqueued_db \<and>
   enrichment_jobs enqueued_db \<noteq> [] \<and> distinct (map e_id (enrichment_jobs enqueued_db))"
  using enrichment_invariant [of sample_license_db enqueued_db] enqueued_db_run by (simp add: enqueued_db_eq)

text \<open>
  Whatever the resolvers return, a run of the worker, the
  enqueueing of a snapshot and the backfill are sequences of the store's operations, so that the
  invariants and the fencing above hold between any two of their steps.
\<close>

theorem worker_runs_store_steps:
  assumes "wk_store wk = postgres_license_store now jitter"
  shows "license_step\<^sup>*\<^sup>* db (snd (run_once wk reg cancelled db)) \<and>
    license_step\<^sup>*\<^sup>* db (snd (enqueue_snapshot wk snapshot db)) \<and>
    license_step\<^sup>*\<^sup>* db (snd (backfill wk db))"
  using pg_runs.run_keeps [OF assms rtranclp.rtrancl_refl]
    pg_runs.enqueue_snapshot_keeps [OF assms rtranclp.rtrancl_refl]
    pg_runs.backfill_keeps [OF assms rtranclp.rtrancl_refl] by blast

theorem worker_runs_store_steps_witness:
  "license_step\<^sup>*\<^sup>* enqueued_db
     (snd (run_once sample_worker \<lparr>resolvers = Map.empty, routes = Map.empty\<rparr> False enqueued_db))"
  using worker_runs_store_steps [of sample_worker 10 id] by (simp add: sample_worker_def)

lemma first_row_newest:
  assumes "first_row (newest_first k n xs) = Some x"
  shows "x \<in> set xs"
proof -
  have "x \<in> set (newest_first k n xs)"
    using assms by (cases "newest_first k n xs") (simp_all add: first_row_def)
  then show ?thesis by (auto simp: newest_first_def dest: in_set_takeD)
qed

text \<open>
  A request creates a job exactly when there is no active job for
  the package version and the route and the newest row of the route is missing or is a failure
  whose time to live is over; the job is due at once.  Otherwise the database is unchanged.  The
  first query of the function, which looks at all rows, makes no difference.
\<close>

theorem enqueue_when_needed:
  assumes "now \<le> now'"
  shows "let newest = first_row (newest_first ev_id 1 (filter (\<lambda>e. route e = rt) (scoped c db)));
      needed = (\<not> list_ex (\<lambda>j. active_job j \<and> e_coordinates j = c \<and> e_route j = rt) (enrichment_jobs db) \<and>
        (case newest of None \<Rightarrow> True
         | Some e \<Rightarrow> outcome e \<noteq> OutcomeResolved \<and> (\<exists>t \<le> now'. expires_at e = Some t)))
    in fst (enqueue_enrichment now now' c rt db) = Inr needed \<and>
      (\<not> needed \<longrightarrow> snd (enqueue_enrichment now now' c rt db) = db) \<and>
      (needed \<longrightarrow> (\<exists>j. enrichment_jobs (snd (enqueue_enrichment now now' c rt db)) = enrichment_jobs db @ [j] \<and>
         e_coordinates j = c \<and> e_route j = rt \<and> e_state j = EQueued \<and> e_run_after j = now'))"
proof -
  let ?rows = "filter (\<lambda>e. route e = rt) (scoped c db)"
  let ?newest = "first_row (newest_first ev_id 1 ?rows)"
  have member: "e \<in> set ?rows" if "?newest = Some e" for e
    by (rule first_row_newest [OF that])
  have stale: "\<not> fresh_row now' e \<longleftrightarrow> outcome e \<noteq> OutcomeResolved \<and> (\<exists>t \<le> now'. expires_at e = Some t)" for e
    by (auto simp: fresh_row_def split: option.splits)
  have earlier: "fresh_row now e" if "fresh_row now' e" for e
    using that assms by (auto simp: fresh_row_def split: option.splits)
  have "(list_ex (fresh_row now) ?rows \<and> (case ?newest of None \<Rightarrow> False | Some e \<Rightarrow> fresh_row now' e)) \<longleftrightarrow>
      \<not> (case ?newest of None \<Rightarrow> True | Some e \<Rightarrow> \<not> fresh_row now' e)"
  proof (cases ?newest)
    case (Some e)
    then show ?thesis using member [OF Some] earlier [of e] unfolding list_ex_iff by auto
  qed simp
  then show ?thesis
    unfolding Let_def stale [symmetric] enqueue_enrichment_def by auto
qed

theorem enqueue_when_needed_witness:
  "(0::int) \<le> 1 \<and> fst (enqueue_enrichment 0 1 sample_coordinates ''r'' sample_license_db) = Inr True"
  using enqueue_when_needed [of 0 1 "''r''" sample_coordinates sample_license_db]
  by (simp add: Let_def sample_license first_row_def newest_first_def scoped_def)

lemma claim_raises_fence:
  assumes "fence_from i f db" "claim_enrichment now owner db = (Inr job, db')" "e_id job = i"
  shows "f < e_fence job"
  using claim_cases [OF assms(2)] assms(1,3) by (auto simp: fence_from_def claimed_def list_all_iff)

text \<open>
  C12 (fencing).  Once a job has been claimed again, the worker of the earlier claim can neither
  renew nor complete it with its token, whatever happened to the job between and after the two
  claims, and its attempt changes nothing.
\<close>

theorem old_fence_is_rejected:
  assumes "license_start db0" "license_step\<^sup>*\<^sup>* db0 db"
    and "claim_enrichment now owner db = (Inr job, db1)" "license_step\<^sup>*\<^sup>* db1 db2"
    and "claim_enrichment now2 owner2 db2 = (Inr job2, db3)" "e_id job2 = e_id job" "license_step\<^sup>*\<^sup>* db3 db4"
  shows "complete_enrichment now' jitter (e_id job) owner' (e_fence job) oc code db4 = (Inl ErrFenced, db4) \<and>
    renew_enrichment now' (e_id job) owner' (e_fence job) db4 = (Inl ErrFenced, db4)"
proof -
  have inv: "license_inv db" by (rule enrichment.run_inv [OF assms(1,2)])
  have first: "fence_from (e_id job) (e_fence job) db2"
    by (rule fences.run_inv [OF claim_fence [OF inv assms(3)] assms(4)])
  have "license_step\<^sup>*\<^sup>* db db1" using assms(3) step_claim [of db now owner] by (metis r_into_rtranclp snd_conv)
  with assms(2,4) have "license_step\<^sup>*\<^sup>* db0 db2" by (meson rtranclp_trans)
  then have "license_inv db2" by (rule enrichment.run_inv [OF assms(1)])
  then have "fence_from (e_id job) (e_fence job2) db4"
    using fences.run_inv [OF claim_fence [OF _ assms(5)] assms(7)] assms(6) by simp
  from stale_fence [OF this claim_raises_fence [OF first assms(5,6)]]
  have "filter (holds_lease (e_id job) owner' (e_fence job)) (enrichment_jobs db4) = []"
    "filter (\<lambda>j. holds_lease (e_id job) owner' (e_fence job) j \<and>
      (case e_expires j of None \<Rightarrow> False | Some t \<Rightarrow> t > now')) (enrichment_jobs db4) = []"
    by (auto simp: filter_empty_conv)
  then show ?thesis by (simp add: complete_enrichment_def renew_enrichment_def Let_def)
qed

theorem old_fence_is_rejected_witness:
  "\<exists>job db1 job2 db3. claim_enrichment 0 ''w'' enqueued_db = (Inr job, db1) \<and>
     claim_enrichment 1000000000000 ''v'' (snd (reap_expired_enrichment 300000000000 9 db1)) = (Inr job2, db3) \<and>
     e_id job2 = e_id job \<and>
     renew_enrichment 1000000000001 (e_id job) ''w'' (e_fence job) db3 = (Inl ErrFenced, db3)"
proof -
  obtain job db1 job2 db3 where c: "claim_enrichment 0 ''w'' enqueued_db = (Inr job, db1)"
    "claim_enrichment 1000000000000 ''v'' (snd (reap_expired_enrichment 300000000000 9 db1)) = (Inr job2, db3)"
    "e_id job2 = e_id job"
    by (simp add: enqueued_db_eq claim_enrichment_def claimed_def update_enrichment_def reap_expired_enrichment_def
        reapable_def reap_row_def enrichment_lease_def Let_def)
  have "license_step\<^sup>*\<^sup>* db1 (snd (reap_expired_enrichment 300000000000 9 db1))"
    by (auto intro: step_reap)
  with old_fence_is_rejected [OF _ _ c(1) _ c(2,3) rtranclp.rtrancl_refl] enqueued_db_run c
  show ?thesis by blast
qed

text \<open>
  C7 (outages do not erase knowledge).  When a failed lookup is recorded, every assessment that is
  computed from the evidence of the store afterwards has the status, the expression and the conflict
  detail it had before, the precedence of human conclusions included: the query of the latest
  evidence falls back to the newest resolved row behind the failure.
\<close>

theorem recorded_outage_keeps_outcome:
  assumes "outcome e \<noteq> OutcomeResolved"
  shows "\<exists>n dup db' before after.
    insert_license_evidence e db = (Inr (n, dup), db') \<and>
    latest_license_evidence c db = (Inr before, db) \<and> latest_license_evidence c db' = (Inr after, db') \<and>
    as_status (assess_with_human l i s d k after t) = as_status (assess_with_human l i s d k before t) \<and>
    as_expression (assess_with_human l i s d k after t) = as_expression (assess_with_human l i s d k before t) \<and>
    conflict_detail (assess_with_human l i s d k after t) = conflict_detail (assess_with_human l i s d k before t)"
proof -
  let ?db' = "append_evidence e db"
  have "outcome_of (assess_with_human l i s d k (latest_rows c ?db') t) =
      outcome_of (assess_with_human l i s d k (latest_rows c db) t)"
    using latest_rows_unresolved [OF assms, of c db] assess_with_human_resolved [of l i s d k _ t] by metis
  then show ?thesis
    by (auto simp: insert_license_evidence_def Let_def latest_license_evidence_eq)
qed

theorem recorded_outage_keeps_outcome_witness:
  "let db = append_evidence (sample_evidence 0 SourceRegistryNPM OutcomeResolved) sample_license_db;
       e = sample_evidence 0 SourceRegistryNPM OutcomeUnavailable
   in outcome e \<noteq> OutcomeResolved \<and> latest_rows sample_coordinates db \<noteq> [] \<and>
     as_status (assess_with_human no_licenses 7 1 None None
       (latest_rows sample_coordinates (snd (insert_license_evidence e db))) 0) =
     as_status (assess_with_human no_licenses 7 1 None None (latest_rows sample_coordinates db) 0)"
proof -
  let ?db = "append_evidence (sample_evidence 0 SourceRegistryNPM OutcomeResolved) sample_license_db"
  let ?e = "sample_evidence 0 SourceRegistryNPM OutcomeUnavailable"
  have u: "outcome ?e \<noteq> OutcomeResolved" by (simp add: sample_evidence_def)
  have "latest_rows sample_coordinates ?db \<noteq> []"
    by (simp add: latest_rows_def latest_license_evidence_def scoped_def append_evidence_def sample_evidence_def
        sample_license newest_in_def Let_def)
  with u show ?thesis
    using recorded_outage_keeps_outcome [OF u, of ?db sample_coordinates no_licenses 7 1 None None 0]
    by (auto simp: Let_def latest_license_evidence_eq)
qed

text \<open>
  C34 (assessment of a snapshot).  Assessing a snapshot succeeds, changes nothing but assessments,
  and stores for every component of the snapshot the assessment of the evidence that is the latest
  for its coordinates, although evidence is read once per package version; components without
  exact coordinates are assessed without evidence, and other components keep their assessments.
\<close>

theorem assess_snapshot_covers:
  assumes "wk_store wk = postgres_license_store now jitter" "distinct (map c_id (components db))"
  shows "\<exists>db'. assess_snapshot wk i db = (Inr (), db') \<and> db' = db\<lparr>assessments := assessments db'\<rparr> \<and>
    (\<forall>c \<in> set (components db).
       if c_snapshot c = i
       then \<exists>a. assessed (c_id c) db' = Some a \<and> a\<lparr>as_snapshot := i\<rparr> =
         assess_with_human (wk_licenses wk) (c_id c) i (c_declared c) (c_concluded c)
           (if resolvable (component_coordinates c) then latest_rows (component_coordinates c) db else []) (wk_now wk)
       else assessed (c_id c) db' = assessed (c_id c) db)"
proof -
  let ?of = "\<lambda>c. \<lparr>sc_id = c_id c, sc_coordinates = component_coordinates c,
    sc_declared = c_declared c, sc_concluded = c_concluded c\<rparr>"
  let ?cs = "projr (fst (snapshot_components i db))"
  have cs: "set ?cs = ?of ` {c \<in> set (components db). c_snapshot c = i}"
    by (simp add: snapshot_components_def)
  have inj: "c = c'" if "c \<in> set (components db)" "c' \<in> set (components db)" "c_id c = c_id c'" for c c'
    using assms(2) that by (auto simp: distinct_map inj_on_def)
  have same: "x = y" if "x \<in> set ?cs" "y \<in> set ?cs" "sc_id x = sc_id y" for x y
  proof -
    from that(1,2) obtain c c' where "c \<in> set (components db)" "x = ?of c" "c' \<in> set (components db)" "y = ?of c'"
      unfolding cs by blast
    with inj [of c c'] that(3) show ?thesis by simp
  qed
  have "snapshot_assessment wk i db x = snapshot_assessment wk i db y"
    if "x \<in> set ?cs" "y \<in> set ?cs"
      "as_component (snapshot_assessment wk i db x) = as_component (snapshot_assessment wk i db y)" for x y
    using same [OF that(1,2)] that(3) by (simp add: snapshot_assessment_def)
  from upsert_all [of ?cs "snapshot_assessment wk i db" db, OF this]
  obtain db' where db': "assess_snapshot wk i db = (Inr (), db')" "db' = db\<lparr>assessments := assessments db'\<rparr>"
    "\<forall>x \<in> set ?cs. stores db' (sc_id x) (snapshot_assessment wk i db x)"
    "\<forall>k. k \<notin> sc_id ` set ?cs \<longrightarrow> assessed k db' = assessed k db"
    unfolding assess_snapshot_direct [OF assms(1)] by (auto simp only: snapshot_component_id)
  have "\<exists>a. assessed (c_id c) db' = Some a \<and> a\<lparr>as_snapshot := i\<rparr> = snapshot_assessment wk i db (?of c)"
    if "c \<in> set (components db)" "c_snapshot c = i" for c
    using db'(3) that unfolding cs by (auto simp: stores_def snapshot_assessment_def)
  moreover have "c_id c \<notin> sc_id ` set ?cs" if "c \<in> set (components db)" "c_snapshot c \<noteq> i" for c
  proof
    assume "c_id c \<in> sc_id ` set ?cs"
    then obtain c' where "c' \<in> set (components db)" "c_snapshot c' = i" "c_id c = c_id c'"
      unfolding cs by auto
    with inj [of c c'] that show False by simp
  qed
  ultimately show ?thesis
    using db'(1,2,4) unfolding snapshot_assessment_def snapshot_component.simps
    by (intro exI [of _ db'] conjI ballI) (assumption, assumption, rule if_bool_eq_conj [THEN iffD2], blast)
qed

theorem assess_snapshot_covers_witness:
  "\<exists>db' a. assess_snapshot sample_worker 1 sample_license_db = (Inr (), db') \<and> assessed 7 db' = Some a"
proof -
  have "wk_store sample_worker = postgres_license_store 10 id" "distinct (map c_id (components sample_license_db))"
    "sample_component \<in> set (components sample_license_db)" "c_snapshot sample_component = 1" "c_id sample_component = 7"
    by (simp_all add: sample_worker_def sample_license)
  with assess_snapshot_covers [of sample_worker 10 id sample_license_db 1] show ?thesis by metis
qed

text \<open>A run that takes a job uses up one of the attempts that are left.\<close>

lemma run_uses_an_attempt:
  assumes "license_inv db" "wk_store wk = postgres_license_store now jitter"
    and "run_once wk reg cancelled db = ((True, err), db')"
  shows "0 \<le> attempts_left db' \<and> attempts_left db' < attempts_left db \<and> license_inv db'"
proof -
  obtain r db1 where c: "claim_enrichment now (wk_owner wk) db = (r, db1)" by fastforce
  have claim: "ls_claim (postgres_license_store now jitter) (wk_owner wk) db = (r, db1)"
    by (simp add: postgres_license_store_def c)
  show ?thesis
  proof (cases r)
    case (Inl e)
    with claim assms(2,3) show ?thesis by (cases e) (simp_all add: run_once_def)
  next
    case (Inr job)
    have "license_inv db1" using keepsD [OF claim_keeps assms(1), of now "wk_owner wk"] c by simp
    then have "within_attempts (attempts_left db - 1) db1"
      using claim_attempts [OF assms(1)] c Inr by (simp add: within_attempts_def)
    from pg_attempts.run_after_claim [OF assms(2) claim this, of reg cancelled]
    have "within_attempts (attempts_left db - 1) db'" by (simp add: assms(3))
    then show ?thesis by (auto simp: within_attempts_def attempts_left_nonneg)
  qed
qed

text \<open>
  C16 (the queue drains).  Between two pauses of the loop of the worker every iteration but the last
  uses up one of the attempts that are left in the queue, whatever the resolvers answer: the loop
  pauses after at most that many iterations and one more.
\<close>

theorem worker_pauses:
  assumes "license_inv db" "wk_store wk = postgres_license_store now jitter" "attempts_left db < int n"
  shows "\<exists>db'. run_burst wk reg n db = Some db' \<and> license_inv db' \<and> attempts_left db' \<le> attempts_left db"
  using assms(1,3)
proof (induction n arbitrary: db)
  case 0
  then show ?case using attempts_left_nonneg [of db] by simp
next
  case (Suc n)
  let ?db1 = "snd (reap_expired_enrichment now 100 db)"
  have db1: "within_attempts (attempts_left db) ?db1"
    using keepsD [OF pg_attempts.reap_keeps [of "attempts_left db" now jitter 100], of db] Suc.prems(1)
    by (simp add: within_attempts_def postgres_license_store_def)
  obtain processed err db2 where run: "run_once wk reg False ?db1 = ((processed, err), db2)"
    by (metis prod.collapse)
  have db2: "within_attempts (attempts_left db) db2"
    using pg_attempts.run_keeps [OF assms(2) db1, of reg False] run by simp
  have iteration: "run_iteration wk reg db = (processed \<and> err = None, db2)"
    unfolding run_iteration_def assms(2) by (simp add: postgres_license_store_def run)
  show ?case
  proof (cases "processed \<and> err = None")
    case True
    with run run_uses_an_attempt [OF _ assms(2), of ?db1 reg False None db2] db1
    have "attempts_left db2 < attempts_left db" "license_inv db2" by (auto simp: within_attempts_def)
    with Suc.IH [of db2] Suc.prems True iteration show ?thesis by fastforce
  next
    case False
    with iteration db2 show ?thesis by (auto simp: within_attempts_def)
  qed
qed

theorem worker_pauses_witness:
  "\<exists>db'. run_burst sample_worker \<lparr>resolvers = Map.empty, routes = Map.empty\<rparr> 4 enqueued_db = Some db'"
  using worker_pauses [OF enqueued_db_inv, of sample_worker 10 id 4]
  by (auto simp: sample_worker_def attempts_left_def enqueued_db_eq)

end
