(* ===== verification/Review_Properties.thy ===== *)
theory Review_Properties
  imports Review_Service Store_Claims Policy_Properties
begin

text \<open>
  The invariant of the review tables, and what the review service guarantees over any store that
  keeps the contract below.
\<close>

subsection \<open>Rows that replace others\<close>

text \<open>
  Policies, results, conclusions and decisions are replaced in the same way: the open row of a key
  is closed and a new row is appended.
\<close>

lemma filter_closed:
  "(\<And>x. p x \<Longrightarrow> \<not> q (close x)) \<Longrightarrow>
     filter q (map (\<lambda>x. if p x then close x else x) xs) = filter (\<lambda>x. \<not> p x) (filter q xs)"
  by (induction xs) auto

lemma replace_distinct:
  assumes "distinct (map key (filter opn xs))"
    and "\<And>x. x \<in> set xs \<Longrightarrow> opn x \<Longrightarrow> opn new \<Longrightarrow> key x = key new \<Longrightarrow> p x"
    and "\<And>x. p x \<Longrightarrow> \<not> opn (close x)"
  shows "distinct (map key (filter opn (map (\<lambda>x. if p x then close x else x) xs @ [new])))"
proof -
  have "filter opn (map (\<lambda>x. if p x then close x else x) xs) = filter (\<lambda>x. \<not> p x) (filter opn xs)"
    using assms(3) by (rule filter_closed)
  moreover have "key new \<notin> key ` set (filter (\<lambda>x. \<not> p x) (filter opn xs))" if "opn new"
    using assms(2) that by auto
  moreover have "distinct (map key (filter (\<lambda>x. \<not> p x) (filter opn xs)))"
    using assms(1) by (rule distinct_map_filter)
  ultimately show ?thesis
    by (simp only: filter_append map_append distinct_append) auto
qed

lemma replace_ids:
  fixes next_id :: int
  assumes "distinct (map ident xs)" "list_all (\<lambda>x. ident x < next_id) xs"
    and "\<And>x. ident (close x) = ident x" "ident new = next_id"
  shows "distinct (map ident (map (\<lambda>x. if p x then close x else x) xs @ [new])) \<and>
    list_all (\<lambda>x. ident x < next_id + 1) (map (\<lambda>x. if p x then close x else x) xs @ [new])"
proof -
  have "map ident (map (\<lambda>x. if p x then close x else x) xs) = map ident xs"
    using assms(3) by (auto intro: map_cong)
  moreover from this have "ident ` set (map (\<lambda>x. if p x then close x else x) xs) = ident ` set xs"
    by (metis list.set_map)
  ultimately show ?thesis
    using assms by (fastforce simp: list_all_iff simp del: map_map)
qed

subsection \<open>The invariant\<close>

definition policies_ok :: "review_db \<Rightarrow> bool" where
  "policies_ok db \<longleftrightarrow>
     distinct (map policy_id (policies db)) \<and> list_all (\<lambda>p. policy_id p < next_policy db) (policies db) \<and>
     distinct (map (\<lambda>_. ()) (filter policy_active (policies db))) \<and>
     distinct (map (\<lambda>p. (policy_name p, policy_version p)) (policies db))"

definition results_ok :: "review_db \<Rightarrow> bool" where
  "results_ok db \<longleftrightarrow>
     distinct (map rr_id (results db)) \<and> list_all (\<lambda>x. rr_id x < next_result db) (results db) \<and>
     distinct (map (\<lambda>x. er_component (rr_result x)) (filter rr_current (results db)))"

definition conclusions_ok :: "review_db \<Rightarrow> bool" where
  "conclusions_ok db \<longleftrightarrow>
     distinct (map cn_id (conclusions db)) \<and> list_all (\<lambda>x. cn_id x < next_conclusion db) (conclusions db) \<and>
     distinct (map cn_coordinates (filter (\<lambda>x. cn_superseded x = None) (conclusions db)))"

definition decisions_ok :: "review_db \<Rightarrow> bool" where
  "decisions_ok db \<longleftrightarrow>
     distinct (map d_id (decisions db)) \<and> list_all (\<lambda>x. d_id x < next_decision db) (decisions db) \<and>
     distinct (map (\<lambda>d. (d_repository d, d_coordinates d)) (filter (\<lambda>x. d_superseded x = None) (decisions db))) \<and>
     list_all (\<lambda>d. d_kind d = DecisionException \<longrightarrow> d_expires d \<noteq> None) (decisions db)"

definition grants_ok :: "review_db \<Rightarrow> bool" where
  "grants_ok db \<longleftrightarrow> distinct (map (\<lambda>(r, s, g). (r, s)) (grants db))"

definition review_inv :: "review_db \<Rightarrow> bool" where
  "review_inv db \<longleftrightarrow> license_inv (lic db) \<and> policies_ok db \<and> results_ok db \<and> conclusions_ok db \<and>
     decisions_ok db \<and> grants_ok db"

lemmas review_parts = policies_ok_def results_ok_def conclusions_ok_def decisions_ok_def grants_ok_def

lemma next_version_greater:
  assumes "p \<in> set (policies db)" "policy_name p = name"
  shows "policy_version p < next_version name db"
proof -
  let ?vs = "map policy_version (filter (\<lambda>p. policy_name p = name) (policies db))"
  have "fold max ?vs 0 = Max (set (0 # ?vs))" by (rule Max.set_eq_fold [symmetric])
  moreover have "policy_version p \<in> set (0 # ?vs)" using assms by auto
  ultimately have "policy_version p \<le> fold max ?vs 0" by (metis List.finite_set Max_ge)
  then show ?thesis by (simp add: next_version_def)
qed

lemma create_policy_keeps [keeps_intro]: "keeps review_inv (create_policy item activate)"
  unfolding keeps_def
proof (intro allI impI)
  fix db
  assume inv: "review_inv db"
  let ?new = "item\<lparr>policy_version := next_version (policy_name item) db, policy_active := activate, policy_id := next_policy db\<rparr>"
  let ?ps = "map (\<lambda>p. if activate then p\<lparr>policy_active := False\<rparr> else p) (policies db) @ [?new]"
  have new: "(if activate then map (\<lambda>p. p\<lparr>policy_active := False\<rparr>) (policies db) else policies db) @ [?new] = ?ps"
    by (cases activate) simp_all
  have ids: "distinct (map policy_id ?ps) \<and> list_all (\<lambda>p. policy_id p < next_policy db + 1) ?ps"
    using inv by (intro replace_ids) (auto simp: review_inv_def policies_ok_def)
  have active: "distinct (map (\<lambda>_. ()) (filter policy_active ?ps))"
    using inv by (intro replace_distinct) (auto simp: review_inv_def policies_ok_def)
  have "map (\<lambda>p. (policy_name p, policy_version p)) ?ps =
      map (\<lambda>p. (policy_name p, policy_version p)) (policies db) @ [(policy_name item, next_version (policy_name item) db)]"
    by (auto intro: map_cong)
  moreover have "distinct \<dots>"
    using inv by (auto simp: review_inv_def policies_ok_def dest: next_version_greater)
  ultimately have versions: "distinct (map (\<lambda>p. (policy_name p, policy_version p)) ?ps)" by (simp only:)
  have "policies_ok (db\<lparr>policies := ?ps, next_policy := next_policy db + 1\<rparr>)"
    unfolding policies_ok_def using ids active versions by simp
  with inv have "review_inv (db\<lparr>policies := ?ps, next_policy := next_policy db + 1\<rparr>)"
    by (simp add: review_inv_def results_ok_def conclusions_ok_def decisions_ok_def grants_ok_def)
  with inv show "review_inv (snd (create_policy item activate db))"
    unfolding create_policy_def Let_def new by simp
qed

lemma upsert_result_keeps [keeps_intro]: "keeps review_inv (upsert_policy_result r)"
  unfolding keeps_def
proof (intro allI impI)
  fix db
  assume inv: "review_inv db"
  let ?close = "\<lambda>x. x\<lparr>rr_current := False\<rparr>" and ?p = "\<lambda>x. er_component (rr_result x) = er_component r \<and> rr_current x"
  let ?rs = "map (\<lambda>x. if ?p x then ?close x else x) (results db) @
    [\<lparr>rr_id = next_result db, rr_result = r, rr_current = True\<rparr>]"
  have "distinct (map rr_id ?rs) \<and> list_all (\<lambda>x. rr_id x < next_result db + 1) ?rs"
    using inv by (intro replace_ids) (auto simp: review_inv_def results_ok_def)
  moreover have "distinct (map (\<lambda>x. er_component (rr_result x)) (filter rr_current ?rs))"
    using inv by (intro replace_distinct) (auto simp: review_inv_def results_ok_def)
  ultimately have "results_ok (db\<lparr>results := ?rs, next_result := next_result db + 1\<rparr>)"
    unfolding results_ok_def by simp
  with inv have "review_inv (db\<lparr>results := ?rs, next_result := next_result db + 1\<rparr>)"
    by (simp add: review_inv_def policies_ok_def conclusions_ok_def decisions_ok_def grants_ok_def)
  with inv show "review_inv (snd (upsert_policy_result r db))"
    unfolding upsert_policy_result_def by simp
qed

lemma record_conclusion_keeps [keeps_intro]: "keeps review_inv (record_conclusion now c e)"
  unfolding keeps_def
proof (intro allI impI)
  fix db
  assume inv: "review_inv db"
  let ?n = "next_conclusion db"
  let ?p = "\<lambda>x. cn_coordinates x = cn_coordinates c \<and> cn_superseded x = None" and ?close = "\<lambda>x. x\<lparr>cn_superseded := Some ?n\<rparr>"
  let ?new = "c\<lparr>cn_id := ?n, cn_evidence := next_evidence (lic db), cn_created := now, cn_superseded := None\<rparr>"
  let ?cs = "map (\<lambda>x. if ?p x then ?close x else x) (conclusions db) @ [?new]"
  have "distinct (map cn_id ?cs) \<and> list_all (\<lambda>x. cn_id x < ?n + 1) ?cs"
    using inv by (intro replace_ids) (auto simp: review_inv_def conclusions_ok_def)
  moreover have "distinct (map cn_coordinates (filter (\<lambda>x. cn_superseded x = None) ?cs))"
    using inv by (intro replace_distinct) (auto simp: review_inv_def conclusions_ok_def)
  ultimately have "conclusions_ok (db\<lparr>lic := l, conclusions := ?cs, next_conclusion := ?n + 1\<rparr>)" for l
    unfolding conclusions_ok_def by simp
  with inv have "license_inv l \<Longrightarrow> review_inv (db\<lparr>lic := l, conclusions := ?cs, next_conclusion := ?n + 1\<rparr>)" for l
    by (simp add: review_inv_def policies_ok_def results_ok_def decisions_ok_def grants_ok_def)
  moreover have "license_inv (lic db)" using inv by (simp add: review_inv_def)
  ultimately show "review_inv (snd (record_conclusion now c e db))"
    using inv unfolding record_conclusion_def Let_def by (simp add: append_evidence_inv)
qed

lemma record_decision_keeps [keeps_intro]: "keeps review_inv (record_decision now d)"
  unfolding keeps_def
proof (intro allI impI)
  fix db
  assume inv: "review_inv db"
  let ?n = "next_decision db"
  let ?p = "\<lambda>x. same_scope (d_repository d) (d_coordinates d) x \<and> d_superseded x = None"
  let ?close = "\<lambda>x. x\<lparr>d_superseded := Some ?n\<rparr>" and ?new = "d\<lparr>d_id := ?n, d_created := now, d_superseded := None\<rparr>"
  let ?ds = "map (\<lambda>x. if ?p x then ?close x else x) (decisions db) @ [?new]"
  have "distinct (map d_id ?ds) \<and> list_all (\<lambda>x. d_id x < ?n + 1) ?ds"
    using inv by (intro replace_ids) (auto simp: review_inv_def decisions_ok_def)
  moreover have "distinct (map (\<lambda>d. (d_repository d, d_coordinates d)) (filter (\<lambda>x. d_superseded x = None) ?ds))"
    using inv by (intro replace_distinct) (auto simp: review_inv_def decisions_ok_def same_scope_def)
  moreover have "list_all (\<lambda>d. d_kind d = DecisionException \<longrightarrow> d_expires d \<noteq> None) ?ds" if "decision_check d"
    using inv that by (auto simp: review_inv_def decisions_ok_def decision_check_def list_all_iff)
  ultimately have "decisions_ok (db\<lparr>decisions := ?ds, next_decision := ?n + 1\<rparr>)" if "decision_check d"
    unfolding decisions_ok_def using that by simp
  with inv have "review_inv (db\<lparr>decisions := ?ds, next_decision := ?n + 1\<rparr>)" if "decision_check d"
    using that by (simp add: review_inv_def policies_ok_def results_ok_def conclusions_ok_def grants_ok_def)
  with inv show "review_inv (snd (record_decision now d db))"
    unfolding record_decision_def Let_def by simp
qed

lemma set_grant_keeps [keeps_intro]: "keeps review_inv (set_review_grant repository subj granted_by allow)"
proof -
  have "distinct (map (\<lambda>(r, s, g). (r, s)) (grants db @ [(repository, subj, granted_by)]))"
    if "grants_ok db" "\<not> list_ex (\<lambda>(r, s, g). r = repository \<and> s = subj) (grants db)" for db
    using that by (auto simp: grants_ok_def list_ex_iff)
  then show ?thesis
    by (auto simp: keeps_def set_review_grant_def review_inv_def review_parts distinct_map_filter)
qed

lemma record_event_keeps [keeps_intro]: "keeps review_inv (record_review_event fault now kind actor repository target detail)"
  by (simp add: keeps_def record_review_event_def review_inv_def review_parts split: option.split)

lemma on_license_keeps [keeps_intro]: "keeps license_inv m \<Longrightarrow> keeps review_inv (on_license m)"
  by (auto simp: keeps_def on_license_def review_inv_def review_parts split: prod.splits)

subsection \<open>Reachable databases\<close>

inductive review_step :: "review_db \<Rightarrow> review_db \<Rightarrow> bool" where
  review_policy: "review_step db (snd (create_policy item activate db))"
| review_result: "review_step db (snd (upsert_policy_result r db))"
| review_grant: "review_step db (snd (set_review_grant repository subj granted_by allow db))"
| review_conclusion: "review_step db (snd (record_conclusion now c e db))"
| review_decision: "review_step db (snd (record_decision now d db))"
| review_event: "review_step db (snd (record_review_event fault now kind actor repo target detail db))"
| review_license: "license_step (lic db) l \<Longrightarrow> review_step db (db\<lparr>lic := l\<rparr>)"

inductive_cases review_stepE: "review_step db db'"

definition review_start :: "review_db \<Rightarrow> bool" where
  "review_start db \<longleftrightarrow> license_start (lic db) \<and> policies db = [] \<and> results db = [] \<and> grants db = [] \<and>
     conclusions db = [] \<and> decisions db = []"

lemma review_inv_license: "review_inv db \<Longrightarrow> license_step (lic db) l \<Longrightarrow> review_inv (db\<lparr>lic := l\<rparr>)"
  using enrichment.step_inv [of "lic db" l] by (simp add: review_inv_def review_parts)

interpretation reviews: transition_system review_start review_inv review_step
proof
  show "review_start db \<Longrightarrow> review_inv db" for db
    using enrichment.init_inv [of "lic db"] by (simp add: review_start_def review_inv_def review_parts)
  show "review_inv db \<Longrightarrow> review_step db db' \<Longrightarrow> review_inv db'" for db db'
    by (erule review_stepE) (auto intro!: keepsD [of review_inv] keeps_intro review_inv_license)
qed

end
