(* ===== verification/Review_Claims.thy ===== *)
theory Review_Claims
  imports Review_Properties
begin

text \<open>
  The review service over a store with a contract, the contract for the store of the server, and
  the properties of reviews.
\<close>

subsection \<open>The contract of the store\<close>

lemma read_Inr:
  "reads_only m \<Longrightarrow> proceed m f s = (Inr y, s') \<longleftrightarrow> (\<exists>x. m s = (Inr x, s) \<and> f x s = (Inr y, s'))"
  unfolding proceed_Inr reads_only_def by (metis snd_conv)

locale review_contract =
  fixes st :: "'s review_store"
  assumes reads:
      "reads_only (rs_active_policy st)" "reads_only (rs_policies st n)" "reads_only (rs_policy_results st i ids)"
      "reads_only (rs_policy_result_history st i n)" "reads_only (rs_components_needing_evaluation st i n)"
      "reads_only (rs_review_allowed st i u)" "reads_only (rs_conclusion_history st c n)"
      "reads_only (rs_current_decision st i c)" "reads_only (rs_decision_history st i c n)"
      "reads_only (rs_review_queue st ids u t i n)" "reads_only (rs_events st ids n)"
      "reads_only (rs_components_for st c n)" "reads_only (rs_declarations st i)"
      "reads_only (rs_latest_evidence st c)" "reads_only (rs_assessments st i ids)"
    and repository_reads: "rs_snapshot_repository st = Some f \<Longrightarrow> reads_only (f i)"
    and writes:
      "atomic (rs_create_policy st item b)" "atomic (rs_record_decision st d)"
      "atomic (rs_record_conclusion st cn e)" "atomic (rs_set_review_grant st i u u' b)"
begin

lemma authorized_reads: "reads_only (authorized_repository sv p github)"
  by (auto simp: authorized_repository_def reads_intro split: sum.split store_error.split)

lemma can_review_reads: "sv_store sv = st \<Longrightarrow> reads_only (can_review sv p i)"
  by (simp add: can_review_def reads_intro reads)

lemma from_result_reads: "reads_only (from_result r)"
  by (simp add: from_result_def reads_intro split: sum.split)

lemma occurrence_reads: "sv_store sv = st \<Longrightarrow> reads_only (occurrence_in_repository sv snapshot i)"
  by (simp add: occurrence_in_repository_def reads_intro repository_reads split: option.split)

lemma basis_loop_reads: "sv_store sv = st \<Longrightarrow> reads_only (basis_loop sv i occs)"
proof (induction occs)
  case (Cons occ occs)
  then show ?case
    by (cases occ) (simp add: reads_intro reads occurrence_reads split: option.split)
qed (simp add: reads_intro)

lemma basis_reads: "sv_store sv = st \<Longrightarrow> reads_only (current_basis sv i c)"
  by (simp add: current_basis_def reads_intro reads basis_loop_reads)

lemma verdict_loop_reads: "sv_store sv = st \<Longrightarrow> reads_only (verdict_loop sv i occs)"
proof (induction occs)
  case (Cons occ occs)
  then show ?case
    by (cases occ) (simp add: reads_intro reads occurrence_reads split: sum.split option.split)
qed (simp add: reads_intro)

lemma context_reads: "sv_store sv = st \<Longrightarrow> reads_only (policy_context sv i c)"
  by (simp add: policy_context_def current_verdict_def reads_intro reads verdict_loop_reads
      split: sum.split store_error.split)

lemma history_loop_reads: "sv_store sv = st \<Longrightarrow> reads_only (history_results sv i occs)"
proof (induction occs)
  case (Cons occ occs)
  then show ?case by (cases occ) (simp add: reads_intro reads occurrence_reads)
qed (simp add: reads_intro)

lemma queue_reads: "sv_store sv = st \<Longrightarrow> reads_only (service_queue sv p key after limit)"
  by (simp add: service_queue_def Let_def reads_intro reads from_result_reads)

lemma history_reads: "sv_store sv = st \<Longrightarrow> reads_only (service_history sv p github c)"
  by (simp add: service_history_def reads_intro reads authorized_reads basis_reads history_loop_reads
      split: sum.split store_error.split)

lemma events_reads: "sv_store sv = st \<Longrightarrow> reads_only (service_events sv p)"
  by (simp add: service_events_def reads_intro reads from_result_reads)

lemmas service_reads = authorized_reads can_review_reads basis_reads context_reads

lemma decide_atomic: "sv_store sv = st \<Longrightarrow> atomic (service_decide sv p q)"
  by (simp add: service_decide_def Let_def atomic_intro service_reads writes atomic_last
      never_fails_return never_fails_ignore split: option.split prod.split)

lemma create_policy_atomic: "sv_store sv = st \<Longrightarrow> atomic (service_create_policy sv p n d r h b)"
  by (simp add: service_create_policy_def Let_def atomic_intro writes atomic_last
      never_fails_return never_fails_ignore split: option.split sum.split)

lemma install_atomic: "sv_store sv = st \<Longrightarrow> atomic (install_example_policy sv p b)"
  by (simp add: install_example_policy_def atomic_intro writes atomic_last never_fails_return never_fails_ignore)

text \<open>What a successful decision went through.\<close>

lemma decide_success:
  assumes "sv_store sv = st" "service_decide sv p q s = (Inr d, s'')"
  obtains repo basis pid v kind s' where
    "authorized_repository sv p (dq_repository q) s = (Inr repo, s)" "can_review sv p repo s = (Inr (), s)"
    "trim_space (dq_reason q) \<noteq> [] \<and> length (trim_space (dq_reason q)) \<le> 4096 \<and> length (dq_usage q) \<le> 1024 \<and>
       exact_coordinates (dq_coordinates q)"
    "dq_kind q = Some kind" "kind_ok (sv_now sv) (Some kind) (dq_expires q)"
    "current_basis sv repo (dq_coordinates q) s = (Inr basis, s)" "dq_basis q = hex_encode basis"
    "policy_context sv repo (dq_coordinates q) s = (Inr (pid, v), s)"
    "rs_record_decision st
       \<lparr>d_id = 0, d_repository = repo, d_coordinates = dq_coordinates q, d_kind = kind, d_policy = pid,
        d_verdict = v, d_fingerprint = basis, d_reviewer = subject p, d_reason = trim_space (dq_reason q),
        d_usage = trim_space (dq_usage q), d_expires = dq_expires q, d_created = 0, d_superseded = None\<rparr> s = (Inr d, s')"
    "\<exists>kind' actor repo' target detail. s'' = snd (rs_record_event st kind' actor repo' target detail s')"
proof (cases "dq_kind q")
  case None
  with assms show thesis
    by (simp add: service_decide_def Let_def read_Inr service_reads require_Inr)
next
  case (Some kind)
  with assms show thesis
    by (simp add: service_decide_def Let_def read_Inr service_reads require_Inr)
      (simp add: proceed_Inr ignore_error_def, elim exE conjE, rule that,
        (assumption | (simp add: not_less; fail) | blast)+)
qed

end

interpretation pg_review: review_contract "postgres_store fault now" for fault now
  by unfold_locales
    (auto simp: postgres_store_def reads_only_def atomic_def on_license_def active_policy_def list_policies_def
      policy_results_def policy_result_history_def components_needing_evaluation_def review_allowed_def
      conclusion_history_def current_decision_def decision_history_def review_queue_def list_review_events_def
      components_for_coordinates_def component_declarations_def latest_license_evidence_def Let_def
      supply_chain_assessments_def snapshot_repository_id_def create_policy_def record_decision_def
      record_conclusion_def set_review_grant_def split: option.splits if_splits)

lemma postgres_store_fields:
  "rs_record_decision (postgres_store fault now) = record_decision now"
  "rs_record_event (postgres_store fault now) = record_review_event fault now"
  "rs_record_conclusion (postgres_store fault now) = record_conclusion now"
  "rs_active_policy (postgres_store fault now) = active_policy"
  "rs_upsert_policy_result (postgres_store fault now) = upsert_policy_result"
  "rs_components_needing_evaluation (postgres_store fault now) = components_needing_evaluation"
  by (simp_all add: postgres_store_def)

subsection \<open>Decisions in the tables\<close>

lemma current_decision_open: "current_decision r c db = (Inr (open_decision r c db), db)"
  by (simp add: current_decision_def open_decision_def)

lemma open_decision_after:
  assumes "decision_check d"
  shows "open_decision r c (snd (record_decision now d db)) =
    (if same_scope r c d then Some (d\<lparr>d_id := next_decision db, d_created := now, d_superseded := None\<rparr>)
     else open_decision r c db)"
proof -
  let ?p = "\<lambda>x. same_scope (d_repository d) (d_coordinates d) x \<and> d_superseded x = None"
  let ?open = "\<lambda>x. same_scope r c x \<and> d_superseded x = None"
  let ?close = "\<lambda>x. if ?p x then x\<lparr>d_superseded := Some (next_decision db)\<rparr> else x"
  let ?new = "d\<lparr>d_id := next_decision db, d_created := now, d_superseded := None\<rparr>"
  have closed: "filter ?open (map ?close ds) = filter (\<lambda>x. \<not> ?p x) (filter ?open ds)" for ds
    by (rule filter_closed) simp
  have kept: "filter (\<lambda>x. \<not> ?p x) (filter ?open ds) = (if same_scope r c d then [] else filter ?open ds)" for ds
    by (cases "same_scope r c d") (auto simp: same_scope_def filter_empty_conv intro: filter_cong)
  have "open_decision r c (snd (record_decision now d db)) =
      first_row (newest_first d_id 1 (filter ?open (map ?close (decisions db)) @ filter ?open [?new]))"
    unfolding record_decision_def Let_def open_decision_def using assms by simp
  also have "filter ?open [?new] = (if same_scope r c d then [?new] else [])"
    by (simp add: same_scope_def)
  finally show ?thesis
    unfolding closed kept open_decision_def by (simp add: first_row_def newest_first_def)
qed

lemma can_review_iff:
  assumes "sv_store sv = postgres_store fault now"
  shows "can_review sv p i db = (Inr (), db) \<longleftrightarrow>
    administrator p \<or> (\<exists>g. (i, subject p, g) \<in> set (grants db))"
  by (auto simp: can_review_def assms postgres_store_def review_allowed_def proceed_def require_def list_ex_iff
      return_ok_def return_error_def)

lemma authorized_iff:
  "authorized_repository sv p github s = (Inr r, s) \<longleftrightarrow> 1 \<le> github \<and> az_one (sv_authorizer sv) p github = Inr r"
  by (auto simp: authorized_repository_def require_def split: sum.splits store_error.splits)

lemma record_event_frame:
  "lic (snd (record_review_event fault now k a i t d db)) = lic db"
  "decisions (snd (record_review_event fault now k a i t d db)) = decisions db"
  "results (snd (record_review_event fault now k a i t d db)) = results db"
  by (simp_all add: record_review_event_def split: option.split)

lemma decision_recorded:
  assumes sv: "sv_store sv = postgres_store fault now" and ok: "service_decide sv p q db = (Inr d, db')"
  obtains repo basis where
    "1 \<le> dq_repository q" "az_one (sv_authorizer sv) p (dq_repository q) = Inr repo"
    "administrator p \<or> (\<exists>g. (repo, subject p, g) \<in> set (grants db))"
    "exact_coordinates (dq_coordinates q)" "kind_ok (sv_now sv) (dq_kind q) (dq_expires q)"
    "current_basis sv repo (dq_coordinates q) db = (Inr basis, db)" "dq_basis q = hex_encode basis"
    "dq_kind q = Some (d_kind d)" "d_repository d = repo" "d_coordinates d = dq_coordinates q"
    "d_fingerprint d = basis" "d_reviewer d = subject p" "d_expires d = dq_expires q"
    "\<And>r c. open_decision r c db' = (if same_scope r c d then Some d else open_decision r c db)"
    "lic db' = lic db"
proof -
  from pg_review.decide_success [OF sv ok] obtain repo basis pid v kind db1 where d:
    "authorized_repository sv p (dq_repository q) db = (Inr repo, db)" "can_review sv p repo db = (Inr (), db)"
    "exact_coordinates (dq_coordinates q)"
    "dq_kind q = Some kind" "kind_ok (sv_now sv) (Some kind) (dq_expires q)"
    "current_basis sv repo (dq_coordinates q) db = (Inr basis, db)" "dq_basis q = hex_encode basis"
    "record_decision now
       \<lparr>d_id = 0, d_repository = repo, d_coordinates = dq_coordinates q, d_kind = kind, d_policy = pid,
        d_verdict = v, d_fingerprint = basis, d_reviewer = subject p, d_reason = trim_space (dq_reason q),
        d_usage = trim_space (dq_usage q), d_expires = dq_expires q, d_created = 0, d_superseded = None\<rparr> db = (Inr d, db1)"
    "\<exists>k a i t x. db' = snd (record_review_event fault now k a i t x db1)"
    by (metis postgres_store_fields(1) postgres_store_fields(2))
  let ?d0 = "\<lparr>d_id = 0, d_repository = repo, d_coordinates = dq_coordinates q, d_kind = kind, d_policy = pid,
    d_verdict = v, d_fingerprint = basis, d_reviewer = subject p, d_reason = trim_space (dq_reason q),
    d_usage = trim_space (dq_usage q), d_expires = dq_expires q, d_created = 0, d_superseded = None\<rparr>"
  from d(8) have check: "decision_check ?d0" and row: "d = ?d0\<lparr>d_id := next_decision db, d_created := now\<rparr>"
    and db1: "db1 = snd (record_decision now ?d0 db)"
    by (auto simp: record_decision_def Let_def split: if_splits)
  have frame: "decisions db' = decisions db1" "lic db' = lic db1" using d(9) by (auto simp: record_event_frame)
  have after: "open_decision r c db' = (if same_scope r c d then Some d else open_decision r c db)" for r c
    using open_decision_after [OF check, of r c now db] frame(1)
    by (simp add: db1 [symmetric] row same_scope_def open_decision_def)
  show thesis
  proof (rule that [of repo basis])
    show "lic db' = lic db" using frame(2) by (simp add: db1 record_decision_def Let_def)
  qed (use d after in \<open>simp_all add: row authorized_iff can_review_iff [OF sv]\<close>)
qed

subsection \<open>Evaluation\<close>

lemma find_filter: "find p xs = (case filter p xs of [] \<Rightarrow> None | x # _ \<Rightarrow> Some x)"
  by (induction xs) auto

lemma current_result_after:
  assumes "fingerprint_check (er_fingerprint r)"
  shows "current_result c (snd (upsert_policy_result r db)) =
    (if c = er_component r then Some r else current_result c db)"
proof -
  let ?p = "\<lambda>x. er_component (rr_result x) = er_component r \<and> rr_current x"
  let ?cur = "\<lambda>x. er_component (rr_result x) = c \<and> rr_current x"
  let ?close = "\<lambda>x. if ?p x then x\<lparr>rr_current := False\<rparr> else x"
  let ?new = "\<lparr>rr_id = next_result db, rr_result = r, rr_current = True\<rparr>"
  have closed: "filter ?cur (map ?close xs) = filter (\<lambda>x. \<not> ?p x) (filter ?cur xs)" for xs
    by (rule filter_closed) simp
  have kept: "filter (\<lambda>x. \<not> ?p x) (filter ?cur xs) = (if c = er_component r then [] else filter ?cur xs)" for xs
    by (auto simp: filter_empty_conv intro: filter_cong)
  have "current_result c (snd (upsert_policy_result r db)) =
      map_option rr_result (case filter ?cur (map ?close (results db)) @ filter ?cur [?new] of [] \<Rightarrow> None | x # _ \<Rightarrow> Some x)"
    unfolding current_result_def upsert_policy_result_def find_filter using assms by simp
  also have "filter ?cur [?new] = (if c = er_component r then [?new] else [])" by auto
  finally show ?thesis
    unfolding closed kept current_result_def find_filter by simp
qed

lemma evaluate_all:
  assumes "\<And>t. t \<in> set ts \<Longrightarrow> fingerprint_check (er_fingerprint (g t))"
  shows "\<exists>db'. for_each ts (\<lambda>t. upsert_policy_result (g t)) db = (Inr (), db') \<and> lic db' = lic db \<and>
    (\<forall>c. if c \<in> (\<lambda>t. er_component (g t)) ` set ts
       then \<exists>t \<in> set ts. er_component (g t) = c \<and> current_result c db' = Some (g t)
       else current_result c db' = current_result c db)"
  using assms
proof (induction ts arbitrary: db)
  case (Cons t ts)
  let ?db1 = "snd (upsert_policy_result (g t) db)"
  have first: "upsert_policy_result (g t) db = (Inr (), ?db1)" "lic ?db1 = lic db"
    using Cons.prems by (simp_all add: upsert_policy_result_def)
  from Cons.IH [of ?db1] Cons.prems obtain db' where IH:
    "for_each ts (\<lambda>t. upsert_policy_result (g t)) ?db1 = (Inr (), db')" "lic db' = lic ?db1"
    "\<forall>c. if c \<in> (\<lambda>t. er_component (g t)) ` set ts
       then \<exists>t \<in> set ts. er_component (g t) = c \<and> current_result c db' = Some (g t)
       else current_result c db' = current_result c ?db1" by auto
  have "for_each (t # ts) (\<lambda>t. upsert_policy_result (g t)) db = (Inr (), db')"
    unfolding for_each.simps proceed_def by (subst first(1)) (simp add: IH(1))
  moreover have "if c \<in> (\<lambda>t. er_component (g t)) ` set (t # ts)
      then \<exists>t \<in> set (t # ts). er_component (g t) = c \<and> current_result c db' = Some (g t)
      else current_result c db' = current_result c db" for c
    using spec [OF IH(3), of c] current_result_after [of "g t" c db] Cons.prems [of t]
    by (cases "c \<in> (\<lambda>t. er_component (g t)) ` set ts"; cases "c = er_component (g t)") auto
  ultimately show ?case using IH(2) first(2) by (intro exI [of _ db'] conjI allI) (assumption | simp only:)+
qed simp

definition pending :: "int \<Rightarrow> review_db \<Rightarrow> (component_row \<times> stream_row) list" where
  "pending pid db = filter (\<lambda>(c, st). needs_evaluation pid db (c_id c)) (latest_components (lic db))"

definition target_of :: "review_db \<Rightarrow> component_row \<Rightarrow> evaluation_target" where
  "target_of db c =
     \<lparr>tg_component = c_id c, tg_snapshot = c_snapshot c, tg_status = map_option as_status (assessment_of (c_id c) db),
      tg_expression = (case assessment_of (c_id c) db of None \<Rightarrow> [] | Some x \<Rightarrow> as_expression x),
      tg_fingerprint = opt_fingerprint (assessment_of (c_id c) db)\<rparr>"

lemma needing_eq:
  "components_needing_evaluation pid n db = (Inr (take n (map (\<lambda>(c, st). target_of db c) (pending pid db))), db)"
  by (simp add: components_needing_evaluation_def pending_def target_of_def Let_def)

lemma evaluate_target_fields:
  "er_component (evaluate_target l now active t) = tg_component t"
  "er_policy (evaluate_target l now active t) = policy_id active"
  "er_fingerprint (evaluate_target l now active t) = tg_fingerprint t"
  by (simp_all add: evaluate_target_def Let_def split: prod.split)

lemma latest_components_mem: "(c, st) \<in> set (latest_components l) \<Longrightarrow> c \<in> set (components l)"
  by (auto simp: latest_components_def)

lemma fingerprint_of_ok:
  "list_all (\<lambda>a. fingerprint_check (evidence_fingerprint a)) (assessments (lic db)) \<Longrightarrow>
     fingerprint_check (opt_fingerprint (assessment_of c db))"
  by (auto simp: opt_fingerprint_def assessment_of_def find_Some_iff list_all_iff fingerprint_check_def split: option.split)


lemma evaluate_pending_result:
  assumes sv: "sv_store sv = postgres_store fault now" and active: "active_policy db = (Inr active, db)"
    and ok: "list_all (\<lambda>a. fingerprint_check (evidence_fingerprint a)) (assessments (lic db))"
    and bound: "length (pending (policy_id active) db) \<le> (if limit \<le> 0 then 500 else nat limit)"
  obtains db' where "evaluate_pending sv limit db = (Inr (length (pending (policy_id active) db)), db')" "lic db' = lic db"
    "\<And>c. if c \<in> (\<lambda>(c, st). c_id c) ` set (pending (policy_id active) db)
       then \<exists>c'. c' \<in> fst ` set (pending (policy_id active) db) \<and> c_id c' = c \<and>
         current_result c db' = Some (evaluate_target (sv_licenses sv) (sv_now sv) active (target_of db c'))
       else current_result c db' = current_result c db"
proof -
  let ?ts = "map (\<lambda>(c, st). target_of db c) (pending (policy_id active) db)"
  let ?g = "evaluate_target (sv_licenses sv) (sv_now sv) active"
  have "fingerprint_check (er_fingerprint (?g t))" if "t \<in> set ?ts" for t
    using that fingerprint_of_ok [OF ok] by (auto simp: evaluate_target_fields target_of_def)
  from evaluate_all [of ?ts ?g db, OF this] obtain db' where db':
    "for_each ?ts (\<lambda>t. upsert_policy_result (?g t)) db = (Inr (), db')" "lic db' = lic db"
    "\<forall>c. if c \<in> (\<lambda>t. er_component (?g t)) ` set ?ts
       then \<exists>t \<in> set ?ts. er_component (?g t) = c \<and> current_result c db' = Some (?g t)
       else current_result c db' = current_result c db" by blast
  have all: "take (if limit \<le> 0 then 500 else nat limit) ?ts = ?ts" using bound by simp
  have run: "evaluate_pending sv limit db = (Inr (length (pending (policy_id active) db)), db')"
    unfolding evaluate_pending_def attempt_call_def sv postgres_store_fields active proceed_def needing_eq
    by (simp add: all db'(1) return_ok_def del: take_map)
  show thesis
  proof (rule that [OF run db'(2)])
    fix c
    have ids: "(\<lambda>t. er_component (?g t)) ` set ?ts = (\<lambda>(c, st). c_id c) ` set (pending (policy_id active) db)"
      by (force simp: evaluate_target_fields target_of_def)
    from spec [OF db'(3), of c] show "if c \<in> (\<lambda>(c, st). c_id c) ` set (pending (policy_id active) db)
       then \<exists>c'. c' \<in> fst ` set (pending (policy_id active) db) \<and> c_id c' = c \<and>
         current_result c db' = Some (?g (target_of db c'))
       else current_result c db' = current_result c db"
      unfolding ids by (force simp: evaluate_target_fields target_of_def split: if_splits)
  qed
qed

subsection \<open>Reassessment\<close>

lemma for_each_map: "for_each (map h xs) f = for_each xs (\<lambda>x. f (h x))"
  by (induction xs) simp_all

lemma for_each_on_license:
  "for_each xs (\<lambda>x. on_license (m x)) db = (fst (for_each xs m (lic db)), db\<lparr>lic := snd (for_each xs m (lic db))\<rparr>)"
  by (induction xs arbitrary: db)
    (auto simp: return_ok_def on_license_def proceed_def split: prod.splits sum.splits)

definition occurrences :: "coordinates \<Rightarrow> license_db \<Rightarrow> (component_row \<times> stream_row) list" where
  "occurrences x l = filter (\<lambda>(c, st). carries x c) (latest_components l)"

definition reassessed :: "'s review_service \<Rightarrow> evidence list \<Rightarrow> component_row \<Rightarrow> assessment" where
  "reassessed sv ev c =
     assess_with_human (sv_licenses sv) (c_id c) (c_snapshot c) (c_declared c) (c_concluded c) ev (sv_now sv)"

lemma find_unique: "distinct (map k xs) \<Longrightarrow> x \<in> set xs \<Longrightarrow> find (\<lambda>y. k y = k x) xs = Some x"
  by (induction xs) force+

lemma reassess_occurrences:
  assumes sv: "sv_store sv = postgres_store fault now" and ids: "distinct (map c_id (components (lic db)))"
    and few: "length (occurrences x (lic db)) \<le> 10000"
  shows "\<exists>l'. service_reassess sv x db = (Inr (), db\<lparr>lic := l'\<rparr>) \<and> l' = (lic db)\<lparr>assessments := assessments l'\<rparr> \<and>
    (\<forall>(c, st) \<in> set (occurrences x (lic db)). stores l' (c_id c) (reassessed sv (latest_rows x (lic db)) c))"
proof -
  let ?ev = "latest_rows x (lic db)" and ?occs = "occurrences x (lic db)"
  let ?pairs = "map (\<lambda>(c, st). (c_id c, c_snapshot c)) ?occs"
  have member: "c \<in> set (components (lic db))" if "(c, st) \<in> set ?occs" for c st
    using that by (auto simp: occurrences_def dest: latest_components_mem)
  have "service_reassess sv x db = for_each ?pairs (reassess_occurrence sv ?ev) db"
    using few by (simp add: service_reassess_def sv postgres_store_def proceed_def on_license_def
        latest_license_evidence_eq components_for_coordinates_def occurrences_def)
  also have "\<dots> = for_each (map fst ?occs) (\<lambda>c. reassess_occurrence sv ?ev (c_id c, c_snapshot c)) db"
    by (simp add: for_each_map comp_def case_prod_beta)
  also have "\<dots> = for_each (map fst ?occs) (\<lambda>c. on_license (upsert_assessment (reassessed sv ?ev c))) db"
  proof (rule for_each_cong_state [where I = "\<lambda>db'. components (lic db') = components (lic db)"])
    fix c and db' :: review_db
    assume "c \<in> set (map fst ?occs)" "components (lic db') = components (lic db)"
    with member find_unique [OF ids] show "reassess_occurrence sv ?ev (c_id c, c_snapshot c) db' =
        on_license (upsert_assessment (reassessed sv ?ev c)) db'"
      by (auto simp: reassess_occurrence_def sv postgres_store_def proceed_def on_license_def
          component_declarations_def reassessed_def)
  qed (simp_all add: keeps_def on_license_def upsert_assessment_def)
  finally have run: "service_reassess sv x db =
      for_each (map fst ?occs) (\<lambda>c. on_license (upsert_assessment (reassessed sv ?ev c))) db" .
  have "reassessed sv ?ev c = reassessed sv ?ev c'"
    if "c \<in> set (map fst ?occs)" "c' \<in> set (map fst ?occs)"
      "as_component (reassessed sv ?ev c) = as_component (reassessed sv ?ev c')" for c c'
  proof -
    from that(1,2) member have "c \<in> set (components (lic db))" "c' \<in> set (components (lic db))" by auto
    with find_unique [OF ids] that(3) show ?thesis by (metis as_component_human option.inject reassessed_def)
  qed
  from upsert_all [of "map fst ?occs" "reassessed sv ?ev" "lic db", OF this] obtain l' where
    "for_each (map fst ?occs) (\<lambda>c. upsert_assessment (reassessed sv ?ev c)) (lic db) = (Inr (), l')"
    "l' = (lic db)\<lparr>assessments := assessments l'\<rparr>"
    "\<forall>c \<in> set (map fst ?occs). stores l' (as_component (reassessed sv ?ev c)) (reassessed sv ?ev c)" by blast
  then show ?thesis
    unfolding run for_each_on_license by (intro exI [of _ l']) (auto simp: reassessed_def)
qed

subsection \<open>Conclusions\<close>

lemma latest_rows_scoped: "set (latest_rows c l) \<subseteq> set (scoped c l)"
  by (auto simp: latest_rows_def latest_license_evidence_def Let_def)

lemma newest_is_latest: "e \<in> set (scoped c l) \<Longrightarrow> newest_in (scoped c l) e \<Longrightarrow> e \<in> set (latest_rows c l)"
  by (auto simp: latest_rows_def latest_license_evidence_def Let_def)

lemma appended_human_newest:
  assumes "license_inv l" "ev_source e = SourceHuman" "outcome e = OutcomeResolved"
  shows "newest_human None (latest_rows (ev_coordinates e) (append_evidence e l)) = Some (e\<lparr>ev_id := next_evidence l\<rparr>)"
proof -
  let ?h = "e\<lparr>ev_id := next_evidence l\<rparr>" and ?l = "append_evidence e l"
  have rows: "scoped (ev_coordinates e) ?l = scoped (ev_coordinates e) l @ [?h]"
    by (simp add: scoped_def append_evidence_def)
  have older: "f = ?h \<or> ev_id f < ev_id ?h" if "f \<in> set (scoped (ev_coordinates e) ?l)" for f
    using that assms(1) unfolding rows by (auto simp: scoped_def license_inv_def list_all_iff)
  have "newest_in (scoped (ev_coordinates e) ?l) ?h"
    unfolding newest_in_def list_all_iff using older by fastforce
  then have "?h \<in> set (latest_rows (ev_coordinates e) ?l)"
    by (rule newest_is_latest [rotated]) (simp add: rows)
  then show ?thesis
    using assms(2,3) older latest_rows_scoped [of "ev_coordinates e" ?l] by (intro newest_human_max) auto
qed

lemma human_outcome:
  assumes "newest_human None r = Some h" "parse_status h = StatusParsed \<or> parse_status h = StatusNone \<or> parse_status h = StatusUnlicensed"
  shows "as_status (assess_with_human l c s d k r t) =
      (if parse_status h = StatusParsed then AssessmentResolved else AssessmentUnlicensed) \<and>
    as_expression (assess_with_human l c s d k r t) =
      (if parse_status h = StatusParsed then normalized_expression h else [])"
  using assms by (auto simp: assess_with_human_def Let_def)

definition concluded_row :: "'s review_service \<Rightarrow> principal \<Rightarrow> conclude_request \<Rightarrow> evidence" where
  "concluded_row sv p q = (human_evidence (sv_licenses sv) (sv_now sv) p q)
     \<lparr>ev_source := SourceHuman, route := [], ev_coordinates := cq_coordinates q,
      artifact_sha256 := [], license_url := [], license_file_name := [], content_sha256 := [],
      expires_at := None, http_status := None, outcome := OutcomeResolved\<rparr>"

lemma conclude_steps:
  assumes sv: "sv_store sv = postgres_store fault now" and ok: "service_conclude sv p q db = (Inr c, db')"
  obtains repo basis db1 where
    "1 \<le> cq_repository q" "az_one (sv_authorizer sv) p (cq_repository q) = Inr repo"
    "administrator p \<or> (\<exists>g. (repo, subject p, g) \<in> set (grants db))"
    "exact_coordinates (cq_coordinates q)"
    "status (parse_with (cq_expression q) (sv_licenses sv)) \<in> {StatusParsed, StatusNone, StatusUnlicensed}"
    "current_basis sv repo (cq_coordinates q) db = (Inr basis, db)" "cq_basis q = hex_encode basis"
    "lic db1 = append_evidence (concluded_row sv p q) (lic db)"
    "service_reassess sv (cq_coordinates q) db1 = (Inr (), db')"
    "cn_coordinates c = cq_coordinates q" "cn_evidence c = next_evidence (lic db)" "cn_basis c = basis"
proof -
  have reads: "reads_only (authorized_repository sv p i)" "reads_only (can_review sv p i)"
    "reads_only (current_basis sv i x)" for i x
    using pg_review.service_reads sv by blast+
  from ok obtain repo basis db0 where s:
    "authorized_repository sv p (cq_repository q) db = (Inr repo, db)" "can_review sv p repo db = (Inr (), db)"
    "exact_coordinates (cq_coordinates q)"
    "status (parse_with (cq_expression q) (sv_licenses sv)) \<in> {StatusParsed, StatusNone, StatusUnlicensed}"
    "current_basis sv repo (cq_coordinates q) db = (Inr basis, db)" "cq_basis q = hex_encode basis"
    "record_conclusion now \<lparr>cn_id = 0, cn_coordinates = cq_coordinates q, cn_evidence = 0, cn_basis = basis,
       cn_reviewer = subject p, cn_reason = trim_space (cq_reason q), cn_created = 0, cn_superseded = None\<rparr>
       (human_evidence (sv_licenses sv) (sv_now sv) p q) db = (Inr c, db0)"
    "\<exists>k a i t d. service_reassess sv (cq_coordinates q) (snd (record_review_event fault now k a i t d db0)) = (Inr (), db')"
    unfolding service_conclude_def Let_def sv postgres_store_fields
    by (simp add: read_Inr reads require_Inr) (simp add: proceed_Inr ignore_error_def, blast)
  from s(7) have row: "lic db0 = append_evidence (concluded_row sv p q) (lic db)"
    "cn_coordinates c = cq_coordinates q" "cn_evidence c = next_evidence (lic db)" "cn_basis c = basis"
    by (auto simp: record_conclusion_def Let_def concluded_row_def split: if_splits)
  from s(8) obtain k a i t d where
    "service_reassess sv (cq_coordinates q) (snd (record_review_event fault now k a i t d db0)) = (Inr (), db')" by blast
  with s(1-6) row show thesis
    by (intro that [of repo basis "snd (record_review_event fault now k a i t d db0)"])
      (simp_all add: authorized_iff can_review_iff [OF sv] record_event_frame)
qed

subsection \<open>A sample database and service\<close>

definition sample_digest :: string where
  "sample_digest = replicate 32 CHR ''a''"

definition sample_assessment :: assessment where
  "sample_assessment = \<lparr>as_component = 7, as_snapshot = 1, as_status = AssessmentUnknown, as_expression = [],
     evidence_ids = [], conflict_detail = [], assessed_at = 0, evidence_fingerprint = sample_digest\<rparr>"

definition empty_review_db :: "license_db \<Rightarrow> review_db" where
  "empty_review_db l = \<lparr>lic = l,
     repository_rows = [\<lparr>rp_id = 1, rp_github = 5, rp_owner = ''o'', rp_name = ''n''\<rparr>], snapshot_rows = [(1, 1)],
     policies = [], next_policy = 1, results = [], next_result = 1, grants = [], conclusions = [], next_conclusion = 1,
     decisions = [], next_decision = 1, review_events = [], next_event = 1\<rparr>"

definition sample_review_db :: review_db where
  "sample_review_db = empty_review_db (sample_license_db\<lparr>assessments := [sample_assessment]\<rparr>)"

definition sample_service :: "review_db review_service" where
  "sample_service = \<lparr>sv_store = postgres_store (\<lambda>_. None) 10, sv_authorizer = \<lparr>az_all = (\<lambda>_. Inr [1]), az_one = (\<lambda>_ _. Inr 1)\<rparr>,
     sv_max_results = 100, sv_now = 10, sv_licenses = no_licenses, sv_decode = (\<lambda>_. None), sv_class_order = []\<rparr>"

definition sample_principal :: principal where
  "sample_principal = \<lparr>subject = ''root'', administrator = True\<rparr>"

definition sample_decide :: decide_request where
  "sample_decide = \<lparr>dq_repository = 5, dq_coordinates = sample_coordinates, dq_kind = Some DecisionApprove,
     dq_reason = ''ok'', dq_usage = [], dq_expires = None, dq_basis = hex_encode sample_digest\<rparr>"

definition sample_conclude :: conclude_request where
  "sample_conclude = \<lparr>cq_repository = 5, cq_coordinates = sample_coordinates, cq_expression = ''NONE'',
     cq_reason = ''ok'', cq_basis = hex_encode sample_digest\<rparr>"

lemma sample_store: "sv_store sample_service = postgres_store (\<lambda>_. None) 10"
  by (simp add: sample_service_def)

lemma sample_access:
  "authorized_repository sample_service sample_principal 5 db = (Inr 1, db)"
  "can_review sample_service sample_principal i db = (Inr (), db)"
  by (simp_all add: authorized_repository_def sample_service_def require_def return_ok_def can_review_def sample_principal_def)

lemma sample_basis:
  "current_basis sample_service 1 sample_coordinates sample_review_db = (Inr sample_digest, sample_review_db)"
  by (simp add: current_basis_def sample_service_def postgres_store_def sample_review_db_def empty_review_db_def
      on_license_def proceed_def components_for_coordinates_def latest_components_def sample_license carries_def
      coalesce1_def coalesce2_def supply_chain_assessments_def sample_assessment_def occurrence_in_repository_def
      snapshot_repository_id_def return_ok_def)

lemma trim_ok: "trim_space ''ok'' = ''ok''" "trim_space [] = []"
  by code_simp+

lemma sample_exact: "exact_coordinates sample_coordinates"
  by (simp add: exact_coordinates_def sample_coordinates_def)

lemma sample_hex: "hex_encode sample_digest \<noteq> []"
  by (simp add: hex_encode_def sample_digest_def)

lemma sample_decided:
  "\<exists>d db'. service_decide sample_service sample_principal sample_decide sample_review_db = (Inr d, db')"
proof -
  have "policy_context sample_service 1 sample_coordinates sample_review_db = (Inr (None, None), sample_review_db)"
    by (simp add: policy_context_def sample_service_def postgres_store_def active_policy_def attempt_call_def
        sample_review_db_def empty_review_db_def return_ok_def)
  then show ?thesis
    by (simp add: service_decide_def sample_decide_def sample_access sample_basis Let_def proceed_def require_def
        trim_ok sample_exact sample_hex kind_ok_def)
      (simp add: sample_service_def postgres_store_def record_decision_def decision_check_def sample_digest_def
        ignore_error_def return_ok_def)
qed

lemma sample_start: "review_start (empty_review_db sample_license_db)"
  by (simp add: review_start_def empty_review_db_def license_start_def sample_license_db_def)

lemma sample_reached: "review_step\<^sup>*\<^sup>* (empty_review_db sample_license_db) sample_review_db"
proof -
  have "sample_review_db = (empty_review_db sample_license_db)
      \<lparr>lic := snd (upsert_assessment sample_assessment (lic (empty_review_db sample_license_db)))\<rparr>"
    by (simp add: sample_review_db_def empty_review_db_def upsert_assessment_def sample_license_db_def)
  then show ?thesis by (metis r_into_rtranclp review_license step_assess)
qed

subsection \<open>The properties\<close>

text \<open>
  C15 (review tables).  In every database the store reaches from empty tables: at most one policy is
  active, versions of a policy are unique, a component has at most one current result, a package
  version has at most one conclusion in force, a repository has at most one decision in force per
  package version, every exception has an expiry, and a grant is stored once.
\<close>

theorem review_invariant:
  assumes "review_start db" "review_step\<^sup>*\<^sup>* db db'"
  shows "length (filter policy_active (policies db')) \<le> 1 \<and>
    distinct (map (\<lambda>p. (policy_name p, policy_version p)) (policies db')) \<and>
    distinct (map (\<lambda>x. er_component (rr_result x)) (filter rr_current (results db'))) \<and>
    distinct (map cn_coordinates (filter (\<lambda>x. cn_superseded x = None) (conclusions db'))) \<and>
    distinct (map (\<lambda>d. (d_repository d, d_coordinates d)) (filter (\<lambda>d. d_superseded d = None) (decisions db'))) \<and>
    list_all (\<lambda>d. d_kind d = DecisionException \<longrightarrow> d_expires d \<noteq> None) (decisions db') \<and>
    distinct (map (\<lambda>(r, s, g). (r, s)) (grants db'))"
proof -
  have inv: "review_inv db'" by (rule reviews.run_inv [OF assms])
  have "distinct (map (\<lambda>_. ()) xs) \<longleftrightarrow> length xs \<le> 1" for xs :: "policy list"
    by (cases xs; cases "tl xs") auto
  with inv show ?thesis unfolding review_inv_def review_parts by metis
qed

theorem review_invariant_witness:
  "review_start (empty_review_db sample_license_db) \<and>
   review_step\<^sup>*\<^sup>* (empty_review_db sample_license_db) sample_review_db \<and>
   length (filter policy_active (policies sample_review_db)) \<le> 1"
  using review_invariant [OF sample_start sample_reached] sample_start sample_reached by blast

text \<open>
  C5 (decisions).  A decision is recorded only for an administrator or a reviewer granted on the
  repository that the authorizer resolved, with a basis that is the fingerprint of the current
  evidence, and an expiry exactly for an exception (at most a year ahead).  It is then the decision
  in force for its repository and package version, and no other decision in force and no evidence
  or assessment changes.
\<close>

theorem decision_recorded_in_scope:
  assumes "sv_store sv = postgres_store fault now" "service_decide sv p q db = (Inr d, db')"
  shows "\<exists>repo basis. 1 \<le> dq_repository q \<and> az_one (sv_authorizer sv) p (dq_repository q) = Inr repo \<and>
    (administrator p \<or> (\<exists>g. (repo, subject p, g) \<in> set (grants db))) \<and>
    current_basis sv repo (dq_coordinates q) db = (Inr basis, db) \<and> dq_basis q = hex_encode basis \<and>
    kind_ok (sv_now sv) (dq_kind q) (dq_expires q) \<and> exact_coordinates (dq_coordinates q) \<and>
    d_repository d = repo \<and> d_coordinates d = dq_coordinates q \<and> dq_kind q = Some (d_kind d) \<and>
    d_fingerprint d = basis \<and> d_expires d = dq_expires q \<and> d_reviewer d = subject p \<and>
    current_decision repo (dq_coordinates q) db' = (Inr (Some d), db') \<and>
    (\<forall>r c. (r, c) \<noteq> (repo, dq_coordinates q) \<longrightarrow> fst (current_decision r c db') = fst (current_decision r c db)) \<and>
    lic db' = lic db"
  by (rule decision_recorded [OF assms])
    (intro exI conjI, assumption+, simp_all add: current_decision_open same_scope_def)

theorem decision_recorded_in_scope_witness:
  "\<exists>d db'. service_decide sample_service sample_principal sample_decide sample_review_db = (Inr d, db') \<and>
     d_fingerprint d = sample_digest"
proof -
  obtain d db' where s: "service_decide sample_service sample_principal sample_decide sample_review_db = (Inr d, db')"
    using sample_decided by blast
  from decision_recorded_in_scope [OF sample_store s] sample_basis
  have "d_fingerprint d = sample_digest" by (auto simp: sample_decide_def sample_service_def)
  with s show ?thesis by blast
qed

text \<open>
  C31 (what was decided leaves the queue).  After a decision, a component of the repository with the
  decided coordinates is in the review queue only if the decision has expired at the time of the
  query or the evidence of the component is no longer the evidence that was decided on.
\<close>

theorem decided_leaves_queue:
  assumes "sv_store sv = postgres_store fault now" "service_decide sv p q db = (Inr d, db')"
    and "component_coordinates c = dq_coordinates q"
    and "in_queue t (current_result (c_id c) db') (assessment_of (c_id c) db')
      (open_decision (d_repository d) (component_coordinates c) db')"
  shows "(\<exists>e \<le> t. dq_expires q = Some e) \<or>
    opt_fingerprint (assessment_of (c_id c) db) \<noteq> d_fingerprint d"
proof -
  obtain repo where fields: "d_coordinates d = dq_coordinates q" "d_expires d = dq_expires q"
    and after: "\<And>r c. open_decision r c db' = (if same_scope r c d then Some d else open_decision r c db)" "lic db' = lic db"
    using decision_recorded [OF assms(1,2)] by metis
  have "same_scope (d_repository d) (component_coordinates c) d"
    using assms(3) fields by (simp add: same_scope_def)
  with assms(4) have "in_queue t (current_result (c_id c) db') (assessment_of (c_id c) db') (Some d)"
    by (simp add: after(1))
  then show ?thesis
    using after(2) fields(2) by (auto simp: in_queue_def assessment_of_def split: option.splits)
qed

theorem decided_leaves_queue_witness:
  "\<exists>d db'. service_decide sample_service sample_principal sample_decide sample_review_db = (Inr d, db') \<and>
     \<not> in_queue 10 (current_result 7 db') (assessment_of 7 db') (open_decision (d_repository d) sample_coordinates db')"
proof -
  obtain d db' where s: "service_decide sample_service sample_principal sample_decide sample_review_db = (Inr d, db')"
    using sample_decided by blast
  have "d_fingerprint d = sample_digest"
    by (rule decision_recorded [OF sample_store s])
      (use sample_basis in \<open>simp add: sample_decide_def sample_service_def\<close>)
  moreover have "opt_fingerprint (assessment_of 7 sample_review_db) = sample_digest"
    by (simp add: assessment_of_def sample_review_db_def empty_review_db_def opt_fingerprint_def sample_assessment_def)
  moreover have "component_coordinates sample_component = dq_coordinates sample_decide" "c_id sample_component = 7"
    "dq_expires sample_decide = None" "component_coordinates sample_component = sample_coordinates"
    by (simp_all add: component_coordinates_def sample_license coalesce1_def coalesce2_def sample_decide_def)
  ultimately show ?thesis
    using decided_leaves_queue [OF sample_store s, of sample_component 10] s by force
qed

text \<open>
  C6 (conclusions).  When a conclusion is accepted, the reviewer was entitled to it, the basis was
  the fingerprint of the current evidence and the expression is a license expression of known terms,
  \<open>NONE\<close> or \<open>UNLICENSED\<close>.  Every occurrence of the package version in a latest snapshot then has an
  assessment with the concluded expression (status \<open>resolved\<close>) or with no grant (status
  \<open>unlicensed\<close>), whatever other evidence says.  (Up to the 10000 occurrences the service asks for.)
\<close>

theorem conclusion_decides_occurrences:
  assumes "review_inv db" "distinct (map c_id (components (lic db)))"
    and "sv_store sv = postgres_store fault now" "length (occurrences (cq_coordinates q) (lic db)) \<le> 10000"
    and "service_conclude sv p q db = (Inr cn, db')"
  shows "let parsed = parse_with (cq_expression q) (sv_licenses sv) in
    (\<exists>repo basis. az_one (sv_authorizer sv) p (cq_repository q) = Inr repo \<and>
       (administrator p \<or> (\<exists>g. (repo, subject p, g) \<in> set (grants db))) \<and>
       current_basis sv repo (cq_coordinates q) db = (Inr basis, db) \<and> cq_basis q = hex_encode basis) \<and>
    status parsed \<in> {StatusParsed, StatusNone, StatusUnlicensed} \<and>
    (\<forall>(c, st) \<in> set (occurrences (cq_coordinates q) (lic db)). \<exists>a. assessment_of (c_id c) db' = Some a \<and>
       as_status a = (if status parsed = StatusParsed then AssessmentResolved else AssessmentUnlicensed) \<and>
       as_expression a = (if status parsed = StatusParsed then normalized parsed else []))"
proof -
  let ?parsed = "parse_with (cq_expression q) (sv_licenses sv)" and ?row = "concluded_row sv p q"
  obtain repo basis db1 where access: "az_one (sv_authorizer sv) p (cq_repository q) = Inr repo"
      "administrator p \<or> (\<exists>g. (repo, subject p, g) \<in> set (grants db))"
      "current_basis sv repo (cq_coordinates q) db = (Inr basis, db)" "cq_basis q = hex_encode basis"
    and parsed: "status ?parsed \<in> {StatusParsed, StatusNone, StatusUnlicensed}"
    and l1: "lic db1 = append_evidence ?row (lic db)"
    and run: "service_reassess sv (cq_coordinates q) db1 = (Inr (), db')"
    by (rule conclude_steps [OF assms(3,5)])
  have row: "ev_coordinates ?row = cq_coordinates q" "parse_status ?row = status ?parsed"
    "normalized_expression ?row = normalized ?parsed" "ev_source ?row = SourceHuman" "outcome ?row = OutcomeResolved"
    by (simp_all add: concluded_row_def human_evidence_def Let_def)
  let ?ev = "latest_rows (cq_coordinates q) (lic db1)"
  have "license_inv (lic db)" using assms(1) by (simp add: review_inv_def)
  from appended_human_newest [OF this row(4,5)]
  have human: "newest_human None ?ev = Some (?row\<lparr>ev_id := next_evidence (lic db)\<rparr>)" by (simp add: l1 row(1))
  have same: "occurrences (cq_coordinates q) (lic db1) = occurrences (cq_coordinates q) (lic db)"
    "components (lic db1) = components (lic db)"
    by (simp_all add: l1 append_evidence_def occurrences_def latest_components_def)
  obtain l' where l': "db' = db1\<lparr>lic := l'\<rparr>"
    "\<forall>(c, st) \<in> set (occurrences (cq_coordinates q) (lic db)). stores l' (c_id c) (reassessed sv ?ev c)"
    using reassess_occurrences [OF assms(3), of db1 "cq_coordinates q"] assms(2,4) run unfolding same by auto
  have "\<exists>a. assessment_of (c_id c) db' = Some a \<and>
      as_status a = (if status ?parsed = StatusParsed then AssessmentResolved else AssessmentUnlicensed) \<and>
      as_expression a = (if status ?parsed = StatusParsed then normalized ?parsed else [])"
    if "(c, st) \<in> set (occurrences (cq_coordinates q) (lic db))" for c st
  proof -
    from l'(2) that obtain b where b: "assessed (c_id c) l' = Some b" "b\<lparr>as_snapshot := c_snapshot c\<rparr> = reassessed sv ?ev c"
      by (auto simp: stores_def reassessed_def)
    have "as_status b = as_status (reassessed sv ?ev c)" "as_expression b = as_expression (reassessed sv ?ev c)"
      using b(2) by (metis assessment.select_convs(3) assessment.surjective assessment.update_convs(2),
        metis assessment.select_convs(4) assessment.surjective assessment.update_convs(2))
    with b(1) show ?thesis
      using human_outcome [OF human, of "sv_licenses sv" "c_id c" "c_snapshot c"] parsed row
      by (auto simp: reassessed_def assessment_of_def assessed_def l'(1))
  qed
  with access parsed show ?thesis unfolding Let_def by blast
qed

lemma sample_inv: "review_inv sample_review_db"
  by (rule reviews.run_inv [OF sample_start sample_reached])

lemma sample_none: "status (parse_with ''NONE'' no_licenses) = StatusNone"
  by code_simp

lemma sample_occurrences: "\<exists>st. occurrences sample_coordinates (lic sample_review_db) = [(sample_component, st)]"
  by (simp add: occurrences_def latest_components_def sample_review_db_def empty_review_db_def sample_license carries_def
      coalesce1_def coalesce2_def)

lemma sample_concluded:
  "\<exists>cn db'. service_conclude sample_service sample_principal sample_conclude sample_review_db = (Inr cn, db')"
proof -
  have reassess: "\<exists>db''. service_reassess sample_service sample_coordinates db1 = (Inr (), db'')"
    if "components (lic db1) = [sample_component]" "streams (lic db1) = streams sample_license_db" for db1
  proof -
    have "occurrences sample_coordinates (lic db1) = occurrences sample_coordinates (lic sample_review_db)"
      using that by (simp add: occurrences_def latest_components_def sample_review_db_def empty_review_db_def sample_license_db_def)
    with sample_occurrences that(1) show ?thesis
      using reassess_occurrences [OF sample_store, of db1 sample_coordinates] by auto
  qed
  have "resolver_version (human_evidence l t p q) > 0" for l t p q
    by (simp add: human_evidence_def Let_def resolver_version_const_def)
  then have rc: "\<exists>c db1. record_conclusion 10 (c0\<lparr>cn_basis := sample_digest\<rparr>) (human_evidence l t p q) sample_review_db = (Inr c, db1) \<and>
      components (lic db1) = [sample_component] \<and> streams (lic db1) = streams sample_license_db" for c0 l t p q
    by (simp add: record_conclusion_def Let_def sample_digest_def append_evidence_def sample_review_db_def
        empty_review_db_def sample_license_db_def)
  let ?cn = "\<lparr>cn_id = 0, cn_coordinates = sample_coordinates, cn_evidence = 0, cn_basis = sample_digest,
    cn_reviewer = subject sample_principal, cn_reason = ''ok'', cn_created = 0, cn_superseded = None\<rparr>"
  let ?ev = "human_evidence (sv_licenses sample_service) (sv_now sample_service) sample_principal sample_conclude"
  from rc [of ?cn] obtain c db1 where
    r: "record_conclusion 10 ?cn ?ev sample_review_db = (Inr c, db1)" "components (lic db1) = [sample_component]"
      "streams (lic db1) = streams sample_license_db" by (simp, metis)
  have last: "\<exists>cn db'. (case service_reassess sample_service sample_coordinates (snd (record_review_event fault 10 k a i t d db1)) of
      (Inl e, s') \<Rightarrow> (Inl e, s') | (Inr x, s') \<Rightarrow> return_ok c s') = (Inr cn, db')" for fault k a i t d
    using reassess [of "snd (record_review_event fault 10 k a i t d db1)"] r(2,3)
    by (auto simp: record_event_frame return_ok_def)
  have "status (parse_with ''NONE'' (sv_licenses sample_service)) = StatusNone"
    by (simp add: sample_service_def sample_none)
  then show ?thesis
    unfolding service_conclude_def sample_store postgres_store_fields
    using r(1) sample_hex
    by (simp add: sample_conclude_def sample_access sample_basis Let_def proceed_def require_def
        trim_ok sample_exact ignore_error_def) (rule last)
qed

theorem conclusion_decides_occurrences_witness:
  "\<exists>cn db' a. service_conclude sample_service sample_principal sample_conclude sample_review_db = (Inr cn, db') \<and>
     assessment_of 7 db' = Some a \<and> as_status a = AssessmentUnlicensed"
proof -
  obtain cn db' where s: "service_conclude sample_service sample_principal sample_conclude sample_review_db = (Inr cn, db')"
    using sample_concluded by blast
  obtain st where occ: "occurrences (cq_coordinates sample_conclude) (lic sample_review_db) = [(sample_component, st)]"
    using sample_occurrences by (auto simp: sample_conclude_def)
  have "status (parse_with (cq_expression sample_conclude) (sv_licenses sample_service)) = StatusNone"
    by (simp add: sample_conclude_def sample_service_def sample_none)
  moreover have "distinct (map c_id (components (lic sample_review_db)))" "c_id sample_component = 7"
    by (simp_all add: sample_review_db_def empty_review_db_def sample_license)
  ultimately show ?thesis
    using conclusion_decides_occurrences [OF sample_inv _ sample_store _ s] occ s by (auto simp: Let_def)
qed

text \<open>
  C13 (evaluation).  When the components that need an evaluation fit in the batch, \<open>EvaluatePending\<close>
  succeeds, returns their number and leaves none behind: the current result of each is the
  evaluation of its assessment under the active policy, and no other result changes.
\<close>

theorem evaluation_leaves_none_pending:
  assumes "sv_store sv = postgres_store fault now" "active_policy db = (Inr active, db)"
    and "list_all (\<lambda>a. fingerprint_check (evidence_fingerprint a)) (assessments (lic db))"
    and "distinct (map c_id (components (lic db)))"
    and "length (pending (policy_id active) db) \<le> (if limit \<le> 0 then 500 else nat limit)"
  shows "\<exists>db'. evaluate_pending sv limit db = (Inr (length (pending (policy_id active) db)), db') \<and>
    (\<forall>n. components_needing_evaluation (policy_id active) n db' = (Inr [], db')) \<and>
    (\<forall>(c, st) \<in> set (latest_components (lic db)).
       current_result (c_id c) db' =
         (if needs_evaluation (policy_id active) db (c_id c)
          then Some (evaluate_target (sv_licenses sv) (sv_now sv) active (target_of db c))
          else current_result (c_id c) db))"
proof -
  let ?pid = "policy_id active"
  obtain db' where db': "evaluate_pending sv limit db = (Inr (length (pending ?pid db)), db')" "lic db' = lic db"
    "\<And>c. if c \<in> (\<lambda>(c, st). c_id c) ` set (pending ?pid db)
       then \<exists>c'. c' \<in> fst ` set (pending ?pid db) \<and> c_id c' = c \<and>
         current_result c db' = Some (evaluate_target (sv_licenses sv) (sv_now sv) active (target_of db c'))
       else current_result c db' = current_result c db"
    by (rule evaluate_pending_result [OF assms(1-3,5)]) blast
  have unique: "c' = c" if "(c, st) \<in> set (latest_components (lic db))" "c' \<in> fst ` set (pending ?pid db)" "c_id c' = c_id c" for c c' st
    using that assms(4) by (auto simp: pending_def distinct_map inj_on_def dest!: latest_components_mem)
  have in_pending: "c_id c \<in> (\<lambda>(c, st). c_id c) ` set (pending ?pid db) \<longleftrightarrow> needs_evaluation ?pid db (c_id c)"
    if "(c, st) \<in> set (latest_components (lic db))" for c st
    using that by (force simp: pending_def)
  have result: "current_result (c_id c) db' =
      (if needs_evaluation ?pid db (c_id c)
       then Some (evaluate_target (sv_licenses sv) (sv_now sv) active (target_of db c)) else current_result (c_id c) db)"
    if "(c, st) \<in> set (latest_components (lic db))" for c st
    using db'(3) [of "c_id c"] unique [OF that] unfolding in_pending [OF that] by (auto split: if_splits)
  have same: "assessment_of c db' = assessment_of c db" for c by (simp add: assessment_of_def db'(2))
  have "\<not> needs_evaluation ?pid db' (c_id c)" if "(c, st) \<in> set (latest_components (lic db))" for c st
    using result [OF that] by (auto simp: needs_evaluation_def same evaluate_target_fields target_of_def split: if_splits option.splits)
  then have "pending ?pid db' = []"
    unfolding pending_def db'(2) by (auto simp: filter_empty_conv)
  with db'(1) result show ?thesis
    by (intro exI [of _ db'] conjI allI) (auto simp: needing_eq)
qed

definition sample_policy :: policy where
  "sample_policy = \<lparr>policy_id = 1, policy_name = ''p'', policy_version = 1, policy_kind = ''organization'',
     policy_rules = \<lparr>approved = [], review_required = [], prohibited = [], allow_or_later = False\<rparr>, unknown_handling = VerdictReviewRequired,
     policy_description = [], policy_created_by = ''root'', policy_active = True\<rparr>"

theorem evaluation_leaves_none_pending_witness:
  "\<exists>db'. evaluate_pending sample_service 5 (sample_review_db\<lparr>policies := [sample_policy]\<rparr>) = (Inr 1, db')"
proof -
  let ?db = "sample_review_db\<lparr>policies := [sample_policy]\<rparr>"
  have a: "active_policy ?db = (Inr sample_policy, ?db)" by (simp add: active_policy_def sample_policy_def)
  have f: "list_all (\<lambda>a. fingerprint_check (evidence_fingerprint a)) (assessments (lic ?db))"
    by (simp add: sample_review_db_def empty_review_db_def sample_assessment_def fingerprint_check_def sample_digest_def)
  have d: "distinct (map c_id (components (lic ?db)))"
    by (simp add: sample_review_db_def empty_review_db_def sample_license_db_def)
  have l: "length (pending (policy_id sample_policy) ?db) = 1"
    by (simp add: pending_def latest_components_def sample_review_db_def empty_review_db_def sample_license
        needs_evaluation_def current_result_def)
  show ?thesis
    using evaluation_leaves_none_pending [OF sample_store a f d, of 5] l by auto
qed





text \<open>
  Under a policy that the store accepts, a component is never approved
  without a license expression: a conflict or a missing or unknown assessment needs a review or is
  prohibited, and an explicit refusal is prohibited.  Such a component stays in the review queue
  until it is decided on.
\<close>

theorem unassessed_never_approved:
  assumes "policy_check active" "tg_status t \<noteq> Some AssessmentResolved" "tg_status t \<noteq> Some AssessmentDeclared"
  shows "let r = evaluate_target l now active t in
    (tg_status t = Some AssessmentUnlicensed \<longrightarrow> er_verdict r = VerdictProhibited) \<and>
    (tg_status t = Some AssessmentConflict \<longrightarrow> er_verdict r = VerdictReviewRequired) \<and>
    er_verdict r \<noteq> VerdictApproved \<and> in_queue now' (Some r) a None"
  using assms by (auto simp: evaluate_target_def evaluate_expression_def Let_def policy_check_def in_queue_def)

theorem unassessed_never_approved_witness:
  "er_verdict (evaluate_target no_licenses 0 sample_policy (target_of sample_review_db sample_component)) \<noteq> VerdictApproved"
  using unassessed_never_approved [of sample_policy "target_of sample_review_db sample_component" no_licenses 0]
  by (simp add: Let_def sample_policy_def policy_check_def target_of_def assessment_of_def sample_review_db_def
      empty_review_db_def sample_assessment_def sample_component_def)

end
