(* ===== verification/Graph_Query.thy ===== *)
theory Graph_Query
  imports Complex_Main Go_Prelude "HOL-Library.Product_Lexorder"
begin

text \<open>
  The queries over code graphs: \<open>internal/graphquery\<close> (\<open>service.go\<close>, \<open>store.go\<close>, \<open>impact.go\<close>,
  \<open>trace.go\<close>, \<open>context.go\<close>) with the types of \<open>internal/graphprotocol/protocol.go\<close>.  The service is
  written over the interface \<open>Store\<close>, a record of functions that return rows or an error; the
  uploads a query reads are fixed by their identifiers and never change, so a store is a value.  A
  confidence is a rational number (a finite floating-point number).  An error is returned without
  the partial response that Go returns beside it.
\<close>

subsection \<open>The protocol\<close>

record position =
  start_line :: int
  start_character :: int
  end_line :: int
  end_character :: int

record symbol =
  sym_uid :: string
  sym_name :: string
  sym_kind :: string
  sym_path :: string
  sym_language :: string
  sym_signature :: string
  sym_repository :: int
  sym_range :: position
  sym_test :: bool

record relationship =
  rel_source_repository :: int
  rel_target_repository :: int
  rel_source :: string
  rel_target :: string
  rel_kind :: string
  rel_path :: string
  rel_range :: position
  rel_confidence :: rat
  rel_reason :: string

record repository_snapshot =
  snap_id :: int
  snap_name :: string
  snap_commit :: string

record graph_scope =
  scope_selected :: int
  scope_repositories :: "repository_snapshot list"

record boundary =
  bd_repository :: int
  bd_name :: string
  bd_reason :: string
  bd_depth :: nat
  bd_count :: nat

definition reason_boundary :: "string \<Rightarrow> nat \<Rightarrow> boundary" where
  "reason_boundary r d = \<lparr>bd_repository = 0, bd_name = [], bd_reason = r, bd_depth = d, bd_count = 0\<rparr>"

definition append_boundary :: "boundary list \<Rightarrow> string \<Rightarrow> nat \<Rightarrow> boundary list" where
  "append_boundary bs r d = bs @ [reason_boundary r d]"

datatype graph_status = StatusFound | StatusAmbiguous | StatusNotFound | StatusOK | StatusNoPath

datatype graph_error = ErrInvalidRequest | ErrUnavailable | ErrGenerationChanged

subsection \<open>The store interface\<close>

record manifest =
  mf_upload :: int
  mf_commit :: string

record query_snapshot =
  qs_repository :: int
  qs_upload :: int
  qs_commit :: string

type_synonym symbol_ref = "int \<times> string"

record symbol_query =
  sq_snapshots :: "query_snapshot list"
  sq_uid :: string
  sq_name :: string
  sq_path :: string
  sq_kind :: string
  sq_limit :: nat

datatype direction = Incoming | Outgoing

record neighbor_query =
  nq_snapshots :: "query_snapshot list"
  nq_frontier :: "symbol_ref list"
  nq_relation :: string
  nq_direction :: direction
  nq_confidence :: rat
  nq_offset :: nat
  nq_limit :: nat

record neighbor =
  nb_symbol :: symbol
  nb_parent :: symbol_ref
  nb_edge :: relationship

record graph_store =
  gs_manifests :: "graph_error + (int \<rightharpoonup> manifest)"
  gs_symbols :: "symbol_query \<Rightarrow> graph_error + symbol list"
  gs_neighbors :: "neighbor_query \<Rightarrow> graph_error + neighbor list"

definition symbol_key :: "symbol \<Rightarrow> symbol_ref" where
  "symbol_key s = (sym_repository s, sym_uid s)"

definition or_fail :: "'e + 'a \<Rightarrow> ('a \<Rightarrow> 'e + 'b) \<Rightarrow> 'e + 'b" where
  "or_fail r f = (case r of Inl e \<Rightarrow> Inl e | Inr x \<Rightarrow> f x)"

subsection \<open>Limits\<close>

record limits =
  per_category :: int
  default_impact_depth :: int
  max_depth :: int
  default_trace_depth :: int
  max_trace_depth :: int
  max_rows :: int
  max_nodes :: int
  max_edges :: int
  max_fanout :: int

definition bounded :: "int \<Rightarrow> int \<Rightarrow> int" where
  "bounded x cap = (if x \<le> 0 \<or> x > cap then cap else x)"

definition defaulted :: "int \<Rightarrow> int \<Rightarrow> int \<Rightarrow> int" where
  "defaulted x d cap = (if x \<le> 0 then d else if x > cap then cap else x)"

definition service_limits :: "limits \<Rightarrow> limits" where
  "service_limits l =
     \<lparr>per_category = bounded (per_category l) 100,
      default_impact_depth = defaulted (default_impact_depth l) 3 (bounded (max_depth l) 32),
      max_depth = bounded (max_depth l) 32,
      default_trace_depth = defaulted (default_trace_depth l) 10 (bounded (max_trace_depth l) 30),
      max_trace_depth = bounded (max_trace_depth l) 30,
      max_rows = bounded (max_rows l) 1000, max_nodes = bounded (max_nodes l) 1000,
      max_edges = bounded (max_edges l) 5000, max_fanout = bounded (max_fanout l) 100\<rparr>"

fun relations_loop :: "string list \<Rightarrow> string list \<Rightarrow> graph_error + string list" where
  "relations_loop [] out = Inr out"
| "relations_loop (r # rs) out =
     (if r \<notin> {''calls'', ''references'', ''extends'', ''implements''} then Inl ErrInvalidRequest
      else if r \<in> set out then relations_loop rs out
      else relations_loop rs (out @ [r]))"

definition selected_relations :: "string list \<Rightarrow> graph_error + string list" where
  "selected_relations requested =
     (if requested = [] then Inr [''calls'', ''references'', ''extends'', ''implements'']
      else relations_loop requested [])"

subsection \<open>Ready snapshots\<close>

text \<open>\<open>gv_visit\<close> is the order in which the Go runtime visits the keys of a map, given in ascending order.\<close>

record graph_service =
  gv_store :: graph_store
  gv_limits :: limits
  gv_visit :: "nat list \<Rightarrow> nat list"

record ready_scope =
  rd_snapshots :: "repository_snapshot list"
  rd_queries :: "query_snapshot list"
  rd_boundaries :: "boundary list"
  rd_commits :: "string \<rightharpoonup> string"
  rd_selected :: "repository_snapshot list"
  rd_selected_queries :: "query_snapshot list"
  rd_selected_id :: int

definition empty_ready :: ready_scope where
  "empty_ready = \<lparr>rd_snapshots = [], rd_queries = [], rd_boundaries = [], rd_commits = Map.empty,
     rd_selected = [], rd_selected_queries = [], rd_selected_id = 0\<rparr>"

text \<open>The loop over the repositories of the scope; \<open>missing\<close> and \<open>not_ready\<close> are its counters.\<close>

fun ready_loop :: "int \<Rightarrow> (int \<rightharpoonup> manifest) \<Rightarrow> repository_snapshot list \<Rightarrow> int list \<Rightarrow> nat \<Rightarrow> nat \<Rightarrow> ready_scope \<Rightarrow>
    graph_error + (nat \<times> nat \<times> ready_scope)" where
  "ready_loop selected manifests [] seen missing not_ready rd = Inr (missing, not_ready, rd)"
| "ready_loop selected manifests (s # ss) seen missing not_ready rd0 =
     (if snap_id s \<le> 0 \<or> snap_commit s = [] then Inl ErrInvalidRequest
      else if snap_id s \<in> set seen then Inl ErrInvalidRequest
      else
        let rd = (if selected = snap_id s then rd0\<lparr>rd_selected_id := snap_id s\<rparr> else rd0) in
        case manifests (snap_id s) of
          None \<Rightarrow>
            if selected = snap_id s
            then ready_loop selected manifests ss (snap_id s # seen) missing not_ready
              (rd\<lparr>rd_boundaries := rd_boundaries rd @ [\<lparr>bd_repository = snap_id s, bd_name = snap_name s,
                 bd_reason = ''graph_missing'', bd_depth = 0, bd_count = 0\<rparr>]\<rparr>)
            else ready_loop selected manifests ss (snap_id s # seen) (missing + 1) not_ready rd
        | Some mf \<Rightarrow>
            if mf_commit mf \<noteq> snap_commit s then
              if selected = snap_id s
              then ready_loop selected manifests ss (snap_id s # seen) missing not_ready
                (rd\<lparr>rd_boundaries := rd_boundaries rd @ [\<lparr>bd_repository = snap_id s, bd_name = snap_name s,
                   bd_reason = ''graph_not_ready'', bd_depth = 0, bd_count = 0\<rparr>]\<rparr>)
              else ready_loop selected manifests ss (snap_id s # seen) missing (not_ready + 1) rd
            else
              let qs = \<lparr>qs_repository = snap_id s, qs_upload = mf_upload mf, qs_commit = snap_commit s\<rparr>;
                  rd' = rd\<lparr>rd_snapshots := rd_snapshots rd @ [s], rd_queries := rd_queries rd @ [qs],
                           rd_commits := (rd_commits rd)(snap_name s \<mapsto> snap_commit s)\<rparr>
              in ready_loop selected manifests ss (snap_id s # seen) missing not_ready
                (if selected = snap_id s
                 then rd'\<lparr>rd_selected := rd_selected rd' @ [s], rd_selected_queries := rd_selected_queries rd' @ [qs]\<rparr>
                 else rd'))"

definition count_boundary :: "string \<Rightarrow> nat \<Rightarrow> boundary list" where
  "count_boundary r n =
     (if n > 0 then [\<lparr>bd_repository = 0, bd_name = [], bd_reason = r, bd_depth = 0, bd_count = n\<rparr>] else [])"

definition ready :: "graph_service \<Rightarrow> graph_scope \<Rightarrow> graph_error + ready_scope" where
  "ready sv scope =
     (if scope_repositories scope = [] then Inl ErrInvalidRequest
      else or_fail (gs_manifests (gv_store sv)) (\<lambda>manifests.
        or_fail (ready_loop (scope_selected scope) manifests (scope_repositories scope) [] 0 0 empty_ready)
        (\<lambda>(missing, not_ready, rd).
          if scope_selected scope \<noteq> 0 \<and> \<not> list_ex (\<lambda>s. snap_id s = scope_selected scope) (scope_repositories scope)
          then Inl ErrInvalidRequest
          else Inr (rd\<lparr>rd_boundaries := rd_boundaries rd @ count_boundary ''graph_missing'' missing @
                         count_boundary ''graph_not_ready'' not_ready,
                       rd_snapshots := sort_key snap_id (rd_snapshots rd)\<rparr>))))"

definition query_snapshots :: "ready_scope \<Rightarrow> bool \<Rightarrow> query_snapshot list" where
  "query_snapshots rd selected =
     (if selected \<and> rd_selected_id rd \<noteq> 0 then rd_selected_queries rd else rd_queries rd)"

definition selector_snapshots :: "ready_scope \<Rightarrow> repository_snapshot list" where
  "selector_snapshots rd = (if rd_selected_id rd \<noteq> 0 then rd_selected rd else rd_snapshots rd)"

text \<open>\<open>lookupSymbols\<close>; both callers select.\<close>

definition lookup_symbols :: "graph_service \<Rightarrow> ready_scope \<Rightarrow> string \<Rightarrow> graph_error + symbol list" where
  "lookup_symbols sv rd uid =
     (if selector_snapshots rd = [] then Inr []
      else gs_symbols (gv_store sv)
        \<lparr>sq_snapshots = query_snapshots rd True, sq_uid = uid, sq_name = [], sq_path = [], sq_kind = [],
         sq_limit = length (selector_snapshots rd)\<rparr>)"

subsection \<open>Impact\<close>

record impact_request =
  ir_scope :: graph_scope
  ir_target :: string
  ir_direction :: string
  ir_relations :: "string list"
  ir_confidence :: rat
  ir_tests :: bool
  ir_depth :: int
  ir_limit :: int
  ir_offset :: int
  ir_summary :: bool

record impact_response =
  im_status :: graph_status
  im_candidates :: "symbol list"
  im_by_depth :: "nat \<rightharpoonup> symbol list"
  im_edges :: "relationship list"
  im_boundaries :: "boundary list"
  im_commits :: "string \<rightharpoonup> string"
  im_partial :: bool

text \<open>What stays the same during a traversal, and the variables it changes.\<close>

record impact_env =
  ie_store :: graph_store
  ie_snapshots :: "query_snapshot list"
  ie_direction :: direction
  ie_confidence :: rat
  ie_tests :: bool
  ie_limits :: limits
  ie_targets :: nat

record impact_walk =
  iw_visited :: "symbol_ref list"
  iw_seen :: "symbol_ref list"
  iw_next :: "symbol_ref list"
  iw_by_depth :: "nat \<rightharpoonup> symbol list"
  iw_edges :: "relationship list"
  iw_boundaries :: "boundary list"
  iw_partial :: bool

definition at_depth :: "(nat \<rightharpoonup> 'a list) \<Rightarrow> nat \<Rightarrow> 'a list" where
  "at_depth m d = (case m d of None \<Rightarrow> [] | Some xs \<Rightarrow> xs)"

definition impact_add :: "nat \<Rightarrow> neighbor \<Rightarrow> impact_walk \<Rightarrow> impact_walk" where
  "impact_add d n w =
     (let k = symbol_key (nb_symbol n) in
      w\<lparr>iw_seen := iw_seen w @ [k], iw_visited := iw_visited w @ [k], iw_next := iw_next w @ [k],
        iw_by_depth := (iw_by_depth w)(d \<mapsto> at_depth (iw_by_depth w) d @ [nb_symbol n]),
        iw_edges := iw_edges w @ [nb_edge n]\<rparr>)"

definition impact_stop :: "string \<Rightarrow> nat \<Rightarrow> impact_walk \<Rightarrow> impact_walk" where
  "impact_stop r d w = w\<lparr>iw_partial := True, iw_boundaries := append_boundary (iw_boundaries w) r d\<rparr>"

text \<open>The loop over the neighbors; \<open>True\<close> is the jump out of the traversal.\<close>

fun impact_neighbors :: "impact_env \<Rightarrow> nat \<Rightarrow> neighbor list \<Rightarrow> impact_walk \<Rightarrow> bool \<times> impact_walk" where
  "impact_neighbors env d [] w = (False, w)"
| "impact_neighbors env d (n # ns) w =
     (let k = symbol_key (nb_symbol n) in
      if k \<in> set (iw_visited w) \<or> (\<not> ie_tests env \<and> sym_test (nb_symbol n)) then impact_neighbors env d ns w
      else if k \<in> set (iw_seen w) then impact_neighbors env d ns w
      else if int (length (iw_visited w)) - int (ie_targets env) \<ge> max_nodes (ie_limits env) \<or>
              int (length (iw_edges w)) \<ge> max_edges (ie_limits env)
      then (True, impact_stop ''traversal_limit'' d w)
      else impact_neighbors env d ns (impact_add d n w))"

definition impact_ask :: "impact_env \<Rightarrow> string \<Rightarrow> symbol_ref list \<Rightarrow> graph_error + neighbor list" where
  "impact_ask env relation frontier =
     gs_neighbors (ie_store env)
       \<lparr>nq_snapshots = ie_snapshots env, nq_frontier = frontier, nq_relation = relation,
        nq_direction = ie_direction env, nq_confidence = ie_confidence env, nq_offset = 0,
        nq_limit = nat (max_fanout (ie_limits env)) + 1\<rparr>"

fun impact_relations :: "impact_env \<Rightarrow> nat \<Rightarrow> symbol_ref list \<Rightarrow> string list \<Rightarrow> impact_walk \<Rightarrow>
    graph_error + (bool \<times> impact_walk)" where
  "impact_relations env d frontier [] w = Inr (False, w)"
| "impact_relations env d frontier (r # rs) w =
     or_fail (impact_ask env r frontier) (\<lambda>ns.
       let (ns', w') =
         (if int (length ns) > max_fanout (ie_limits env)
          then (take (nat (max_fanout (ie_limits env))) ns, impact_stop ''fanout_limit'' d w)
          else (ns, w));
           (stop, w'') = impact_neighbors env d ns' w'
       in if stop then Inr (True, w'') else impact_relations env d frontier rs w'')"

fun impact_levels :: "impact_env \<Rightarrow> string list \<Rightarrow> nat \<Rightarrow> nat \<Rightarrow> symbol_ref list \<Rightarrow> impact_walk \<Rightarrow>
    graph_error + impact_walk" where
  "impact_levels env rels 0 d frontier w = Inr w"
| "impact_levels env rels (Suc n) d frontier w =
     (if frontier = [] then Inr w
      else or_fail (impact_relations env d frontier rels (w\<lparr>iw_next := [], iw_seen := []\<rparr>))
        (\<lambda>(stop, w'). if stop then Inr w' else impact_levels env rels n (d + 1) (iw_next w') w'))"

definition page_depth :: "impact_request \<Rightarrow> nat \<Rightarrow> nat \<Rightarrow> impact_response \<Rightarrow> impact_response" where
  "page_depth rq page d r =
     (let symbols = at_depth (im_by_depth r) d in
      if ir_offset rq \<ge> int (length symbols) then r\<lparr>im_by_depth := (im_by_depth r)(d \<mapsto> [])\<rparr>
      else
        let shown = drop (nat (ir_offset rq)) symbols;
            most = length shown > page;
            r' = (if most then r\<lparr>im_partial := True, im_boundaries := append_boundary (im_boundaries r) ''page_limit'' d\<rparr> else r)
        in r'\<lparr>im_by_depth := (im_by_depth r')(d \<mapsto> (if ir_summary rq then [] else take page shown))\<rparr>)"

definition depth_keys :: "(nat \<rightharpoonup> 'a) \<Rightarrow> nat \<Rightarrow> nat list" where
  "depth_keys m n = filter (\<lambda>d. m d \<noteq> None) [1..<Suc n]"

definition impact_direction :: "string \<Rightarrow> direction" where
  "impact_direction s = (if s = ''upstream'' then Incoming else Outgoing)"

definition impact_depth :: "limits \<Rightarrow> int \<Rightarrow> int" where
  "impact_depth l d = (if d \<le> 0 then default_impact_depth l else d)"

definition start_walk :: "symbol list \<Rightarrow> boundary list \<Rightarrow> bool \<Rightarrow> impact_walk" where
  "start_walk targets bs part = \<lparr>iw_visited = map symbol_key targets, iw_seen = [], iw_next = [],
     iw_by_depth = Map.empty, iw_edges = [], iw_boundaries = bs, iw_partial = part\<rparr>"

definition impact :: "graph_service \<Rightarrow> impact_request \<Rightarrow> graph_error + impact_response" where
  "impact sv rq =
     or_fail (ready sv (ir_scope rq)) (\<lambda>rd.
     let response = \<lparr>im_status = StatusNotFound, im_candidates = [], im_by_depth = Map.empty, im_edges = [],
           im_boundaries = rd_boundaries rd, im_commits = rd_commits rd, im_partial = False\<rparr> in
     if rd_snapshots rd = [] then Inr response
     else if ir_target rq = [] \<or> ir_confidence rq < 0 \<or> ir_confidence rq > 1 \<or>
             (ir_direction rq \<noteq> ''upstream'' \<and> ir_direction rq \<noteq> ''downstream'') \<or>
             ir_depth rq < 0 \<or> ir_limit rq < 0 \<or> ir_offset rq < 0
     then Inl ErrInvalidRequest
     else or_fail (selected_relations (ir_relations rq)) (\<lambda>rels.
       let l = service_limits (gv_limits sv); wanted = impact_depth l (ir_depth rq);
           deep = wanted > max_depth l; depth = nat (min wanted (max_depth l));
           bs = (if deep then append_boundary (rd_boundaries rd) ''depth_limit'' depth else rd_boundaries rd);
           page = nat (bounded (ir_limit rq) (max_nodes l))
       in or_fail (lookup_symbols sv rd (ir_target rq)) (\<lambda>targets.
         if length targets > 1 then
           Inr (response\<lparr>im_status := StatusAmbiguous, im_candidates := targets, im_boundaries := bs, im_partial := deep\<rparr>)
         else
           let env = \<lparr>ie_store = gv_store sv, ie_snapshots = query_snapshots rd False,
                 ie_direction = impact_direction (ir_direction rq), ie_confidence = ir_confidence rq,
                 ie_tests = ir_tests rq, ie_limits = l, ie_targets = length targets\<rparr>
           in or_fail (impact_levels env rels depth 1 (map symbol_key targets) (start_walk targets bs deep)) (\<lambda>w.
             Inr (foldl (\<lambda>r d. page_depth rq page d r)
               (response\<lparr>im_status := (if targets = [] then StatusNotFound else StatusFound),
                  im_by_depth := iw_by_depth w, im_edges := iw_edges w, im_boundaries := iw_boundaries w,
                  im_partial := iw_partial w\<rparr>)
               (gv_visit sv (depth_keys (iw_by_depth w) depth)))))))"

subsection \<open>Trace\<close>

record trace_request =
  tq_scope :: graph_scope
  tq_source :: string
  tq_target :: string
  tq_depth :: int

record trace_response =
  tp_status :: graph_status
  tp_candidates :: "symbol list"
  tp_nodes :: "symbol list"
  tp_edges :: "relationship list"
  tp_boundaries :: "boundary list"
  tp_commits :: "string \<rightharpoonup> string"

text \<open>\<open>tw_parents\<close> is the map \<open>parents\<close> in the order of insertion; the parent of a source is the zero key.\<close>

record trace_walk =
  tw_parents :: "(symbol_ref \<times> symbol_ref) list"
  tw_symbols :: "symbol_ref \<rightharpoonup> symbol"
  tw_via :: "symbol_ref \<rightharpoonup> relationship"
  tw_next :: "symbol_ref list"
  tw_count :: int
  tw_found :: "symbol_ref option"
  tw_boundaries :: "boundary list"

record trace_env =
  te_store :: graph_store
  te_snapshots :: "query_snapshot list"
  te_limits :: limits
  te_sources :: nat
  te_targets :: "symbol_ref list"

definition trace_stop :: "string \<Rightarrow> nat \<Rightarrow> trace_walk \<Rightarrow> trace_walk" where
  "trace_stop r d w = w\<lparr>tw_boundaries := append_boundary (tw_boundaries w) r d\<rparr>"

definition trace_add :: "neighbor \<Rightarrow> trace_walk \<Rightarrow> trace_walk" where
  "trace_add n w =
     (let k = symbol_key (nb_symbol n) in
      w\<lparr>tw_parents := tw_parents w @ [(k, nb_parent n)], tw_symbols := (tw_symbols w)(k \<mapsto> nb_symbol n),
        tw_via := (tw_via w)(k \<mapsto> nb_edge n), tw_next := tw_next w @ [k]\<rparr>)"

text \<open>The loop over the neighbors; \<open>True\<close> is the return at the traversal limit.\<close>

fun trace_neighbors :: "trace_env \<Rightarrow> nat \<Rightarrow> neighbor list \<Rightarrow> trace_walk \<Rightarrow> bool \<times> trace_walk" where
  "trace_neighbors env d [] w = (False, w)"
| "trace_neighbors env d (n # ns) w0 =
     (let k = symbol_key (nb_symbol n); w = w0\<lparr>tw_count := tw_count w0 + 1\<rparr> in
      if tw_count w > max_edges (te_limits env) \<or>
         int (length (tw_parents w)) - int (te_sources env) \<ge> max_nodes (te_limits env)
      then (True, trace_stop ''traversal_limit'' d w)
      else if k \<in> fst ` set (tw_parents w) then trace_neighbors env d ns w
      else if k \<in> set (te_targets env) then (False, (trace_add n w)\<lparr>tw_found := Some k\<rparr>)
      else trace_neighbors env d ns (trace_add n w))"

definition trace_ask :: "trace_env \<Rightarrow> symbol_ref list \<Rightarrow> graph_error + neighbor list" where
  "trace_ask env frontier =
     gs_neighbors (te_store env)
       \<lparr>nq_snapshots = te_snapshots env, nq_frontier = frontier, nq_relation = ''calls'', nq_direction = Outgoing,
        nq_confidence = 0, nq_offset = 0, nq_limit = nat (max_fanout (te_limits env)) + 1\<rparr>"

fun trace_levels :: "trace_env \<Rightarrow> nat \<Rightarrow> nat \<Rightarrow> symbol_ref list \<Rightarrow> trace_walk \<Rightarrow> graph_error + (bool \<times> trace_walk)" where
  "trace_levels env 0 d frontier w = Inr (False, w)"
| "trace_levels env (Suc n) d frontier w =
     (if frontier = [] \<or> tw_found w \<noteq> None then Inr (False, w)
      else or_fail (trace_ask env frontier) (\<lambda>ns.
        let (ns', w') =
          (if int (length ns) > max_fanout (te_limits env)
           then (take (nat (max_fanout (te_limits env))) ns, trace_stop ''fanout_limit'' d w)
           else (ns, w));
            (limit, w'') = trace_neighbors env d ns' (w'\<lparr>tw_next := []\<rparr>)
        in if limit then Inr (True, w'') else trace_levels env n (d + 1) (tw_next w'') w''))"

text \<open>
  The loop that follows the parents up to a source, with the path in its final order.  It may not
  end when the parents have a cycle: then the value is \<open>None\<close>.  \<open>Some None\<close> is the return for a key
  without a parent.
\<close>

partial_function (option) trace_path :: "symbol_ref list \<Rightarrow> (symbol_ref \<times> symbol_ref) list \<Rightarrow> symbol_ref \<Rightarrow>
    symbol_ref list \<Rightarrow> symbol_ref list option option" where
  "trace_path roots parents k path =
     (if k \<in> set roots then Some (Some (k # path))
      else case map_of parents k of
        None \<Rightarrow> Some None
      | Some p \<Rightarrow> trace_path roots parents p (k # path))"

declare trace_path.simps [code]

definition start_trace :: "symbol list \<Rightarrow> symbol list \<Rightarrow> boundary list \<Rightarrow> trace_walk" where
  "start_trace sources targets bs =
     \<lparr>tw_parents = map (\<lambda>s. (symbol_key s, (0, []))) sources,
      tw_symbols = map_of (rev (map (\<lambda>s. (symbol_key s, s)) (targets @ sources))),
      tw_via = Map.empty, tw_next = [], tw_count = 0,
      tw_found = find (\<lambda>k. k \<in> symbol_key ` set targets) (map symbol_key sources), tw_boundaries = bs\<rparr>"

definition zero_symbol :: symbol where
  "zero_symbol = \<lparr>sym_uid = [], sym_name = [], sym_kind = [], sym_path = [], sym_language = [], sym_signature = [],
     sym_repository = 0, sym_range = \<lparr>start_line = 0, start_character = 0, end_line = 0, end_character = 0\<rparr>, sym_test = False\<rparr>"

definition zero_relationship :: relationship where
  "zero_relationship = \<lparr>rel_source_repository = 0, rel_target_repository = 0, rel_source = [], rel_target = [],
     rel_kind = [], rel_path = [],
     rel_range = \<lparr>start_line = 0, start_character = 0, end_line = 0, end_character = 0\<rparr>,
     rel_confidence = 0, rel_reason = []\<rparr>"

definition or_zero :: "'a \<Rightarrow> 'a option \<Rightarrow> 'a" where
  "or_zero z x = (case x of None \<Rightarrow> z | Some y \<Rightarrow> y)"

definition finish_trace :: "trace_response \<Rightarrow> symbol_ref list \<Rightarrow> trace_walk \<Rightarrow> trace_response option" where
  "finish_trace response roots w =
     (let r = response\<lparr>tp_boundaries := tw_boundaries w\<rparr> in
      case tw_found w of
        None \<Rightarrow> Some r
      | Some k \<Rightarrow>
          (case trace_path roots (tw_parents w) k [] of
             None \<Rightarrow> None
           | Some None \<Rightarrow> Some r
           | Some (Some path) \<Rightarrow>
               Some (r\<lparr>tp_status := StatusOK,
                 tp_nodes := map (\<lambda>k. or_zero zero_symbol (tw_symbols w k)) path,
                 tp_edges := map (\<lambda>k. or_zero zero_relationship (tw_via w k)) (tl path)\<rparr>)))"

text \<open>\<open>Trace\<close>; \<open>None\<close> when it does not return.\<close>

definition trace_depth :: "limits \<Rightarrow> int \<Rightarrow> int" where
  "trace_depth l d = (if d \<le> 0 then default_trace_depth l else d)"

definition trace :: "graph_service \<Rightarrow> trace_request \<Rightarrow> (graph_error + trace_response) option" where
  "trace sv rq =
     (case ready sv (tq_scope rq) of
        Inl e \<Rightarrow> Some (Inl e)
      | Inr rd \<Rightarrow>
          let response = \<lparr>tp_status = StatusNoPath, tp_candidates = [], tp_nodes = [], tp_edges = [],
                tp_boundaries = rd_boundaries rd, tp_commits = rd_commits rd\<rparr> in
          if rd_snapshots rd = [] then Some (Inr response)
          else if tq_source rq = [] \<or> tq_target rq = [] \<or> tq_depth rq < 0 then Some (Inl ErrInvalidRequest)
          else
            let l = service_limits (gv_limits sv); wanted = trace_depth l (tq_depth rq);
                depth = nat (min wanted (max_trace_depth l));
                bs = (if wanted > max_trace_depth l then append_boundary (rd_boundaries rd) ''depth_limit'' depth
                      else rd_boundaries rd)
            in case lookup_symbols sv rd (tq_source rq) of
                 Inl e \<Rightarrow> Some (Inl e)
               | Inr sources \<Rightarrow>
                   (case lookup_symbols sv rd (tq_target rq) of
                      Inl e \<Rightarrow> Some (Inl e)
                    | Inr targets \<Rightarrow>
                        if length sources > 1 then
                          Some (Inr (response\<lparr>tp_status := StatusAmbiguous, tp_candidates := sources, tp_boundaries := bs\<rparr>))
                        else if length targets > 1 then
                          Some (Inr (response\<lparr>tp_status := StatusAmbiguous, tp_candidates := targets, tp_boundaries := bs\<rparr>))
                        else
                          let env = \<lparr>te_store = gv_store sv, te_snapshots = query_snapshots rd False, te_limits = l,
                                te_sources = length sources, te_targets = map symbol_key targets\<rparr>
                          in case trace_levels env depth 1 (map symbol_key sources) (start_trace sources targets bs) of
                               Inl e \<Rightarrow> Some (Inl e)
                             | Inr (True, w) \<Rightarrow> Some (Inr (response\<lparr>tp_boundaries := tw_boundaries w\<rparr>))
                             | Inr (False, w) \<Rightarrow>
                                 map_option Inr (finish_trace response (map symbol_key sources) w)))"

subsection \<open>Context\<close>

record context_request =
  cx_scope :: graph_scope
  cx_uid :: string
  cx_name :: string
  cx_path :: string
  cx_kind :: string
  cx_relations :: "string list"
  cx_limit :: int
  cx_offset :: int

record context_response =
  cr_snapshots :: "query_snapshot list"
  cr_status :: graph_status
  cr_symbol :: "symbol option"
  cr_candidates :: "symbol list"
  cr_incoming :: "string \<rightharpoonup> symbol list"
  cr_outgoing :: "string \<rightharpoonup> symbol list"
  cr_incoming_edges :: "string \<rightharpoonup> relationship list"
  cr_outgoing_edges :: "string \<rightharpoonup> relationship list"
  cr_boundaries :: "boundary list"
  cr_commits :: "string \<rightharpoonup> string"

definition add_edges :: "(string \<rightharpoonup> relationship list) \<Rightarrow> string \<Rightarrow> nat \<Rightarrow> neighbor list \<Rightarrow> (string \<rightharpoonup> relationship list)" where
  "add_edges m r most ns =
     (if ns = [] then m
      else m(r \<mapsto>
        (let es = (case m r of None \<Rightarrow> [] | Some xs \<Rightarrow> xs) @ map nb_edge ns
         in if length ns > most then take most es else es)))"

text \<open>The body of the two loops: one relation in one direction.\<close>

definition add_category :: "string \<Rightarrow> direction \<Rightarrow> nat \<Rightarrow> neighbor list \<Rightarrow> context_response \<Rightarrow> context_response" where
  "add_category r dir most ns c =
     (let symbols = take most (map nb_symbol ns);
          c' = (if length ns > most then c\<lparr>cr_boundaries := append_boundary (cr_boundaries c) ''category_limit'' 0\<rparr> else c)
      in case dir of
           Incoming \<Rightarrow> c'\<lparr>cr_incoming_edges := add_edges (cr_incoming_edges c) r most ns,
                          cr_incoming := (cr_incoming c)(r \<mapsto> symbols)\<rparr>
         | Outgoing \<Rightarrow> c'\<lparr>cr_outgoing_edges := add_edges (cr_outgoing_edges c) r most ns,
                          cr_outgoing := (cr_outgoing c)(r \<mapsto> symbols)\<rparr>)"

fun context_loop :: "graph_store \<Rightarrow> query_snapshot list \<Rightarrow> symbol_ref \<Rightarrow> nat \<Rightarrow> nat \<Rightarrow> (string \<times> direction) list \<Rightarrow>
    context_response \<Rightarrow> graph_error + context_response" where
  "context_loop st snapshots k most offset [] c = Inr c"
| "context_loop st snapshots k most offset ((r, dir) # cats) c =
     or_fail (gs_neighbors st
       \<lparr>nq_snapshots = snapshots, nq_frontier = [k], nq_relation = r, nq_direction = dir, nq_confidence = 0,
        nq_offset = offset, nq_limit = most + 1\<rparr>)
     (\<lambda>ns. context_loop st snapshots k most offset cats (add_category r dir most ns c))"

definition context_candidates :: "graph_service \<Rightarrow> ready_scope \<Rightarrow> context_request \<Rightarrow> graph_error + symbol list" where
  "context_candidates sv rd rq =
     gs_symbols (gv_store sv)
       \<lparr>sq_snapshots = query_snapshots rd True, sq_uid = cx_uid rq, sq_name = cx_name rq, sq_path = cx_path rq,
        sq_kind = cx_kind rq, sq_limit = 101\<rparr>"

definition graph_context :: "graph_service \<Rightarrow> context_request \<Rightarrow> graph_error + context_response" where
  "graph_context sv rq =
     or_fail (ready sv (cx_scope rq)) (\<lambda>rd.
     let response = \<lparr>cr_snapshots = query_snapshots rd False, cr_status = StatusNotFound, cr_symbol = None,
           cr_candidates = [], cr_incoming = Map.empty, cr_outgoing = Map.empty,
           cr_incoming_edges = Map.empty, cr_outgoing_edges = Map.empty,
           cr_boundaries = rd_boundaries rd, cr_commits = rd_commits rd\<rparr> in
     if rd_snapshots rd = [] \<or> selector_snapshots rd = [] then Inr response
     else if (cx_uid rq = [] \<and> cx_name rq = []) \<or> cx_limit rq < 0 \<or> cx_offset rq < 0 then Inl ErrInvalidRequest
     else or_fail (selected_relations (cx_relations rq)) (\<lambda>rels.
       let most = nat (bounded (cx_limit rq) (per_category (service_limits (gv_limits sv)))) in
       or_fail (context_candidates sv rd rq) (\<lambda>cs.
         case cs of
           [] \<Rightarrow> Inr response
         | [s] \<Rightarrow>
             or_fail (context_loop (gv_store sv) (query_snapshots rd False) (symbol_key s) most (nat (cx_offset rq))
               (concat (map (\<lambda>r. [(r, Incoming), (r, Outgoing)]) rels)) response)
             (\<lambda>c. Inr (c\<lparr>cr_status := StatusFound, cr_symbol := Some s\<rparr>))
         | _ \<Rightarrow> Inr (response\<lparr>cr_status := StatusAmbiguous, cr_candidates := cs\<rparr>))))"

text \<open>\<open>ValidateContextSnapshots\<close>, without the time limit of its context.\<close>

definition validate_context_snapshots :: "graph_service \<Rightarrow> query_snapshot list \<Rightarrow> graph_error + unit" where
  "validate_context_snapshots sv snapshots =
     or_fail (gs_manifests (gv_store sv)) (\<lambda>manifests.
       if list_all (\<lambda>q. case manifests (qs_repository q) of None \<Rightarrow> False
            | Some mf \<Rightarrow> mf_upload mf = qs_upload q \<and> mf_commit mf = qs_commit q) snapshots
       then Inr () else Inl ErrGenerationChanged)"

end
