(* ===== verification/Graph_Artifact.thy ===== *)
theory Graph_Artifact
  imports Graph_Query Index_Queue Go_Sha256
begin

text \<open>
  Graph artifacts of version 1: \<open>internal/graphartifact/model.go\<close> and the validation and the node
  identity of \<open>parse.go\<close>.  A \<open>Range\<close> is a \<^typ>\<open>position\<close>; kinds are the numbers of the Go
  constants.  A confidence is a rational number: \<open>validEdge\<close> rejects a value that is not finite,
  and such values are left out of the type.  The decoding of the wire format is generated code.
\<close>

subsection \<open>The model\<close>

record artifact_node =
  an_uid :: string
  an_path :: string
  an_language :: string
  an_symbol_kind :: string
  an_name :: string
  an_signature :: string
  an_scip :: string
  an_kind :: nat
  an_range :: position

record artifact_edge =
  ae_source :: string
  ae_target :: string
  ae_path :: string
  ae_reason :: string
  ae_kind :: nat
  ae_range :: position
  ae_confidence :: rat

text \<open>The artifact extends the part of it that the job queue reads.\<close>

record graph_artifact = artifact +
  art_schema :: nat
  art_analyzer :: "string \<times> string"
  art_hash :: bytes
  art_nodes :: "artifact_node list"
  art_edges :: "artifact_edge list"

record artifact_limits =
  al_nodes :: int
  al_edges :: int
  al_path :: int
  al_identifier :: int

definition no_limits :: artifact_limits where
  "no_limits = \<lparr>al_nodes = 0, al_edges = 0, al_path = 0, al_identifier = 0\<rparr>"

definition if_zero :: "int \<Rightarrow> int \<Rightarrow> int" where
  "if_zero x d = (if x = 0 then d else x)"

definition normalized_limits :: "artifact_limits \<Rightarrow> artifact_limits \<times> bool" where
  "normalized_limits l0 =
     (let l = \<lparr>al_nodes = if_zero (al_nodes l0) 500000, al_edges = if_zero (al_edges l0) 2000000,
               al_path = if_zero (al_path l0) 4096, al_identifier = if_zero (al_identifier l0) 16384\<rparr>
      in (l, al_nodes l > 0 \<and> al_nodes l \<le> 2000000 \<and> al_edges l > 0 \<and> al_edges l \<le> 10000000 \<and>
             al_path l > 0 \<and> al_path l \<le> 4096 \<and> al_identifier l > 0 \<and> al_identifier l \<le> 16384))"

subsection \<open>Paths\<close>

fun split_slash :: "string \<Rightarrow> string \<Rightarrow> string list" where
  "split_slash acc [] = [rev acc]"
| "split_slash acc (c # s) =
     (if c = CHR ''/'' then rev acc # split_slash [] s else split_slash (c # acc) s)"

text \<open>\<open>path.Clean\<close> of the standard library, element by element; \<open>st\<close> is the output so far, last element first.\<close>

fun clean_elements :: "bool \<Rightarrow> string list \<Rightarrow> string list \<Rightarrow> string list" where
  "clean_elements rooted [] st = rev st"
| "clean_elements rooted (e # es) st =
     (if e = [] \<or> e = ''.'' then clean_elements rooted es st
      else if e = ''..'' then
        (case st of
           [] \<Rightarrow> clean_elements rooted es (if rooted then [] else [e])
         | x # st' \<Rightarrow> clean_elements rooted es (if x = ''..'' then e # st else st'))
      else clean_elements rooted es (e # st))"

definition path_clean :: "string \<Rightarrow> string" where
  "path_clean s =
     (if s = [] then ''.''
      else
        let rooted = (hd s = CHR ''/''); body = join ''/'' (clean_elements rooted (split_slash [] s) [])
        in if rooted then CHR ''/'' # body else if body = [] then ''.'' else body)"

definition valid_path :: "string \<Rightarrow> int \<Rightarrow> bool" where
  "valid_path s bound \<longleftrightarrow>
     (let clean = path_clean s in
      s \<noteq> [] \<and> int (length s) \<le> bound \<and> clean = s \<and> clean \<noteq> ''.'' \<and> clean \<noteq> ''..'' \<and>
      \<not> has_prefix clean ''../'' \<and> \<not> has_prefix clean ''/'' \<and> CHR 0x5C \<notin> set s)"

definition valid_optional_path :: "string \<Rightarrow> int \<Rightarrow> bool" where
  "valid_optional_path s bound \<longleftrightarrow> s = [] \<or> valid_path s bound"

subsection \<open>Validation\<close>

definition valid_identifier :: "string \<Rightarrow> artifact_limits \<Rightarrow> bool" where
  "valid_identifier s l \<longleftrightarrow> s \<noteq> [] \<and> int (length s) \<le> al_identifier l"

definition valid_optional_identifier :: "string \<Rightarrow> artifact_limits \<Rightarrow> bool" where
  "valid_optional_identifier s l \<longleftrightarrow> s = [] \<or> int (length s) \<le> al_identifier l"

definition valid_range :: "position \<Rightarrow> bool" where
  "valid_range p \<longleftrightarrow> start_line p \<ge> 0 \<and> start_character p \<ge> 0 \<and> end_line p \<ge> start_line p \<and>
     end_character p \<ge> 0 \<and> (end_line p \<noteq> start_line p \<or> end_character p \<ge> start_character p)"

definition valid_node_kind :: "nat \<Rightarrow> bool" where
  "valid_node_kind k \<longleftrightarrow> k \<ge> 1 \<and> k \<le> 3"

definition valid_edge_kind :: "nat \<Rightarrow> bool" where
  "valid_edge_kind k \<longleftrightarrow> k \<ge> 1 \<and> k \<le> 6"

definition valid_node :: "artifact_node \<Rightarrow> artifact_limits \<Rightarrow> bool" where
  "valid_node n l \<longleftrightarrow>
     valid_node_kind (an_kind n) \<and> valid_identifier (an_uid n) l \<and> valid_optional_path (an_path n) (al_path l) \<and>
     valid_range (an_range n) \<and> valid_optional_identifier (an_language n) l \<and>
     valid_optional_identifier (an_symbol_kind n) l \<and> valid_optional_identifier (an_name n) l \<and>
     valid_optional_identifier (an_signature n) l \<and> valid_optional_identifier (an_scip n) l"

definition valid_edge :: "artifact_edge \<Rightarrow> artifact_limits \<Rightarrow> bool" where
  "valid_edge e l \<longleftrightarrow>
     valid_edge_kind (ae_kind e) \<and> valid_identifier (ae_source e) l \<and> valid_identifier (ae_target e) l \<and>
     valid_optional_path (ae_path e) (al_path l) \<and> valid_range (ae_range e) \<and>
     ae_confidence e \<ge> 0 \<and> ae_confidence e \<le> 1 \<and> valid_optional_identifier (ae_reason e) l"

text \<open>\<open>validCommit\<close> ranges over the runes of a string of 40 bytes; a rune outside ASCII is above \<open>'f'\<close>, as its bytes are.\<close>

definition valid_commit :: "string \<Rightarrow> bool" where
  "valid_commit s \<longleftrightarrow> length s = 40 \<and>
     list_all (\<lambda>c. \<not> (byte c < 48 \<or> (byte c > 57 \<and> byte c < 97) \<or> byte c > 102)) s"

definition edge_key :: "artifact_edge \<Rightarrow> string \<times> string \<times> nat \<times> string \<times> position" where
  "edge_key e = (ae_source e, ae_target e, ae_kind e, ae_path e, ae_range e)"

text \<open>The two loops; the second argument is the map of what they have seen.\<close>

fun validate_nodes :: "artifact_limits \<Rightarrow> string list \<Rightarrow> artifact_node list \<Rightarrow> bool" where
  "validate_nodes l seen [] = True"
| "validate_nodes l seen (n # ns) =
     (if \<not> valid_node n l then False
      else if an_uid n \<in> set seen then False
      else validate_nodes l (an_uid n # seen) ns)"

fun validate_edges :: "artifact_limits \<Rightarrow> string list \<Rightarrow> (string \<times> string \<times> nat \<times> string \<times> position) list \<Rightarrow>
    artifact_edge list \<Rightarrow> bool" where
  "validate_edges l uids seen [] = True"
| "validate_edges l uids seen (e # es) =
     (if \<not> valid_edge e l then False
      else if ae_source e \<notin> set uids then False
      else if ae_target e \<notin> set uids then False
      else if edge_key e \<in> set seen then False
      else validate_edges l uids (edge_key e # seen) es)"

text \<open>\<open>Validate\<close>: whether the error is nil.\<close>

definition validate :: "graph_artifact \<Rightarrow> artifact_limits \<Rightarrow> bool" where
  "validate a l0 =
     (let (l, ok) = normalized_limits l0 in
      if \<not> ok then False
      else if art_schema a \<noteq> 1 \<or> art_repository a \<le> 0 \<or> \<not> valid_commit (art_commit a) \<or>
        length (art_hash a) \<noteq> 32 \<or> \<not> valid_identifier (fst (art_analyzer a)) l \<or>
        \<not> valid_identifier (snd (art_analyzer a)) l \<or>
        int (length (art_nodes a)) > al_nodes l \<or> int (length (art_edges a)) > al_edges l
      then False
      else validate_nodes l [] (art_nodes a) \<and> validate_edges l (map an_uid (art_nodes a)) [] (art_edges a))"

subsection \<open>Node identity\<close>

text \<open>
  \<open>Identity\<close> of a node: its SCIP symbol, or a digest.  Each part is preceded by its length in
  eight bytes, as \<open>length_be\<close> writes it; \<open>string(rune(kind))\<close> is one byte for a valid kind.
\<close>

definition sized :: "string \<Rightarrow> string" where
  "sized s = length_be (length s) @ s"

definition identity_parts :: "artifact_node \<Rightarrow> string list" where
  "identity_parts n = [an_language n, an_path n, [char_of (an_kind n)], an_name n, an_signature n]"

definition identity :: "artifact_node \<Rightarrow> string option" where
  "identity n =
     (let l = \<lparr>al_nodes = 0, al_edges = 0, al_path = 4096, al_identifier = 16384\<rparr> in
      if an_scip n \<noteq> [] then (if length (an_scip n) > 16384 then None else Some (an_scip n))
      else if \<not> valid_node_kind (an_kind n) \<or> \<not> valid_identifier (an_language n) l \<or>
        \<not> valid_path (an_path n) (al_path l) \<or> \<not> valid_identifier (an_name n) l \<or>
        \<not> valid_optional_identifier (an_symbol_kind n) l \<or> \<not> valid_optional_identifier (an_signature n) l
      then None
      else Some (hex_encode (sha256 (concat (map sized (identity_parts n))))))"

end
