(* ===== verification/Graph_Store.thy ===== *)
theory Graph_Store
  imports Graph_Artifact
begin

text \<open>
  The graph tables: \<open>internal/postgres/graph_query.go\<close> (the store of the graph queries) and, of
  \<open>internal/postgres/graph.go\<close>, the manifests, \<open>ReplaceGraph\<close>, \<open>replaceGraph\<close> and \<open>LoadGraph\<close>.
  The repositories and installations are those of the job queue.  Two things of the database server
  are arguments: \<open>srv\<close>, whether a string can be stored in a column of type \<open>text\<close> and whether the
  text columns of a row fit into an entry of a B-tree index, and \<open>coll\<close>, the sort key of a string under
  the collation.  Columns no modelled query reads (\<open>retired_at\<close>,
  \<open>uploaded_at\<close>, those of the second artifact version) are left out.
\<close>

subsection \<open>Tables\<close>

record graph_upload =
  u_id :: int
  u_repository :: int
  u_commit :: string
  u_schema :: nat
  u_source :: string
  u_analyzer :: "string \<times> string"
  u_hash :: bytes
  u_nodes :: nat
  u_edges :: nat
  u_active :: bool

record graph_node =
  n_id :: int
  n_upload :: int
  n_node :: artifact_node

record graph_edge =
  ge_id :: int
  ge_upload :: int
  ge_edge :: artifact_edge

record graph_db =
  uploads :: "graph_upload list"
  graph_nodes :: "graph_node list"
  graph_edges :: "graph_edge list"
  next_upload :: int
  next_node :: int
  next_edge :: int

subsection \<open>Constraints\<close>

record text_server =
  storable :: "string \<Rightarrow> bool"
  index_entry :: "string list \<Rightarrow> bool"

definition range_check :: "position \<Rightarrow> bool" where
  "range_check p \<longleftrightarrow> start_line p \<ge> 0 \<and> start_character p \<ge> 0 \<and> end_line p \<ge> start_line p \<and> end_character p \<ge> 0 \<and>
     (end_line p > start_line p \<or> end_character p \<ge> start_character p)"

definition upload_check :: "text_server \<Rightarrow> graph_upload \<Rightarrow> bool" where
  "upload_check srv u \<longleftrightarrow> 1 \<le> u_id u \<and> u_id u \<le> 4611686018427387903 \<and> is_sha (u_commit u) \<and>
     u_schema u \<in> {1, 2} \<and> u_source u \<in> {''managed'', ''external'', ''scip''} \<and> length (u_hash u) = 32 \<and>
     storable srv (fst (u_analyzer u)) \<and> storable srv (snd (u_analyzer u))"

text \<open>
  The rows of nodes and edges have entries in the indexes \<open>graph_nodes_upload_uid_unique\<close>,
  \<open>graph_edges_unique\<close>, \<open>graph_edges_incoming\<close> and \<open>graph_edges_outgoing\<close>.
\<close>

definition node_check :: "text_server \<Rightarrow> artifact_node \<Rightarrow> bool" where
  "node_check srv n \<longleftrightarrow> 1 \<le> an_kind n \<and> an_kind n \<le> 3 \<and> range_check (an_range n) \<and>
     list_all (storable srv) [an_uid n, an_path n, an_language n, an_symbol_kind n, an_name n, an_signature n, an_scip n] \<and>
     index_entry srv [an_uid n]"

definition edge_check :: "text_server \<Rightarrow> artifact_edge \<Rightarrow> bool" where
  "edge_check srv e \<longleftrightarrow> 1 \<le> ae_kind e \<and> ae_kind e \<le> 6 \<and> range_check (ae_range e) \<and>
     0 \<le> ae_confidence e \<and> ae_confidence e \<le> 1 \<and>
     list_all (storable srv) [ae_source e, ae_target e, ae_path e, ae_reason e] \<and>
     index_entry srv [ae_source e, ae_target e, ae_path e] \<and> index_entry srv [ae_target e, ae_source e] \<and>
     index_entry srv [ae_source e, ae_target e]"

definition node_key :: "graph_node \<Rightarrow> int \<times> string" where
  "node_key n = (n_upload n, an_uid (n_node n))"

text \<open>Unique keys and indexes, and the foreign keys between the three tables.\<close>

definition uploads_ok :: "text_server \<Rightarrow> graph_upload list \<Rightarrow> bool" where
  "uploads_ok srv us \<longleftrightarrow> list_all (upload_check srv) us \<and> distinct (map u_id us) \<and>
     distinct (map u_repository (filter (\<lambda>u. u_active u \<and> u_schema u = 1) us)) \<and>
     distinct (map (\<lambda>u. (u_repository u, u_source u)) (filter (\<lambda>u. u_active u \<and> u_schema u = 2) us))"

definition upload_ids :: "graph_db \<Rightarrow> (int \<times> nat) list" where
  "upload_ids gd = map (\<lambda>u. (u_id u, u_schema u)) (uploads gd)"

definition nodes_ok :: "text_server \<Rightarrow> (int \<times> nat) list \<Rightarrow> graph_node list \<Rightarrow> bool" where
  "nodes_ok srv ids ns \<longleftrightarrow> list_all (\<lambda>n. node_check srv (n_node n) \<and> (n_upload n, 1) \<in> set ids) ns \<and>
     distinct (map node_key ns)"

definition edges_ok :: "text_server \<Rightarrow> (int \<times> nat) list \<Rightarrow> graph_node list \<Rightarrow> graph_edge list \<Rightarrow> bool" where
  "edges_ok srv ids ns es \<longleftrightarrow>
     list_all (\<lambda>e. edge_check srv (ge_edge e) \<and> (ge_upload e, 1) \<in> set ids \<and>
       (ge_upload e, ae_source (ge_edge e)) \<in> set (map node_key ns) \<and>
       (ge_upload e, ae_target (ge_edge e)) \<in> set (map node_key ns)) es \<and>
     distinct (map (\<lambda>e. (ge_upload e, edge_key (ge_edge e))) es)"

definition graph_constraints :: "text_server \<Rightarrow> graph_db \<Rightarrow> bool" where
  "graph_constraints srv gd \<longleftrightarrow> uploads_ok srv (uploads gd) \<and> nodes_ok srv (upload_ids gd) (graph_nodes gd) \<and>
     edges_ok srv (upload_ids gd) (graph_nodes gd) (graph_edges gd)"

definition graph_checked :: "text_server \<Rightarrow> graph_db \<Rightarrow> queue_error + graph_db" where
  "graph_checked srv gd = (if graph_constraints srv gd then Inr gd else Inl ErrConstraint)"

subsection \<open>Replacing and loading a graph\<close>

record graph_replacement =
  rp_upload :: "graph_upload option"
  rp_applied :: bool

definition current_upload :: "graph_db \<Rightarrow> int \<Rightarrow> graph_upload option" where
  "current_upload gd repository = find (\<lambda>u. u_repository u = repository \<and> u_active u \<and> u_schema u = 1) (uploads gd)"

definition new_upload :: "int \<Rightarrow> string \<Rightarrow> graph_artifact \<Rightarrow> int \<Rightarrow> graph_upload" where
  "new_upload repository source a i =
     \<lparr>u_id = i, u_repository = repository, u_commit = art_commit a, u_schema = art_schema a, u_source = source,
      u_analyzer = art_analyzer a, u_hash = art_hash a, u_nodes = length (art_nodes a),
      u_edges = length (art_edges a), u_active = True\<rparr>"

definition retire :: "graph_upload option \<Rightarrow> graph_db \<Rightarrow> graph_db" where
  "retire current gd =
     (case current of
        None \<Rightarrow> gd
      | Some c \<Rightarrow> gd\<lparr>uploads := map (\<lambda>u. if u_id u = u_id c then u\<lparr>u_active := False\<rparr> else u) (uploads gd)\<rparr>)"

definition insert_upload :: "graph_upload \<Rightarrow> graph_db \<Rightarrow> graph_db" where
  "insert_upload u gd = gd\<lparr>uploads := uploads gd @ [u], next_upload := next_upload gd + 1\<rparr>"

definition copy_nodes :: "int \<Rightarrow> artifact_node list \<Rightarrow> graph_db \<Rightarrow> graph_db" where
  "copy_nodes upload ns gd =
     gd\<lparr>graph_nodes := graph_nodes gd @
          map (\<lambda>(i, n). \<lparr>n_id = next_node gd + int i, n_upload = upload, n_node = n\<rparr>) (enumerate 0 ns),
        next_node := next_node gd + int (length ns)\<rparr>"

definition copy_edges :: "int \<Rightarrow> artifact_edge list \<Rightarrow> graph_db \<Rightarrow> graph_db" where
  "copy_edges upload es gd =
     gd\<lparr>graph_edges := graph_edges gd @
          map (\<lambda>(i, e). \<lparr>ge_id = next_edge gd + int i, ge_upload = upload, ge_edge = e\<rparr>) (enumerate 0 es),
        next_edge := next_edge gd + int (length es)\<rparr>"

text \<open>The answer when the stored graph stays: it is for another commit, or the source may not replace it.\<close>

definition keeps_graph :: "string \<Rightarrow> string \<Rightarrow> graph_artifact \<Rightarrow> graph_upload option \<Rightarrow> bool" where
  "keeps_graph indexed source a current \<longleftrightarrow>
     art_commit a \<noteq> indexed \<or>
     (case current of None \<Rightarrow> [] | Some c \<Rightarrow> u_commit c) = indexed \<and>
     (case current of
        None \<Rightarrow> False
      | Some c \<Rightarrow> u_source c = ''external'' \<and> source \<noteq> ''external'' \<or> u_source c = ''managed'' \<and> source = ''scip'')"

definition replace_graph_tx :: "text_server \<Rightarrow> queue_db \<Rightarrow> int \<Rightarrow> string \<Rightarrow> graph_artifact \<Rightarrow> graph_db \<Rightarrow>
    queue_error + (graph_replacement \<times> graph_db)" where
  "replace_graph_tx srv db repository source a gd =
     (case find_repo db repository of
        None \<Rightarrow> Inl ErrNoRows
      | Some r \<Rightarrow>
          let current = current_upload gd repository in
          if keeps_graph (coalesce (indexed_sha r)) source a current
          then Inr (\<lparr>rp_upload = current, rp_applied = False\<rparr>, gd)
          else
            let u = new_upload repository source a (next_upload gd) in
            and_then (graph_checked srv (retire current gd)) (\<lambda>gd1.
            and_then (graph_checked srv (insert_upload u gd1)) (\<lambda>gd2.
            and_then (graph_checked srv (copy_nodes (u_id u) (art_nodes a) gd2)) (\<lambda>gd3.
            and_then (graph_checked srv (copy_edges (u_id u) (art_edges a) gd3)) (\<lambda>gd4.
            Inr (\<lparr>rp_upload = Some u, rp_applied = True\<rparr>, gd4))))))"

definition replace_graph :: "text_server \<Rightarrow> queue_db \<Rightarrow> int \<Rightarrow> string \<Rightarrow> graph_artifact \<Rightarrow> graph_db \<Rightarrow>
    (queue_error + graph_replacement) \<times> graph_db" where
  "replace_graph srv db repository source a gd =
     (if art_repository a \<noteq> repository \<or> (source \<noteq> ''managed'' \<and> source \<noteq> ''external'') \<or> \<not> validate a no_limits
      then (Inl ErrInvalidArtifact, gd)
      else case replace_graph_tx srv db repository source a gd of
        Inl e \<Rightarrow> (Inl e, gd)
      | Inr (rp, gd') \<Rightarrow> (Inr rp, gd'))"

definition load_graph :: "int \<Rightarrow> graph_db \<Rightarrow> queue_error + graph_artifact" where
  "load_graph upload gd =
     (case find (\<lambda>u. u_id u = upload \<and> u_schema u = 1) (uploads gd) of
        None \<Rightarrow> Inl ErrNoRows
      | Some u \<Rightarrow>
          Inr \<lparr>art_repository = u_repository u, art_commit = u_commit u, art_schema = u_schema u,
               art_analyzer = u_analyzer u, art_hash = u_hash u,
               art_nodes = map n_node (sort_key n_id (filter (\<lambda>n. n_upload n = upload) (graph_nodes gd))),
               art_edges = map ge_edge (sort_key ge_id (filter (\<lambda>e. ge_upload e = upload) (graph_edges gd)))\<rparr>)"

subsection \<open>Manifests\<close>

definition graph_manifests :: "queue_db \<Rightarrow> graph_db \<Rightarrow> (int \<times> manifest) list" where
  "graph_manifests db gd = sort_key fst
     [(r_id r, \<lparr>mf_upload = u_id u, mf_commit = u_commit u\<rparr>).
        i \<leftarrow> installations db, r \<leftarrow> repositories db, r_installation r = inst_id i, available r i,
        u \<leftarrow> uploads gd, u_repository u = r_id r \<and> Some (u_commit u) = indexed_sha r \<and> u_active u \<and> u_schema u = 1]"

definition manifests :: "queue_db \<Rightarrow> graph_db \<Rightarrow> (int \<rightharpoonup> manifest)" where
  "manifests db gd = map_of (rev (graph_manifests db gd))"

subsection \<open>Symbols\<close>

definition contains :: "string \<Rightarrow> string \<Rightarrow> bool" where
  "contains s p \<longleftrightarrow> list_ex (\<lambda>i. has_prefix (drop i s) p) [0..<Suc (length s)]"

definition graph_test_path :: "string \<Rightarrow> bool" where
  "graph_test_path p \<longleftrightarrow> contains p ''/test/'' \<or> contains p ''/tests/'' \<or> has_suffix p ''_test.go'' \<or>
     has_suffix p ''.test.ts'' \<or> has_suffix p ''.test.js''"

definition scan_graph_symbol :: "int \<Rightarrow> artifact_node \<Rightarrow> symbol" where
  "scan_graph_symbol repository n =
     \<lparr>sym_uid = an_uid n, sym_name = an_name n, sym_kind = an_symbol_kind n, sym_path = an_path n,
      sym_language = an_language n, sym_signature = an_signature n, sym_repository = repository,
      sym_range = an_range n, sym_test = graph_test_path (an_path n)\<rparr>"

text \<open>The join of the scope with the uploads.\<close>

definition scope_uploads :: "graph_db \<Rightarrow> query_snapshot list \<Rightarrow> (query_snapshot \<times> graph_upload) list" where
  "scope_uploads gd snapshots =
     [(q, u). q \<leftarrow> snapshots, u \<leftarrow> uploads gd,
        u_id u = qs_upload q \<and> u_repository u = qs_repository q \<and> u_commit u = qs_commit q]"

definition matches :: "string \<Rightarrow> string \<Rightarrow> bool" where
  "matches wanted s \<longleftrightarrow> wanted = [] \<or> s = wanted"

definition symbols :: "(string \<Rightarrow> string) \<Rightarrow> graph_db \<Rightarrow> symbol_query \<Rightarrow> graph_error + symbol list" where
  "symbols coll gd q = Inr (take (sq_limit q) (sort_key (\<lambda>s. (sym_repository s, coll (sym_uid s)))
     [scan_graph_symbol (qs_repository sc) (n_node n).
        (sc, u) \<leftarrow> scope_uploads gd (sq_snapshots q), n \<leftarrow> graph_nodes gd,
        n_upload n = u_id u \<and> an_kind (n_node n) = 3 \<and>
        matches (sq_uid q) (an_uid (n_node n)) \<and> matches (sq_name q) (an_name (n_node n)) \<and>
        matches (sq_path q) (an_path (n_node n)) \<and> matches (sq_kind q) (an_symbol_kind (n_node n))]))"

subsection \<open>Neighbors\<close>

definition graph_relation_kind :: "string \<Rightarrow> nat option" where
  "graph_relation_kind =
     [''calls'' \<mapsto> 4, ''references'' \<mapsto> 3, ''extends'' \<mapsto> 5, ''implements'' \<mapsto> 6]"

text \<open>The end of an edge at the frontier (the parent), and the end it leads to.\<close>

definition near_end :: "direction \<Rightarrow> artifact_edge \<Rightarrow> string" where
  "near_end dir e = (case dir of Outgoing \<Rightarrow> ae_source e | Incoming \<Rightarrow> ae_target e)"

definition far_end :: "direction \<Rightarrow> artifact_edge \<Rightarrow> string" where
  "far_end dir e = (case dir of Outgoing \<Rightarrow> ae_target e | Incoming \<Rightarrow> ae_source e)"

definition scan_graph_neighbor :: "string \<Rightarrow> direction \<Rightarrow> int \<times> artifact_node \<times> artifact_node \<times> artifact_edge \<Rightarrow> neighbor" where
  "scan_graph_neighbor relation dir row =
     (case row of (repository, node, parent, e) \<Rightarrow>
       \<lparr>nb_symbol = scan_graph_symbol repository node, nb_parent = (repository, an_uid parent),
        nb_edge = \<lparr>rel_source_repository = repository, rel_target_repository = repository,
          rel_source = ae_source e, rel_target = ae_target e, rel_kind = relation, rel_path = ae_path e,
          rel_range = ae_range e, rel_confidence = ae_confidence e, rel_reason = ae_reason e\<rparr>\<rparr>)"

text \<open>
  The requested confidence is compared with a column of type \<open>real\<close>, so it is sent as a 4-byte
  floating-point number: \<open>real32\<close> rounds a number between 0 and 1 to the nearest multiple of the unit in
  the last place of its binade (24 significant bits, exponents down to -126), ties to even.
\<close>

fun ulp_below :: "nat \<Rightarrow> rat \<Rightarrow> rat \<Rightarrow> rat" where
  "ulp_below 0 p x = p / 8388608"
| "ulp_below (Suc k) p x = (if p \<le> x then p / 8388608 else ulp_below k (p / 2) x)"

definition round_even :: "rat \<Rightarrow> int" where
  "round_even q =
     (let n = \<lfloor>q\<rfloor>; d = q - of_int n in if d < 1 / 2 \<or> d = 1 / 2 \<and> even n then n else n + 1)"

definition real32 :: "rat \<Rightarrow> rat" where
  "real32 x = (let u = ulp_below 126 1 x in of_int (round_even (x / u)) * u)"

type_synonym neighbor_row = "query_snapshot \<times> graph_node \<times> graph_node \<times> graph_edge"

definition neighbor_rows :: "graph_db \<Rightarrow> nat \<Rightarrow> neighbor_query \<Rightarrow> neighbor_row list" where
  "neighbor_rows gd kind q =
     [(sc, node, parent, e).
        (sc, u) \<leftarrow> scope_uploads gd (nq_snapshots q),
        e \<leftarrow> graph_edges gd, ge_upload e = u_id u \<and> ae_kind (ge_edge e) = kind \<and> ae_confidence (ge_edge e) \<ge> real32 (nq_confidence q),
        f \<leftarrow> nq_frontier q, fst f = qs_repository sc \<and> snd f = near_end (nq_direction q) (ge_edge e),
        parent \<leftarrow> graph_nodes gd, n_upload parent = u_id u \<and> an_uid (n_node parent) = near_end (nq_direction q) (ge_edge e),
        node \<leftarrow> graph_nodes gd, n_upload node = u_id u \<and>
          an_uid (n_node node) = far_end (nq_direction q) (ge_edge e) \<and> an_kind (n_node node) = 3]"

definition neighbor_order :: "(string \<Rightarrow> string) \<Rightarrow> neighbor_row \<Rightarrow>
    int \<times> string \<times> string \<times> string \<times> string \<times> nat \<times> string \<times> int \<times> int \<times> int \<times> int \<times> rat \<times> string \<times> int" where
  "neighbor_order coll row =
     (case row of (sc, node, parent, e) \<Rightarrow>
        let a = ge_edge e; p = ae_range a in
        (qs_repository sc, coll (an_uid (n_node node)), coll (an_uid (n_node parent)), coll (ae_source a),
         coll (ae_target a), ae_kind a, coll (ae_path a), start_line p, start_character p, end_line p,
         end_character p, ae_confidence a, coll (ae_reason a), ge_id e))"

definition neighbors :: "(string \<Rightarrow> string) \<Rightarrow> graph_db \<Rightarrow> neighbor_query \<Rightarrow> graph_error + neighbor list" where
  "neighbors coll gd q =
     (case graph_relation_kind (nq_relation q) of
        None \<Rightarrow> Inl ErrInvalidRequest
      | Some kind \<Rightarrow>
          Inr (map (\<lambda>(sc, node, parent, e).
                 scan_graph_neighbor (nq_relation q) (nq_direction q)
                   (qs_repository sc, n_node node, n_node parent, ge_edge e))
               (take (nq_limit q) (drop (nq_offset q)
                 (sort_key (neighbor_order coll) (neighbor_rows gd kind q))))))"

definition postgres_graph_store :: "(string \<Rightarrow> string) \<Rightarrow> queue_db \<Rightarrow> graph_db \<Rightarrow> graph_store" where
  "postgres_graph_store coll db gd =
     \<lparr>gs_manifests = Inr (manifests db gd), gs_symbols = symbols coll gd, gs_neighbors = neighbors coll gd\<rparr>"

end
