(* ===== verification/Graph_Layers.thy ===== *)
theory Graph_Layers
  imports Graph_Store
begin

text \<open>
  What the traversals of the graph queries are measured against: the nodes within a number of
  steps of a relation and the layers of a breadth-first search, the answers that the graph tables
  hold, and the contract of the method \<open>Neighbors\<close> (locale \<open>neighbor_source\<close>), which the
  PostgreSQL store keeps.
\<close>

subsection \<open>Layers of a relation\<close>

definition upto_steps :: "('a \<Rightarrow> 'a \<Rightarrow> bool) \<Rightarrow> 'a set \<Rightarrow> nat \<Rightarrow> 'a set" where
  "upto_steps r S n = {k. \<exists>s \<in> S. \<exists>m \<le> n. (r ^^ m) s k}"

definition layer :: "('a \<Rightarrow> 'a \<Rightarrow> bool) \<Rightarrow> 'a set \<Rightarrow> nat \<Rightarrow> 'a set" where
  "layer r S n = {k. (\<exists>s \<in> S. (r ^^ n) s k) \<and> (\<forall>s \<in> S. \<forall>m < n. \<not> (r ^^ m) s k)}"

lemma upto_0 [simp]: "upto_steps r S 0 = S"
  by (auto simp: upto_steps_def)

lemma layer_0 [simp]: "layer r S 0 = S"
  by (auto simp: layer_def)

lemma upto_Suc: "upto_steps r S (Suc n) = upto_steps r S n \<union> {k. \<exists>j \<in> upto_steps r S n. r j k}"
proof (intro set_eqI iffI)
  fix k
  assume "k \<in> upto_steps r S (Suc n)"
  then obtain s m where s: "s \<in> S" "m \<le> Suc n" "(r ^^ m) s k"
    by (auto simp: upto_steps_def)
  show "k \<in> upto_steps r S n \<union> {k. \<exists>j \<in> upto_steps r S n. r j k}"
  proof (cases m)
    case 0
    with s have "(r ^^ 0) s k" "s \<in> S" by simp_all
    then show ?thesis unfolding upto_steps_def by blast
  next
    case (Suc i)
    with s(3) obtain j where "(r ^^ i) s j" "r j k"
      by auto
    moreover from s(2) Suc have "i \<le> n" by simp
    ultimately show ?thesis
      using s(1) unfolding upto_steps_def by blast
  qed
next
  fix k
  assume "k \<in> upto_steps r S n \<union> {k. \<exists>j \<in> upto_steps r S n. r j k}"
  then show "k \<in> upto_steps r S (Suc n)"
  proof
    assume "k \<in> upto_steps r S n"
    then show ?thesis by (auto simp: upto_steps_def intro: le_SucI)
  next
    assume "k \<in> {k. \<exists>j \<in> upto_steps r S n. r j k}"
    then obtain j s m where "s \<in> S" "m \<le> n" "(r ^^ m) s j" "r j k"
      by (auto simp: upto_steps_def)
    then have "(r ^^ Suc m) s k" by auto
    with \<open>s \<in> S\<close> \<open>m \<le> n\<close> show ?thesis
      unfolding upto_steps_def by blast
  qed
qed

lemma upto_mono: "m \<le> n \<Longrightarrow> upto_steps r S m \<subseteq> upto_steps r S n"
  by (auto simp: upto_steps_def intro: le_trans)

lemma layer_within: "layer r S (Suc n) = upto_steps r S (Suc n) - upto_steps r S n"
  unfolding layer_def upto_steps_def less_Suc_eq_le le_Suc_eq by blast

lemma layer_subset: "layer r S n \<subseteq> upto_steps r S n"
  by (auto simp: layer_def upto_steps_def)

lemma upto_split: "j \<in> upto_steps r S n \<Longrightarrow> j \<notin> layer r S n \<Longrightarrow> \<exists>m. n = Suc m \<and> j \<in> upto_steps r S m"
  by (cases n) (auto simp: layer_within)

text \<open>The next layer: the unseen successors of the last one.\<close>

lemma layer_Suc: "layer r S (Suc n) = {k. \<exists>j \<in> layer r S n. r j k} - upto_steps r S n"
proof -
  have "k \<in> upto_steps r S n" if "j \<in> upto_steps r S n" "r j k" "j \<notin> layer r S n" for j k
    using upto_split [OF that(1,3)] that(2) by (auto simp: upto_Suc)
  then show ?thesis
    using layer_subset [of r S n] by (auto simp: layer_within upto_Suc)
qed

lemma upto_layer: "upto_steps r S (Suc n) = upto_steps r S n \<union> layer r S (Suc n)"
  unfolding layer_within upto_Suc by blast

lemma layer_empty:
  assumes "layer r S n = {}" and "n \<le> m"
  shows "upto_steps r S m = upto_steps r S n"
  using assms(2)
proof (induction m rule: dec_induct)
  case (step m)
  have "layer r S m = {} \<Longrightarrow> layer r S (Suc m) = {}" for m
    by (auto simp: layer_Suc)
  with step.hyps(1) assms(1) have "layer r S (Suc m) = {}"
    by (induction m rule: dec_induct) auto
  with step.IH show ?case by (simp add: upto_layer)
qed simp

subsection \<open>The answers in the tables\<close>

text \<open>
  Every stored edge of a relation between two nodes of one upload of the scope is an answer, if it
  leads to a symbol and its confidence is at least the requested one, as the column's type has it.
\<close>

lemma ulp_pos: "p > 0 \<Longrightarrow> ulp_below k p x > 0"
  by (induction k p x rule: ulp_below.induct) simp_all

lemma round_even_near: "\<bar>of_int (round_even q) - q\<bar> \<le> 1 / 2"
proof -
  have "of_int \<lfloor>q\<rfloor> \<le> q" "q < of_int \<lfloor>q\<rfloor> + 1" by linarith+
  then show ?thesis by (auto simp: round_even_def Let_def abs_le_iff)
qed

lemma real32_near: "\<bar>real32 x - x\<bar> \<le> ulp_below 126 1 x / 2"
proof -
  let ?u = "ulp_below 126 1 x"
  have u: "?u > 0" by (rule ulp_pos) simp
  then have "real32 x - x = (of_int (round_even (x / ?u)) - x / ?u) * ?u"
    by (simp add: real32_def Let_def left_diff_distrib)
  with u have "\<bar>real32 x - x\<bar> = \<bar>of_int (round_even (x / ?u)) - x / ?u\<bar> * ?u"
    by (simp add: abs_mult)
  also have "\<dots> \<le> 1 / 2 * ?u"
    using u by (intro mult_right_mono round_even_near) simp
  finally show ?thesis by simp
qed

lemma real32_0 [simp]: "real32 0 = 0"
  by (simp add: real32_def Let_def round_even_def)

lemma real32_code [code]:
  "real32 x = (if x = 0 then 0 else let u = ulp_below 126 1 x in of_int (round_even (x / u)) * u)"
  by (cases "x = 0") (simp, simp add: real32_def)

definition graph_answers :: "graph_db \<Rightarrow> query_snapshot list \<Rightarrow> string \<Rightarrow> direction \<Rightarrow> rat \<Rightarrow> neighbor set" where
  "graph_answers gd snapshots relation dir confidence =
     {scan_graph_neighbor relation dir (qs_repository sc, n_node node, n_node parent, ge_edge e) |sc u node parent e.
        sc \<in> set snapshots \<and> u \<in> set (uploads gd) \<and> u_id u = qs_upload sc \<and> u_repository u = qs_repository sc \<and>
        u_commit u = qs_commit sc \<and>
        e \<in> set (graph_edges gd) \<and> ge_upload e = u_id u \<and> Some (ae_kind (ge_edge e)) = graph_relation_kind relation \<and>
        real32 confidence \<le> ae_confidence (ge_edge e) \<and>
        parent \<in> set (graph_nodes gd) \<and> n_upload parent = u_id u \<and> an_uid (n_node parent) = near_end dir (ge_edge e) \<and>
        node \<in> set (graph_nodes gd) \<and> n_upload node = u_id u \<and> an_uid (n_node node) = far_end dir (ge_edge e) \<and>
        an_kind (n_node node) = 3}"

definition answer_key :: "neighbor \<Rightarrow> symbol_ref" where
  "answer_key x = symbol_key (nb_symbol x)"

definition links :: "neighbor set \<Rightarrow> symbol_ref \<Rightarrow> symbol_ref \<Rightarrow> bool" where
  "links A j k \<longleftrightarrow> (\<exists>x \<in> A. nb_parent x = j \<and> answer_key x = k)"

subsection \<open>The contract of \<open>Neighbors\<close>\<close>

definition known_relations :: "string set" where
  "known_relations = {''calls'', ''references'', ''extends'', ''implements''}"

locale neighbor_source =
  fixes st :: graph_store
    and answers :: "query_snapshot list \<Rightarrow> string \<Rightarrow> direction \<Rightarrow> rat \<Rightarrow> neighbor set"
  assumes page: "nq_relation q \<in> known_relations \<Longrightarrow>
    \<exists>rows. gs_neighbors st q = Inr (take (nq_limit q) (drop (nq_offset q) rows)) \<and>
      set rows = {x \<in> answers (nq_snapshots q) (nq_relation q) (nq_direction q) (nq_confidence q).
                    nb_parent x \<in> set (nq_frontier q)}"

lemma neighbor_rows_iff:
  "(sc, node, parent, e) \<in> set (neighbor_rows gd kind q) \<longleftrightarrow>
     (\<exists>u. (sc, u) \<in> set (scope_uploads gd (nq_snapshots q)) \<and> e \<in> set (graph_edges gd) \<and> ge_upload e = u_id u \<and>
       ae_kind (ge_edge e) = kind \<and> ae_confidence (ge_edge e) \<ge> real32 (nq_confidence q) \<and>
       (qs_repository sc, near_end (nq_direction q) (ge_edge e)) \<in> set (nq_frontier q) \<and>
       parent \<in> set (graph_nodes gd) \<and> n_upload parent = u_id u \<and> an_uid (n_node parent) = near_end (nq_direction q) (ge_edge e) \<and>
       node \<in> set (graph_nodes gd) \<and> n_upload node = u_id u \<and> an_uid (n_node node) = far_end (nq_direction q) (ge_edge e) \<and>
       an_kind (n_node node) = 3)"
  unfolding neighbor_rows_def by (auto split: if_splits) force

lemma scope_uploads_iff:
  "(sc, u) \<in> set (scope_uploads gd snapshots) \<longleftrightarrow>
     sc \<in> set snapshots \<and> u \<in> set (uploads gd) \<and> u_id u = qs_upload sc \<and> u_repository u = qs_repository sc \<and>
     u_commit u = qs_commit sc"
  unfolding scope_uploads_def by auto

definition row_neighbor :: "string \<Rightarrow> direction \<Rightarrow> neighbor_row \<Rightarrow> neighbor" where
  "row_neighbor relation dir row =
     (case row of (sc, node, parent, e) \<Rightarrow>
        scan_graph_neighbor relation dir (qs_repository sc, n_node node, n_node parent, ge_edge e))"

lemma nb_parent_scan [simp]: "nb_parent (scan_graph_neighbor r dir (i, node, parent, e)) = (i, an_uid parent)"
  by (simp add: scan_graph_neighbor_def)

lemma set_neighbor_rows:
  assumes "graph_relation_kind (nq_relation q) = Some kind"
  shows "row_neighbor (nq_relation q) (nq_direction q) ` set (neighbor_rows gd kind q) =
    {x \<in> graph_answers gd (nq_snapshots q) (nq_relation q) (nq_direction q) (nq_confidence q).
       nb_parent x \<in> set (nq_frontier q)}" (is "?f ` ?R = ?A")
proof (intro set_eqI iffI)
  fix x
  assume "x \<in> ?f ` ?R"
  then obtain sc node parent e where row: "(sc, node, parent, e) \<in> ?R" "x = ?f (sc, node, parent, e)"
    by (metis imageE prod_cases4)
  from row(1) show "x \<in> ?A"
    unfolding neighbor_rows_iff scope_uploads_iff graph_answers_def row(2)
    using assms by (auto simp: row_neighbor_def) metis
next
  fix x
  assume "x \<in> ?A"
  then obtain sc u node parent e where x: "x = ?f (sc, node, parent, e)" "nb_parent x \<in> set (nq_frontier q)"
    and row: "sc \<in> set (nq_snapshots q)" "u \<in> set (uploads gd)" "u_id u = qs_upload sc"
      "u_repository u = qs_repository sc" "u_commit u = qs_commit sc" "e \<in> set (graph_edges gd)"
      "ge_upload e = u_id u" "Some (ae_kind (ge_edge e)) = graph_relation_kind (nq_relation q)"
      "real32 (nq_confidence q) \<le> ae_confidence (ge_edge e)" "parent \<in> set (graph_nodes gd)" "n_upload parent = u_id u"
      "an_uid (n_node parent) = near_end (nq_direction q) (ge_edge e)" "node \<in> set (graph_nodes gd)"
      "n_upload node = u_id u" "an_uid (n_node node) = far_end (nq_direction q) (ge_edge e)" "an_kind (n_node node) = 3"
    by (auto simp: graph_answers_def row_neighbor_def)
  from x have "(qs_repository sc, near_end (nq_direction q) (ge_edge e)) \<in> set (nq_frontier q)"
    using row(12) by (simp add: row_neighbor_def)
  with row assms have "(sc, node, parent, e) \<in> ?R"
    unfolding neighbor_rows_iff scope_uploads_iff by auto
  with x(1) show "x \<in> ?f ` ?R" by blast
qed

lemma known_relation_kind: "relation \<in> known_relations \<Longrightarrow> graph_relation_kind relation \<noteq> None"
  by (auto simp: known_relations_def graph_relation_kind_def)

interpretation pg_graph: neighbor_source "postgres_graph_store coll db gd" "graph_answers gd" for coll db gd
proof
  fix q :: neighbor_query
  assume "nq_relation q \<in> known_relations"
  then obtain kind where kind: "graph_relation_kind (nq_relation q) = Some kind"
    using known_relation_kind by blast
  let ?rows = "map (row_neighbor (nq_relation q) (nq_direction q)) (sort_key (neighbor_order coll) (neighbor_rows gd kind q))"
  have "gs_neighbors (postgres_graph_store coll db gd) q = Inr (take (nq_limit q) (drop (nq_offset q) ?rows))"
    using kind by (simp add: postgres_graph_store_def neighbors_def row_neighbor_def [abs_def] take_map drop_map)
  moreover have "set ?rows = {x \<in> graph_answers gd (nq_snapshots q) (nq_relation q) (nq_direction q) (nq_confidence q).
      nb_parent x \<in> set (nq_frontier q)}"
    using set_neighbor_rows [OF kind] by simp
  ultimately show "\<exists>rows. gs_neighbors (postgres_graph_store coll db gd) q =
      Inr (take (nq_limit q) (drop (nq_offset q) rows)) \<and>
    set rows = {x \<in> graph_answers gd (nq_snapshots q) (nq_relation q) (nq_direction q) (nq_confidence q).
      nb_parent x \<in> set (nq_frontier q)}"
    by blast
qed

end
