(* ===== verification/Graph_Trace.thy ===== *)
theory Graph_Trace
  imports Graph_Layers
begin

text \<open>
  The search of \<open>Trace\<close> over any store that keeps the contract of \<open>Neighbors\<close>: the parents it
  records lead back to a source, the path that is read off them consists of answers of the store,
  and when no limit was reported the search has visited exactly the layers of the relation.
\<close>

subsection \<open>Boundaries\<close>

definition unlimited :: "boundary list \<Rightarrow> bool" where
  "unlimited bs \<longleftrightarrow> (\<forall>b \<in> set bs. bd_reason b \<noteq> ''fanout_limit'' \<and> bd_reason b \<noteq> ''traversal_limit'')"

lemma unlimited_append [simp]:
  "unlimited (append_boundary bs r d) \<longleftrightarrow> unlimited bs \<and> r \<noteq> ''fanout_limit'' \<and> r \<noteq> ''traversal_limit''"
  by (auto simp: unlimited_def append_boundary_def reason_boundary_def)

subsection \<open>Paths along the recorded parents\<close>

inductive chain :: "symbol_ref set \<Rightarrow> (symbol_ref \<times> symbol_ref) list \<Rightarrow> symbol_ref list \<Rightarrow> symbol_ref \<Rightarrow> bool"
  for roots ps where
  root: "k \<in> roots \<Longrightarrow> chain roots ps [k] k"
| step: "chain roots ps path p \<Longrightarrow> k \<notin> roots \<Longrightarrow> map_of ps k = Some p \<Longrightarrow> chain roots ps (path @ [k]) k"

lemma chain_append: "chain roots ps path k \<Longrightarrow> chain roots (ps @ qs) path k"
  by (induction rule: chain.induct) (auto intro: chain.intros simp: map_add_Some_iff)

lemma chain_trace_path:
  "chain (set roots) ps path k \<Longrightarrow> trace_path roots ps k acc = Some (Some (path @ acc))"
proof (induction path k arbitrary: acc rule: chain.induct)
  case (root k)
  then show ?case by (simp add: trace_path.simps)
next
  case (step path p k)
  then have "trace_path roots ps k acc = trace_path roots ps p (k # acc)"
    by (subst trace_path.simps) simp
  with step.IH [of "k # acc"] show ?case by simp
qed

lemma chain_ends: "chain roots ps path k \<Longrightarrow> path \<noteq> [] \<and> hd path \<in> roots \<and> last path = k"
  by (induction rule: chain.induct) auto

definition backed :: "neighbor set \<Rightarrow> symbol_ref set \<Rightarrow> trace_walk \<Rightarrow> bool" where
  "backed A roots w \<longleftrightarrow> (\<forall>k p. map_of (tw_parents w) k = Some p \<longrightarrow> k \<notin> roots \<longrightarrow>
     (\<exists>x \<in> A. nb_parent x = p \<and> answer_key x = k \<and> tw_via w k = Some (nb_edge x) \<and> tw_symbols w k = Some (nb_symbol x)))"

text \<open>A search tree: its edges are answers, and the nodes of \<open>F\<close> are at depth \<open>e\<close>.\<close>

definition tree :: "neighbor set \<Rightarrow> symbol_ref set \<Rightarrow> symbol_ref set \<Rightarrow> nat \<Rightarrow> trace_walk \<Rightarrow> bool" where
  "tree A roots F e w \<longleftrightarrow> backed A roots w \<and> roots \<subseteq> fst ` set (tw_parents w) \<and>
     (\<forall>k \<in> F. \<exists>path. chain roots (tw_parents w) path k \<and> length path = Suc e)"

text \<open>Nodes and edges of a path: every edge is the answer that leads from one node to the next.\<close>

definition joined :: "neighbor set \<Rightarrow> symbol list \<Rightarrow> relationship list \<Rightarrow> bool" where
  "joined A nodes edges \<longleftrightarrow> length nodes = Suc (length edges) \<and>
     (\<forall>i < length edges. \<exists>x \<in> A. nb_edge x = edges ! i \<and> nb_symbol x = nodes ! Suc i \<and>
        nb_parent x = symbol_key (nodes ! i))"

lemma joined_snoc:
  assumes "joined A nodes edges" "x \<in> A" "nb_parent x = symbol_key (last nodes)"
  shows "joined A (nodes @ [nb_symbol x]) (edges @ [nb_edge x])"
proof -
  from assms(1) have n: "length nodes = Suc (length edges)"
    by (simp add: joined_def)
  then have "last nodes = nodes ! length edges"
    by (metis Suc_not_Zero diff_Suc_1 last_conv_nth list.size(3))
  with assms n show ?thesis
    by (auto simp: joined_def nth_append less_Suc_eq)
qed

lemma chain_joined:
  assumes "chain roots (tw_parents w) path k" and "backed A roots w"
    and "\<forall>k \<in> roots. \<exists>s. tw_symbols w k = Some s \<and> symbol_key s = k"
  shows "joined A (map (\<lambda>k. or_zero zero_symbol (tw_symbols w k)) path)
      (map (\<lambda>k. or_zero zero_relationship (tw_via w k)) (tl path)) \<and>
    symbol_key (or_zero zero_symbol (tw_symbols w k)) = k"
  using assms(1)
proof (induction rule: chain.induct)
  case (root k)
  with assms(3) show ?case
    by (auto simp: joined_def or_zero_def)
next
  case (step path p k)
  obtain x where x: "x \<in> A" "nb_parent x = p" "answer_key x = k"
      "tw_via w k = Some (nb_edge x)" "tw_symbols w k = Some (nb_symbol x)"
    using assms(2) step.hyps(2,3) unfolding backed_def by blast
  from chain_ends [OF step.hyps(1)] have "path \<noteq> []" and "last path = p" by auto
  with step.IH x joined_snoc [OF step.IH [THEN conjunct1] x(1)] show ?case
    by (simp add: or_zero_def answer_key_def last_map)
qed

subsection \<open>One level\<close>

lemma map_of_snoc_new: "k \<notin> fst ` set ps \<Longrightarrow> map_of (ps @ [(k, p)]) k = Some p"
  by (simp add: map_add_def map_of_eq_None_iff [THEN iffD2])

lemma trace_add_tree:
  assumes "tree A roots F e w" "tree A roots (set (tw_next w)) (Suc e) w"
    and "x \<in> A" "nb_parent x \<in> F" "answer_key x \<notin> fst ` set (tw_parents w)"
  shows "tree A roots F e (trace_add x w)" "tree A roots (set (tw_next (trace_add x w))) (Suc e) (trace_add x w)"
proof -
  let ?k = "answer_key x" and ?w = "trace_add x w"
  have sel: "tw_parents ?w = tw_parents w @ [(?k, nb_parent x)]" "tw_via ?w = (tw_via w)(?k \<mapsto> nb_edge x)"
      "tw_symbols ?w = (tw_symbols w)(?k \<mapsto> nb_symbol x)" "tw_next ?w = tw_next w @ [?k]"
    by (simp_all add: trace_add_def answer_key_def Let_def)
  from assms(1,5) have new: "?k \<notin> roots" by (auto simp: tree_def)
  have bk: "backed A roots ?w"
    unfolding backed_def
  proof (intro allI impI)
    fix k p
    assume k: "map_of (tw_parents ?w) k = Some p" "k \<notin> roots"
    show "\<exists>x\<in>A. nb_parent x = p \<and> answer_key x = k \<and> tw_via ?w k = Some (nb_edge x) \<and>
        tw_symbols ?w k = Some (nb_symbol x)"
    proof (cases "k = ?k")
      case True
      with k(1) have "p = nb_parent x"
        using map_of_snoc_new [OF assms(5)] unfolding sel by (metis option.inject)
      with True assms(3) show ?thesis by (auto simp: sel)
    next
      case False
      with k(1) have "map_of (tw_parents w) k = Some p"
        unfolding sel by (simp add: map_add_Some_iff)
      with assms(1) k(2) False show ?thesis
        unfolding sel tree_def backed_def by (metis fun_upd_other)
    qed
  qed
  have keep: "\<exists>path. chain roots (tw_parents ?w) path k \<and> length path = n"
    if "\<exists>path. chain roots (tw_parents w) path k \<and> length path = n" for k n
    using that chain_append unfolding sel by blast
  from assms(1,4) obtain path where "chain roots (tw_parents w) path (nb_parent x)" "length path = Suc e"
    by (auto simp: tree_def)
  then have k: "\<exists>path. chain roots (tw_parents ?w) path ?k \<and> length path = Suc (Suc e)"
    using chain.step [OF chain_append new map_of_snoc_new [OF assms(5)]] unfolding sel
    by (metis length_append_singleton)
  from assms(1) bk keep show "tree A roots F e ?w"
    by (auto simp: tree_def sel(1))
  from assms(1,2) bk keep k show "tree A roots (set (tw_next ?w)) (Suc e) ?w"
    by (auto simp: tree_def sel(1,4))
qed

lemma tree_cong:
  "tw_parents w' = tw_parents w \<Longrightarrow> tw_via w' = tw_via w \<Longrightarrow> tw_symbols w' = tw_symbols w \<Longrightarrow>
     tree A roots F e w' = tree A roots F e w"
  by (simp add: tree_def backed_def)

lemma trace_neighbors_tree:
  assumes "trace_neighbors env d ns w = (limit, w')" "\<forall>x \<in> set ns. x \<in> A \<and> nb_parent x \<in> F"
    and "tree A roots F e w" "tree A roots (set (tw_next w)) (Suc e) w" "tw_found w = None"
  shows "tree A roots F e w' \<and> tree A roots (set (tw_next w')) (Suc e) w' \<and>
    (\<forall>k. tw_found w' = Some k \<longrightarrow> k \<in> set (tw_next w') \<and> k \<in> set (te_targets env)) \<and>
    (\<forall>k \<in> roots. tw_symbols w' k = tw_symbols w k)"
  using assms
proof (induction ns arbitrary: w)
  case (Cons x ns)
  let ?w = "w\<lparr>tw_count := tw_count w + 1\<rparr>"
  have t: "tree A roots F e ?w" "tree A roots (set (tw_next ?w)) (Suc e) ?w"
    using Cons.prems(3,4) by (simp_all add: tree_def backed_def)
  show ?case
  proof (cases "answer_key x \<in> fst ` set (tw_parents w)")
    case True
    with Cons.prems Cons.IH [of ?w] t show ?thesis
      by (auto simp: answer_key_def Let_def trace_stop_def tree_def backed_def split: if_splits)
  next
    case False
    have a: "tree A roots F e (trace_add x ?w)" "tree A roots (set (tw_next (trace_add x ?w))) (Suc e) (trace_add x ?w)"
      using trace_add_tree [OF t] Cons.prems(2) False by simp_all
    have r: "\<forall>k \<in> roots. tw_symbols (trace_add x ?w) k = tw_symbols w k"
      using False Cons.prems(3) by (auto simp: trace_add_def answer_key_def tree_def Let_def)
    have f: "tw_found (trace_add x ?w) = None" "answer_key x \<in> set (tw_next (trace_add x ?w))"
      using Cons.prems(5) by (simp_all add: trace_add_def answer_key_def Let_def)
    have c: "tree A roots G n (trace_add x ?w\<lparr>tw_found := g\<rparr>) = tree A roots G n (trace_add x ?w)" for G n g
      by (rule tree_cong) simp_all
    from Cons.prems(1) False consider
        (stop) "w' = trace_stop ''traversal_limit'' d ?w"
      | (hit) "answer_key x \<in> set (te_targets env)" "w' = (trace_add x ?w)\<lparr>tw_found := Some (answer_key x)\<rparr>"
      | (go) "trace_neighbors env d ns (trace_add x ?w) = (limit, w')"
      by (auto simp: answer_key_def Let_def split: if_splits)
    then show ?thesis
    proof cases
      case stop
      with t Cons.prems(5) show ?thesis by (simp add: trace_stop_def tree_def backed_def)
    next
      case hit
      with a r f c show ?thesis by simp
    next
      case go
      with Cons.IH [OF go _ a f(1)] Cons.prems(2) r show ?thesis by simp
    qed
  qed
qed simp

abbreviation (input) trace_keys :: "trace_walk \<Rightarrow> symbol_ref set" where
  "trace_keys w \<equiv> fst ` set (tw_parents w)"

lemma trace_neighbors_keys:
  assumes "trace_neighbors env d ns w = (False, w')" "tw_found w = None"
    and "new = answer_key ` set ns - trace_keys w"
  shows "case tw_found w' of
      None \<Rightarrow> trace_keys w' = trace_keys w \<union> new \<and> set (tw_next w') = set (tw_next w) \<union> new \<and> new \<inter> set (te_targets env) = {}
    | Some k \<Rightarrow> k \<in> new \<and> k \<in> set (te_targets env)"
  using assms
proof (induction ns arbitrary: w new)
  case (Cons x ns)
  let ?w = "w\<lparr>tw_count := tw_count w + 1\<rparr>" and ?k = "answer_key x"
  show ?case
  proof (cases "?k \<in> trace_keys w")
    case True
    with Cons.prems have "trace_neighbors env d ns ?w = (False, w')"
      by (auto simp: answer_key_def Let_def split: if_splits)
    from Cons.IH [OF this _ refl] Cons.prems(2,3) True show ?thesis
      by (cases "tw_found w'") (simp_all add: insert_absorb)
  next
    case False
    have keys: "trace_keys (trace_add x ?w) = insert ?k (trace_keys w)" "tw_found (trace_add x ?w) = None"
        "set (tw_next (trace_add x ?w)) = insert ?k (set (tw_next w))"
      using Cons.prems(2) by (auto simp: trace_add_def answer_key_def Let_def)
    show ?thesis
    proof (cases "?k \<in> set (te_targets env)")
      case True
      with False Cons.prems have "w' = (trace_add x ?w)\<lparr>tw_found := Some ?k\<rparr>"
        by (auto simp: answer_key_def Let_def split: if_splits)
      with True False Cons.prems(3) show ?thesis by simp
    next
      case other: False
      with False Cons.prems have "trace_neighbors env d ns (trace_add x ?w) = (False, w')"
        by (auto simp: answer_key_def Let_def split: if_splits)
      note IH = Cons.IH [OF this keys(2) refl, unfolded keys(1,3)]
      have new: "new = insert ?k (answer_key ` set ns - insert ?k (trace_keys w))"
        using Cons.prems(3) False by (simp add: insert_Diff_if) blast
      show ?thesis
        using IH other unfolding new by (cases "tw_found w'") (simp_all, blast)
    qed
  qed
qed simp

lemma trace_neighbors_boundaries:
  "trace_neighbors env d ns w = (limit, w') \<Longrightarrow>
     tw_boundaries w' = (if limit then append_boundary (tw_boundaries w) ''traversal_limit'' d else tw_boundaries w)"
  by (induction ns arbitrary: w) (auto simp: Let_def trace_stop_def trace_add_def split: if_splits)

subsection \<open>The search\<close>

text \<open>What the search has done after \<open>e\<close> levels: it has seen the nodes up to \<open>e\<close> steps away.\<close>

definition searched :: "neighbor set \<Rightarrow> symbol_ref set \<Rightarrow> symbol_ref set \<Rightarrow> symbol_ref set \<Rightarrow> nat \<Rightarrow> trace_walk \<Rightarrow> bool" where
  "searched A roots targets F e w \<longleftrightarrow>
     (case tw_found w of
        None \<Rightarrow> trace_keys w = upto_steps (links A) roots e \<and> F = layer (links A) roots e \<and>
          upto_steps (links A) roots e \<inter> targets = {}
      | Some k \<Rightarrow> k \<in> layer (links A) roots e \<and> k \<in> targets)"

lemma image_links: "answer_key ` {x \<in> A. nb_parent x \<in> F} = {k. \<exists>j \<in> F. links A j k}"
  unfolding links_def by blast

lemma new_layer:
  assumes "set rows = {x \<in> A. nb_parent x \<in> layer (links A) roots e}"
  shows "answer_key ` set rows - upto_steps (links A) roots e = layer (links A) roots (Suc e)"
  unfolding layer_Suc assms image_links ..

lemma searched_next:
  assumes "searched A roots (set (te_targets env)) (set F) e w" "tw_found w = None"
    and "set rows = {x \<in> A. nb_parent x \<in> set F}"
    and "trace_neighbors env d rows (w\<lparr>tw_next := []\<rparr>) = (False, w')"
  shows "searched A roots (set (te_targets env)) (set (tw_next w')) (Suc e) w'"
proof -
  let ?new = "answer_key ` set rows - trace_keys (w\<lparr>tw_next := []\<rparr>)"
  from assms(1,2) have w: "trace_keys w = upto_steps (links A) roots e" "set F = layer (links A) roots e"
      "upto_steps (links A) roots e \<inter> set (te_targets env) = {}"
    by (simp_all add: searched_def)
  have new: "?new = layer (links A) roots (Suc e)"
    using new_layer assms(3) w by simp
  from trace_neighbors_keys [OF assms(4) _ refl] assms(2) w show ?thesis
    unfolding searched_def new by (cases "tw_found w'") (simp_all add: upto_layer Int_Un_distrib2)
qed

context neighbor_source
begin

lemma trace_ask_page:
  assumes "te_store env = st" "A = answers (te_snapshots env) ''calls'' Outgoing 0"
  shows "\<exists>rows. trace_ask env F = Inr (take (Suc (nat (max_fanout (te_limits env)))) rows) \<and>
    set rows = {x \<in> A. nb_parent x \<in> set F}"
  using page [of "\<lparr>nq_snapshots = te_snapshots env, nq_frontier = F, nq_relation = ''calls'', nq_direction = Outgoing,
        nq_confidence = 0, nq_offset = 0, nq_limit = nat (max_fanout (te_limits env)) + 1\<rparr>"] assms
  by (simp add: trace_ask_def known_relations_def)

text \<open>One level of the loop.\<close>

lemma trace_level:
  assumes "te_store env = st" "A = answers (te_snapshots env) ''calls'' Outgoing 0" "0 \<le> max_fanout (te_limits env)"
    and "tw_found w = None" "F \<noteq> []" "tree A roots (set F) e w"
    and "unlimited (tw_boundaries w) \<longrightarrow> searched A roots (set (te_targets env)) (set F) e w"
  obtains limit w' where
    "trace_levels env (Suc n) d F w = (if limit then Inr (True, w') else trace_levels env n (d + 1) (tw_next w') w')"
    "tree A roots (set (tw_next w')) (Suc e) w'"
    "\<forall>k. tw_found w' = Some k \<longrightarrow> k \<in> set (tw_next w') \<and> k \<in> set (te_targets env)"
    "\<forall>k \<in> roots. tw_symbols w' k = tw_symbols w k"
    "unlimited (tw_boundaries w') \<longrightarrow> \<not> limit \<and> searched A roots (set (te_targets env)) (set (tw_next w')) (Suc e) w'"
proof -
  let ?fan = "nat (max_fanout (te_limits env))"
  obtain rows where rows: "trace_ask env F = Inr (take (Suc ?fan) rows)" "set rows = {x \<in> A. nb_parent x \<in> set F}"
    using trace_ask_page [OF assms(1,2)] by blast
  define many where "many \<longleftrightarrow> length rows > ?fan"
  define w1 where "w1 = (if many then trace_stop ''fanout_limit'' d w else w)"
  obtain limit w' where nb: "trace_neighbors env d (take ?fan rows) (w1\<lparr>tw_next := []\<rparr>) = (limit, w')"
    by fastforce
  have level: "trace_levels env (Suc n) d F w =
      (if limit then Inr (True, w') else trace_levels env n (d + 1) (tw_next w') w')"
    using assms(3-5) rows(1) nb
    by (cases many) (auto simp: or_fail_def w1_def many_def Let_def min_def nat_less_iff zless_nat_eq_int_zless split: prod.splits)
  have t: "tree A roots (set F) e (w1\<lparr>tw_next := []\<rparr>)" "tw_found (w1\<lparr>tw_next := []\<rparr>) = None"
      "\<forall>k \<in> roots. tw_symbols w1 k = tw_symbols w k"
    using assms(4,6) by (simp_all add: w1_def trace_stop_def tree_def backed_def)
  have t': "tree A roots (set (tw_next (w1\<lparr>tw_next := []\<rparr>))) (Suc e) (w1\<lparr>tw_next := []\<rparr>)"
    using t(1) by (simp add: tree_def)
  have "\<forall>x \<in> set (take ?fan rows). x \<in> A \<and> nb_parent x \<in> set F"
    using rows(2) by (auto dest: in_set_takeD)
  note after = trace_neighbors_tree [OF nb this t(1) t' t(2)]
  have "\<not> limit \<and> searched A roots (set (te_targets env)) (set (tw_next w')) (Suc e) w'"
    if "unlimited (tw_boundaries w')"
  proof -
    from that trace_neighbors_boundaries [OF nb] have "\<not> limit" "\<not> many" "unlimited (tw_boundaries w)"
      by (auto simp: w1_def trace_stop_def split: if_splits)
    then have "trace_neighbors env d rows (w\<lparr>tw_next := []\<rparr>) = (False, w')"
      using nb by (simp add: w1_def many_def)
    with \<open>\<not> limit\<close> \<open>unlimited (tw_boundaries w)\<close> show ?thesis
      using searched_next [OF _ assms(4) rows(2)] assms(7) by simp
  qed
  with that [OF level] after t(3) show thesis by simp
qed

text \<open>The whole loop.\<close>

lemma trace_levels_search:
  assumes "te_store env = st" "A = answers (te_snapshots env) ''calls'' Outgoing 0" "0 \<le> max_fanout (te_limits env)"
    and "tree A roots (set F) e w" "\<forall>k. tw_found w = Some k \<longrightarrow> k \<in> set F \<and> k \<in> set (te_targets env)"
    and "unlimited (tw_boundaries w) \<longrightarrow> searched A roots (set (te_targets env)) (set F) e w"
  shows "\<exists>limit w' e'. trace_levels env n d F w = Inr (limit, w') \<and> e' \<le> e + n \<and> backed A roots w' \<and>
    (\<forall>k \<in> roots. tw_symbols w' k = tw_symbols w k) \<and>
    (\<forall>k. tw_found w' = Some k \<longrightarrow> k \<in> set (te_targets env) \<and>
       (\<exists>path. chain roots (tw_parents w') path k \<and> length path = Suc e')) \<and>
    (unlimited (tw_boundaries w') \<longrightarrow> \<not> limit \<and>
       (case tw_found w' of
          None \<Rightarrow> upto_steps (links A) roots (e + n) \<inter> set (te_targets env) = {}
        | Some k \<Rightarrow> k \<in> layer (links A) roots e'))"
  using assms(4-6)
proof (induction n arbitrary: d F e w)
  case 0
  then show ?case
    by (intro exI [of _ False] exI [of _ w] exI [of _ e])
      (auto simp: tree_def searched_def split: option.splits)
next
  case (Suc n)
  show ?case
  proof (cases "F = [] \<or> tw_found w \<noteq> None")
    case True
    have "upto_steps (links A) roots (e + Suc n) \<inter> set (te_targets env) = {}"
      if "tw_found w = None" "unlimited (tw_boundaries w)"
      using that True Suc.prems(3) layer_empty [of "links A" roots e "e + Suc n"] by (simp add: searched_def)
    with True Suc.prems show ?thesis
      by (intro exI [of _ False] exI [of _ w] exI [of _ e])
        (auto simp: tree_def searched_def split: option.splits)
  next
    case False
    then have f: "tw_found w = None" "F \<noteq> []" by blast+
    obtain limit w' where l:
      "trace_levels env (Suc n) d F w = (if limit then Inr (True, w') else trace_levels env n (d + 1) (tw_next w') w')"
      "tree A roots (set (tw_next w')) (Suc e) w'"
      "\<forall>k. tw_found w' = Some k \<longrightarrow> k \<in> set (tw_next w') \<and> k \<in> set (te_targets env)"
      "\<forall>k \<in> roots. tw_symbols w' k = tw_symbols w k"
      "unlimited (tw_boundaries w') \<longrightarrow> \<not> limit \<and> searched A roots (set (te_targets env)) (set (tw_next w')) (Suc e) w'"
      using trace_level [OF assms(1-3) f Suc.prems(1,3)] by blast
    show ?thesis
    proof (cases limit)
      case True
      with l show ?thesis
        by (intro exI [of _ True] exI [of _ w'] exI [of _ "Suc e"]) (auto simp: tree_def)
    next
      case False
      with l(1) have same: "trace_levels env (Suc n) d F w = trace_levels env n (d + 1) (tw_next w') w'" by simp
      have "unlimited (tw_boundaries w') \<longrightarrow> searched A roots (set (te_targets env)) (set (tw_next w')) (Suc e) w'"
        using l(5) by simp
      from Suc.IH [OF l(2,3) this, of "d + 1"] obtain limit' w'' e' where
        "trace_levels env n (d + 1) (tw_next w') w' = Inr (limit', w'')" "e' \<le> e + Suc n"
        "backed A roots w'' \<and> (\<forall>k \<in> roots. tw_symbols w'' k = tw_symbols w' k) \<and>
          (\<forall>k. tw_found w'' = Some k \<longrightarrow> k \<in> set (te_targets env) \<and>
             (\<exists>path. chain roots (tw_parents w'') path k \<and> length path = Suc e')) \<and>
          (unlimited (tw_boundaries w'') \<longrightarrow> \<not> limit' \<and>
             (case tw_found w'' of
                None \<Rightarrow> upto_steps (links A) roots (e + Suc n) \<inter> set (te_targets env) = {}
              | Some k \<Rightarrow> k \<in> layer (links A) roots e'))"
        unfolding add_Suc_shift by blast
      with same l(4) show ?thesis
        by (intro exI [of _ limit'] exI [of _ w''] exI [of _ e']) (simp del: trace_levels.simps)
    qed
  qed
qed

end

text \<open>The start of the loop, and the response.\<close>

lemma start_trace_tree:
  assumes "roots = symbol_key ` set sources"
  shows "tree A roots roots 0 (start_trace sources targets bs)"
proof -
  have "k \<in> roots" if "map_of (map (\<lambda>s. (symbol_key s, (0, []))) sources) k = Some p" for k p
    using map_of_SomeD [OF that] assms by auto
  moreover have "chain roots ps [k] k" if "k \<in> roots" for ps k
    using that by (rule chain.root)
  then have "\<forall>k \<in> roots. \<exists>path. chain roots (tw_parents (start_trace sources targets bs)) path k \<and> length path = Suc 0"
    by (intro ballI exI [of _ "[_]"]) simp
  moreover have "backed A roots (start_trace sources targets bs)"
    using calculation(1) unfolding backed_def start_trace_def by auto
  ultimately show ?thesis
    using assms by (simp add: tree_def start_trace_def image_image)
qed

lemma start_trace_searched:
  assumes "roots = symbol_key ` set sources"
  shows "searched A roots (symbol_key ` set targets) roots 0 (start_trace sources targets bs)"
proof (cases "tw_found (start_trace sources targets bs)")
  case None
  then have "\<forall>k \<in> symbol_key ` set sources. k \<notin> symbol_key ` set targets"
    by (simp add: start_trace_def find_None_iff)
  then have "symbol_key ` set sources \<inter> symbol_key ` set targets = {}" by blast
  with None assms show ?thesis
    by (simp add: searched_def start_trace_def image_image)
next
  case (Some k)
  then have "k \<in> roots \<and> k \<in> symbol_key ` set targets"
    using assms by (auto simp: start_trace_def find_Some_iff in_set_conv_nth) (metis image_eqI nth_mem)
  with Some show ?thesis by (simp add: searched_def)
qed

lemma start_trace_symbols:
  assumes "k \<in> symbol_key ` set sources"
  shows "\<exists>s \<in> set sources. tw_symbols (start_trace sources targets bs) k = Some s \<and> symbol_key s = k"
proof -
  let ?m = "rev (map (\<lambda>s. (symbol_key s, s)) sources)"
  have "k \<in> fst ` set ?m"
    using assms by (simp add: image_image)
  then obtain s where s: "map_of ?m k = Some s"
    by (metis domD dom_map_of_conv_image_fst)
  moreover from map_of_SomeD [OF s] have "s \<in> set sources" "symbol_key s = k" by auto
  ultimately show ?thesis
    by (auto simp: start_trace_def)
qed

text \<open>The response when the search has ended without a limit, with or without a path.\<close>

lemma finish_trace_path:
  assumes "tw_found w = Some k" "chain (set roots) (tw_parents w) path k" "backed A (set roots) w"
    and "\<forall>k \<in> set roots. \<exists>s. tw_symbols w k = Some s \<and> symbol_key s = k"
  obtains r where "finish_trace response roots w = Some r" "tp_status r = StatusOK" "tp_boundaries r = tw_boundaries w"
    "joined A (tp_nodes r) (tp_edges r)" "length (tp_edges r) = length path - 1"
    "tp_nodes r \<noteq> []" "hd (tp_nodes r) = or_zero zero_symbol (tw_symbols w (hd path))" "symbol_key (last (tp_nodes r)) = k"
proof -
  let ?r = "response\<lparr>tp_boundaries := tw_boundaries w, tp_status := StatusOK,
    tp_nodes := map (\<lambda>k. or_zero zero_symbol (tw_symbols w k)) path,
    tp_edges := map (\<lambda>k. or_zero zero_relationship (tw_via w k)) (tl path)\<rparr>"
  have "finish_trace response roots w = Some ?r"
    using assms(1) chain_trace_path [OF assms(2), of "[]"] by (simp add: finish_trace_def Let_def)
  moreover note chain_joined [OF assms(2-4)] chain_ends [OF assms(2)]
  ultimately show thesis
    using that [of ?r] by (simp add: hd_map last_map)
qed

definition trace_levels_of :: "graph_service \<Rightarrow> trace_request \<Rightarrow> nat" where
  "trace_levels_of sv rq =
     (let l = service_limits (gv_limits sv) in nat (min (trace_depth l (tq_depth rq)) (max_trace_depth l)))"

lemma service_limits_fanout [simp]: "0 \<le> max_fanout (service_limits l)"
  by (simp add: service_limits_def bounded_def)

context neighbor_source
begin

lemma trace_response:
  assumes "gv_store sv = st" "ready sv (tq_scope rq) = Inr rd" "rd_snapshots rd \<noteq> []" "unlimited (rd_boundaries rd)"
    and "tq_source rq \<noteq> []" "tq_target rq \<noteq> []" "0 \<le> tq_depth rq"
    and "lookup_symbols sv rd (tq_source rq) = Inr sources" "length sources \<le> 1"
    and "lookup_symbols sv rd (tq_target rq) = Inr targets" "length targets \<le> 1"
    and "A = answers (query_snapshots rd False) ''calls'' Outgoing 0"
    and "roots = symbol_key ` set sources" "goals = symbol_key ` set targets"
  shows "\<exists>r. trace sv rq = Some (Inr r) \<and>
    (if tp_status r = StatusOK then
       joined A (tp_nodes r) (tp_edges r) \<and> hd (tp_nodes r) \<in> set sources \<and> symbol_key (last (tp_nodes r)) \<in> goals \<and>
       length (tp_edges r) \<le> trace_levels_of sv rq \<and>
       (unlimited (tp_boundaries r) \<longrightarrow> symbol_key (last (tp_nodes r)) \<in> layer (links A) roots (length (tp_edges r)))
     else unlimited (tp_boundaries r) \<longrightarrow> upto_steps (links A) roots (trace_levels_of sv rq) \<inter> goals = {})"
proof -
  define l where "l = service_limits (gv_limits sv)"
  define depth where "depth = trace_levels_of sv rq"
  define bs where "bs = (if trace_depth l (tq_depth rq) > max_trace_depth l
    then append_boundary (rd_boundaries rd) ''depth_limit'' depth else rd_boundaries rd)"
  define env where "env = \<lparr>te_store = gv_store sv, te_snapshots = query_snapshots rd False, te_limits = l,
    te_sources = length sources, te_targets = map symbol_key targets\<rparr>"
  define response where "response = \<lparr>tp_status = StatusNoPath, tp_candidates = [], tp_nodes = [], tp_edges = [],
    tp_boundaries = rd_boundaries rd, tp_commits = rd_commits rd\<rparr>"
  let ?w = "start_trace sources targets bs" and ?roots = "map symbol_key sources"
  have env: "te_store env = st" "A = answers (te_snapshots env) ''calls'' Outgoing 0" "0 \<le> max_fanout (te_limits env)"
      "set (te_targets env) = goals" "set ?roots = roots"
    using assms(1,12-14) by (simp_all add: env_def l_def)
  have run: "trace sv rq = (case trace_levels env depth 1 ?roots ?w of
      Inl e \<Rightarrow> Some (Inl e)
    | Inr (True, w) \<Rightarrow> Some (Inr (response\<lparr>tp_boundaries := tw_boundaries w\<rparr>))
    | Inr (False, w) \<Rightarrow> map_option Inr (finish_trace response ?roots w))"
    using assms(2,3,5-11) unfolding trace_def bs_def depth_def trace_levels_of_def l_def env_def response_def Let_def
    by simp
  have start: "tree A roots (set ?roots) 0 ?w" "searched A roots (set (te_targets env)) (set ?roots) 0 ?w"
    using start_trace_tree [OF assms(13)] start_trace_searched [OF assms(13), of A targets bs] env(4,5) assms(14)
    by simp_all
  then have found: "\<forall>k. tw_found ?w = Some k \<longrightarrow> k \<in> set ?roots \<and> k \<in> set (te_targets env)"
    using env(5) by (auto simp: searched_def)
  obtain limit w e where w: "trace_levels env depth 1 ?roots ?w = Inr (limit, w)" "e \<le> depth" "backed A roots w"
    "\<forall>k \<in> roots. tw_symbols w k = tw_symbols ?w k"
    "\<forall>k. tw_found w = Some k \<longrightarrow> k \<in> goals \<and> (\<exists>path. chain roots (tw_parents w) path k \<and> length path = Suc e)"
    "unlimited (tw_boundaries w) \<longrightarrow> \<not> limit \<and>
       (case tw_found w of None \<Rightarrow> upto_steps (links A) roots depth \<inter> goals = {} | Some k \<Rightarrow> k \<in> layer (links A) roots e)"
    using trace_levels_search [OF env(1-3) start(1) found, of depth 1, unfolded env(4) add_0_left] start(2) env(4) by blast
  show ?thesis
  proof (cases "limit \<or> tw_found w = None")
    case True
    then have "trace sv rq = Some (Inr (response\<lparr>tp_boundaries := tw_boundaries w\<rparr>))"
      using run w(1) by (cases limit) (simp_all add: finish_trace_def)
    with True w(6) show ?thesis
      by (auto simp: response_def depth_def)
  next
    case False
    then obtain k where k: "\<not> limit" "tw_found w = Some k" by blast
    with w(5) obtain path where path: "chain (set ?roots) (tw_parents w) path k" "length path = Suc e" "k \<in> goals"
      using env(5) by auto
    have sym: "\<forall>k \<in> roots. \<exists>s \<in> set sources. tw_symbols w k = Some s \<and> symbol_key s = k"
      using w(4) start_trace_symbols [of _ sources targets bs] assms(13) by metis
    obtain r where r: "finish_trace response ?roots w = Some r" "tp_status r = StatusOK" "tp_boundaries r = tw_boundaries w"
      "joined A (tp_nodes r) (tp_edges r)" "length (tp_edges r) = length path - 1"
      "hd (tp_nodes r) = or_zero zero_symbol (tw_symbols w (hd path))" "symbol_key (last (tp_nodes r)) = k"
      using finish_trace_path [OF k(2) path(1)] w(3) sym env(5) by (metis (no_types, lifting))
    have "hd (tp_nodes r) \<in> set sources"
      using r(6) chain_ends [OF path(1)] sym env(5) by (metis (no_types, lifting) option.simps(5) or_zero_def)
    with r run w(1,2,6) k path show ?thesis
      by (auto simp: depth_def)
  qed
qed

end

end
