(* ===== verification/Graph_Impact.thy ===== *)
theory Graph_Impact
  imports Graph_Trace
begin

text \<open>
  The traversal of \<open>Impact\<close> over any store that keeps the contract of \<open>Neighbors\<close>: when nothing
  marks the response as partial, the symbols at depth \<open>d\<close> are the layer \<open>d\<close> of the selected
  relations; in every case they are reached in \<open>d\<close> steps and stay within the limits.
\<close>

subsection \<open>Ready snapshots\<close>

lemma ready_loop_facts:
  assumes "ready_loop selected mfs ss seen missing not_ready rd = Inr (m, n, rd')"
    and "unlimited (rd_boundaries rd)" "set (rd_selected rd) \<subseteq> set (rd_snapshots rd)"
  shows "unlimited (rd_boundaries rd') \<and> set (rd_selected rd') \<subseteq> set (rd_snapshots rd')"
  using assms
proof (induction ss arbitrary: selected seen missing not_ready rd)
  case (Cons s ss)
  show ?case
    using Cons.prems(1)
    by (simp add: Let_def split: if_split_asm option.split_asm)
      (erule Cons.IH; use Cons.prems(2,3) in \<open>simp add: unlimited_def subset_insertI2\<close>)+
qed simp

lemma ready_facts:
  assumes "ready sv scope = Inr rd"
  shows "unlimited (rd_boundaries rd)" "selector_snapshots rd \<noteq> [] \<Longrightarrow> rd_snapshots rd \<noteq> []"
proof -
  obtain mfs m n rd0 where loop: "ready_loop (scope_selected scope) mfs (scope_repositories scope) [] 0 0 empty_ready = Inr (m, n, rd0)"
    and rd: "rd = rd0\<lparr>rd_boundaries := rd_boundaries rd0 @ count_boundary ''graph_missing'' m @ count_boundary ''graph_not_ready'' n,
      rd_snapshots := sort_key snap_id (rd_snapshots rd0)\<rparr>"
    using assms by (auto simp: ready_def or_fail_def split: if_splits sum.splits)
  have "unlimited (rd_boundaries rd0) \<and> set (rd_selected rd0) \<subseteq> set (rd_snapshots rd0)"
    by (rule ready_loop_facts [OF loop]) (simp_all add: empty_ready_def unlimited_def)
  moreover have "sort_key snap_id xs = [] \<longleftrightarrow> xs = []" for xs :: "repository_snapshot list"
    by (metis length_0_conv length_sort)
  ultimately show "unlimited (rd_boundaries rd)" "selector_snapshots rd \<noteq> [] \<Longrightarrow> rd_snapshots rd \<noteq> []"
    unfolding rd by (auto simp: unlimited_def count_boundary_def selector_snapshots_def split: if_splits)
qed

subsection \<open>The loop over the neighbors\<close>

definition passes :: "impact_env \<Rightarrow> neighbor \<Rightarrow> bool" where
  "passes env x \<longleftrightarrow> ie_tests env \<or> \<not> sym_test (nb_symbol x)"

text \<open>What one level adds: symbols at its depth, in the order of the frontier, with one edge each.\<close>

definition grows :: "nat \<Rightarrow> symbol list \<Rightarrow> impact_walk \<Rightarrow> impact_walk \<Rightarrow> bool" where
  "grows d syms w w' \<longleftrightarrow>
     iw_visited w' = iw_visited w @ map symbol_key syms \<and> iw_next w' = iw_next w @ map symbol_key syms \<and>
     iw_seen w' = iw_seen w @ map symbol_key syms \<and>
     at_depth (iw_by_depth w') d = at_depth (iw_by_depth w) d @ syms \<and>
     (\<forall>i. i \<noteq> d \<longrightarrow> iw_by_depth w' i = iw_by_depth w i) \<and>
     (iw_by_depth w' d = None \<longleftrightarrow> iw_by_depth w d = None \<and> syms = []) \<and>
     length (iw_edges w') = length (iw_edges w) + length syms \<and> distinct (map symbol_key syms) \<and>
     symbol_key ` set syms \<inter> set (iw_visited w) = {}"

lemma grows_refl: "iw_visited w' = iw_visited w \<Longrightarrow> iw_next w' = iw_next w \<Longrightarrow> iw_seen w' = iw_seen w \<Longrightarrow>
    iw_by_depth w' = iw_by_depth w \<Longrightarrow> iw_edges w' = iw_edges w \<Longrightarrow> grows d [] w w'"
  by (simp add: grows_def)

lemma grows_trans: "grows d xs w w' \<Longrightarrow> grows d ys w' w'' \<Longrightarrow> grows d (xs @ ys) w w''"
  by (auto simp: grows_def)

lemma grows_add:
  assumes "answer_key x \<notin> set (iw_visited w)"
  shows "grows d [nb_symbol x] w (impact_add d x w)"
  using assms by (auto simp: grows_def impact_add_def answer_key_def at_depth_def Let_def)

definition within_limits :: "impact_env \<Rightarrow> impact_walk \<Rightarrow> bool" where
  "within_limits env w \<longleftrightarrow> int (length (iw_visited w)) - int (ie_targets env) \<le> max_nodes (ie_limits env) \<and>
     int (length (iw_edges w)) \<le> max_edges (ie_limits env)"

lemma impact_neighbors_grows:
  assumes "impact_neighbors env d ns w = (stop, w')" "set (iw_seen w) \<subseteq> set (iw_visited w)" "within_limits env w"
  shows "\<exists>syms. grows d syms w w' \<and> set syms \<subseteq> {nb_symbol x |x. x \<in> set ns \<and> passes env x} \<and> within_limits env w' \<and>
    (stop \<longrightarrow> iw_partial w') \<and> (iw_partial w \<longrightarrow> iw_partial w') \<and>
    (\<not> iw_partial w' \<longrightarrow> {answer_key x |x. x \<in> set ns \<and> passes env x} \<subseteq> set (iw_visited w'))"
  using assms
proof (induction ns arbitrary: w)
  case Nil
  then show ?case by (auto intro!: exI [of _ "[]"] grows_refl)
next
  case (Cons x ns)
  let ?full = "int (length (iw_visited w)) - int (ie_targets env) \<ge> max_nodes (ie_limits env) \<or>
    int (length (iw_edges w)) \<ge> max_edges (ie_limits env)"
  have step: "impact_neighbors env d (x # ns) w =
      (if answer_key x \<in> set (iw_visited w) \<or> \<not> passes env x then impact_neighbors env d ns w
       else if ?full then (True, impact_stop ''traversal_limit'' d w)
       else impact_neighbors env d ns (impact_add d x w))"
    using Cons.prems(2) by (auto simp: answer_key_def passes_def)
  consider
      (skip) "answer_key x \<in> set (iw_visited w) \<or> \<not> passes env x" "impact_neighbors env d ns w = (stop, w')"
    | (limit) "stop" "w' = impact_stop ''traversal_limit'' d w"
    | (add) "answer_key x \<notin> set (iw_visited w)" "passes env x" "impact_neighbors env d ns (impact_add d x w) = (stop, w')"
        "\<not> ?full"
    using Cons.prems(1) unfolding step by (metis (no_types, lifting) prod.inject)
  then show ?case
  proof cases
    case skip
    obtain syms where s: "grows d syms w w'" "set syms \<subseteq> {nb_symbol x |x. x \<in> set ns \<and> passes env x}"
      "within_limits env w'" "stop \<longrightarrow> iw_partial w'" "iw_partial w \<longrightarrow> iw_partial w'"
      "\<not> iw_partial w' \<longrightarrow> {answer_key x |x. x \<in> set ns \<and> passes env x} \<subseteq> set (iw_visited w')"
      using Cons.IH [OF skip(2) Cons.prems(2,3)] by blast
    have "set (iw_visited w) \<subseteq> set (iw_visited w')"
      using s(1) by (auto simp: grows_def)
    with s skip(1) show ?thesis
      by (intro exI [of _ syms]) auto
  next
    case limit
    with Cons.prems(3) show ?thesis
      by (intro exI [of _ "[]"]) (auto simp: impact_stop_def within_limits_def intro!: grows_refl)
  next
    case add
    have g: "grows d [nb_symbol x] w (impact_add d x w)"
      by (rule grows_add) (rule add(1))
    have w1: "set (iw_seen (impact_add d x w)) \<subseteq> set (iw_visited (impact_add d x w))" "within_limits env (impact_add d x w)"
        "iw_partial (impact_add d x w) = iw_partial w" "answer_key x \<in> set (iw_visited (impact_add d x w))"
      using Cons.prems(2) add(4) by (auto simp: impact_add_def within_limits_def answer_key_def Let_def)
    obtain syms where s: "grows d syms (impact_add d x w) w'" "set syms \<subseteq> {nb_symbol x |x. x \<in> set ns \<and> passes env x}"
      "within_limits env w'" "stop \<longrightarrow> iw_partial w'" "iw_partial w \<longrightarrow> iw_partial w'"
      "\<not> iw_partial w' \<longrightarrow> {answer_key x |x. x \<in> set ns \<and> passes env x} \<subseteq> set (iw_visited w')"
      using Cons.IH [OF add(3) w1(1,2)] w1(3) by auto
    have "set (iw_visited (impact_add d x w)) \<subseteq> set (iw_visited w')"
      using s(1) by (auto simp: grows_def)
    with s w1(4) add(2) grows_trans [OF g s(1)] show ?thesis
      by (intro exI [of _ "nb_symbol x # syms"]) auto
  qed
qed

subsection \<open>One level\<close>

text \<open>
  The state after \<open>e\<close> levels: what is listed at depth \<open>i\<close> is reached in \<open>i\<close> steps, everything
  that was visited is listed once, and without a limit the depths are the layers.
\<close>

definition mapped :: "impact_env \<Rightarrow> neighbor set \<Rightarrow> symbol_ref set \<Rightarrow> nat \<Rightarrow> impact_walk \<Rightarrow> bool" where
  "mapped env A roots e w \<longleftrightarrow>
     (\<forall>i. iw_by_depth w i \<noteq> None \<longrightarrow> 1 \<le> i \<and> i \<le> e \<and> at_depth (iw_by_depth w) i \<noteq> []) \<and>
     (\<forall>i. distinct (map symbol_key (at_depth (iw_by_depth w) i)) \<and>
        (\<forall>s \<in> set (at_depth (iw_by_depth w) i). \<exists>r \<in> roots. (links A ^^ i) r (symbol_key s))) \<and>
     length (iw_visited w) = ie_targets env + (\<Sum>i = 1..e. length (at_depth (iw_by_depth w) i)) \<and>
     length (iw_edges w) = (\<Sum>i = 1..e. length (at_depth (iw_by_depth w) i)) \<and> within_limits env w \<and>
     (\<not> iw_partial w \<longrightarrow> set (iw_visited w) = upto_steps (links A) roots e \<and>
        (\<forall>i \<in> {1..e}. symbol_key ` set (at_depth (iw_by_depth w) i) = layer (links A) roots i))"

definition front :: "neighbor set \<Rightarrow> symbol_ref set \<Rightarrow> nat \<Rightarrow> symbol_ref set \<Rightarrow> impact_walk \<Rightarrow> bool" where
  "front A roots e F w \<longleftrightarrow> (\<forall>k \<in> F. \<exists>r \<in> roots. (links A ^^ e) r k) \<and>
     (\<not> iw_partial w \<longrightarrow> F = layer (links A) roots e)"

lemma at_depth_None [simp]: "m d = None \<Longrightarrow> at_depth m d = []"
  by (simp add: at_depth_def)

lemma mapped_reset [simp]: "mapped env A roots e (w\<lparr>iw_next := xs, iw_seen := ys\<rparr>) = mapped env A roots e w"
  by (simp add: mapped_def within_limits_def)

lemma grows_depths:
  assumes "grows (Suc e) syms w w'" "mapped env A roots e w"
  shows "at_depth (iw_by_depth w') (Suc e) = syms" "i \<le> e \<Longrightarrow> at_depth (iw_by_depth w') i = at_depth (iw_by_depth w) i"
    "iw_by_depth w' i \<noteq> None \<Longrightarrow> 1 \<le> i \<and> i \<le> Suc e \<and> at_depth (iw_by_depth w') i \<noteq> []"
    "Suc e < i \<Longrightarrow> at_depth (iw_by_depth w') i = []"
proof -
  have none: "iw_by_depth w i = None" if "i > e" for i
    using assms(2) that unfolding mapped_def by (metis not_le)
  then have "at_depth (iw_by_depth w) (Suc e) = []" by simp
  with assms(1) show new: "at_depth (iw_by_depth w') (Suc e) = syms" by (simp add: grows_def)
  show old: "i \<le> e \<Longrightarrow> at_depth (iw_by_depth w') i = at_depth (iw_by_depth w) i" for i
    using assms(1) by (auto simp: grows_def at_depth_def)
  show "Suc e < i \<Longrightarrow> at_depth (iw_by_depth w') i = []"
    using assms(1) none [of i] by (auto simp: grows_def at_depth_def)
  assume some: "iw_by_depth w' i \<noteq> None"
  consider "i = Suc e" | "i \<le> e" | "Suc e < i" by linarith
  then show "1 \<le> i \<and> i \<le> Suc e \<and> at_depth (iw_by_depth w') i \<noteq> []"
  proof cases
    case 1
    with some assms(1) none [of "Suc e"] new show ?thesis by (auto simp: grows_def)
  next
    case 2
    then have "iw_by_depth w i \<noteq> None"
      using some assms(1) by (simp add: grows_def)
    with 2 assms(2) old show ?thesis unfolding mapped_def by (metis le_SucI)
  next
    case 3
    with some assms(1) none [of i] show ?thesis by (simp add: grows_def)
  qed
qed

lemma mapped_next:
  assumes m: "mapped env A roots e w" and f: "front A roots e F w" and g: "grows (Suc e) syms w w'"
    and new: "\<forall>s \<in> set syms. \<exists>x \<in> A. nb_symbol x = s \<and> nb_parent x \<in> F"
    and lim: "within_limits env w'" "iw_partial w \<longrightarrow> iw_partial w'" "iw_next w = []"
    and all: "\<not> iw_partial w' \<longrightarrow> {k. \<exists>j \<in> F. links A j k} \<subseteq> set (iw_visited w')"
  shows "mapped env A roots (Suc e) w'" "front A roots (Suc e) (set (iw_next w')) w'"
proof -
  note d = grows_depths [OF g m]
  let ?keys = "symbol_key ` set syms"
  have reach: "\<exists>r \<in> roots. (links A ^^ Suc e) r (symbol_key s)" if s: "s \<in> set syms" for s
  proof -
    from new s obtain x where x: "x \<in> A" "nb_symbol x = s" "nb_parent x \<in> F" by blast
    with f obtain r where "r \<in> roots" "(links A ^^ e) r (nb_parent x)"
      unfolding front_def by blast
    moreover have "links A (nb_parent x) (symbol_key s)"
      using x(1,2) unfolding links_def answer_key_def by blast
    ultimately show ?thesis by (meson relpowp_Suc_I)
  qed
  have exact: "?keys = layer (links A) roots (Suc e) \<and> set (iw_visited w) = upto_steps (links A) roots e"
    if p: "\<not> iw_partial w'"
  proof -
    have v: "set (iw_visited w) = upto_steps (links A) roots e" and F: "F = layer (links A) roots e"
      using p lim(2) m f by (auto simp: mapped_def front_def)
    have "?keys \<subseteq> {k. \<exists>j \<in> F. links A j k}"
    proof
      fix k
      assume "k \<in> ?keys"
      then obtain s where "s \<in> set syms" "k = symbol_key s" by (rule imageE)
      moreover from new this(1) obtain x where "x \<in> A" "nb_symbol x = s" "nb_parent x \<in> F" by blast
      ultimately have "x \<in> A" "symbol_key (nb_symbol x) = k" "nb_parent x \<in> F" by simp_all
      then show "k \<in> {k. \<exists>j \<in> F. links A j k}"
        unfolding links_def answer_key_def by blast
    qed
    moreover have "?keys \<inter> set (iw_visited w) = {}" "set (iw_visited w') = set (iw_visited w) \<union> ?keys"
      using g by (auto simp: grows_def)
    ultimately show ?thesis
      using all p v F unfolding layer_Suc by blast
  qed
  have sums: "(\<Sum>i = 1..Suc e. length (at_depth (iw_by_depth w') i)) =
      (\<Sum>i = 1..e. length (at_depth (iw_by_depth w) i)) + length syms"
  proof -
    have "(\<Sum>i = 1..e. length (at_depth (iw_by_depth w') i)) = (\<Sum>i = 1..e. length (at_depth (iw_by_depth w) i))"
      by (rule sum.cong [OF refl]) (use d(2) in simp)
    with d(1) show ?thesis by simp
  qed
  show "front A roots (Suc e) (set (iw_next w')) w'"
    using reach exact g lim(3) by (auto simp: front_def grows_def)
  show "mapped env A roots (Suc e) w'"
    unfolding mapped_def
  proof (intro conjI)
    show "\<forall>i. distinct (map symbol_key (at_depth (iw_by_depth w') i)) \<and>
        (\<forall>s \<in> set (at_depth (iw_by_depth w') i). \<exists>r \<in> roots. (links A ^^ i) r (symbol_key s))"
    proof
      fix i
      consider "i = Suc e" | "i \<le> e" | "Suc e < i" by linarith
      then show "distinct (map symbol_key (at_depth (iw_by_depth w') i)) \<and>
        (\<forall>s \<in> set (at_depth (iw_by_depth w') i). \<exists>r \<in> roots. (links A ^^ i) r (symbol_key s))"
        using d m g reach by cases (simp_all add: mapped_def grows_def)
    qed
    show "\<not> iw_partial w' \<longrightarrow> set (iw_visited w') = upto_steps (links A) roots (Suc e) \<and>
        (\<forall>i \<in> {1..Suc e}. symbol_key ` set (at_depth (iw_by_depth w') i) = layer (links A) roots i)"
    proof (intro impI conjI ballI)
      assume p: "\<not> iw_partial w'"
      with lim(2) m have old: "\<forall>i \<in> {1..e}. symbol_key ` set (at_depth (iw_by_depth w) i) = layer (links A) roots i"
        by (auto simp: mapped_def)
      show "set (iw_visited w') = upto_steps (links A) roots (Suc e)"
        using exact [OF p] g unfolding upto_layer by (simp add: grows_def)
      show "symbol_key ` set (at_depth (iw_by_depth w') i) = layer (links A) roots i" if "i \<in> {1..Suc e}" for i
        using that old exact [OF p] d(1,2) by (cases "i = Suc e") simp_all
    qed
  qed (use d(3) m g lim(1) sums in \<open>auto simp: mapped_def grows_def\<close>)
qed

text \<open>Levels that add nothing, because the traversal has stopped or the last layer is empty.\<close>

lemma mapped_extend:
  assumes m: "mapped env A roots e w" and stuck: "\<not> iw_partial w \<longrightarrow> layer (links A) roots e = {}"
  shows "mapped env A roots (e + n) w"
proof -
  have none: "at_depth (iw_by_depth w) i = []" if "i > e" for i
    using m that unfolding mapped_def by (metis at_depth_None not_le)
  have sums: "(\<Sum>i = 1..e + n. length (at_depth (iw_by_depth w) i)) = (\<Sum>i = 1..e. length (at_depth (iw_by_depth w) i))"
    by (rule sum.mono_neutral_right) (use none in auto)
  have layers: "symbol_key ` set (at_depth (iw_by_depth w) i) = layer (links A) roots i"
    if "\<not> iw_partial w" "i \<in> {1..e + n}" for i
  proof (cases "i \<le> e")
    case True
    with m that show ?thesis by (simp add: mapped_def)
  next
    case False
    then obtain j where j: "i = Suc j" "e \<le> j" "e \<le> i" by (cases i) auto
    from that(1) stuck have e: "layer (links A) roots e = {}" by simp
    have "layer (links A) roots i = {}"
      using layer_empty [OF e j(2)] layer_empty [OF e j(3)] unfolding j(1) layer_within by simp
    with False none show ?thesis by simp
  qed
  have visited: "set (iw_visited w) = upto_steps (links A) roots (e + n)" if "\<not> iw_partial w"
    using m that stuck layer_empty [of "links A" roots e "e + n"] by (simp add: mapped_def)
  have keys: "\<forall>i. iw_by_depth w i \<noteq> None \<longrightarrow> 1 \<le> i \<and> i \<le> e + n \<and> at_depth (iw_by_depth w) i \<noteq> []"
    using m unfolding mapped_def by (meson trans_le_add1)
  show ?thesis
    unfolding mapped_def sums
    by (intro conjI) (use m layers visited keys in \<open>simp_all add: mapped_def\<close>)
qed

subsection \<open>The traversal\<close>

lemma fan_out:
  "0 \<le> m \<Longrightarrow> m < int (length (take (Suc (nat m)) rows)) \<longleftrightarrow> nat m < length rows"
  "\<not> nat m < length rows \<Longrightarrow> take (Suc (nat m)) rows = rows \<and> take (nat m) rows = rows"
  by auto

context neighbor_source
begin

definition passed :: "impact_env \<Rightarrow> string \<Rightarrow> neighbor set" where
  "passed env r = {x \<in> answers (ie_snapshots env) r (ie_direction env) (ie_confidence env). passes env x}"

lemma impact_ask_page:
  assumes "ie_store env = st" "r \<in> known_relations"
  shows "\<exists>rows. impact_ask env r F = Inr (take (Suc (nat (max_fanout (ie_limits env)))) rows) \<and>
    {x \<in> set rows. passes env x} = {x \<in> passed env r. nb_parent x \<in> set F}"
  using page [of "\<lparr>nq_snapshots = ie_snapshots env, nq_frontier = F, nq_relation = r,
        nq_direction = ie_direction env, nq_confidence = ie_confidence env, nq_offset = 0,
        nq_limit = nat (max_fanout (ie_limits env)) + 1\<rparr>"] assms
  by (auto simp: impact_ask_def passed_def)

lemma impact_relations_grows:
  assumes "ie_store env = st" "set rs \<subseteq> known_relations" "0 \<le> max_fanout (ie_limits env)"
    and "set (iw_seen w) \<subseteq> set (iw_visited w)" "within_limits env w"
  shows "\<exists>stop w' syms. impact_relations env d F rs w = Inr (stop, w') \<and> grows d syms w w' \<and>
    (\<forall>s \<in> set syms. \<exists>r \<in> set rs. \<exists>x \<in> passed env r. nb_symbol x = s \<and> nb_parent x \<in> set F) \<and>
    within_limits env w' \<and> (stop \<longrightarrow> iw_partial w') \<and> (iw_partial w \<longrightarrow> iw_partial w') \<and>
    (\<not> iw_partial w' \<longrightarrow> (\<forall>r \<in> set rs. \<forall>x \<in> passed env r. nb_parent x \<in> set F \<longrightarrow> answer_key x \<in> set (iw_visited w')))"
  using assms(2,4,5)
proof (induction rs arbitrary: w)
  case Nil
  then show ?case
    by (intro exI [of _ False] exI [of _ w] exI [of _ "[]"]) (simp add: grows_refl)
next
  case (Cons r rs)
  let ?fan = "nat (max_fanout (ie_limits env))"
  obtain rows where rows: "impact_ask env r F = Inr (take (Suc ?fan) rows)"
      "{x \<in> set rows. passes env x} = {x \<in> passed env r. nb_parent x \<in> set F}"
    using impact_ask_page [OF assms(1), of r F] Cons.prems(1) by auto
  define many where "many \<longleftrightarrow> length rows > ?fan"
  define w1 where "w1 = (if many then impact_stop ''fanout_limit'' d w else w)"
  obtain stop w' where nb: "impact_neighbors env d (take ?fan rows) w1 = (stop, w')"
    by fastforce
  have step: "impact_relations env d F (r # rs) w =
      (if stop then Inr (True, w') else impact_relations env d F rs w')"
  proof (cases many)
    case True
    with nb fan_out(1) [OF assms(3), of rows] fan_out(2) show ?thesis
      by (simp add: or_fail_def rows(1) w1_def many_def)
  next
    case False
    with nb fan_out(1) [OF assms(3), of rows] fan_out(2) show ?thesis
      by (simp add: or_fail_def rows(1) w1_def many_def)
  qed
  have w1: "set (iw_seen w1) \<subseteq> set (iw_visited w1)" "within_limits env w1" "grows d [] w w1"
      "iw_partial w1 \<longleftrightarrow> iw_partial w \<or> many"
    using Cons.prems(2,3) by (auto simp: w1_def impact_stop_def within_limits_def intro: grows_refl)
  obtain syms where s: "grows d syms w1 w'" "set syms \<subseteq> {nb_symbol x |x. x \<in> set (take ?fan rows) \<and> passes env x}"
      "within_limits env w'" "stop \<longrightarrow> iw_partial w'" "iw_partial w1 \<longrightarrow> iw_partial w'"
      "\<not> iw_partial w' \<longrightarrow> {answer_key x |x. x \<in> set (take ?fan rows) \<and> passes env x} \<subseteq> set (iw_visited w')"
    using impact_neighbors_grows [OF nb w1(1,2)] by blast
  have g: "grows d syms w w'"
    using grows_trans [OF w1(3) s(1)] by simp
  have from_r: "\<exists>x \<in> passed env r. nb_symbol x = y \<and> nb_parent x \<in> set F" if "y \<in> set syms" for y
    using s(2) rows(2) that set_take_subset [of ?fan rows] by blast
  have all_r: "answer_key x \<in> set (iw_visited w')"
    if "\<not> iw_partial w'" "x \<in> passed env r" "nb_parent x \<in> set F" for x
  proof -
    from that(1) s(5) w1(4) have "take ?fan rows = rows" by (auto simp: many_def)
    with that s(6) rows(2) show ?thesis by auto
  qed
  show ?case
  proof (cases stop)
    case True
    with step g s(3,4) from_r show ?thesis
      by (intro exI [of _ True] exI [of _ w'] exI [of _ syms]) auto
  next
    case False
    have w': "set (iw_seen w') \<subseteq> set (iw_visited w')"
      using g Cons.prems(2) by (auto simp: grows_def)
    obtain stop2 w2 syms2 where i: "impact_relations env d F rs w' = Inr (stop2, w2)" "grows d syms2 w' w2"
      "\<forall>s \<in> set syms2. \<exists>r \<in> set rs. \<exists>x \<in> passed env r. nb_symbol x = s \<and> nb_parent x \<in> set F"
      "within_limits env w2" "stop2 \<longrightarrow> iw_partial w2" "iw_partial w' \<longrightarrow> iw_partial w2"
      "\<not> iw_partial w2 \<longrightarrow> (\<forall>r \<in> set rs. \<forall>x \<in> passed env r. nb_parent x \<in> set F \<longrightarrow> answer_key x \<in> set (iw_visited w2))"
      using Cons.IH [OF _ w' s(3)] Cons.prems(1) by auto
    have "set (iw_visited w') \<subseteq> set (iw_visited w2)"
      using i(2) by (auto simp: grows_def)
    moreover have "iw_partial w \<longrightarrow> iw_partial w2"
      using w1(4) s(5) i(6) by blast
    moreover have "\<forall>y \<in> set (syms @ syms2). \<exists>q \<in> set (r # rs). \<exists>x \<in> passed env q. nb_symbol x = y \<and> nb_parent x \<in> set F"
      using from_r i(3) by auto
    ultimately show ?thesis
      using False step i(1,4,5,6,7) all_r grows_trans [OF g i(2)]
      by (intro exI [of _ stop2] exI [of _ w2] exI [of _ "syms @ syms2"]) auto
  qed
qed

lemma impact_levels_mapped:
  assumes "ie_store env = st" "set rels \<subseteq> known_relations" "0 \<le> max_fanout (ie_limits env)"
    and "A = (\<Union>r \<in> set rels. passed env r)"
    and "mapped env A roots e w" "front A roots e (set F) w"
  shows "\<exists>w'. impact_levels env rels n (Suc e) F w = Inr w' \<and> mapped env A roots (e + n) w'"
  using assms(5,6)
proof (induction n arbitrary: e F w)
  case (Suc n)
  show ?case
  proof (cases "F = []")
    case True
    with Suc.prems have "mapped env A roots (e + Suc n) w"
      by (intro mapped_extend) (simp_all add: front_def)
    with True show ?thesis by simp
  next
    case False
    let ?w = "w\<lparr>iw_next := [], iw_seen := []\<rparr>"
    have m: "mapped env A roots e ?w" and f: "front A roots e (set F) ?w"
      using Suc.prems by (simp_all add: front_def)
    obtain stop w' syms where r: "impact_relations env (Suc e) F rels ?w = Inr (stop, w')" "grows (Suc e) syms ?w w'"
      "\<forall>s \<in> set syms. \<exists>r \<in> set rels. \<exists>x \<in> passed env r. nb_symbol x = s \<and> nb_parent x \<in> set F"
      "within_limits env w'" "stop \<longrightarrow> iw_partial w'" "iw_partial ?w \<longrightarrow> iw_partial w'"
      "\<not> iw_partial w' \<longrightarrow> (\<forall>r \<in> set rels. \<forall>x \<in> passed env r. nb_parent x \<in> set F \<longrightarrow> answer_key x \<in> set (iw_visited w'))"
      using impact_relations_grows [OF assms(1-3), of ?w "Suc e" F] m by (auto simp: mapped_def)
    have from_A: "\<forall>s \<in> set syms. \<exists>x \<in> A. nb_symbol x = s \<and> nb_parent x \<in> set F"
      using r(3) unfolding assms(4) by blast
    have all_A: "\<not> iw_partial w' \<longrightarrow> {k. \<exists>j \<in> set F. links A j k} \<subseteq> set (iw_visited w')"
      using r(7) unfolding assms(4) links_def by blast
    have next_level: "mapped env A roots (Suc e) w'" "front A roots (Suc e) (set (iw_next w')) w'"
      using mapped_next [OF m f r(2) from_A r(4,6) _ all_A] by simp_all
    show ?thesis
    proof (cases stop)
      case True
      with r(5) mapped_extend [OF next_level(1), of n] have "mapped env A roots (e + Suc n) w'" by simp
      with True False r(1) show ?thesis by (simp add: or_fail_def)
    next
      case False': False
      with Suc.IH [OF next_level] False r(1) show ?thesis by (simp add: or_fail_def)
    qed
  qed
qed simp

end

subsection \<open>The response\<close>

definition paged :: "impact_request \<Rightarrow> nat \<Rightarrow> symbol list \<Rightarrow> symbol list" where
  "paged rq page syms = (if ir_summary rq then [] else take page (drop (nat (ir_offset rq)) syms))"

lemma page_depth_fields:
  assumes "0 \<le> ir_offset rq"
  shows "im_by_depth (page_depth rq page d r) = (im_by_depth r)(d \<mapsto> paged rq page (at_depth (im_by_depth r) d))"
    "im_partial (page_depth rq page d r) \<longleftrightarrow>
       im_partial r \<or> length (drop (nat (ir_offset rq)) (at_depth (im_by_depth r) d)) > page"
    "im_edges (page_depth rq page d r) = im_edges r" "im_status (page_depth rq page d r) = im_status r"
proof -
  have "ir_offset rq \<ge> int (length xs) \<longleftrightarrow> length xs - nat (ir_offset rq) = 0" for xs :: "symbol list"
    using assms by linarith
  then show "im_by_depth (page_depth rq page d r) = (im_by_depth r)(d \<mapsto> paged rq page (at_depth (im_by_depth r) d))"
    "im_partial (page_depth rq page d r) \<longleftrightarrow>
       im_partial r \<or> length (drop (nat (ir_offset rq)) (at_depth (im_by_depth r) d)) > page"
    "im_edges (page_depth rq page d r) = im_edges r" "im_status (page_depth rq page d r) = im_status r"
    by (auto simp: page_depth_def paged_def Let_def)
qed

lemma page_depths_fields:
  assumes "0 \<le> ir_offset rq" "distinct ks" "r' = foldl (\<lambda>r d. page_depth rq page d r) r ks"
  shows "(\<forall>i. im_by_depth r' i = (if i \<in> set ks then Some (paged rq page (at_depth (im_by_depth r) i)) else im_by_depth r i)) \<and>
    (im_partial r' \<longleftrightarrow> im_partial r \<or> (\<exists>d \<in> set ks. length (drop (nat (ir_offset rq)) (at_depth (im_by_depth r) d)) > page)) \<and>
    im_edges r' = im_edges r \<and> im_status r' = im_status r"
  using assms(2,3)
proof (induction ks arbitrary: r)
  case (Cons k ks)
  note step = page_depth_fields [OF assms(1), of page k r]
  let ?r = "page_depth rq page k r"
  have same: "at_depth (im_by_depth ?r) d = at_depth (im_by_depth r) d" if "d \<in> set ks" for d
    using that Cons.prems(1) step(1) by (auto simp: at_depth_def)
  have new: "k \<notin> set ks" "distinct ks" "r' = foldl (\<lambda>r d. page_depth rq page d r) ?r ks"
    using Cons.prems by simp_all
  note IH = Cons.IH [OF new(2,3)]
  have by_depth: "im_by_depth r' i =
      (if i \<in> set (k # ks) then Some (paged rq page (at_depth (im_by_depth r) i)) else im_by_depth r i)" for i
    using IH [THEN conjunct1, rule_format, of i] same [of i] new(1)
    by (cases "i = k") (simp_all add: step(1))
  have "(\<exists>d \<in> set ks. length (drop (nat (ir_offset rq)) (at_depth (im_by_depth ?r) d)) > page) \<longleftrightarrow>
      (\<exists>d \<in> set ks. length (drop (nat (ir_offset rq)) (at_depth (im_by_depth r) d)) > page)"
    using same by (auto simp del: length_drop)
  with IH step(2) have "im_partial r' \<longleftrightarrow>
      im_partial r \<or> (\<exists>d \<in> set (k # ks). length (drop (nat (ir_offset rq)) (at_depth (im_by_depth r) d)) > page)"
    by (simp del: length_drop)
  with IH by_depth step(3,4) show ?case
    by simp
qed simp

lemma selected_relations_known: "selected_relations requested = Inr rels \<Longrightarrow> set rels \<subseteq> known_relations"
proof -
  have "relations_loop rs out = Inr rels \<Longrightarrow> set out \<subseteq> known_relations \<Longrightarrow> set rels \<subseteq> known_relations" for rs out
    by (induction rs arbitrary: out) (auto simp: known_relations_def split: if_split_asm)
  then show "selected_relations requested = Inr rels \<Longrightarrow> set rels \<subseteq> known_relations"
    by (fastforce simp: selected_relations_def known_relations_def split: if_split_asm)
qed

definition impact_levels_of :: "graph_service \<Rightarrow> impact_request \<Rightarrow> nat" where
  "impact_levels_of sv rq =
     (let l = service_limits (gv_limits sv) in nat (min (impact_depth l (ir_depth rq)) (max_depth l)))"

text \<open>The order in which the keys of a map are visited is some permutation of them.\<close>

definition permutes_keys :: "graph_service \<Rightarrow> bool" where
  "permutes_keys sv \<longleftrightarrow> (\<forall>ks. distinct ks \<longrightarrow> distinct (gv_visit sv ks) \<and> set (gv_visit sv ks) = set ks)"

definition impact_env_of :: "graph_service \<Rightarrow> impact_request \<Rightarrow> ready_scope \<Rightarrow> symbol list \<Rightarrow> impact_env" where
  "impact_env_of sv rq rd targets =
     \<lparr>ie_store = gv_store sv, ie_snapshots = query_snapshots rd False,
      ie_direction = impact_direction (ir_direction rq), ie_confidence = ir_confidence rq,
      ie_tests = ir_tests rq, ie_limits = service_limits (gv_limits sv), ie_targets = length targets\<rparr>"

lemma start_walk_mapped:
  "mapped (impact_env_of sv rq rd [s]) A {symbol_key s} 0 (start_walk [s] bs part)"
  "front A {symbol_key s} 0 {symbol_key s} (start_walk [s] bs part)"
  by (auto simp: mapped_def front_def start_walk_def impact_env_of_def at_depth_def within_limits_def service_limits_def bounded_def)

context neighbor_source
begin

lemma impact_response:
  assumes "gv_store sv = st" "permutes_keys sv" "impact sv rq = Inr r" "im_status r = StatusFound"
  obtains rd s rels w where "ready sv (ir_scope rq) = Inr rd" "lookup_symbols sv rd (ir_target rq) = Inr [s]"
    "selected_relations (ir_relations rq) = Inr rels"
    "mapped (impact_env_of sv rq rd [s]) (\<Union>q \<in> set rels. passed (impact_env_of sv rq rd [s]) q) {symbol_key s}
       (impact_levels_of sv rq) w"
    "im_edges r = iw_edges w" "\<And>d. d \<in> {1..impact_levels_of sv rq} \<Longrightarrow>
       at_depth (im_by_depth r) d = paged rq (nat (bounded (ir_limit rq) (max_nodes (service_limits (gv_limits sv))))) (at_depth (iw_by_depth w) d)"
    "\<And>d. im_by_depth r d \<noteq> None \<Longrightarrow> d \<in> {1..impact_levels_of sv rq}"
    "\<not> im_partial r \<Longrightarrow> \<not> iw_partial w"
    "\<And>d. \<not> im_partial r \<Longrightarrow> d \<in> {1..impact_levels_of sv rq} \<Longrightarrow> length (drop (nat (ir_offset rq)) (at_depth (iw_by_depth w) d)) \<le>
       nat (bounded (ir_limit rq) (max_nodes (service_limits (gv_limits sv))))"
proof -
  define l where "l = service_limits (gv_limits sv)"
  define depth where "depth = impact_levels_of sv rq"
  define page where "page = nat (bounded (ir_limit rq) (max_nodes l))"
  obtain rd where rd: "ready sv (ir_scope rq) = Inr rd" "rd_snapshots rd \<noteq> []" "0 \<le> ir_offset rq"
    using assms(3,4) unfolding impact_def or_fail_def Let_def by (auto split: sum.splits if_splits)
  obtain rels targets bs deep w where run: "selected_relations (ir_relations rq) = Inr rels"
      "lookup_symbols sv rd (ir_target rq) = Inr targets" "length targets \<le> 1"
      "impact_levels (impact_env_of sv rq rd targets) rels depth 1 (map symbol_key targets) (start_walk targets bs deep) = Inr w"
      "r = foldl (\<lambda>r d. page_depth rq page d r)
         \<lparr>im_status = (if targets = [] then StatusNotFound else StatusFound), im_candidates = [], im_by_depth = iw_by_depth w,
          im_edges = iw_edges w, im_boundaries = iw_boundaries w, im_commits = rd_commits rd, im_partial = iw_partial w\<rparr>
         (gv_visit sv (depth_keys (iw_by_depth w) depth))"
    using assms(3,4) rd unfolding impact_def or_fail_def impact_env_of_def depth_def impact_levels_of_def page_def l_def Let_def
    by (auto split: sum.splits if_splits)
  let ?r = "\<lparr>im_status = (if targets = [] then StatusNotFound else StatusFound), im_candidates = [], im_by_depth = iw_by_depth w,
          im_edges = iw_edges w, im_boundaries = iw_boundaries w, im_commits = rd_commits rd, im_partial = iw_partial w\<rparr>"
  let ?ks = "depth_keys (iw_by_depth w) depth"
  have "distinct ?ks" by (simp add: depth_keys_def)
  then have visit: "distinct (gv_visit sv ?ks)" "set (gv_visit sv ?ks) = {d \<in> {1..depth}. iw_by_depth w d \<noteq> None}"
    using assms(2) by (auto simp: permutes_keys_def depth_keys_def)
  note pages = page_depths_fields [OF rd(3) visit(1) run(5), unfolded visit(2)]
  from assms(4) pages have "targets \<noteq> []" by auto
  with run(3) obtain s where s: "targets = [s]"
    by (cases targets) auto
  let ?env = "impact_env_of sv rq rd [s]" and ?A = "\<Union>q \<in> set rels. passed (impact_env_of sv rq rd [s]) q"
  have "ie_store ?env = st" "0 \<le> max_fanout (ie_limits ?env)"
    using assms(1) by (simp_all add: impact_env_of_def)
  from impact_levels_mapped [OF this(1) selected_relations_known [OF run(1)] this(2) refl start_walk_mapped(1) [where bs = bs and part = deep],
      where F = "[symbol_key s]" and n = depth] run(4) start_walk_mapped(2)
  have m: "mapped ?env ?A {symbol_key s} depth w"
    by (auto simp: s)
  have listed: "at_depth (im_by_depth r) d = paged rq page (at_depth (iw_by_depth w) d)" if "d \<in> {1..depth}" for d
    using pages [THEN conjunct1, rule_format, of d] that
    by (cases "iw_by_depth w d") (simp_all add: at_depth_def paged_def)
  have keys: "d \<in> {1..depth}" if "im_by_depth r d \<noteq> None" for d
    using pages [THEN conjunct1, rule_format, of d] that m
    by (cases "iw_by_depth w d") (auto simp: mapped_def split: if_splits)
  have full: "\<not> iw_partial w \<and> (\<forall>d \<in> {1..depth}. length (drop (nat (ir_offset rq)) (at_depth (iw_by_depth w) d)) \<le> page)"
    if "\<not> im_partial r"
  proof -
    from that pages have "\<not> iw_partial w"
      and some: "\<forall>d \<in> {d \<in> {1..depth}. iw_by_depth w d \<noteq> None}. \<not> length (drop (nat (ir_offset rq)) (at_depth (iw_by_depth w) d)) > page"
      by auto
    moreover have "length (drop (nat (ir_offset rq)) (at_depth (iw_by_depth w) d)) \<le> page" if "d \<in> {1..depth}" for d
      using that some by (cases "iw_by_depth w d") auto
    ultimately show ?thesis by blast
  qed
  show thesis
  proof (rule that [OF rd(1) run(2) [unfolded s] run(1) m [unfolded depth_def]])
    show "im_edges r = iw_edges w" using pages by simp
  qed (use listed keys full in \<open>simp_all only: depth_def page_def l_def, blast+\<close>)
qed

end

end
