(* ===== verification/Graph_Tables.thy ===== *)
theory Graph_Tables
  imports Graph_Store
begin

text \<open>
  Storing graphs: a validated artifact meets every constraint of the graph tables, so replacing a
  graph keeps them, and what was stored is loaded back unchanged, as are all older generations.
\<close>

subsection \<open>What validation guarantees\<close>

text \<open>\<open>artifact_text\<close>: the server can store the strings of the artifact, and their index entries.\<close>

definition artifact_text :: "text_server \<Rightarrow> graph_artifact \<Rightarrow> bool" where
  "artifact_text srv a \<longleftrightarrow> storable srv (fst (art_analyzer a)) \<and> storable srv (snd (art_analyzer a)) \<and>
     (\<forall>n \<in> set (art_nodes a). index_entry srv [an_uid n] \<and>
        list_all (storable srv) [an_uid n, an_path n, an_language n, an_symbol_kind n, an_name n, an_signature n, an_scip n]) \<and>
     (\<forall>e \<in> set (art_edges a). index_entry srv [ae_source e, ae_target e, ae_path e] \<and>
        index_entry srv [ae_target e, ae_source e] \<and> index_entry srv [ae_source e, ae_target e] \<and>
        list_all (storable srv) [ae_source e, ae_target e, ae_path e, ae_reason e])"

lemma valid_commit_sha: "valid_commit s \<longleftrightarrow> is_sha s"
  by (auto simp: valid_commit_def is_sha_def list_all_iff is_digit_def)

lemma valid_range_check: "valid_range p \<Longrightarrow> range_check p"
  by (auto simp: valid_range_def range_check_def)

lemma validate_nodes_facts:
  "validate_nodes l seen ns \<Longrightarrow>
     list_all (\<lambda>n. valid_node n l) ns \<and> distinct (map an_uid ns) \<and> set (map an_uid ns) \<inter> set seen = {}"
  by (induction l seen ns rule: validate_nodes.induct) (auto split: if_splits)

lemma validate_edges_facts:
  "validate_edges l uids seen es \<Longrightarrow>
     list_all (\<lambda>e. valid_edge e l \<and> ae_source e \<in> set uids \<and> ae_target e \<in> set uids) es \<and>
     distinct (map edge_key es) \<and> set (map edge_key es) \<inter> set seen = {}"
  by (induction l uids seen es rule: validate_edges.induct) (auto split: if_splits)

lemma validate_facts:
  assumes "validate a l"
  shows "art_schema a = 1" "is_sha (art_commit a)" "length (art_hash a) = 32" "distinct (map an_uid (art_nodes a))"
    "distinct (map edge_key (art_edges a))"
    "\<forall>e \<in> set (art_edges a). ae_source e \<in> an_uid ` set (art_nodes a) \<and> ae_target e \<in> an_uid ` set (art_nodes a)"
    "\<exists>l'. \<forall>n \<in> set (art_nodes a). valid_node n l'" "\<exists>l'. \<forall>e \<in> set (art_edges a). valid_edge e l'"
proof -
  obtain l' where l': "art_schema a = 1 \<and> valid_commit (art_commit a) \<and> length (art_hash a) = 32 \<and>
      validate_nodes l' [] (art_nodes a) \<and> validate_edges l' (map an_uid (art_nodes a)) [] (art_edges a)"
    using assms unfolding validate_def by (auto split: prod.splits if_splits)
  then show "art_schema a = 1" "is_sha (art_commit a)" "length (art_hash a) = 32"
    by (simp_all add: valid_commit_sha)
  from l' validate_nodes_facts validate_edges_facts
  have "list_all (\<lambda>n. valid_node n l') (art_nodes a)" "distinct (map an_uid (art_nodes a))"
    "list_all (\<lambda>e. valid_edge e l' \<and> ae_source e \<in> set (map an_uid (art_nodes a)) \<and> ae_target e \<in> set (map an_uid (art_nodes a))) (art_edges a)"
    "distinct (map edge_key (art_edges a))" by blast+
  then show "distinct (map an_uid (art_nodes a))" "distinct (map edge_key (art_edges a))"
    "\<forall>e \<in> set (art_edges a). ae_source e \<in> an_uid ` set (art_nodes a) \<and> ae_target e \<in> an_uid ` set (art_nodes a)"
    "\<exists>l'. \<forall>n \<in> set (art_nodes a). valid_node n l'" "\<exists>l'. \<forall>e \<in> set (art_edges a). valid_edge e l'"
    by (auto simp: list_all_iff)
qed

lemma validated_rows:
  assumes "validate a l" "artifact_text srv a"
  shows "\<forall>n \<in> set (art_nodes a). node_check srv n" "\<forall>e \<in> set (art_edges a). edge_check srv e"
proof -
  obtain ln le where v: "\<forall>n \<in> set (art_nodes a). valid_node n ln" "\<forall>e \<in> set (art_edges a). valid_edge e le"
    using validate_facts(7,8) [OF assms(1)] by blast
  show "\<forall>n \<in> set (art_nodes a). node_check srv n"
    using v(1) assms(2)
    by (auto simp: node_check_def valid_node_def valid_node_kind_def artifact_text_def intro: valid_range_check)
  show "\<forall>e \<in> set (art_edges a). edge_check srv e"
    using v(2) assms(2)
    by (auto simp: edge_check_def valid_edge_def valid_edge_kind_def artifact_text_def intro: valid_range_check)
qed

subsection \<open>The statements of a replacement\<close>

definition graph_fresh :: "graph_db \<Rightarrow> bool" where
  "graph_fresh gd \<longleftrightarrow> 1 \<le> next_upload gd \<and> (\<forall>u \<in> set (uploads gd). u_id u < next_upload gd)"

lemma distinct_filter_update:
  assumes "\<forall>u. P (f u) \<longrightarrow> f u = u" "distinct (map g (filter P us))"
  shows "distinct (map g (filter P (map f us))) \<and> set (filter P (map f us)) \<subseteq> set (filter P us)"
  using assms(2)
proof (induction us)
  case (Cons u us)
  show ?case
  proof (cases "P (f u)")
    case True
    with assms(1) have "f u = u" by blast
    with True Cons show ?thesis by (auto split: if_splits)
  next
    case False
    with Cons show ?thesis by (auto split: if_splits)
  qed
qed simp

lemma current_upload_Some:
  assumes "current_upload gd i = Some c"
  shows "c \<in> set (uploads gd)" "u_repository c = i" "u_active c" "u_schema c = 1"
  using assms by (auto simp: current_upload_def find_Some_iff)

lemma retire_uploads:
  "uploads (retire current gd) = map (\<lambda>u. if \<exists>c. current = Some c \<and> u_id u = u_id c then u\<lparr>u_active := False\<rparr> else u) (uploads gd)"
  "graph_nodes (retire current gd) = graph_nodes gd" "graph_edges (retire current gd) = graph_edges gd"
  "next_upload (retire current gd) = next_upload gd" "next_node (retire current gd) = next_node gd"
  "next_edge (retire current gd) = next_edge gd"
  by (auto simp: retire_def map_idI split: option.splits)

lemma retire_keeps: "upload_ids (retire current gd) = upload_ids gd" "map u_id (uploads (retire current gd)) = map u_id (uploads gd)"
  by (auto simp: upload_ids_def retire_uploads)

lemma retire_constraints:
  assumes "graph_constraints srv gd"
  shows "graph_constraints srv (retire current gd)"
proof -
  let ?f = "\<lambda>u. if \<exists>c. current = Some c \<and> u_id u = u_id c then u\<lparr>u_active := False\<rparr> else u"
  have f: "\<forall>u. (u_active (?f u) \<and> u_schema (?f u) = n) \<longrightarrow> ?f u = u" for n
    by auto
  have us: "uploads_ok srv (uploads gd)" using assms by (simp add: graph_constraints_def)
  have "distinct (map u_repository (filter (\<lambda>u. u_active u \<and> u_schema u = 1) (map ?f (uploads gd))))"
    by (rule distinct_filter_update [OF f, THEN conjunct1]) (use us in \<open>simp only: uploads_ok_def\<close>)
  moreover have "distinct (map (\<lambda>u. (u_repository u, u_source u)) (filter (\<lambda>u. u_active u \<and> u_schema u = 2) (map ?f (uploads gd))))"
    by (rule distinct_filter_update [OF f, THEN conjunct1]) (use us in \<open>simp only: uploads_ok_def\<close>)
  moreover have "list_all (upload_check srv) (map ?f (uploads gd))"
    using us by (auto simp: uploads_ok_def list_all_iff upload_check_def)
  moreover have "distinct (map u_id (map ?f (uploads gd)))"
    using us retire_keeps(2) [of current gd] by (simp only: uploads_ok_def retire_uploads)
  ultimately have "uploads_ok srv (uploads (retire current gd))"
    unfolding uploads_ok_def retire_uploads by blast
  with assms show ?thesis
    by (simp add: graph_constraints_def retire_keeps retire_uploads(2,3))
qed

lemma retire_none:
  assumes "graph_constraints srv gd" "u \<in> set (uploads (retire (current_upload gd i) gd))"
  shows "\<not> (u_repository u = i \<and> u_active u \<and> u_schema u = 1)"
proof
  assume u: "u_repository u = i \<and> u_active u \<and> u_schema u = 1"
  from assms(2) obtain v where v: "v \<in> set (uploads gd)"
      "u = (if \<exists>c. current_upload gd i = Some c \<and> u_id v = u_id c then v\<lparr>u_active := False\<rparr> else v)"
    unfolding retire_uploads set_map by blast
  have "\<not> (\<exists>c. current_upload gd i = Some c \<and> u_id v = u_id c)"
  proof
    assume "\<exists>c. current_upload gd i = Some c \<and> u_id v = u_id c"
    with v(2) have "u = v\<lparr>u_active := False\<rparr>" by (simp only: if_True)
    with u show False by simp
  qed
  with v have u': "u \<in> set (uploads gd)" "\<forall>c. current_upload gd i = Some c \<longrightarrow> u_id u \<noteq> u_id c"
    by simp_all
  have "current_upload gd i \<noteq> None"
    using u u'(1) unfolding current_upload_def find_None_iff by blast
  then obtain c where c: "current_upload gd i = Some c" by blast
  from assms(1) have "inj_on u_repository (set (filter (\<lambda>u. u_active u \<and> u_schema u = 1) (uploads gd)))"
    by (simp add: graph_constraints_def uploads_ok_def distinct_map)
  then have "u = c"
    using u u'(1) current_upload_Some [OF c] by (auto simp: inj_on_def)
  with u'(2) c show False by simp
qed

lemma insert_upload_constraints:
  assumes "graph_constraints srv gd" "upload_check srv u" "u_schema u = 1" "\<forall>v \<in> set (uploads gd). u_id v \<noteq> u_id u"
    and "\<forall>v \<in> set (uploads gd). \<not> (u_repository v = u_repository u \<and> u_active v \<and> u_schema v = 1)"
  shows "graph_constraints srv (insert_upload u gd)"
  using assms
  by (auto simp: graph_constraints_def uploads_ok_def nodes_ok_def edges_ok_def upload_ids_def insert_upload_def list_all_iff)

lemma map_enumerate:
  assumes "\<And>k x. h (g k x) = f x"
  shows "map h (map (\<lambda>(k, x). g k x) (enumerate n xs)) = map f xs"
  by (induction xs arbitrary: n) (simp_all add: assms)

lemma copied_nodes:
  "graph_nodes (copy_nodes i ns gd) = graph_nodes gd @ map (\<lambda>(k, n). \<lparr>n_id = next_node gd + int k, n_upload = i, n_node = n\<rparr>) (enumerate 0 ns)"
  "uploads (copy_nodes i ns gd) = uploads gd" "graph_edges (copy_nodes i ns gd) = graph_edges gd"
  "next_upload (copy_nodes i ns gd) = next_upload gd" "next_edge (copy_nodes i ns gd) = next_edge gd"
  by (simp_all add: copy_nodes_def)

lemma copied_edges:
  "graph_edges (copy_edges i es gd) = graph_edges gd @ map (\<lambda>(k, e). \<lparr>ge_id = next_edge gd + int k, ge_upload = i, ge_edge = e\<rparr>) (enumerate 0 es)"
  "uploads (copy_edges i es gd) = uploads gd" "graph_nodes (copy_edges i es gd) = graph_nodes gd"
  "next_upload (copy_edges i es gd) = next_upload gd"
  by (simp_all add: copy_edges_def)

lemma copy_nodes_constraints:
  assumes "graph_constraints srv gd" "\<forall>n \<in> set ns. node_check srv n" "distinct (map an_uid ns)"
    and "(i, 1) \<in> set (upload_ids gd)" "\<forall>n \<in> set (graph_nodes gd). n_upload n \<noteq> i"
  shows "graph_constraints srv (copy_nodes i ns gd)"
proof -
  let ?new = "map (\<lambda>(k, n). \<lparr>n_id = next_node gd + int k, n_upload = i, n_node = n\<rparr>) (enumerate 0 ns)"
  have keys: "map node_key ?new = map (\<lambda>n. (i, an_uid n)) ns"
    by (rule map_enumerate) (simp add: node_key_def)
  have "distinct (map (\<lambda>n. (i, an_uid n)) ns)"
    using assms(3) by (auto simp: distinct_map inj_on_def)
  moreover have "list_all (\<lambda>n. node_check srv (n_node n) \<and> (n_upload n, 1) \<in> set (upload_ids gd)) ?new"
    using assms(2,4) by (auto simp: list_all_iff in_set_enumerate_eq)
  moreover have "set (map node_key (graph_nodes gd)) \<inter> set (map (\<lambda>n. (i, an_uid n)) ns) = {}"
    using assms(5) by (auto simp: node_key_def)
  ultimately have "nodes_ok srv (upload_ids gd) (graph_nodes gd @ ?new)"
    using assms(1) keys unfolding nodes_ok_def graph_constraints_def by simp
  with assms(1) show ?thesis
    unfolding graph_constraints_def by (auto simp: copied_nodes upload_ids_def edges_ok_def list_all_iff)
qed

lemma copy_edges_constraints:
  assumes "graph_constraints srv gd" "\<forall>e \<in> set es. edge_check srv e" "distinct (map edge_key es)"
    and "(i, 1) \<in> set (upload_ids gd)" "\<forall>e \<in> set (graph_edges gd). ge_upload e \<noteq> i"
    and "\<forall>e \<in> set es. (i, ae_source e) \<in> set (map node_key (graph_nodes gd)) \<and> (i, ae_target e) \<in> set (map node_key (graph_nodes gd))"
  shows "graph_constraints srv (copy_edges i es gd)"
proof -
  let ?new = "map (\<lambda>(k, e). \<lparr>ge_id = next_edge gd + int k, ge_upload = i, ge_edge = e\<rparr>) (enumerate 0 es)"
  let ?key = "\<lambda>e. (ge_upload e, edge_key (ge_edge e))"
  have keys: "map ?key ?new = map (\<lambda>e. (i, edge_key e)) es"
    by (rule map_enumerate) simp
  have "distinct (map (\<lambda>e. (i, edge_key e)) es)"
    using assms(3) by (auto simp: distinct_map inj_on_def)
  moreover have "list_all (\<lambda>e. edge_check srv (ge_edge e) \<and> (ge_upload e, 1) \<in> set (upload_ids gd) \<and>
       (ge_upload e, ae_source (ge_edge e)) \<in> set (map node_key (graph_nodes gd)) \<and>
       (ge_upload e, ae_target (ge_edge e)) \<in> set (map node_key (graph_nodes gd))) ?new"
    using assms(2,4,6) by (auto simp: list_all_iff in_set_enumerate_eq)
  moreover have "set (map ?key (graph_edges gd)) \<inter> set (map (\<lambda>e. (i, edge_key e)) es) = {}"
    using assms(5) by auto
  ultimately have "edges_ok srv (upload_ids gd) (graph_nodes gd) (graph_edges gd @ ?new)"
    using assms(1) keys unfolding edges_ok_def graph_constraints_def by simp
  with assms(1) show ?thesis
    unfolding graph_constraints_def by (simp add: copied_edges upload_ids_def)
qed

subsection \<open>The replacement\<close>

lemma copied_text:
  assumes "graph_constraints srv (copy_edges i (art_edges a) (copy_nodes i (art_nodes a) (insert_upload u gd)))"
    and "u_analyzer u = art_analyzer a"
  shows "artifact_text srv a"
proof -
  let ?gd = "copy_edges i (art_edges a) (copy_nodes i (art_nodes a) (insert_upload u gd))"
  have c: "uploads_ok srv (uploads ?gd)" "nodes_ok srv (upload_ids ?gd) (graph_nodes ?gd)"
      "edges_ok srv (upload_ids ?gd) (graph_nodes ?gd) (graph_edges ?gd)"
    using assms(1) unfolding graph_constraints_def by blast+
  have "upload_check srv u"
    using c(1) by (simp add: uploads_ok_def copied_edges copied_nodes insert_upload_def)
  moreover have "node_check srv n" if "n \<in> set (art_nodes a)" for n
  proof -
    have "n \<in> set (map n_node (graph_nodes ?gd))"
      unfolding copied_edges copied_nodes map_append
      using that by (subst map_enumerate [where f = "\<lambda>x. x"]) simp_all
    with c(2) show ?thesis by (auto simp: nodes_ok_def list_all_iff)
  qed
  moreover have "edge_check srv e" if "e \<in> set (art_edges a)" for e
  proof -
    have "e \<in> set (map ge_edge (graph_edges ?gd))"
      unfolding copied_edges map_append
      using that by (subst map_enumerate [where f = "\<lambda>x. x"]) simp_all
    with c(3) show ?thesis by (auto simp: edges_ok_def list_all_iff)
  qed
  ultimately show ?thesis
    using assms(2) by (simp add: artifact_text_def upload_check_def node_check_def edge_check_def)
qed

lemma constraints_refs:
  assumes "graph_constraints srv gd"
  shows "n \<in> set (graph_nodes gd) \<Longrightarrow> n_upload n \<in> u_id ` set (uploads gd)"
    "e \<in> set (graph_edges gd) \<Longrightarrow> ge_upload e \<in> u_id ` set (uploads gd)"
  using assms by (auto simp: graph_constraints_def nodes_ok_def edges_ok_def list_all_iff upload_ids_def)

lemma new_rows_sorted:
  "sort_key n_id (map (\<lambda>(k, n). \<lparr>n_id = b + int k, n_upload = i, n_node = n\<rparr>) (enumerate m ns)) =
     map (\<lambda>(k, n). \<lparr>n_id = b + int k, n_upload = i, n_node = n\<rparr>) (enumerate m ns)"
  "sort_key ge_id (map (\<lambda>(k, e). \<lparr>ge_id = b + int k, ge_upload = i, ge_edge = e\<rparr>) (enumerate m es)) =
     map (\<lambda>(k, e). \<lparr>ge_id = b + int k, ge_upload = i, ge_edge = e\<rparr>) (enumerate m es)"
proof -
  have ids: "map n_id (map (\<lambda>(k, n). \<lparr>n_id = b + int k, n_upload = i, n_node = n\<rparr>) (enumerate m ns)) = map (\<lambda>k. b + int k) [m..<m + length ns]" for ns
    by (induction ns arbitrary: m) (simp_all add: upt_rec)
  have ids': "map ge_id (map (\<lambda>(k, e). \<lparr>ge_id = b + int k, ge_upload = i, ge_edge = e\<rparr>) (enumerate m es)) = map (\<lambda>k. b + int k) [m..<m + length es]" for es
    by (induction es arbitrary: m) (simp_all add: upt_rec)
  have "sorted (map (\<lambda>k. b + int k) [m..<n])" for n
    by (simp add: sorted_map sorted_wrt_iff_nth_less)
  then show "sort_key n_id (map (\<lambda>(k, n). \<lparr>n_id = b + int k, n_upload = i, n_node = n\<rparr>) (enumerate m ns)) =
     map (\<lambda>(k, n). \<lparr>n_id = b + int k, n_upload = i, n_node = n\<rparr>) (enumerate m ns)"
    "sort_key ge_id (map (\<lambda>(k, e). \<lparr>ge_id = b + int k, ge_upload = i, ge_edge = e\<rparr>) (enumerate m es)) =
     map (\<lambda>(k, e). \<lparr>ge_id = b + int k, ge_upload = i, ge_edge = e\<rparr>) (enumerate m es)"
    using ids [of ns] ids' [of es] by (metis sort_key_id_if_sorted)+
qed

lemma find_snoc: "find P (xs @ [x]) = (case find P xs of None \<Rightarrow> if P x then Some x else None | Some y \<Rightarrow> Some y)"
  by (induction xs) simp_all

lemma load_graph_new:
  assumes "\<forall>v \<in> set (uploads gd). u_id v \<noteq> u_id u" "u_schema u = 1"
    and "\<forall>n \<in> set (graph_nodes gd). n_upload n \<noteq> u_id u" "\<forall>e \<in> set (graph_edges gd). ge_upload e \<noteq> u_id u"
  shows "load_graph (u_id u) (copy_edges (u_id u) es (copy_nodes (u_id u) ns (insert_upload u gd))) =
    Inr \<lparr>art_repository = u_repository u, art_commit = u_commit u, art_schema = u_schema u,
      art_analyzer = u_analyzer u, art_hash = u_hash u, art_nodes = ns, art_edges = es\<rparr>"
proof -
  let ?gd = "insert_upload u gd"
  let ?ns = "map (\<lambda>(k, n). \<lparr>n_id = next_node ?gd + int k, n_upload = u_id u, n_node = n\<rparr>) (enumerate 0 ns)"
  let ?es = "map (\<lambda>(k, e). \<lparr>ge_id = next_edge ?gd + int k, ge_upload = u_id u, ge_edge = e\<rparr>) (enumerate 0 es)"
  have old: "filter (\<lambda>n. n_upload n = u_id u) (graph_nodes gd) = []" "filter (\<lambda>e. ge_upload e = u_id u) (graph_edges gd) = []"
    using assms(3,4) by (simp_all add: filter_empty_conv)
  have new: "filter (\<lambda>n. n_upload n = u_id u) ?ns = ?ns" "filter (\<lambda>e. ge_upload e = u_id u) ?es = ?es"
    by (simp_all add: filter_id_conv split: prod.splits)
  have "map n_node ?ns = map (\<lambda>n. n) ns" "map ge_edge ?es = map (\<lambda>e. e) es"
    by (rule map_enumerate; simp)+
  then have rows: "map n_node ?ns = ns" "map ge_edge ?es = es"
    by (simp_all only: map_ident)
  have "find (\<lambda>v. u_id v = u_id u \<and> u_schema v = 1) (uploads gd) = None"
    using assms(1) unfolding find_None_iff by blast
  with assms(2) have found: "find (\<lambda>v. u_id v = u_id u \<and> u_schema v = 1) (uploads gd @ [u]) = Some u"
    by (simp add: find_snoc)
  have "uploads (copy_edges (u_id u) es (copy_nodes (u_id u) ns ?gd)) = uploads gd @ [u]"
      "filter (\<lambda>n. n_upload n = u_id u) (graph_nodes (copy_edges (u_id u) es (copy_nodes (u_id u) ns ?gd))) = ?ns"
      "filter (\<lambda>e. ge_upload e = u_id u) (graph_edges (copy_edges (u_id u) es (copy_nodes (u_id u) ns ?gd))) = ?es"
    using old new by (simp_all only: copied_nodes copied_edges filter_append) (simp_all add: insert_upload_def)
  then show ?thesis
    unfolding load_graph_def using found rows by (simp only: new_rows_sorted option.case)
qed

text \<open>Rows of other uploads are not touched.\<close>

lemma find_map_same: "(\<And>x. P (f x) = P x) \<Longrightarrow> find P (map f xs) = map_option f (find P xs)"
  by (induction xs) simp_all

lemma load_graph_old:
  assumes "v \<in> set (uploads gd)" "\<forall>v \<in> set (uploads gd). u_id v \<noteq> u_id u"
  shows "load_graph (u_id v) (copy_edges (u_id u) es (copy_nodes (u_id u) ns (insert_upload u (retire current gd)))) =
    load_graph (u_id v) gd"
proof -
  let ?gd = "copy_edges (u_id u) es (copy_nodes (u_id u) ns (insert_upload u (retire current gd)))"
  have ne: "u_id v \<noteq> u_id u" "u_id u \<noteq> u_id v" using assms by auto
  have "filter (\<lambda>n. n_upload n = u_id v) (graph_nodes ?gd) = filter (\<lambda>n. n_upload n = u_id v) (graph_nodes gd)"
      "filter (\<lambda>e. ge_upload e = u_id v) (graph_edges ?gd) = filter (\<lambda>e. ge_upload e = u_id v) (graph_edges gd)"
    using ne by (auto simp: copied_nodes copied_edges insert_upload_def retire_uploads filter_empty_conv)
  moreover have "find (\<lambda>x. u_id x = u_id v \<and> u_schema x = 1) (uploads ?gd) =
      map_option (\<lambda>x. if \<exists>c. current = Some c \<and> u_id x = u_id c then x\<lparr>u_active := False\<rparr> else x)
        (find (\<lambda>x. u_id x = u_id v \<and> u_schema x = 1) (uploads gd))" (is "_ = map_option ?f (find ?P _)")
  proof -
    have "find ?P (map ?f (uploads gd)) = map_option ?f (find ?P (uploads gd))"
      by (rule find_map_same) simp
    moreover have "uploads ?gd = map ?f (uploads gd) @ [u]"
      by (simp add: copied_nodes copied_edges insert_upload_def retire_uploads)
    ultimately show ?thesis
      using ne by (simp add: find_snoc split: option.splits)
  qed
  ultimately show ?thesis
    unfolding load_graph_def by (auto split: option.splits)
qed

text \<open>Everything the steps of a replacement need, for an upload with the next identifier.\<close>

lemma replace_graph_steps:
  assumes c: "graph_constraints srv gd" "graph_fresh gd" "next_upload gd \<le> 4611686018427387903"
    and a: "validate a no_limits" "artifact_text srv a" "source \<in> {''managed'', ''external''}"
    and "u = new_upload repository source a (next_upload gd)"
    and "gd1 = retire (current_upload gd repository) gd" "gd2 = insert_upload u gd1"
    and "gd3 = copy_nodes (u_id u) (art_nodes a) gd2" "gd4 = copy_edges (u_id u) (art_edges a) gd3"
  shows "graph_constraints srv gd1" "graph_constraints srv gd2" "graph_constraints srv gd3" "graph_constraints srv gd4"
    "graph_fresh gd4" "load_graph (u_id u) gd4 = Inr (a\<lparr>art_repository := repository\<rparr>)"
    "\<forall>v \<in> set (uploads gd). load_graph (u_id v) gd4 = load_graph (u_id v) gd"
    "current_upload gd4 repository = Some u"
proof -
  note v = validate_facts [OF a(1)] and rows = validated_rows [OF a(1,2)]
  have u: "u_id u = next_upload gd" "u_schema u = 1" "u_repository u = repository" "u_active u"
      "u_commit u = art_commit a" "u_analyzer u = art_analyzer a" "u_hash u = art_hash a"
    using assms(7) v(1) by (simp_all add: new_upload_def)
  have uc: "upload_check srv u"
    using assms(7) c(2,3) a(2,3) v(1-3) by (auto simp: upload_check_def new_upload_def graph_fresh_def artifact_text_def)
  have ids: "\<forall>v \<in> set (uploads gd). u_id v \<noteq> u_id u"
    using c(2) u(1) by (auto simp: graph_fresh_def)
  have us1: "\<forall>v \<in> set (uploads gd1). u_id v \<noteq> u_id u"
    using ids retire_keeps(2) [of "current_upload gd repository" gd] assms(8) by (metis imageE image_eqI list.set_map)
  show c1: "graph_constraints srv gd1"
    unfolding assms(8) by (rule retire_constraints [OF c(1)])
  have free: "\<forall>n \<in> set (graph_nodes gd1). n_upload n \<noteq> u_id u" "\<forall>e \<in> set (graph_edges gd1). ge_upload e \<noteq> u_id u"
    using constraints_refs [OF c1] us1 by fastforce+
  have idle: "\<forall>v \<in> set (uploads gd1). \<not> (u_repository v = u_repository u \<and> u_active v \<and> u_schema v = 1)"
    using retire_none [OF c(1)] u(3) assms(8) by blast
  show c2: "graph_constraints srv gd2"
    unfolding assms(9) by (rule insert_upload_constraints [OF c1 uc u(2) us1 idle])
  have in2: "(u_id u, 1) \<in> set (upload_ids gd2)"
    using u(2) by (simp add: assms(9) insert_upload_def upload_ids_def)
  have free2: "\<forall>n \<in> set (graph_nodes gd2). n_upload n \<noteq> u_id u" "\<forall>e \<in> set (graph_edges gd2). ge_upload e \<noteq> u_id u"
    using free by (simp_all add: assms(9) insert_upload_def)
  show c3: "graph_constraints srv gd3"
    unfolding assms(10) by (rule copy_nodes_constraints [OF c2 rows(1) v(4) in2 free2(1)])
  have in3: "(u_id u, 1) \<in> set (upload_ids gd3)" and free3: "\<forall>e \<in> set (graph_edges gd3). ge_upload e \<noteq> u_id u"
    using in2 free2(2) by (simp_all add: assms(10) copied_nodes upload_ids_def)
  have keys: "map node_key (map (\<lambda>(k, n). \<lparr>n_id = b + int k, n_upload = u_id u, n_node = n\<rparr>) (enumerate 0 ns)) =
      map (\<lambda>n. (u_id u, an_uid n)) ns" for b ns
    by (rule map_enumerate) (simp add: node_key_def)
  have "\<forall>e \<in> set (art_edges a). (u_id u, ae_source e) \<in> set (map node_key (graph_nodes gd3)) \<and>
      (u_id u, ae_target e) \<in> set (map node_key (graph_nodes gd3))"
    using v(6) unfolding assms(10) copied_nodes map_append set_append keys by fastforce
  then show c4: "graph_constraints srv gd4"
    unfolding assms(11) by (rule copy_edges_constraints [OF c3 rows(2) v(5) in3 free3])
  have ups: "uploads gd4 = uploads gd1 @ [u]" "next_upload gd4 = next_upload gd + 1"
    by (simp_all add: assms(8-11) copied_edges copied_nodes insert_upload_def retire_uploads(4))
  have same_ids: "u_id ` set (uploads gd1) = u_id ` set (uploads gd)"
    using retire_keeps(2) [of "current_upload gd repository" gd] assms(8) by (metis list.set_map)
  have "\<forall>i \<in> u_id ` set (uploads gd). i < next_upload gd"
    using c(2) by (simp add: graph_fresh_def)
  then have "\<forall>v \<in> set (uploads gd1). u_id v < next_upload gd"
    unfolding same_ids [symmetric] by simp
  with c(2) u(1) ups show "graph_fresh gd4"
    by (auto simp: graph_fresh_def)
  show "load_graph (u_id u) gd4 = Inr (a\<lparr>art_repository := repository\<rparr>)"
    unfolding assms(9-11) load_graph_new [OF us1 u(2) free] using u v(1) by (cases a) simp
  show "\<forall>v \<in> set (uploads gd). load_graph (u_id v) gd4 = load_graph (u_id v) gd"
    unfolding assms(8-11) using load_graph_old [OF _ ids] by simp
  have "find (\<lambda>u. u_repository u = repository \<and> u_active u \<and> u_schema u = 1) (uploads gd1) = None"
    unfolding find_None_iff using idle [unfolded u(3)] by simp
  then show "current_upload gd4 repository = Some u"
    using u by (simp add: current_upload_def ups find_snoc)
qed

end
