(* ===== verification/Graph_Claims.thy ===== *)
theory Graph_Claims
  imports Graph_Impact Graph_Tables
begin

text \<open>
  The properties of the graph queries over the PostgreSQL store: paths of \<open>Trace\<close>, depths of
  \<open>Impact\<close>, their bounds, and the storage of graphs.
\<close>

subsection \<open>An example\<close>

definition ex_sha :: string where
  "ex_sha = replicate 40 (CHR ''a'')"

definition ex_range :: position where
  "ex_range = \<lparr>start_line = 0, start_character = 0, end_line = 0, end_character = 1\<rparr>"

definition ex_node :: "string \<Rightarrow> artifact_node" where
  "ex_node uid = \<lparr>an_uid = uid, an_path = ''x.go'', an_language = ''go'', an_symbol_kind = ''function'', an_name = uid,
     an_signature = [], an_scip = [], an_kind = 3, an_range = ex_range\<rparr>"

definition ex_edge :: "string \<Rightarrow> string \<Rightarrow> artifact_edge" where
  "ex_edge a b = \<lparr>ae_source = a, ae_target = b, ae_path = ''x.go'', ae_reason = [], ae_kind = 4, ae_range = ex_range,
     ae_confidence = 1\<rparr>"

definition ex_artifact :: graph_artifact where
  "ex_artifact = \<lparr>art_repository = 1, art_commit = ex_sha, art_schema = 1, art_analyzer = (''scip'', ''1''),
     art_hash = replicate 32 (CHR ''h''), art_nodes = map ex_node [''a'', ''b'', ''c''],
     art_edges = [ex_edge ''a'' ''b'', ex_edge ''b'' ''c'']\<rparr>"

definition ex_queue :: queue_db where
  "ex_queue = \<lparr>installations = [\<lparr>inst_id = 1, inst_github = 1, inst_status = ''active''\<rparr>],
     repositories = [\<lparr>r_id = 1, r_github = 7, r_installation = 1, r_owner = ''o'', r_name = ''n'', default_branch = ''main'',
       archived = False, enabled = True, desired_sha = Some ex_sha, indexed_sha = Some ex_sha, r_status = ''ready'',
       r_error = None, last_indexed_at = None\<rparr>],
     index_jobs = [], graph_jobs = [], deliveries = [], next_index_job = 1, next_graph_job = 1\<rparr>"

definition empty_graphs :: graph_db where
  "empty_graphs = \<lparr>uploads = [], graph_nodes = [], graph_edges = [], next_upload = 1, next_node = 1, next_edge = 1\<rparr>"

text \<open>A server that stores strings without zero bytes and index entries of 2704 bytes.\<close>

definition ex_server :: text_server where
  "ex_server = \<lparr>storable = list_all (\<lambda>c. byte c \<noteq> 0), index_entry = (\<lambda>ss. sum_list (map length ss) \<le> 2704)\<rparr>"

definition ex_graphs :: graph_db where
  "ex_graphs = snd (replace_graph ex_server ex_queue 1 ''managed'' ex_artifact empty_graphs)"

definition ex_service :: graph_service where
  "ex_service = \<lparr>gv_store = postgres_graph_store id ex_queue ex_graphs,
     gv_limits = \<lparr>per_category = 0, default_impact_depth = 0, max_depth = 0, default_trace_depth = 0, max_trace_depth = 0,
       max_rows = 0, max_nodes = 0, max_edges = 0, max_fanout = 0\<rparr>, gv_visit = id\<rparr>"

definition ex_scope :: graph_scope where
  "ex_scope = \<lparr>scope_selected = 0, scope_repositories = [\<lparr>snap_id = 1, snap_name = ''o/n'', snap_commit = ex_sha\<rparr>]\<rparr>"

definition ex_trace :: trace_request where
  "ex_trace = \<lparr>tq_scope = ex_scope, tq_source = ''a'', tq_target = ''c'', tq_depth = 0\<rparr>"

definition ex_impact :: impact_request where
  "ex_impact = \<lparr>ir_scope = ex_scope, ir_target = ''c'', ir_direction = ''upstream'', ir_relations = [],
     ir_confidence = 0, ir_tests = False, ir_depth = 0, ir_limit = 0, ir_offset = 0, ir_summary = False\<rparr>"

lemma ex_store: "gv_store ex_service = postgres_graph_store id ex_queue ex_graphs" "permutes_keys ex_service"
  by (simp_all add: ex_service_def permutes_keys_def)

lemma ex_trace_run:
  "case trace ex_service ex_trace of
     Some (Inr r) \<Rightarrow> tp_status r = StatusOK \<and> length (tp_edges r) = 2 \<and> tp_boundaries r = []
   | _ \<Rightarrow> False"
  by code_simp

lemma ex_impact_run:
  "case impact ex_service ex_impact of
     Inr r \<Rightarrow> im_status r = StatusFound \<and> \<not> im_partial r \<and>
       map (\<lambda>d. map sym_uid (at_depth (im_by_depth r) d)) [1, 2, 3] = [[''b''], [''a''], []]
   | _ \<Rightarrow> False"
  by code_simp

lemma ex_lookups:
  "case ready ex_service ex_scope of
     Inr rd \<Rightarrow>
       (case (lookup_symbols ex_service rd ''a'', lookup_symbols ex_service rd ''c'') of
          (Inr [s], Inr [t]) \<Rightarrow> symbol_key s = (1, ''a'') \<and> symbol_key t = (1, ''c'')
        | _ \<Rightarrow> False)
   | _ \<Rightarrow> False"
  by code_simp

subsection \<open>Trace\<close>

definition calls_links :: "graph_db \<Rightarrow> query_snapshot list \<Rightarrow> symbol_ref \<Rightarrow> symbol_ref \<Rightarrow> bool" where
  "calls_links gd snapshots = links (graph_answers gd snapshots ''calls'' Outgoing 0)"

lemma symbols_uid:
  assumes "symbols coll gd q = Inr syms" "sq_uid q \<noteq> []" "s \<in> set syms"
  shows "sym_uid s = sq_uid q"
  using assms by (auto simp: symbols_def matches_def scan_graph_symbol_def dest!: in_set_takeD split: if_splits)

lemma lookup_uid:
  assumes "gv_store sv = postgres_graph_store coll db gd" "lookup_symbols sv rd uid = Inr syms" "uid \<noteq> []" "s \<in> set syms"
  shows "sym_uid s = uid"
  using assms(2-4) symbols_uid [of coll gd _ syms s]
  by (auto simp: lookup_symbols_def assms(1) postgres_graph_store_def split: if_splits)

lemma lookup_pg:
  "gv_store sv = postgres_graph_store coll db gd \<Longrightarrow> \<exists>syms. lookup_symbols sv rd uid = Inr syms"
  by (simp add: lookup_symbols_def postgres_graph_store_def symbols_def)

lemma lookup_snapshots: "lookup_symbols sv rd uid = Inr [s] \<Longrightarrow> selector_snapshots rd \<noteq> []"
  by (auto simp: lookup_symbols_def)

lemma trace_levels_bound: "trace_levels_of sv rq \<le> 30"
proof -
  have "max_trace_depth (service_limits l) \<le> 30" for l
    by (simp add: service_limits_def bounded_def)
  then show ?thesis
    by (simp add: trace_levels_of_def Let_def nat_le_iff min.coboundedI2)
qed

lemma impact_levels_bound: "impact_levels_of sv rq \<le> 32"
proof -
  have "max_depth (service_limits l) \<le> 32" for l
    by (simp add: service_limits_def bounded_def)
  then show ?thesis
    by (simp add: impact_levels_of_def Let_def nat_le_iff min.coboundedI2)
qed

text \<open>The cases in which \<open>Trace\<close> does not search.\<close>

lemma trace_cases:
  assumes "gv_store sv = postgres_graph_store coll db gd"
  obtains (early) res where "trace sv rq = Some res" "\<forall>r. res = Inr r \<longrightarrow> tp_status r \<noteq> StatusOK"
  | (search) rd sources targets where "ready sv (tq_scope rq) = Inr rd" "rd_snapshots rd \<noteq> []"
      "tq_source rq \<noteq> []" "tq_target rq \<noteq> []" "0 \<le> tq_depth rq"
      "lookup_symbols sv rd (tq_source rq) = Inr sources" "length sources \<le> 1"
      "lookup_symbols sv rd (tq_target rq) = Inr targets" "length targets \<le> 1"
proof (cases "ready sv (tq_scope rq)")
  case (Inl e)
  then show thesis by (intro early [of "Inl e"]) (simp_all add: trace_def)
next
  case (Inr rd)
  obtain sources where s: "lookup_symbols sv rd (tq_source rq) = Inr sources"
    using lookup_pg [OF assms] by blast
  obtain targets where t: "lookup_symbols sv rd (tq_target rq) = Inr targets"
    using lookup_pg [OF assms] by blast
  show thesis
  proof (cases "rd_snapshots rd = [] \<or> tq_source rq = [] \<or> tq_target rq = [] \<or> tq_depth rq < 0 \<or>
      length sources > 1 \<or> length targets > 1")
    case True
    with Inr s t have "case trace sv rq of None \<Rightarrow> False | Some (Inl e) \<Rightarrow> True | Some (Inr r) \<Rightarrow> tp_status r \<noteq> StatusOK"
      unfolding trace_def Let_def by auto
    then obtain res where "trace sv rq = Some res" "\<forall>r. res = Inr r \<longrightarrow> tp_status r \<noteq> StatusOK"
      by (cases "trace sv rq") (auto split: sum.splits)
    then show thesis by (rule early)
  next
    case False
    then have "rd_snapshots rd \<noteq> []" "tq_source rq \<noteq> []" "tq_target rq \<noteq> []" "0 \<le> tq_depth rq"
        "length sources \<le> 1" "length targets \<le> 1"
      by linarith+
    with Inr s t show thesis by (intro search)
  qed
qed

text \<open>C17: \<open>Trace\<close> always returns, and a path that it reports is real: it starts at a symbol with the
  requested source identifier, ends at one with the target identifier, every edge is a stored call
  from one node of the path to the next, in an upload the query was allowed to read, and there are at most 30 edges.\<close>

theorem trace_path_is_real:
  assumes "gv_store sv = postgres_graph_store coll db gd"
  shows "\<exists>res. trace sv rq = Some res \<and>
    (\<forall>r. res = Inr r \<and> tp_status r = StatusOK \<longrightarrow>
       (\<exists>rd. ready sv (tq_scope rq) = Inr rd \<and>
          joined (graph_answers gd (query_snapshots rd False) ''calls'' Outgoing 0) (tp_nodes r) (tp_edges r) \<and>
          sym_uid (hd (tp_nodes r)) = tq_source rq \<and> sym_uid (last (tp_nodes r)) = tq_target rq \<and>
          length (tp_edges r) \<le> 30))"
proof (rule trace_cases [OF assms, of rq])
  fix res
  assume "trace sv rq = Some res" "\<forall>r. res = Inr r \<longrightarrow> tp_status r \<noteq> StatusOK"
  then show ?thesis by blast
next
  fix rd sources targets
  assume search: "ready sv (tq_scope rq) = Inr rd" "rd_snapshots rd \<noteq> []"
      "tq_source rq \<noteq> []" "tq_target rq \<noteq> []" "0 \<le> tq_depth rq"
      "lookup_symbols sv rd (tq_source rq) = Inr sources" "length sources \<le> 1"
      "lookup_symbols sv rd (tq_target rq) = Inr targets" "length targets \<le> 1"
  obtain r where r: "trace sv rq = Some (Inr r)" "tp_status r = StatusOK \<longrightarrow>
       joined (graph_answers gd (query_snapshots rd False) ''calls'' Outgoing 0) (tp_nodes r) (tp_edges r) \<and>
       hd (tp_nodes r) \<in> set sources \<and> symbol_key (last (tp_nodes r)) \<in> symbol_key ` set targets \<and>
       length (tp_edges r) \<le> trace_levels_of sv rq"
    using pg_graph.trace_response [OF assms search(1,2) ready_facts(1) [OF search(1)] search(3-9) refl refl refl]
    by (auto split: if_splits)
  have "sym_uid (last (tp_nodes r)) = tq_target rq" if "symbol_key (last (tp_nodes r)) \<in> symbol_key ` set targets"
    using that lookup_uid [OF assms search(8,4)] by (auto simp: symbol_key_def)
  with r lookup_uid [OF assms search(6,3)] trace_levels_bound [of sv rq] search(1) show ?thesis
    by (intro exI [of _ "Inr r"]) auto
qed

theorem trace_path_is_real_witness:
  "\<exists>r rd. trace ex_service ex_trace = Some (Inr r) \<and> tp_status r = StatusOK \<and> ready ex_service ex_scope = Inr rd \<and>
     joined (graph_answers ex_graphs (query_snapshots rd False) ''calls'' Outgoing 0) (tp_nodes r) (tp_edges r) \<and>
     sym_uid (hd (tp_nodes r)) = ''a'' \<and> sym_uid (last (tp_nodes r)) = ''c''"
proof -
  obtain r where r: "trace ex_service ex_trace = Some (Inr r)" "tp_status r = StatusOK"
    using ex_trace_run by (auto split: option.splits sum.splits)
  with trace_path_is_real [OF ex_store(1), of ex_trace] show ?thesis
    by (auto simp: ex_trace_def)
qed

text \<open>C2: When no limit was reported, \<open>Trace\<close> decides reachability: for one source and one target
  it answers with a path exactly if the target can be reached by at most as many calls as the depth
  allows, and no path of calls is shorter.\<close>

theorem trace_shortest:
  assumes "gv_store sv = postgres_graph_store coll db gd"
    and "ready sv (tq_scope rq) = Inr rd" "tq_source rq \<noteq> []" "tq_target rq \<noteq> []" "0 \<le> tq_depth rq"
    and "lookup_symbols sv rd (tq_source rq) = Inr [s]" "lookup_symbols sv rd (tq_target rq) = Inr [t]"
    and "trace sv rq = Some (Inr r)" "unlimited (tp_boundaries r)"
  shows "(tp_status r = StatusOK \<longleftrightarrow>
      (\<exists>n \<le> trace_levels_of sv rq. (calls_links gd (query_snapshots rd False) ^^ n) (symbol_key s) (symbol_key t))) \<and>
    (tp_status r = StatusOK \<longrightarrow>
      (calls_links gd (query_snapshots rd False) ^^ length (tp_edges r)) (symbol_key s) (symbol_key t) \<and>
      (\<forall>n < length (tp_edges r). \<not> (calls_links gd (query_snapshots rd False) ^^ n) (symbol_key s) (symbol_key t)))"
proof -
  let ?A = "graph_answers gd (query_snapshots rd False) ''calls'' Outgoing 0"
  have "rd_snapshots rd \<noteq> []"
    using ready_facts(2) [OF assms(2)] lookup_snapshots [OF assms(6)] by blast
  from pg_graph.trace_response [OF assms(1,2) this ready_facts(1) [OF assms(2)] assms(3-6) _ assms(7) _ refl refl refl]
  have "if tp_status r = StatusOK then
       length (tp_edges r) \<le> trace_levels_of sv rq \<and>
       symbol_key t \<in> layer (links ?A) {symbol_key s} (length (tp_edges r))
     else upto_steps (links ?A) {symbol_key s} (trace_levels_of sv rq) \<inter> {symbol_key t} = {}"
    using assms(8,9) by (cases "tp_status r = StatusOK") auto
  then show ?thesis
    unfolding calls_links_def layer_def upto_steps_def by (auto split: if_splits)
qed

theorem trace_shortest_witness:
  "\<exists>rd r. ready ex_service ex_scope = Inr rd \<and> trace ex_service ex_trace = Some (Inr r) \<and> length (tp_edges r) = 2 \<and>
     (calls_links ex_graphs (query_snapshots rd False) ^^ 2) (1, ''a'') (1, ''c'') \<and>
     \<not> calls_links ex_graphs (query_snapshots rd False) (1, ''a'') (1, ''c'')"
proof -
  obtain r where r: "trace ex_service ex_trace = Some (Inr r)" "tp_status r = StatusOK" "length (tp_edges r) = 2" "tp_boundaries r = []"
    using ex_trace_run by (auto split: option.splits sum.splits)
  obtain rd s t where rd: "ready ex_service ex_scope = Inr rd" "lookup_symbols ex_service rd ''a'' = Inr [s]"
      "lookup_symbols ex_service rd ''c'' = Inr [t]" "symbol_key s = (1, ''a'')" "symbol_key t = (1, ''c'')"
    using ex_lookups by (auto split: sum.splits list.splits)
  have "unlimited (tp_boundaries r)" using r(4) by (simp add: unlimited_def)
  from trace_shortest [OF ex_store(1) _ _ _ _ _ _ r(1) this, of rd s t] rd r(2,3)
  have two: "(calls_links ex_graphs (query_snapshots rd False) ^^ 2) (1, ''a'') (1, ''c'')"
    and less: "\<forall>n < 2. \<not> (calls_links ex_graphs (query_snapshots rd False) ^^ n) (1, ''a'') (1, ''c'')"
    by (simp_all add: ex_trace_def)
  from less [rule_format, of 1] have "\<not> calls_links ex_graphs (query_snapshots rd False) (1, ''a'') (1, ''c'')"
    by (simp only: relpowp_1) simp
  with two rd(1) r(1,3) show ?thesis by blast
qed

subsection \<open>Impact\<close>

definition impact_links :: "graph_db \<Rightarrow> query_snapshot list \<Rightarrow> impact_request \<Rightarrow> string list \<Rightarrow> symbol_ref \<Rightarrow> symbol_ref \<Rightarrow> bool" where
  "impact_links gd snapshots rq rels =
     links {x. (\<exists>q \<in> set rels. x \<in> graph_answers gd snapshots q (impact_direction (ir_direction rq)) (ir_confidence rq)) \<and>
               (ir_tests rq \<or> \<not> sym_test (nb_symbol x))}"

lemma impact_links_passed:
  "links (\<Union>q \<in> set rels. pg_graph.passed gd (impact_env_of sv rq rd ts) q) =
     impact_links gd (query_snapshots rd False) rq rels"
proof -
  have "(\<Union>q \<in> set rels. pg_graph.passed gd (impact_env_of sv rq rd ts) q) =
      {x. (\<exists>q \<in> set rels. x \<in> graph_answers gd (query_snapshots rd False) q (impact_direction (ir_direction rq)) (ir_confidence rq)) \<and>
               (ir_tests rq \<or> \<not> sym_test (nb_symbol x))}"
    by (auto simp: pg_graph.passed_def passes_def impact_env_of_def)
  then show ?thesis by (simp add: impact_links_def)
qed

text \<open>C8: An impact response that is not marked partial is exact: at every depth up to the depth of
  the request it lists the symbols whose shortest distance from the target, along the selected
  relations at the requested confidence and without passing through tests unless they are
  included, is that depth, each once, from the offset on (or none of them in a summary).\<close>

theorem impact_exact:
  assumes "gv_store sv = postgres_graph_store coll db gd" "permutes_keys sv"
    and "impact sv rq = Inr r" "im_status r = StatusFound" "\<not> im_partial r"
  shows "\<exists>rd s rels. ready sv (ir_scope rq) = Inr rd \<and> lookup_symbols sv rd (ir_target rq) = Inr [s] \<and>
    selected_relations (ir_relations rq) = Inr rels \<and>
    (\<forall>d \<in> {1..impact_levels_of sv rq}. \<exists>syms. distinct (map symbol_key syms) \<and>
       symbol_key ` set syms = layer (impact_links gd (query_snapshots rd False) rq rels) {symbol_key s} d \<and>
       at_depth (im_by_depth r) d = (if ir_summary rq then [] else drop (nat (ir_offset rq)) syms))"
proof (rule pg_graph.impact_response [OF assms(1-4)])
  fix rd s rels w
  let ?page = "nat (bounded (ir_limit rq) (max_nodes (service_limits (gv_limits sv))))"
  assume rd: "ready sv (ir_scope rq) = Inr rd" "lookup_symbols sv rd (ir_target rq) = Inr [s]"
      "selected_relations (ir_relations rq) = Inr rels"
    and m: "mapped (impact_env_of sv rq rd [s]) (\<Union>q \<in> set rels. pg_graph.passed gd (impact_env_of sv rq rd [s]) q)
       {symbol_key s} (impact_levels_of sv rq) w"
    and listed: "\<And>d. d \<in> {1..impact_levels_of sv rq} \<Longrightarrow>
       at_depth (im_by_depth r) d = paged rq ?page (at_depth (iw_by_depth w) d)"
    and "\<not> im_partial r \<Longrightarrow> \<not> iw_partial w"
    and short: "\<And>d. \<not> im_partial r \<Longrightarrow> d \<in> {1..impact_levels_of sv rq} \<Longrightarrow>
       length (drop (nat (ir_offset rq)) (at_depth (iw_by_depth w) d)) \<le> ?page"
  with assms(5) have "\<not> iw_partial w" by blast
  with m have exact: "symbol_key ` set (at_depth (iw_by_depth w) d) =
      layer (impact_links gd (query_snapshots rd False) rq rels) {symbol_key s} d"
      "distinct (map symbol_key (at_depth (iw_by_depth w) d))" if "d \<in> {1..impact_levels_of sv rq}" for d
    using that unfolding mapped_def impact_links_passed by blast+
  have "at_depth (im_by_depth r) d = (if ir_summary rq then [] else drop (nat (ir_offset rq)) (at_depth (iw_by_depth w) d))"
    if "d \<in> {1..impact_levels_of sv rq}" for d
    unfolding listed [OF that] paged_def using short [OF assms(5) that] by (simp only: take_all)
  with rd exact show ?thesis by blast
qed

theorem impact_exact_witness:
  "\<exists>r rd s rels. impact ex_service ex_impact = Inr r \<and> map sym_uid (at_depth (im_by_depth r) 2) = [''a''] \<and>
     ready ex_service ex_scope = Inr rd \<and>
     symbol_key ` set (at_depth (im_by_depth r) 2) =
       layer (impact_links ex_graphs (query_snapshots rd False) ex_impact rels) {symbol_key s} 2"
proof -
  obtain r where r: "impact ex_service ex_impact = Inr r" "im_status r = StatusFound" "\<not> im_partial r"
      "map sym_uid (at_depth (im_by_depth r) 2) = [''a'']"
    using ex_impact_run by (auto split: sum.splits)
  have "2 \<in> {1..impact_levels_of ex_service ex_impact}" by code_simp
  with impact_exact [OF ex_store r(1-3)] obtain rd s rels syms where
    "ready ex_service (ir_scope ex_impact) = Inr rd"
    "symbol_key ` set syms = layer (impact_links ex_graphs (query_snapshots rd False) ex_impact rels) {symbol_key s} 2"
    "at_depth (im_by_depth r) 2 = (if ir_summary ex_impact then [] else drop (nat (ir_offset ex_impact)) syms)"
    by meson
  with r show ?thesis by (auto simp: ex_impact_def)
qed

text \<open>Every impact response stays within the service's limits, and lists only what is affected: at
  most 1000 symbols and 5000 edges, at depths 1 to 32, and each symbol at depth \<open>d\<close> is reached from
  the target in \<open>d\<close> steps, also when the response is partial.\<close>

theorem impact_bounded:
  assumes "gv_store sv = postgres_graph_store coll db gd" "permutes_keys sv"
    and "impact sv rq = Inr r" "im_status r = StatusFound"
  shows "(\<Sum>d = 1..impact_levels_of sv rq. length (at_depth (im_by_depth r) d)) \<le> 1000 \<and> length (im_edges r) \<le> 5000 \<and>
    (\<forall>d. im_by_depth r d \<noteq> None \<longrightarrow> d \<in> {1..impact_levels_of sv rq}) \<and> impact_levels_of sv rq \<le> 32 \<and>
    (\<exists>rd s rels. ready sv (ir_scope rq) = Inr rd \<and> lookup_symbols sv rd (ir_target rq) = Inr [s] \<and>
       selected_relations (ir_relations rq) = Inr rels \<and>
       (\<forall>d. \<forall>x \<in> set (at_depth (im_by_depth r) d).
          (impact_links gd (query_snapshots rd False) rq rels ^^ d) (symbol_key s) (symbol_key x)))"
proof (rule pg_graph.impact_response [OF assms])
  fix rd s rels w
  let ?page = "nat (bounded (ir_limit rq) (max_nodes (service_limits (gv_limits sv))))"
  let ?n = "impact_levels_of sv rq" and ?env = "impact_env_of sv rq rd [s]"
  assume rd: "ready sv (ir_scope rq) = Inr rd" "lookup_symbols sv rd (ir_target rq) = Inr [s]"
      "selected_relations (ir_relations rq) = Inr rels"
    and m: "mapped ?env (\<Union>q \<in> set rels. pg_graph.passed gd ?env q) {symbol_key s} ?n w"
    and edges: "im_edges r = iw_edges w"
    and listed: "\<And>d. d \<in> {1..?n} \<Longrightarrow> at_depth (im_by_depth r) d = paged rq ?page (at_depth (iw_by_depth w) d)"
    and keys: "\<And>d. im_by_depth r d \<noteq> None \<Longrightarrow> d \<in> {1..?n}"
  define total where "total = (\<Sum>d = 1..?n. length (at_depth (iw_by_depth w) d))"
  from m have w: "length (iw_edges w) = total" "length (iw_visited w) = 1 + total" "within_limits ?env w"
      "\<And>d x. x \<in> set (at_depth (iw_by_depth w) d) \<Longrightarrow>
         (impact_links gd (query_snapshots rd False) rq rels ^^ d) (symbol_key s) (symbol_key x)"
    unfolding mapped_def impact_links_passed total_def by (simp_all add: impact_env_of_def)
  have "(\<Sum>d = 1..?n. length (at_depth (im_by_depth r) d)) \<le> total"
    unfolding total_def by (rule sum_mono) (auto simp: listed paged_def)
  moreover have "max_nodes (ie_limits ?env) \<le> 1000" "max_edges (ie_limits ?env) \<le> 5000" "ie_targets ?env = 1"
    by (simp_all add: impact_env_of_def service_limits_def bounded_def)
  with w(1-3) have "total \<le> 1000" "total \<le> 5000"
    by (simp_all add: within_limits_def)
  moreover have "(impact_links gd (query_snapshots rd False) rq rels ^^ d) (symbol_key s) (symbol_key x)"
    if "x \<in> set (at_depth (im_by_depth r) d)" for d x
  proof -
    have "d \<in> {1..?n}"
      using keys that at_depth_None by (metis empty_iff list.set(1))
    with that listed have "x \<in> set (at_depth (iw_by_depth w) d)"
      by (auto simp: paged_def dest: in_set_takeD in_set_dropD split: if_splits)
    then show ?thesis by (rule w(4))
  qed
  ultimately show ?thesis
    using w(1) rd edges keys impact_levels_bound [of sv rq] by auto
qed

theorem impact_bounded_witness:
  "\<exists>r. impact ex_service ex_impact = Inr r \<and> length (im_edges r) \<le> 5000 \<and>
     (\<Sum>d = 1..impact_levels_of ex_service ex_impact. length (at_depth (im_by_depth r) d)) \<le> 1000"
proof -
  obtain r where "impact ex_service ex_impact = Inr r" "im_status r = StatusFound"
    using ex_impact_run by (auto split: sum.splits)
  with impact_bounded [OF ex_store this] show ?thesis by blast
qed

subsection \<open>Stored graphs\<close>

text \<open>C18: Storing a graph fails only on text the server cannot hold.  For the indexed commit of a
  known repository, and unless an external graph of that commit is kept against a managed one,
  \<open>ReplaceGraph\<close> applies every artifact that passes validation, whose strings can be stored and whose
  identifiers and paths fit the index entries: it keeps all constraints and makes the artifact the one active graph of
  the repository, \<open>LoadGraph\<close> returns exactly the artifact, and all older generations still load as
  before.  A validated artifact with text the server cannot hold is refused as a whole.\<close>

theorem valid_graph_is_stored:
  assumes "graph_constraints srv gd" "graph_fresh gd" "next_upload gd \<le> 4611686018427387903"
    and "validate a no_limits" "source = ''managed'' \<or> source = ''external''"
    and "find_repo db (art_repository a) = Some r" "indexed_sha r = Some (art_commit a)"
    and "\<forall>c. current_upload gd (art_repository a) = Some c \<and> u_commit c = art_commit a \<and> u_source c = ''external'' \<longrightarrow>
           source = ''external''"
  shows "if artifact_text srv a
    then \<exists>u gd'. replace_graph srv db (art_repository a) source a gd = (Inr \<lparr>rp_upload = Some u, rp_applied = True\<rparr>, gd') \<and>
      graph_constraints srv gd' \<and> graph_fresh gd' \<and> current_upload gd' (art_repository a) = Some u \<and>
      load_graph (u_id u) gd' = Inr a \<and> (\<forall>v \<in> set (uploads gd). load_graph (u_id v) gd' = load_graph (u_id v) gd)
    else replace_graph srv db (art_repository a) source a gd = (Inl ErrConstraint, gd)"
proof -
  let ?i = "art_repository a"
  define u where "u = new_upload ?i source a (next_upload gd)"
  define gd1 where "gd1 = retire (current_upload gd ?i) gd"
  define gd2 where "gd2 = insert_upload u gd1"
  define gd3 where "gd3 = copy_nodes (u_id u) (art_nodes a) gd2"
  define gd4 where "gd4 = copy_edges (u_id u) (art_edges a) gd3"
  have src: "source \<in> {''managed'', ''external''}" using assms(5) by simp
  have "\<not> keeps_graph (coalesce (indexed_sha r)) source a (current_upload gd ?i)"
    using assms(5,7,8) by (auto simp: keeps_graph_def coalesce_def split: option.splits)
  then have run: "replace_graph_tx srv db ?i source a gd =
      (if graph_constraints srv gd1 \<and> graph_constraints srv gd2 \<and> graph_constraints srv gd3 \<and> graph_constraints srv gd4
       then Inr (\<lparr>rp_upload = Some u, rp_applied = True\<rparr>, gd4) else Inl ErrConstraint)"
    using assms(6)
    by (simp add: replace_graph_tx_def and_then_def graph_checked_def Let_def
        flip: u_def gd1_def gd2_def gd3_def gd4_def)
  show ?thesis
  proof (cases "artifact_text srv a")
    case True
    note steps = replace_graph_steps [OF assms(1-4) True src u_def gd1_def gd2_def gd3_def gd4_def]
    have "replace_graph srv db ?i source a gd = (Inr \<lparr>rp_upload = Some u, rp_applied = True\<rparr>, gd4)"
      using assms(4,5) run steps(1-4) by (auto simp: replace_graph_def)
    with steps True show ?thesis by auto
  next
    case False
    moreover have "u_analyzer u = art_analyzer a" by (simp add: u_def new_upload_def)
    ultimately have "\<not> graph_constraints srv gd4"
      using copied_text unfolding gd4_def gd3_def gd2_def by blast
    with False run assms(4,5) show ?thesis by (auto simp: replace_graph_def)
  qed
qed

lemma ex_store_ready:
  "graph_constraints ex_server ex_graphs \<and> graph_fresh ex_graphs \<and> next_upload ex_graphs \<le> 4611686018427387903 \<and>
   validate ex_artifact no_limits \<and> artifact_text ex_server ex_artifact \<and>
   (case find_repo ex_queue 1 of Some r \<Rightarrow> indexed_sha r = Some (art_commit ex_artifact) | None \<Rightarrow> False)"
  by code_simp

theorem valid_graph_is_stored_witness:
  "\<exists>u gd'. replace_graph ex_server ex_queue 1 ''external'' ex_artifact ex_graphs =
     (Inr \<lparr>rp_upload = Some u, rp_applied = True\<rparr>, gd') \<and> load_graph (u_id u) gd' = Inr ex_artifact"
proof -
  obtain r where r: "find_repo ex_queue 1 = Some r" "indexed_sha r = Some (art_commit ex_artifact)"
    using ex_store_ready by (auto split: option.splits)
  have "art_repository ex_artifact = 1" by (simp add: ex_artifact_def)
  with valid_graph_is_stored [of ex_server ex_graphs ex_artifact "''external''" ex_queue r] ex_store_ready r
  show ?thesis by auto
qed

end
