(* ===== verification/Audit_Event.thy ===== *)
theory Audit_Event
  imports Go_Prelude
begin

text \<open>
  Audit events: \<open>internal/audit/event.go\<close>.  The validity of an event decides whether a transaction
  that records it commits.
\<close>

type_synonym time = int \<comment> \<open>microseconds\<close>

record audit_event =
  ev_actor_type :: string
  ev_actor :: string
  ev_target_type :: string
  ev_target :: string
  ev_method :: string
  ev_operation :: string
  ev_outcome :: string
  ev_request :: string
  ev_created :: "time option" \<comment> \<open>\<open>None\<close> for the zero time\<close>

subsection \<open>UTF-8\<close>

definition byte_in :: "char \<Rightarrow> nat \<Rightarrow> nat \<Rightarrow> bool" where
  "byte_in c lo hi \<longleftrightarrow> lo \<le> byte c \<and> byte c \<le> hi"

definition tail_byte :: "char \<Rightarrow> bool" where
  "tail_byte c \<longleftrightarrow> byte_in c 0x80 0xBF"

text \<open>The second byte of a sequence of three or four is limited by the first one.\<close>

definition second_of_three :: "char \<Rightarrow> char \<Rightarrow> bool" where
  "second_of_three a b \<longleftrightarrow>
     byte a = 0xE0 \<and> byte_in b 0xA0 0xBF \<or> byte a = 0xED \<and> byte_in b 0x80 0x9F \<or>
     (byte_in a 0xE1 0xEC \<or> byte_in a 0xEE 0xEF) \<and> tail_byte b"

definition second_of_four :: "char \<Rightarrow> char \<Rightarrow> bool" where
  "second_of_four a b \<longleftrightarrow>
     byte a = 0xF0 \<and> byte_in b 0x90 0xBF \<or> byte a = 0xF4 \<and> byte_in b 0x80 0x8F \<or>
     byte_in a 0xF1 0xF3 \<and> tail_byte b"

text \<open>The code points of a valid string, \<open>None\<close> for an invalid one (\<open>utf8.ValidString\<close>).\<close>

fun utf8_runes :: "bytes \<Rightarrow> nat list option" where
  "utf8_runes [] = Some []"
| "utf8_runes (a # s) =
     (if is_ascii a then map_option ((#) (byte a)) (utf8_runes s)
      else case s of
        [] \<Rightarrow> None
      | b # s1 \<Rightarrow>
         if byte_in a 0xC2 0xDF \<and> tail_byte b
         then map_option ((#) (byte a mod 32 * 64 + byte b mod 64)) (utf8_runes s1)
         else case s1 of
           [] \<Rightarrow> None
         | c # s2 \<Rightarrow>
            if second_of_three a b \<and> tail_byte c
            then map_option ((#) ((byte a mod 16 * 64 + byte b mod 64) * 64 + byte c mod 64)) (utf8_runes s2)
            else case s2 of
              [] \<Rightarrow> None
            | d # s3 \<Rightarrow>
               if second_of_four a b \<and> tail_byte c \<and> tail_byte d
               then map_option ((#) (((byte a mod 8 * 64 + byte b mod 64) * 64 + byte c mod 64) * 64 + byte d mod 64))
                      (utf8_runes s3)
               else None)"

text \<open>\<open>unicode.IsControl\<close>.\<close>

definition is_control :: "nat \<Rightarrow> bool" where
  "is_control r \<longleftrightarrow> r < 0x20 \<or> 0x7F \<le> r \<and> r < 0xA0"

subsection \<open>Validity\<close>

definition one_of :: "string \<Rightarrow> string list \<Rightarrow> bool" where
  "one_of v allowed \<longleftrightarrow> v \<in> set allowed"

definition bounded_text :: "string \<Rightarrow> nat \<Rightarrow> bool" where
  "bounded_text v maximum \<longleftrightarrow> \<not> length v > maximum \<and>
     (case utf8_runes v of None \<Rightarrow> False | Some rs \<Rightarrow> list_all (\<lambda>r. \<not> is_control r) rs)"

definition operations :: "string list" where
  "operations =
     [''oidc_login_succeeded'', ''oidc_login_denied'', ''oauth_login_succeeded'', ''oauth_login_denied'',
      ''oauth_client_registered'', ''oauth_consent_granted'', ''oauth_consent_denied'',
      ''oauth_grant_created'', ''oauth_grant_refreshed'', ''oauth_grant_revoked'', ''oauth_grant_reuse_detected'',
      ''local_login_succeeded'', ''local_login_denied'', ''logout'', ''session_created'', ''session_revoked'',
      ''api_token_created'', ''api_token_use_rejected'', ''api_token_revoked'', ''password_set'',
      ''password_rotated'', ''break_glass_password_set'', ''user_suspended'', ''user_restored'',
      ''user_credentials_revoked'', ''scim_user_created'', ''scim_user_replaced'', ''scim_user_patched'',
      ''scim_user_deactivated'', ''scim_user_deleted'', ''scim_group_created'', ''scim_group_replaced'',
      ''scim_group_patched'', ''scim_group_deleted'', ''group_membership_changed'', ''group_role_changed'',
      ''group_repository_grant_changed'', ''user_role_changed'', ''user_repository_grant_changed'',
      ''admin_mutation_denied'']"

definition operation :: "string \<Rightarrow> bool" where
  "operation v \<longleftrightarrow> v \<in> set operations \<and>
     list_all (\<lambda>c. c \<in> set ''abcdefghijklmnopqrstuvwxyz0123456789_'') v"

definition valid_event :: "audit_event \<Rightarrow> bool" where
  "valid_event e \<longleftrightarrow>
     \<not> (\<not> one_of (ev_actor_type e) [''anonymous'', ''operator'', ''scim'', ''system'', ''user''] \<or>
        \<not> one_of (ev_target_type e)
          [''api_token'', ''authentication'', ''group'', ''oauth_client'', ''oauth_grant'', ''session'', ''user''] \<or>
        \<not> one_of (ev_method e)
          ['''', ''api_token'', ''local'', ''oauth'', ''oauth_token'', ''oidc'', ''operator'', ''scim_token''] \<or>
        \<not> one_of (ev_outcome e) [''success'', ''denied'', ''invalid'', ''error''] \<or>
        \<not> bounded_text (ev_actor e) 128 \<or> \<not> bounded_text (ev_target e) 128 \<or>
        \<not> bounded_text (ev_request e) 128 \<or> \<not> operation (ev_operation e))"

definition new_event :: "time \<Rightarrow> audit_event \<Rightarrow> audit_event option" where
  "new_event now e =
     (if \<not> valid_event e then None
      else Some (if ev_created e = None then e\<lparr>ev_created := Some now\<rparr> else e))"

subsection \<open>Decimal identifiers are valid\<close>

lemma utf8_ascii: "ascii_string s \<Longrightarrow> utf8_runes s = Some (map byte s)"
  by (induction s) simp_all

lemma bounded_text_ascii:
  "ascii_string s \<Longrightarrow> bounded_text s n \<longleftrightarrow> length s \<le> n \<and> list_all (\<lambda>c. \<not> is_control (byte c)) s"
  by (auto simp: bounded_text_def utf8_ascii list_all_iff)

end
