(* ===== verification/Oauth_Token.thy ===== *)
theory Oauth_Token
  imports Go_Sha256
begin

text \<open>
  The secrets of the authorization server: \<open>internal/oauthas/token.go\<close> and the token shape of
  \<open>internal/authn/oauth_token.go\<close>, over \<open>base64.RawURLEncoding\<close> of Go's standard library.  A secret
  is 32 random bytes; the server gives out their base64url form behind a prefix, and stores only
  their SHA-256 digest.
\<close>

subsection \<open>Base64, URL alphabet, without padding\<close>

definition b64_alphabet :: string where
  "b64_alphabet = ''ABCDEFGHIJKLMNOPQRSTUVWXYZabcdefghijklmnopqrstuvwxyz0123456789-_''"

definition b64_char :: "nat \<Rightarrow> char" where
  "b64_char n = b64_alphabet ! n"

definition b64_value :: "char \<Rightarrow> nat option" where
  "b64_value c = (let n = length (takeWhile (\<lambda>d. d \<noteq> c) b64_alphabet) in if n < 64 then Some n else None)"

fun b64_encode :: "bytes \<Rightarrow> string" where
  "b64_encode [] = []"
| "b64_encode [a] = map b64_char [byte a div 4, byte a mod 4 * 16]"
| "b64_encode [a, b] = map b64_char [byte a div 4, byte a mod 4 * 16 + byte b div 16, byte b mod 16 * 4]"
| "b64_encode (a # b # c # s) =
     map b64_char [byte a div 4, byte a mod 4 * 16 + byte b div 16,
       byte b mod 16 * 4 + byte c div 64, byte c mod 64] @ b64_encode s"

text \<open>
  The decoder skips line breaks, fails on any other byte outside the alphabet and on a single
  byte at the end, and ignores the bits of the last byte that no encoder sets.
\<close>

fun b64_values :: "string \<Rightarrow> nat list option" where
  "b64_values [] = Some []"
| "b64_values (c # s) =
     (if c = CHR 0x0D \<or> c = CHR 0x0A then b64_values s
      else case (b64_value c, b64_values s) of (Some n, Some ns) \<Rightarrow> Some (n # ns) | _ \<Rightarrow> None)"

fun b64_bytes :: "nat list \<Rightarrow> bytes option" where
  "b64_bytes [] = Some []"
| "b64_bytes [w] = None"
| "b64_bytes [w, x] = Some [char_of (w * 4 + x div 16)]"
| "b64_bytes [w, x, y] = Some [char_of (w * 4 + x div 16), char_of (x mod 16 * 16 + y div 4)]"
| "b64_bytes (w # x # y # z # ns) =
     map_option ((@) [char_of (w * 4 + x div 16), char_of (x mod 16 * 16 + y div 4), char_of (y mod 4 * 64 + z)])
       (b64_bytes ns)"

definition b64_decode :: "string \<Rightarrow> bytes option" where
  "b64_decode s = Option.bind (b64_values s) b64_bytes"

definition b64_encoded_len :: "nat \<Rightarrow> nat" where
  "b64_encoded_len n = n div 3 * 4 + (n mod 3 * 8 + 5) div 6"

subsection \<open>Secrets\<close>

type_synonym hash = bytes

definition access_token_prefix :: string where
  "access_token_prefix = ''gno_''"

definition refresh_token_prefix :: string where
  "refresh_token_prefix = ''gnr_''"

definition code_prefix :: string where
  "code_prefix = ''gnac_''"

definition client_id_prefix :: string where
  "client_id_prefix = ''gnc_''"

text \<open>
  \<open>io.ReadFull\<close> on a source of random bytes: \<open>None\<close> when it fails, which it also does when it ends
  before the buffer is full.
\<close>

definition read_full :: "nat \<Rightarrow> bytes option \<Rightarrow> bytes option" where
  "read_full n r = Option.bind r (\<lambda>s. if length s < n then None else Some (take n s))"

definition new_secret :: "bytes option \<Rightarrow> string \<Rightarrow> (string \<times> hash) option" where
  "new_secret reader prefix =
     map_option (\<lambda>raw. (prefix @ b64_encode raw, sha256 raw)) (read_full 32 reader)"

definition hash_secret :: "string \<Rightarrow> string \<Rightarrow> hash option" where
  "hash_secret token prefix =
     (if \<not> has_prefix token prefix then None
      else let encoded = drop (length prefix) token in
        if length encoded \<noteq> b64_encoded_len 32 then None
        else case b64_decode encoded of
          None \<Rightarrow> None
        | Some raw \<Rightarrow> if length raw \<noteq> 32 \<or> b64_encode raw \<noteq> encoded then None else Some (sha256 raw))"

definition has_access_token_shape :: "string \<Rightarrow> bool" where
  "has_access_token_shape token \<longleftrightarrow> hash_secret token access_token_prefix \<noteq> None"

text \<open>The copy of the check in the package \<open>authn\<close>, for the bearer path.\<close>

definition oauth_access_token_hash :: "string \<Rightarrow> hash option" where
  "oauth_access_token_hash token =
     (if \<not> has_prefix token ''gno_'' then None
      else let encoded = drop (length ''gno_'') token in
        if length encoded \<noteq> b64_encoded_len 32 then None
        else case b64_decode encoded of
          None \<Rightarrow> None
        | Some raw \<Rightarrow> if length raw \<noteq> 32 \<or> b64_encode raw \<noteq> encoded then None else Some (sha256 raw))"

definition is_oauth_access_token :: "string \<Rightarrow> bool" where
  "is_oauth_access_token token \<longleftrightarrow> oauth_access_token_hash token \<noteq> None"

subsection \<open>Proof key for code exchange\<close>

definition verifier_char :: "char \<Rightarrow> bool" where
  "verifier_char c \<longleftrightarrow> is_upper c \<or> is_lower c \<or> is_digit c \<or> c \<in> set ''-._~''"

definition verify_pkce :: "string \<Rightarrow> string \<Rightarrow> bool" where
  "verify_pkce verifier challenge \<longleftrightarrow>
     \<not> (length verifier < 43 \<or> length verifier > 128) \<and> list_all verifier_char verifier \<and>
     b64_encode (sha256 verifier) = challenge"

definition valid_challenge :: "string \<Rightarrow> bool" where
  "valid_challenge challenge \<longleftrightarrow>
     length challenge = b64_encoded_len 32 \<and>
     (case b64_decode challenge of None \<Rightarrow> False | Some raw \<Rightarrow> b64_encode raw = challenge)"

subsection \<open>Sealed provider tokens\<close>

text \<open>
  The cipher (AES-256-GCM in the standard library) is a field of the sealer: its two functions take
  the nonce, the text and the additional data.
\<close>

record aead =
  nonce_size :: nat
  overhead :: nat
  aead_seal :: "bytes \<Rightarrow> bytes \<Rightarrow> bytes \<Rightarrow> bytes"
  aead_open :: "bytes \<Rightarrow> bytes \<Rightarrow> bytes \<Rightarrow> bytes option"

definition aad :: "int \<Rightarrow> bytes" where
  "aad grant_id = length_be (nat (grant_id mod 2 ^ 64))"

definition seal :: "aead \<Rightarrow> bytes option \<Rightarrow> int \<Rightarrow> string \<Rightarrow> bytes option" where
  "seal a reader grant_id plaintext =
     map_option (\<lambda>nonce. nonce @ aead_seal a nonce plaintext (aad grant_id)) (read_full (nonce_size a) reader)"

definition open_sealed :: "aead \<Rightarrow> int \<Rightarrow> bytes \<Rightarrow> string option" where
  "open_sealed a grant_id ciphertext =
     (let size = nonce_size a in
      if length ciphertext < size + overhead a then None
      else aead_open a (take size ciphertext) (drop size ciphertext) (aad grant_id))"

subsection \<open>Encoding and decoding\<close>

lemma distinct_alphabet: "distinct b64_alphabet" "length b64_alphabet = 64"
  by (simp_all add: b64_alphabet_def)

lemma takeWhile_nth:
  assumes "distinct xs" "n < length xs"
  shows "length (takeWhile (\<lambda>x. x \<noteq> xs ! n) xs) = n"
proof -
  have "takeWhile (\<lambda>x. x \<noteq> xs ! n) xs = take n xs"
    using assms by (intro takeWhile_eq_take_P_nth) (auto simp: nth_eq_iff_index_eq)
  with assms show ?thesis by simp
qed

lemma b64_value_char: "n < 64 \<Longrightarrow> b64_value (b64_char n) = Some n"
  using takeWhile_nth [of b64_alphabet n] distinct_alphabet by (simp add: b64_value_def b64_char_def Let_def)

lemma b64_char_break: "n < 64 \<Longrightarrow> b64_char n \<noteq> CHR 0x0D \<and> b64_char n \<noteq> CHR 0x0A"
proof -
  assume "n < 64"
  then have "b64_char n \<in> set b64_alphabet"
    using distinct_alphabet(2) by (simp add: b64_char_def)
  moreover have "CHR 0x0D \<notin> set b64_alphabet" "CHR 0x0A \<notin> set b64_alphabet"
    by (simp_all add: b64_alphabet_def)
  ultimately show ?thesis by metis
qed

lemma b64_values_chars: "list_all (\<lambda>n. n < 64) ns \<Longrightarrow> b64_values (map b64_char ns) = Some ns"
  by (induction ns) (simp_all add: b64_value_char b64_char_break)

fun sextets :: "bytes \<Rightarrow> nat list" where
  "sextets [] = []"
| "sextets [a] = [byte a div 4, byte a mod 4 * 16]"
| "sextets [a, b] = [byte a div 4, byte a mod 4 * 16 + byte b div 16, byte b mod 16 * 4]"
| "sextets (a # b # c # s) =
     [byte a div 4, byte a mod 4 * 16 + byte b div 16, byte b mod 16 * 4 + byte c div 64, byte c mod 64] @ sextets s"

lemma b64_encode_sextets: "b64_encode s = map b64_char (sextets s)"
  by (induction s rule: sextets.induct) simp_all

lemma byte_bound: "byte c < 256"
  by (rule nat_of_char_less_256)

lemma sextet_bounds:
  fixes a b c :: nat
  shows "a < 256 \<Longrightarrow> a div 4 < 64"
    and "b < 256 \<Longrightarrow> a mod 4 * 16 + b div 16 < 64"
    and "c < 256 \<Longrightarrow> b mod 16 * 4 + c div 64 < 64"
    and "a mod 4 * 16 < 64" "b mod 16 * 4 < 64"
  using less_mult_imp_div_less [of a 64 4] less_mult_imp_div_less [of b 16 16] less_mult_imp_div_less [of c 4 64]
    mod_less_divisor [of 4 a] mod_less_divisor [of 16 b]
  by linarith+

lemma sextets_small: "list_all (\<lambda>n. n < 64) (sextets s)"
  by (induction s rule: sextets.induct) (simp_all add: sextet_bounds byte_bound)

lemma glue:
  fixes m k q :: nat
  assumes "q < k"
  shows "(m * k + q) div k = m" "(m * k + q) mod k = q"
  using assms by simp_all

lemma join_bits:
  fixes a b c :: nat
  shows "b < 256 \<Longrightarrow> a div 4 * 4 + (a mod 4 * 16 + b div 16) div 16 = a"
    and "b < 256 \<Longrightarrow> c < 256 \<Longrightarrow>
      (a mod 4 * 16 + b div 16) mod 16 * 16 + (b mod 16 * 4 + c div 64) div 4 = b"
    and "c < 256 \<Longrightarrow> (b mod 16 * 4 + c div 64) mod 4 * 64 + c mod 64 = c"
  by (simp_all add: glue less_mult_imp_div_less div_mult_mod_eq)

lemma b64_bytes_sextets: "b64_bytes (sextets s) = Some s"
proof (induction s rule: sextets.induct)
  case (2 a)
  show ?case using join_bits(1) [of 0 "byte a"] by simp
next
  case (3 a b)
  show ?case
    using join_bits(1) [of "byte b" "byte a"] join_bits(2) [of "byte b" 0 "byte a"]
    by (simp add: byte_bound)
next
  case (4 a b c s)
  then show ?case
    using join_bits(1) [of "byte b" "byte a"] join_bits(2) [of "byte b" "byte c" "byte a"]
      join_bits(3) [of "byte c" "byte b"]
    by (simp add: byte_bound)
qed simp

lemma b64_decode_encode [simp]: "b64_decode (b64_encode s) = Some s"
  by (simp add: b64_decode_def b64_encode_sextets b64_values_chars sextets_small b64_bytes_sextets)

lemma b64_encode_inj: "b64_encode s = b64_encode t \<Longrightarrow> s = t"
  using b64_decode_encode by (metis option.inject)

lemma length_b64_encode: "length (b64_encode s) = b64_encoded_len (length s)"
proof (induction s rule: b64_encode.induct)
  case (4 a b c s)
  then show ?case by (simp add: b64_encoded_len_def) presburger
qed (simp_all add: b64_encoded_len_def)

text \<open>A token is accepted exactly when it is a form that the server can have given out.\<close>

lemma hash_secret_iff:
  "hash_secret token prefix = Some h \<longleftrightarrow>
     (\<exists>raw. length raw = 32 \<and> token = prefix @ b64_encode raw \<and> h = sha256 raw)"
proof
  assume "hash_secret token prefix = Some h"
  then obtain raw where "has_prefix token prefix" "b64_encode raw = drop (length prefix) token"
      "length raw = 32" "h = sha256 raw"
    by (auto simp: hash_secret_def Let_def split: if_splits option.splits)
  moreover from this have "token = prefix @ b64_encode raw"
    by (metis append_take_drop_id has_prefix_def)
  ultimately show "\<exists>raw. length raw = 32 \<and> token = prefix @ b64_encode raw \<and> h = sha256 raw"
    by blast
next
  assume "\<exists>raw. length raw = 32 \<and> token = prefix @ b64_encode raw \<and> h = sha256 raw"
  then obtain raw where raw: "length raw = 32" "token = prefix @ b64_encode raw" "h = sha256 raw"
    by blast
  moreover from raw have "length (b64_encode raw) = b64_encoded_len 32"
    by (simp add: length_b64_encode)
  ultimately show "hash_secret token prefix = Some h"
    by (simp add: hash_secret_def Let_def has_prefix_def)
qed

lemma new_secret_cases:
  assumes "new_secret reader prefix = Some (token, h)"
  obtains raw where "length raw = 32" "token = prefix @ b64_encode raw" "h = sha256 raw"
proof -
  from assms obtain raw where "read_full 32 reader = Some raw" "token = prefix @ b64_encode raw" "h = sha256 raw"
    by (auto simp: new_secret_def)
  moreover from this have "length raw = 32"
    by (auto simp: read_full_def split: bind_splits if_splits)
  ultimately show thesis by (intro that)
qed

lemma hash_new_secret: "new_secret reader prefix = Some (token, h) \<Longrightarrow> hash_secret token prefix = Some h"
  by (elim new_secret_cases) (auto simp: hash_secret_iff)

lemma hash_secret_length: "hash_secret token prefix = Some h \<Longrightarrow> length h = 32"
  by (auto simp: hash_secret_iff length_sha256)

lemma access_token_hash_eq: "oauth_access_token_hash = (\<lambda>token. hash_secret token access_token_prefix)"
  by (simp add: fun_eq_iff oauth_access_token_hash_def hash_secret_def access_token_prefix_def)

lemma verify_pkce_valid: "verify_pkce verifier challenge \<Longrightarrow> valid_challenge challenge"
  by (auto simp: verify_pkce_def valid_challenge_def length_b64_encode length_sha256)

end
