(* ===== verification/Auth_Tables.thy ===== *)
theory Auth_Tables
  imports Audit_Event Oauth_Token Go_Calls "HOL-Library.Product_Lexorder"
begin

text \<open>
  The identity and credential tables of \<open>internal/postgres\<close>: the user directory and the API tokens
  of \<open>directory.go\<close>, the sessions of \<open>auth.go\<close>, the audit log of \<open>security.go\<close>, the revocation of a
  user's credentials in \<open>admin_identity.go\<close>, and the tables of the authorization server that
  \<open>Oauth_Store\<close> works on.  Every function is one call; the argument \<open>now\<close> is the parameter of the
  query, and \<open>clock\<close> is the time of the database (\<open>now()\<close>).  A row lock only orders the transactions,
  so a transaction is one step.  Times are in microseconds, the precision of the tables.
\<close>

subsection \<open>Rows\<close>

record user_row =
  us_id :: int
  us_external :: string
  us_name :: string
  us_display :: string
  us_active :: bool
  us_suspended :: bool
  us_deleted :: bool
  us_source :: string

record session_row =
  se_hash :: hash
  se_audit :: string
  se_user :: int
  se_provider :: string
  se_force :: bool
  se_created :: time
  se_seen :: time
  se_idle :: time
  se_expires :: time
  se_revoked :: "time option"

record token_row =
  tk_id :: int
  tk_hash :: hash
  tk_prefix :: string
  tk_user :: int
  tk_ceiling :: "int list option" \<comment> \<open>\<open>None\<close> for a null array, a nil slice\<close>
  tk_delegation_only :: bool
  tk_delegated :: bool
  tk_created :: time
  tk_used :: "time option"
  tk_expires :: "time option"
  tk_revoked :: "time option"

record repo_row =
  ro_github :: int
  ro_owner :: string
  ro_name :: string
  ro_enabled :: bool
  ro_archived :: bool
  ro_installation :: int \<comment> \<open>\<open>installations.github_id\<close>\<close>
  ro_installed :: bool \<comment> \<open>\<open>installations.status = 'active'\<close>\<close>

record oauth_client =
  oc_id :: string
  oc_name :: string
  oc_redirects :: "string list"
  oc_created :: time
  oc_used :: time

record oauth_request =
  oq_id :: hash
  oq_phase :: string
  oq_client :: string
  oq_user :: "int option" \<comment> \<open>\<open>None\<close> for null, which is 0 in the Go structure\<close>
  oq_redirect :: string
  oq_challenge :: string
  oq_state :: string
  oq_scope :: string
  oq_resource :: string
  oq_created :: time
  oq_expires :: time

record oauth_grant =
  og_id :: int
  og_client :: string
  og_user :: int
  og_scope :: string
  og_access :: hash
  og_access_expires :: time
  og_refresh :: hash
  og_previous :: "hash option"
  og_ciphertext :: "bytes option"
  og_created :: time
  og_used :: time
  og_expires :: time
  og_revoked :: "time option"

record refresh_row =
  rf_hash :: hash
  rf_grant :: int
  rf_consumed :: time

record limit_row =
  lm_endpoint :: string
  lm_source :: bytes
  lm_window :: time
  lm_count :: nat

record flow_row =
  lf_state :: hash
  lf_browser :: hash
  lf_provider :: string
  lf_nonce :: string
  lf_verifier :: string
  lf_return :: string
  lf_created :: time
  lf_expires :: time

record password_credential =
  pc_salt :: bytes
  pc_hash :: bytes
  pc_memory :: nat
  pc_iterations :: nat
  pc_parallelism :: nat
  pc_force :: bool

record throttle_row =
  th_key :: hash
  th_failures :: nat
  th_window :: time
  th_blocked :: "time option"

record auth_db =
  users :: "user_row list"
  next_user :: int
  identities :: "(int \<times> string \<times> string) list" \<comment> \<open>user, issuer, subject\<close>
  login_flows :: "flow_row list"
  passwords :: "(int \<times> password_credential) list"
  throttles :: "throttle_row list"
  user_roles :: "int list"
  groups :: "(int \<times> bool) list" \<comment> \<open>identifier, deleted\<close>
  memberships :: "(int \<times> int) list" \<comment> \<open>group, user\<close>
  group_roles :: "int list"
  user_repositories :: "(int \<times> int) list"
  github_grants :: "(int \<times> int) list"
  group_repositories :: "(int \<times> int) list"
  repositories :: "repo_row list"
  sessions :: "session_row list"
  next_session :: nat
  api_tokens :: "token_row list"
  next_token :: int
  oauth_clients :: "oauth_client list"
  oauth_requests :: "oauth_request list"
  oauth_grants :: "oauth_grant list"
  next_grant :: int
  refresh_tokens :: "refresh_row list"
  request_limits :: "limit_row list"
  audit_log :: "audit_event list"

datatype auth_error = NoRows | ConstraintViolated | InvalidEvent | InvalidIdentity | OAuthReplay | ClientQuota
  | UnsupportedEndpoint | InvalidPeer | Unauthenticated | InvalidPrincipal | InvalidCredential | LoginThrottled time | RandomFailed
  | InvalidAuditLimit

type_synonym 'a auth_call = "(auth_error, auth_db, 'a) call"

text \<open>
  A transaction: an error of the body rolls everything back; the body may also commit and return
  an error of its own.
\<close>

definition transaction :: "(auth_error + 'a) auth_call \<Rightarrow> 'a auth_call" where
  "transaction body db = (case body db of (Inl e, _) \<Rightarrow> (Inl e, db) | (Inr r, db') \<Rightarrow> (r, db'))"

definition get_db :: "auth_db auth_call" where
  "get_db db = (Inr db, db)"

definition put_db :: "auth_db \<Rightarrow> unit auth_call" where
  "put_db db' db = (Inr (), db')"

text \<open>A value of type \<open>varchar(n)\<close>: valid text of at most \<open>n\<close> characters.\<close>

definition varchar_ok :: "nat \<Rightarrow> string \<Rightarrow> bool" where
  "varchar_ok n s \<longleftrightarrow> (case utf8_runes s of None \<Rightarrow> False | Some rs \<Rightarrow> length rs \<le> n \<and> 0 \<notin> set rs)"

subsection \<open>Audit log\<close>

definition append_audit :: "time \<Rightarrow> audit_event \<Rightarrow> unit auth_call" where
  "append_audit clock e db =
     (case new_event clock e of
        None \<Rightarrow> (Inl InvalidEvent, db)
      | Some e' \<Rightarrow> (Inr (), db\<lparr>audit_log := audit_log db @ [e']\<rparr>))"

subsection \<open>Users\<close>

definition find_user :: "auth_db \<Rightarrow> int \<Rightarrow> user_row option" where
  "find_user db u = find (\<lambda>x. us_id x = u) (users db)"

definition may_sign_in :: "user_row \<Rightarrow> bool" where
  "may_sign_in x \<longleftrightarrow> us_active x \<and> \<not> us_suspended x \<and> \<not> us_deleted x"

definition active_user :: "auth_db \<Rightarrow> int \<Rightarrow> bool" where
  "active_user db u \<longleftrightarrow> (case find_user db u of None \<Rightarrow> False | Some x \<Rightarrow> may_sign_in x)"

record auth_principal =
  pr_subject :: string
  pr_method :: string
  pr_scope :: string
  pr_administrator :: bool
  pr_delegation_only :: bool
  pr_delegated :: bool
  pr_force_rotation :: bool
  pr_installation :: int
  pr_repositories :: "int list"

definition active_groups :: "auth_db \<Rightarrow> int \<Rightarrow> int list" where
  "active_groups db u =
     map fst (filter (\<lambda>(g, u'). u' = u \<and> (g, False) \<in> set (groups db)) (memberships db))"

definition granted_repositories :: "auth_db \<Rightarrow> int \<Rightarrow> int list" where
  "granted_repositories db u =
     sort (remdups (map snd (filter (\<lambda>(x, _). x = u) (user_repositories db)) @
       map snd (filter (\<lambda>(x, _). x = u) (github_grants db)) @
       map snd (filter (\<lambda>(g, _). g \<in> set (active_groups db u)) (group_repositories db))))"

definition is_administrator :: "auth_db \<Rightarrow> int \<Rightarrow> bool" where
  "is_administrator db u \<longleftrightarrow>
     u \<in> set (user_roles db) \<or> list_ex (\<lambda>g. g \<in> set (group_roles db)) (active_groups db u)"

definition user_principal :: "int \<Rightarrow> int list option \<Rightarrow> auth_principal auth_call" where
  "user_principal u ceiling db =
     (if \<not> active_user db u then (Inl NoRows, db)
      else
        let admin = is_administrator db u;
            ids = filter (\<lambda>r. case ceiling of None \<Rightarrow> True | Some c \<Rightarrow> r \<in> set c) (granted_repositories db u)
        in (Inr \<lparr>pr_subject = decimal u, pr_method = ''oidc'', pr_scope = [], pr_administrator = admin,
              pr_delegation_only = False, pr_delegated = False, pr_force_rotation = False, pr_installation = 0,
              pr_repositories = (if admin \<and> ceiling = None then [] else ids)\<rparr>, db))"

definition active_repository_row :: "repo_row \<Rightarrow> bool" where
  "active_repository_row r \<longleftrightarrow> ro_installed r \<and> ro_enabled r \<and> \<not> ro_archived r"

definition active_repository :: "int \<Rightarrow> bool auth_call" where
  "active_repository i db = (Inr (list_ex (\<lambda>r. ro_github r = i \<and> active_repository_row r) (repositories db)), db)"

definition graph_repositories :: "auth_principal \<Rightarrow> repo_row list auth_call" where
  "graph_repositories p db =
     (let global = pr_administrator p \<and> pr_method p \<noteq> ''api_token''
      in (Inr (sort_key (\<lambda>r. (ro_owner r, ro_name r, ro_github r))
           (filter (\<lambda>r. active_repository_row r \<and>
               (global \<or> (pr_repositories p \<noteq> [] \<and> (pr_installation p = 0 \<or> ro_installation r = pr_installation p) \<and>
                  ro_github r \<in> set (pr_repositories p)))) (repositories db))), db))"

definition user_display_name :: "int \<Rightarrow> string auth_call" where
  "user_display_name u db =
     (case find_user db u of
        None \<Rightarrow> (Inl NoRows, db)
      | Some x \<Rightarrow>
         if us_deleted x then (Inl NoRows, db)
         else if us_display x = [] \<or> us_display x = us_name x then (Inr (us_name x), db)
         else (Inr (us_display x @ '' ('' @ us_name x @ '')''), db))"

end
