(* ===== verification/Auth_Store.thy ===== *)
theory Auth_Store
  imports Auth_Tables
begin

text \<open>
  API tokens (\<open>internal/postgres/directory.go\<close>), browser sessions (\<open>internal/postgres/auth.go\<close>), the
  revocation of a user's credentials (\<open>internal/postgres/admin_identity.go\<close>) and the two managers of
  \<open>internal/authn\<close> that turn a presented token into a principal.
\<close>

subsection \<open>API tokens\<close>

definition live_token :: "time \<Rightarrow> auth_db \<Rightarrow> hash \<Rightarrow> token_row \<Rightarrow> bool" where
  "live_token now db h t \<longleftrightarrow> tk_hash t = h \<and> tk_revoked t = None \<and>
     (case tk_expires t of None \<Rightarrow> True | Some e \<Rightarrow> e > now) \<and> active_user db (tk_user t)"

text \<open>What a token makes of the principal of its owner: a null ceiling is none, for an administrator it is an error.\<close>

definition token_principal :: "token_row \<Rightarrow> auth_principal \<Rightarrow> auth_principal auth_call" where
  "token_principal t p0 =
     (let p = p0\<lparr>pr_delegated := tk_delegated t\<rparr> in
      if tk_delegation_only t \<and> \<not> pr_administrator p then return_error NoRows
      else if tk_delegation_only t then
        return_ok (p\<lparr>pr_delegation_only := True, pr_repositories := [], pr_method := ''api_token''\<rparr>)
      else if pr_administrator p then
        (case tk_ceiling t of
           None \<Rightarrow> return_error NoRows
         | Some [] \<Rightarrow> return_error NoRows
         | Some c \<Rightarrow>
            proceed get_db (\<lambda>db. return_ok (p\<lparr>pr_repositories :=
              sort (map ro_github (filter (\<lambda>r. ro_github r \<in> set c \<and> active_repository_row r) (repositories db))),
              pr_method := ''api_token''\<rparr>)))
      else return_ok (p\<lparr>pr_method := ''api_token''\<rparr>))"

definition api_principal :: "hash \<Rightarrow> time \<Rightarrow> auth_principal auth_call" where
  "api_principal h now = transaction (\<lambda>db.
     case find (live_token now db h) (api_tokens db) of
       None \<Rightarrow> (Inl NoRows, db)
     | Some t \<Rightarrow>
        proceed (put_db (db\<lparr>api_tokens := map (\<lambda>x. if live_token now db h x then x\<lparr>tk_used := Some now\<rparr> else x)
                                           (api_tokens db)\<rparr>)) (\<lambda>_.
        proceed (user_principal (tk_user t) (tk_ceiling t)) (\<lambda>p0.
        proceed (token_principal t p0) (\<lambda>p. return_ok (Inr p)))) db)"

definition token_check :: "auth_db \<Rightarrow> token_row \<Rightarrow> bool" where
  "token_check db t \<longleftrightarrow> tk_hash t \<notin> tk_hash ` set (api_tokens db) \<and> varchar_ok 16 (tk_prefix t) \<and>
     find_user db (tk_user t) \<noteq> None"

definition create_api_token :: "token_row \<Rightarrow> int auth_call" where
  "create_api_token t db =
     (let row = t\<lparr>tk_id := next_token db, tk_used := None, tk_revoked := None\<rparr> in
      if token_check db row
      then (Inr (next_token db), db\<lparr>api_tokens := api_tokens db @ [row], next_token := next_token db + 1\<rparr>)
      else (Inl ConstraintViolated, db))"

definition create_api_token_audited :: "time \<Rightarrow> token_row \<Rightarrow> audit_event \<Rightarrow> int auth_call" where
  "create_api_token_audited clock t e =
     require (valid_event e) InvalidEvent
       (transaction
         (proceed (create_api_token t) (\<lambda>i.
          proceed (append_audit clock (e\<lparr>ev_target := decimal i\<rparr>)) (\<lambda>_. return_ok (Inr i)))))"

definition own_token :: "int \<Rightarrow> int \<Rightarrow> token_row \<Rightarrow> bool" where
  "own_token u i t \<longleftrightarrow> tk_id t = i \<and> tk_user t = u \<and> tk_revoked t = None"

definition revoke_tokens :: "time \<Rightarrow> (token_row \<Rightarrow> bool) \<Rightarrow> auth_db \<Rightarrow> auth_db" where
  "revoke_tokens clock P db =
     db\<lparr>api_tokens := map (\<lambda>t. if P t then t\<lparr>tk_revoked := Some clock\<rparr> else t) (api_tokens db)\<rparr>"

definition revoke_api_token :: "time \<Rightarrow> int \<Rightarrow> int \<Rightarrow> unit auth_call" where
  "revoke_api_token clock u i db = (Inr (), revoke_tokens clock (own_token u i) db)"

definition revoke_api_token_audited :: "time \<Rightarrow> int \<Rightarrow> int \<Rightarrow> audit_event \<Rightarrow> unit auth_call" where
  "revoke_api_token_audited clock u i e =
     require (valid_event e) InvalidEvent
       (transaction (\<lambda>db.
          require (length (filter (own_token u i) (api_tokens db)) = 1) NoRows
            (proceed (put_db (revoke_tokens clock (own_token u i) db)) (\<lambda>_.
             proceed (append_audit clock e) (\<lambda>_. return_ok (Inr ())))) db))"

definition list_api_tokens :: "int \<Rightarrow> token_row list auth_call" where
  "list_api_tokens u db =
     (Inr (sort_key tk_id (filter (\<lambda>t. tk_user t = u \<and> tk_revoked t = None) (api_tokens db))), db)"

subsection \<open>Sessions\<close>

definition hex_audit_id :: "string \<Rightarrow> bool" where
  "hex_audit_id s \<longleftrightarrow> length s = 32 \<and> list_all (\<lambda>c. c \<in> set ''0123456789abcdef'') s"

definition session_check :: "auth_db \<Rightarrow> session_row \<Rightarrow> bool" where
  "session_check db x \<longleftrightarrow>
     se_hash x \<notin> se_hash ` set (sessions db) \<and> se_audit x \<notin> se_audit ` set (sessions db) \<and>
     find_user db (se_user x) \<noteq> None \<and> se_provider x \<in> {''oidc'', ''oauth'', ''local''} \<and>
     se_created x \<le> se_seen x \<and> se_seen x < se_idle x \<and> se_idle x \<le> se_expires x"

text \<open>
  A session without an audit identifier gets the default of the column, from a sequence.  (A failed
  insertion also uses up a value of a sequence; only the numbers given later depend on it.)
\<close>

definition default_audit_id :: "nat \<Rightarrow> string" where
  "default_audit_id n = (let d = decimal_nat n in ''session-'' @ replicate (20 - length d) (CHR ''0'') @ d)"

definition insert_session :: "session_row \<Rightarrow> unit auth_call" where
  "insert_session x db =
     (if session_check db x then (Inr (), db\<lparr>sessions := sessions db @ [x\<lparr>se_revoked := None\<rparr>]\<rparr>)
      else (Inl ConstraintViolated, db))"

definition create_session :: "session_row \<Rightarrow> unit auth_call" where
  "create_session x db =
     (if se_audit x = [] then
        insert_session (x\<lparr>se_audit := default_audit_id (next_session db)\<rparr>)
          (db\<lparr>next_session := next_session db + 1\<rparr>)
      else if \<not> hex_audit_id (se_audit x) then (Inl InvalidIdentity, db)
      else insert_session x db)"

definition create_session_audited :: "time \<Rightarrow> session_row \<Rightarrow> audit_event \<Rightarrow> unit auth_call" where
  "create_session_audited clock x e =
     require (valid_event e) InvalidEvent
       (transaction
         (proceed (create_session x) (\<lambda>_. proceed (append_audit clock e) (\<lambda>_. return_ok (Inr ())))))"

text \<open>A session of a local account needs that account to be an administrator still.\<close>

definition local_allowed :: "auth_db \<Rightarrow> session_row \<Rightarrow> bool" where
  "local_allowed db x \<longleftrightarrow> se_provider x \<noteq> ''local'' \<or>
     (case find_user db (se_user x) of
        None \<Rightarrow> False
      | Some u \<Rightarrow> us_source u = ''local'' \<and> se_user x \<in> set (user_roles db))"

definition live_session :: "time \<Rightarrow> auth_db \<Rightarrow> hash \<Rightarrow> session_row \<Rightarrow> bool" where
  "live_session now db h x \<longleftrightarrow>
     se_hash x = h \<and> se_revoked x = None \<and> se_expires x > now \<and> se_idle x > now \<and>
     active_user db (se_user x) \<and> local_allowed db x"

definition touch_session :: "time \<Rightarrow> time \<Rightarrow> session_row \<Rightarrow> session_row" where
  "touch_session now idle_until x = x\<lparr>se_seen := now, se_idle := min idle_until (se_expires x)\<rparr>"

definition session_principal :: "hash \<Rightarrow> time \<Rightarrow> time \<Rightarrow> auth_principal auth_call" where
  "session_principal h now idle_until db =
     (case find (live_session now db h) (sessions db) of
        None \<Rightarrow> (Inl NoRows, db)
      | Some x \<Rightarrow>
         let y = touch_session now idle_until x in
         if \<not> (se_created y \<le> se_seen y \<and> se_seen y < se_idle y) then (Inl ConstraintViolated, db)
         else
           proceed (user_principal (se_user x) None)
             (\<lambda>p. return_ok (p\<lparr>pr_method := se_provider x, pr_force_rotation := se_force x\<rparr>))
             (db\<lparr>sessions := map (\<lambda>z. if live_session now db h z then touch_session now idle_until z else z)
                              (sessions db)\<rparr>))"

definition revoke_sessions :: "time \<Rightarrow> (session_row \<Rightarrow> bool) \<Rightarrow> auth_db \<Rightarrow> auth_db" where
  "revoke_sessions clock P db =
     db\<lparr>sessions := map (\<lambda>x. if P x then x\<lparr>se_revoked := Some clock\<rparr> else x) (sessions db)\<rparr>"

definition open_session :: "hash \<Rightarrow> session_row \<Rightarrow> bool" where
  "open_session h x \<longleftrightarrow> se_hash x = h \<and> se_revoked x = None"

definition revoke_session :: "time \<Rightarrow> hash \<Rightarrow> unit auth_call" where
  "revoke_session clock h db = (Inr (), revoke_sessions clock (open_session h) db)"

definition session_event :: "string \<Rightarrow> session_row \<Rightarrow> string \<Rightarrow> audit_event" where
  "session_event request x op =
     \<lparr>ev_actor_type = ''user'', ev_actor = decimal (se_user x), ev_target_type = ''session'', ev_target = se_audit x,
      ev_method = se_provider x, ev_operation = op, ev_outcome = ''success'', ev_request = request, ev_created = None\<rparr>"

definition revoke_session_audited :: "time \<Rightarrow> string \<Rightarrow> hash \<Rightarrow> unit auth_call" where
  "revoke_session_audited clock request h db =
     (case find (open_session h) (sessions db) of
        None \<Rightarrow>
          ignore_error (append_audit clock
            \<lparr>ev_actor_type = ''anonymous'', ev_actor = [], ev_target_type = ''session'', ev_target = [], ev_method = [],
             ev_operation = ''logout'', ev_outcome = ''invalid'', ev_request = request, ev_created = None\<rparr>)
            (return_ok ()) db
      | Some x \<Rightarrow>
          transaction
            (proceed (put_db (revoke_sessions clock (open_session h) db)) (\<lambda>_.
             proceed (for_each [''logout'', ''session_revoked'']
               (\<lambda>op. append_audit clock (session_event request x op))) (\<lambda>_. return_ok (Inr ())))) db)"

definition delete_expired_sessions :: "time \<Rightarrow> nat auth_call" where
  "delete_expired_sessions now db =
     (let dead = (\<lambda>x. se_idle x \<le> now \<or> se_expires x \<le> now \<or> se_revoked x \<noteq> None)
      in (Inr (length (filter dead (sessions db))), db\<lparr>sessions := filter (\<lambda>x. \<not> dead x) (sessions db)\<rparr>))"

subsection \<open>Revocation of all credentials of a user\<close>

definition revoke_grant_row :: "time \<Rightarrow> oauth_grant \<Rightarrow> oauth_grant" where
  "revoke_grant_row at g =
     g\<lparr>og_revoked := Some (case og_revoked g of None \<Rightarrow> at | Some t \<Rightarrow> t), og_ciphertext := None\<rparr>"

definition revoke_grants :: "time \<Rightarrow> (oauth_grant \<Rightarrow> bool) \<Rightarrow> auth_db \<Rightarrow> auth_db" where
  "revoke_grants at P db =
     db\<lparr>oauth_grants := map (\<lambda>g. if P g then revoke_grant_row at g else g) (oauth_grants db)\<rparr>"

definition revoke_admin_credentials :: "time \<Rightarrow> int \<Rightarrow> unit auth_call" where
  "revoke_admin_credentials clock u db =
     (let db1 = db\<lparr>oauth_requests := filter (\<lambda>q. oq_user q \<noteq> Some u) (oauth_requests db)\<rparr>;
          db2 = revoke_sessions clock (\<lambda>x. se_user x = u \<and> se_revoked x = None) db1;
          db3 = revoke_tokens clock (\<lambda>t. tk_user t = u \<and> tk_revoked t = None) db2
      in (Inr (), revoke_grants clock (\<lambda>g. og_user g = u \<and> og_revoked g = None) db3))"

subsection \<open>Managers\<close>

definition canonical_api_token :: "string \<Rightarrow> bool" where
  "canonical_api_token token \<longleftrightarrow>
     \<not> (\<not> has_prefix token ''gnp_'' \<or> length token \<noteq> length ''gnp_'' + b64_encoded_len 32) \<and>
     (case b64_decode (drop (length ''gnp_'') token) of
        None \<Rightarrow> False
      | Some raw \<Rightarrow> length raw = 32 \<and> b64_encode raw = drop (length ''gnp_'') token)"

definition api_token_rejected :: "string \<Rightarrow> audit_event" where
  "api_token_rejected request =
     \<lparr>ev_actor_type = ''anonymous'', ev_actor = [], ev_target_type = ''api_token'', ev_target = [],
      ev_method = ''api_token'', ev_operation = ''api_token_use_rejected'', ev_outcome = ''denied'',
      ev_request = request, ev_created = None\<rparr>"

text \<open>\<open>TokenManager.Authenticate\<close>: every rejection is recorded.\<close>

definition authenticate_api_token :: "time \<Rightarrow> string \<Rightarrow> string \<Rightarrow> auth_principal auth_call" where
  "authenticate_api_token now request token =
     (let reject = ignore_error (append_audit now (api_token_rejected request)) (return_error Unauthenticated) in
      if \<not> canonical_api_token token then reject
      else attempt_call (api_principal (sha256 token) now)
        (\<lambda>r. case r of Inl _ \<Rightarrow> reject | Inr p \<Rightarrow> return_ok p))"

text \<open>\<open>SessionManager.Authenticate\<close>.\<close>

definition authenticate_session :: "time \<Rightarrow> time \<Rightarrow> string \<Rightarrow> auth_principal auth_call" where
  "authenticate_session idle_ttl now token =
     (if idle_ttl \<le> 0 then return_error Unauthenticated
      else case b64_decode token of
        None \<Rightarrow> return_error Unauthenticated
      | Some raw \<Rightarrow>
         require (length raw = 32) Unauthenticated
           (attempt_call (session_principal (sha256 raw) now (now + idle_ttl))
              (\<lambda>r. case r of Inl _ \<Rightarrow> return_error Unauthenticated | Inr p \<Rightarrow> return_ok p)))"

end
