(* ===== verification/Oauth_Store.thy ===== *)
theory Oauth_Store
  imports Auth_Store
begin

text \<open>
  The tables of the authorization server: \<open>internal/postgres/oauth.go\<close> and \<open>oauth_security.go\<close>, with
  the records of \<open>internal/authn/oauth.go\<close> and the constraints of the migrations 021 to 025.
\<close>

subsection \<open>Clients\<close>

definition client_check :: "auth_db \<Rightarrow> oauth_client \<Rightarrow> bool" where
  "client_check db c \<longleftrightarrow>
     varchar_ok 64 (oc_id c) \<and> has_prefix (oc_id c) ''gnc_'' \<and> varchar_ok 64 (oc_name c) \<and> oc_name c \<noteq> [] \<and>
     1 \<le> length (oc_redirects c) \<and> length (oc_redirects c) \<le> 8 \<and> oc_id c \<notin> oc_id ` set (oauth_clients db)"

definition create_oauth_client :: "oauth_client \<Rightarrow> unit auth_call" where
  "create_oauth_client c db =
     (if length (oauth_clients db) \<ge> 10000 then (Inl ClientQuota, db)
      else if \<not> client_check db c then (Inl ConstraintViolated, db)
      else (Inr (), db\<lparr>oauth_clients := oauth_clients db @ [c\<lparr>oc_used := oc_created c\<rparr>]\<rparr>))"

definition find_client :: "auth_db \<Rightarrow> string \<Rightarrow> oauth_client option" where
  "find_client db i = find (\<lambda>c. oc_id c = i) (oauth_clients db)"

definition get_oauth_client :: "string \<Rightarrow> oauth_client auth_call" where
  "get_oauth_client i db = (case find_client db i of None \<Rightarrow> (Inl NoRows, db) | Some c \<Rightarrow> (Inr c, db))"

subsection \<open>Authorization requests and codes\<close>

definition request_check :: "auth_db \<Rightarrow> oauth_request \<Rightarrow> bool" where
  "request_check db q \<longleftrightarrow>
     oq_phase q \<in> {''pending'', ''code''} \<and> find_client db (oq_client q) \<noteq> None \<and>
     (case oq_user q of None \<Rightarrow> True | Some u \<Rightarrow> find_user db u \<noteq> None) \<and>
     varchar_ok 2048 (oq_redirect q) \<and> oq_redirect q \<noteq> [] \<and>
     varchar_ok 128 (oq_challenge q) \<and> 43 \<le> length (oq_challenge q) \<and> length (oq_challenge q) \<le> 128 \<and>
     varchar_ok 1024 (oq_state q) \<and> varchar_ok 256 (oq_scope q) \<and> varchar_ok 2048 (oq_resource q) \<and>
     oq_expires q > oq_created q \<and> (oq_phase q = ''pending'' \<or> oq_user q \<noteq> None)"

definition create_oauth_authorization_request :: "oauth_request \<Rightarrow> unit auth_call" where
  "create_oauth_authorization_request q db =
     (if \<not> request_check db q \<or> oq_id q \<in> oq_id ` set (oauth_requests db) then (Inl ConstraintViolated, db)
      else (Inr (), db\<lparr>oauth_requests := oauth_requests db @ [q],
        oauth_clients := (if oq_phase q = ''pending''
          then map (\<lambda>c. if oc_id c = oq_client q then c\<lparr>oc_used := max (oc_used c) (oq_created q)\<rparr> else c)
                 (oauth_clients db)
          else oauth_clients db)\<rparr>))"

definition live_request :: "hash \<Rightarrow> string \<Rightarrow> time \<Rightarrow> oauth_request \<Rightarrow> bool" where
  "live_request i phase now q \<longleftrightarrow> oq_id q = i \<and> oq_phase q = phase \<and> oq_expires q > now"

definition get_oauth_authorization_request :: "hash \<Rightarrow> string \<Rightarrow> time \<Rightarrow> oauth_request auth_call" where
  "get_oauth_authorization_request i phase now db =
     (case find (live_request i phase now) (oauth_requests db) of
        None \<Rightarrow> (Inl NoRows, db)
      | Some q \<Rightarrow> (Inr q, db))"

text \<open>The session that a consent must come from.\<close>

definition consent_session :: "auth_db \<Rightarrow> hash \<Rightarrow> int \<Rightarrow> time \<Rightarrow> bool" where
  "consent_session db h u now \<longleftrightarrow>
     list_ex (\<lambda>x. se_hash x = h \<and> se_user x = u \<and> se_revoked x = None \<and> se_expires x > now \<and> se_idle x > now \<and>
        \<not> se_force x \<and> se_provider x \<in> {''oidc'', ''oauth'', ''local''} \<and> local_allowed db x) (sessions db)"

definition issue_oauth_code :: "hash \<Rightarrow> hash \<Rightarrow> hash \<Rightarrow> int \<Rightarrow> time \<Rightarrow> time \<Rightarrow> unit auth_call" where
  "issue_oauth_code pending_id code_id session_hash u expires now db =
     (if \<not> active_user db u then (Inl NoRows, db)
      else if \<not> consent_session db session_hash u now then (Inl NoRows, db)
      else case find (live_request pending_id ''pending'' now) (oauth_requests db) of
        None \<Rightarrow> (Inl NoRows, db)
      | Some q \<Rightarrow>
         let code = q\<lparr>oq_id := code_id, oq_phase := ''code'', oq_user := Some u, oq_created := now, oq_expires := expires\<rparr>;
             updated = map (\<lambda>r. if live_request pending_id ''pending'' now r
               then r\<lparr>oq_id := code_id, oq_phase := ''code'', oq_user := Some u, oq_created := now, oq_expires := expires\<rparr>
               else r) (oauth_requests db)
         in if request_check db code \<and> distinct (map oq_id updated)
            then (Inr (), db\<lparr>oauth_requests := updated\<rparr>)
            else (Inl ConstraintViolated, db))"

definition delete_oauth_authorization_request :: "hash \<Rightarrow> unit auth_call" where
  "delete_oauth_authorization_request i db =
     (Inr (), db\<lparr>oauth_requests := filter (\<lambda>q. oq_id q \<noteq> i) (oauth_requests db)\<rparr>)"

subsection \<open>Grants\<close>

definition grants_unique :: "oauth_grant list \<Rightarrow> bool" where
  "grants_unique gs \<longleftrightarrow>
     distinct (map og_access gs) \<and> distinct (map og_refresh gs) \<and>
     distinct (map og_previous (filter (\<lambda>g. og_previous g \<noteq> None) gs))"

definition grant_check :: "auth_db \<Rightarrow> oauth_grant \<Rightarrow> bool" where
  "grant_check db g \<longleftrightarrow>
     find_client db (og_client g) \<noteq> None \<and> find_user db (og_user g) \<noteq> None \<and> varchar_ok 256 (og_scope g) \<and>
     og_expires g > og_created g"

definition create_oauth_grant :: "oauth_grant \<Rightarrow> int auth_call" where
  "create_oauth_grant g db =
     (let row = g\<lparr>og_id := next_grant db, og_previous := None, og_used := og_created g, og_revoked := None\<rparr>;
          rows = oauth_grants db @ [row]
      in if grant_check db row \<and> grants_unique rows
         then (Inr (next_grant db), db\<lparr>oauth_grants := rows, next_grant := next_grant db + 1\<rparr>)
         else (Inl ConstraintViolated, db))"

definition code_matches :: "hash \<Rightarrow> oauth_grant \<Rightarrow> oauth_request \<Rightarrow> bool" where
  "code_matches code_id g q \<longleftrightarrow>
     live_request code_id ''code'' (og_created g) q \<and> oq_user q = Some (og_user g) \<and>
     oq_client q = og_client g \<and> oq_scope q = og_scope g"

definition exchange_oauth_code :: "hash \<Rightarrow> oauth_grant \<Rightarrow> int auth_call" where
  "exchange_oauth_code code_id g = transaction (\<lambda>db.
     if \<not> active_user db (og_user g) then (Inl NoRows, db)
     else if length (filter (code_matches code_id g) (oauth_requests db)) \<noteq> 1 then (Inl NoRows, db)
     else proceed (put_db (db\<lparr>oauth_requests := filter (\<lambda>q. \<not> code_matches code_id g q) (oauth_requests db)\<rparr>))
       (\<lambda>_. proceed (create_oauth_grant g) (\<lambda>i. return_ok (Inr i))) db)"

definition live_grant :: "time \<Rightarrow> auth_db \<Rightarrow> oauth_grant \<Rightarrow> bool" where
  "live_grant now db g \<longleftrightarrow> og_revoked g = None \<and> og_expires g > now \<and> active_user db (og_user g)"

definition access_matches :: "hash \<Rightarrow> time \<Rightarrow> auth_db \<Rightarrow> oauth_grant \<Rightarrow> bool" where
  "access_matches h now db g \<longleftrightarrow> og_access g = h \<and> og_access_expires g > now \<and> live_grant now db g"

definition oauth_principal :: "hash \<Rightarrow> time \<Rightarrow> auth_principal auth_call" where
  "oauth_principal h now db =
     (case find (access_matches h now db) (oauth_grants db) of
        None \<Rightarrow> (Inl NoRows, db)
      | Some g \<Rightarrow>
         proceed (user_principal (og_user g) None) (\<lambda>p.
           proceed
             (if pr_administrator p
              then proceed (graph_repositories p) (\<lambda>rs.
                return_ok (p\<lparr>pr_repositories := pr_repositories p @ map ro_github rs, pr_administrator := False\<rparr>))
              else return_ok p)
             (\<lambda>p'. return_ok (p'\<lparr>pr_method := ''oauth_token'', pr_scope := og_scope g\<rparr>)))
           (db\<lparr>oauth_grants := map (\<lambda>x. if access_matches h now db x then x\<lparr>og_used := now\<rparr> else x) (oauth_grants db)\<rparr>))"

definition refresh_matches :: "hash \<Rightarrow> time \<Rightarrow> auth_db \<Rightarrow> oauth_grant \<Rightarrow> bool" where
  "refresh_matches h now db g \<longleftrightarrow> og_refresh g = h \<and> live_grant now db g"

definition oauth_grant_by_refresh :: "hash \<Rightarrow> time \<Rightarrow> oauth_grant auth_call" where
  "oauth_grant_by_refresh h now db =
     (case find (refresh_matches h now db) (oauth_grants db) of
        None \<Rightarrow> (Inl NoRows, db)
      | Some g \<Rightarrow> (Inr g, db))"

subsection \<open>Rotation\<close>

record oauth_rotation =
  rt_access :: hash
  rt_access_expires :: time
  rt_refresh :: hash
  rt_now :: time
  rt_grace :: time
  rt_audit :: audit_event
  rt_repositories :: "int list"
  rt_replace :: bool
  rt_revoke :: bool

definition replace_github_grants_tx :: "int \<Rightarrow> int list \<Rightarrow> unit auth_call" where
  "replace_github_grants_tx u ids db =
     (Inr (), db\<lparr>github_grants := filter (\<lambda>(x, _). x \<noteq> u) (github_grants db) @
        map (\<lambda>r. (u, ro_github r)) (filter (\<lambda>r. ro_github r \<in> set ids) (repositories db))\<rparr>)"

definition replace_github_grants :: "int \<Rightarrow> int list \<Rightarrow> unit auth_call" where
  "replace_github_grants u ids = transaction (proceed (replace_github_grants_tx u ids) (\<lambda>_. return_ok (Inr ())))"

definition rotated :: "oauth_rotation \<Rightarrow> oauth_grant \<Rightarrow> oauth_grant" where
  "rotated rot g =
     g\<lparr>og_access := rt_access rot, og_access_expires := rt_access_expires rot, og_previous := Some (og_refresh g),
       og_refresh := rt_refresh rot, og_used := rt_now rot\<rparr>"

definition consume_refresh :: "hash \<Rightarrow> int \<Rightarrow> time \<Rightarrow> unit auth_call" where
  "consume_refresh h i now db =
     (if h \<in> rf_hash ` set (refresh_tokens db) then (Inl ConstraintViolated, db)
      else (Inr (), db\<lparr>refresh_tokens := refresh_tokens db @ [\<lparr>rf_hash = h, rf_grant = i, rf_consumed = now\<rparr>]\<rparr>))"

definition replayed :: "auth_db \<Rightarrow> hash \<Rightarrow> time \<Rightarrow> oauth_grant \<Rightarrow> bool" where
  "replayed db h deadline g \<longleftrightarrow>
     list_ex (\<lambda>r. rf_grant r = og_id g \<and> rf_hash r = h \<and> rf_consumed r \<le> deadline) (refresh_tokens db)"

definition rotate_oauth_grant :: "time \<Rightarrow> hash \<Rightarrow> oauth_rotation \<Rightarrow> oauth_grant auth_call" where
  "rotate_oauth_grant clock h rot = transaction (\<lambda>db.
     let current = refresh_matches h (rt_now rot) db in
     if rt_revoke rot then
       (case find current (oauth_grants db) of
          None \<Rightarrow> (Inl NoRows, db)
        | Some g \<Rightarrow>
           proceed (put_db (revoke_grants (rt_now rot) current db)) (\<lambda>_.
           proceed (append_audit clock (rt_audit rot)) (\<lambda>_.
             return_ok (Inr (g\<lparr>og_revoked := Some (rt_now rot), og_ciphertext := None\<rparr>)))) db)
     else
       (case find current (oauth_grants db) of
          None \<Rightarrow>
            (let hit = replayed db h (rt_now rot - rt_grace rot) in
             if list_ex hit (oauth_grants db) then (Inr (Inl OAuthReplay), revoke_grants (rt_now rot) hit db)
             else (Inl NoRows, db))
        | Some g \<Rightarrow>
            (let rows = map (\<lambda>x. if current x then rotated rot x else x) (oauth_grants db) in
             require (grants_unique rows) ConstraintViolated
               (proceed (put_db (db\<lparr>oauth_grants := rows\<rparr>)) (\<lambda>_.
                proceed (consume_refresh h (og_id g) (rt_now rot)) (\<lambda>_.
                proceed (if rt_replace rot then replace_github_grants_tx (og_user g) (rt_repositories rot) else return_ok ()) (\<lambda>_.
                proceed (append_audit clock (rt_audit rot)) (\<lambda>_.
                  return_ok (Inr (rotated rot g))))))) db)))"

subsection \<open>Revocation and listing\<close>

definition update_oauth_grant_github_token :: "int \<Rightarrow> bytes \<Rightarrow> unit auth_call" where
  "update_oauth_grant_github_token i ct db =
     (let P = (\<lambda>g. og_id g = i \<and> og_revoked g = None);
          db' = db\<lparr>oauth_grants := map (\<lambda>g. if P g then g\<lparr>og_ciphertext := Some ct\<rparr> else g) (oauth_grants db)\<rparr>
      in if length (filter P (oauth_grants db)) = 1 then (Inr (), db') else (Inl NoRows, db'))"

definition revoke_oauth_grant :: "time \<Rightarrow> int \<Rightarrow> unit auth_call" where
  "revoke_oauth_grant clock i db = (Inr (), revoke_grants clock (\<lambda>g. og_id g = i) db)"

definition holds_token :: "auth_db \<Rightarrow> hash \<Rightarrow> string \<Rightarrow> oauth_grant \<Rightarrow> bool" where
  "holds_token db h client g \<longleftrightarrow>
     og_revoked g = None \<and> og_client g = client \<and>
     (og_access g = h \<or> og_refresh g = h \<or>
      list_ex (\<lambda>r. rf_grant r = og_id g \<and> rf_hash r = h) (refresh_tokens db))"

definition revoke_oauth_grant_by_token :: "time \<Rightarrow> hash \<Rightarrow> string \<Rightarrow> bool auth_call" where
  "revoke_oauth_grant_by_token clock h client db =
     (Inr (list_ex (holds_token db h client) (oauth_grants db)), revoke_grants clock (holds_token db h client) db)"

definition list_oauth_grants :: "time \<Rightarrow> int \<Rightarrow> int \<Rightarrow> nat \<Rightarrow> ((oauth_grant \<times> string) list \<times> bool) auth_call" where
  "list_oauth_grants clock u after limit db =
     (let rows = take (limit + 1) (sort_key (\<lambda>(g, _). og_id g)
            (concat (map (\<lambda>g. case find_client db (og_client g) of
                None \<Rightarrow> []
              | Some c \<Rightarrow> if og_user g = u \<and> og_id g > after \<and> og_revoked g = None \<and> og_expires g > clock
                          then [(g, oc_name c)] else []) (oauth_grants db))))
      in if length rows > limit then (Inr (take limit rows, True), db) else (Inr (rows, False), db))"

definition own_grant :: "int \<Rightarrow> int \<Rightarrow> oauth_grant \<Rightarrow> bool" where
  "own_grant u i g \<longleftrightarrow> og_id g = i \<and> og_user g = u \<and> og_revoked g = None"

definition revoke_user_oauth_grant :: "time \<Rightarrow> int \<Rightarrow> int \<Rightarrow> unit auth_call" where
  "revoke_user_oauth_grant clock u i db =
     (if \<not> list_ex (own_grant u i) (oauth_grants db) then (Inl NoRows, db)
      else (Inr (), revoke_grants clock (own_grant u i) db))"

definition revoke_user_oauth_grant_audited :: "time \<Rightarrow> int \<Rightarrow> int \<Rightarrow> audit_event \<Rightarrow> unit auth_call" where
  "revoke_user_oauth_grant_audited clock u i e =
     require (valid_event e) InvalidEvent
       (transaction (\<lambda>db.
          require (length (filter (own_grant u i) (oauth_grants db)) = 1) NoRows
            (proceed (put_db (revoke_grants clock (own_grant u i) db)) (\<lambda>_.
             proceed (append_audit clock e) (\<lambda>_. return_ok (Inr ())))) db))"

subsection \<open>Cleaning up\<close>

definition day :: time where
  "day = 24 * 60 * 60 * 1000000"

definition grant_dead :: "time \<Rightarrow> oauth_grant \<Rightarrow> bool" where
  "grant_dead deadline g \<longleftrightarrow>
     min (og_expires g) (case og_revoked g of None \<Rightarrow> og_expires g | Some t \<Rightarrow> t) \<le> deadline"

text \<open>Deleting a grant deletes its consumed tokens; deleting a client deletes its requests.\<close>

definition delete_expired_oauth :: "time \<Rightarrow> (nat \<times> nat \<times> nat) auth_call" where
  "delete_expired_oauth now db =
     (let old = (\<lambda>q. oq_expires q \<le> now);
          dead = grant_dead (now - 7 * day);
          gs = filter (\<lambda>g. \<not> dead g) (oauth_grants db);
          idle = (\<lambda>c. oc_used c \<le> now - 90 * day \<and> oc_id c \<notin> og_client ` set gs);
          qs = filter (\<lambda>q. \<not> old q) (oauth_requests db)
      in (Inr (length (filter old (oauth_requests db)), length (filter dead (oauth_grants db)),
            length (filter idle (oauth_clients db))),
          db\<lparr>oauth_requests := filter (\<lambda>q. oq_client q \<notin> oc_id ` set (filter idle (oauth_clients db))) qs,
            oauth_grants := gs,
            refresh_tokens := filter (\<lambda>r. rf_grant r \<in> og_id ` set gs) (refresh_tokens db),
            oauth_clients := filter (\<lambda>c. \<not> idle c) (oauth_clients db)\<rparr>))"

subsection \<open>Request budgets\<close>

text \<open>
  The address of the peer is parsed by \<open>net/netip\<close>: the argument \<open>canonical\<close> gives the canonical text of
  its IP address, \<open>None\<close> where the address is invalid.
\<close>

definition endpoint_limits :: "string \<Rightarrow> (nat \<times> nat) option" where
  "endpoint_limits endpoint =
     (if endpoint = ''/oauth/register'' \<or> endpoint = ''/oauth/authorize'' then Some (10, 100)
      else if endpoint = ''/oauth/token'' \<or> endpoint = ''/oauth/revoke'' then Some (60, 1000)
      else None)"

definition minute :: time where
  "minute = 60 * 1000000"

definition window_of :: "time \<Rightarrow> time" where
  "window_of now = now - now mod minute"

definition charge :: "string \<Rightarrow> time \<Rightarrow> bytes \<times> nat \<Rightarrow> auth_db \<Rightarrow> bool \<times> auth_db" where
  "charge endpoint window = (\<lambda>(source, limit) db.
     let mine = (\<lambda>r. lm_endpoint r = endpoint \<and> lm_source r = source) in
     case find mine (request_limits db) of
       None \<Rightarrow> (True, db\<lparr>request_limits := request_limits db @
         [\<lparr>lm_endpoint = endpoint, lm_source = source, lm_window = window, lm_count = 1\<rparr>]\<rparr>)
     | Some r \<Rightarrow>
         if lm_window r = window \<and> lm_count r < limit
         then (True, db\<lparr>request_limits := map (\<lambda>x. if mine x then x\<lparr>lm_count := lm_count x + 1\<rparr> else x) (request_limits db)\<rparr>)
         else (False, db))"

fun charge_all :: "string \<Rightarrow> time \<Rightarrow> (bytes \<times> nat) list \<Rightarrow> auth_db \<Rightarrow> bool \<times> auth_db" where
  "charge_all endpoint window [] db = (True, db)"
| "charge_all endpoint window (b # bs) db =
     (case charge endpoint window b db of
        (False, db') \<Rightarrow> (False, db')
      | (True, db') \<Rightarrow> charge_all endpoint window bs db')"

definition allow_oauth_request :: "(string \<Rightarrow> string option) \<Rightarrow> string \<Rightarrow> string \<Rightarrow> time \<Rightarrow> bool auth_call" where
  "allow_oauth_request canonical remote endpoint now db =
     (case endpoint_limits endpoint of
        None \<Rightarrow> (Inl UnsupportedEndpoint, db)
      | Some (source_limit, global_limit) \<Rightarrow>
         (case canonical remote of
            None \<Rightarrow> (Inl InvalidPeer, db)
          | Some ip \<Rightarrow>
             let window = window_of now;
                 db1 = db\<lparr>request_limits := filter (\<lambda>r. \<not> (lm_endpoint r = endpoint \<and> lm_window r < window)) (request_limits db)\<rparr>;
                 (ok, db2) = charge_all endpoint window [([], global_limit), (sha256 ip, source_limit)] db1
             in (Inr ok, db2)))"

end
