(* ===== verification/Oauth_Server.thy ===== *)
theory Oauth_Server
  imports Oauth_Store
begin

text \<open>
  The handlers of \<open>internal/oauthas/server.go\<close> and the provider-token hand-off of
  \<open>internal/oauthas/tokens.go\<close>.  A handler is a call on the state of one server process (the database
  and the hand-off table); writing a response and returning early is its error.  The parsed form of a
  request is a field of it (\<open>None\<close> where parsing fails), the clock and the random source are functions
  of the place of the reading, and \<open>net/url\<close>, the cipher and GitHub are fields of the server.
\<close>

subsection \<open>Provider tokens\<close>

record provider_entry =
  pe_subject :: string
  pe_token :: string
  pe_expires :: time

type_synonym provider_tokens = "hash \<rightharpoonup> provider_entry"

definition access_token_ttl :: time where "access_token_ttl = 60 * minute"
definition grant_ttl :: time where "grant_ttl = 30 * day"
definition code_ttl :: time where "code_ttl = minute"
definition pending_ttl :: time where "pending_ttl = 10 * minute"
definition refresh_grace :: time where "refresh_grace = 30 * 1000000"

definition sweep :: "time \<Rightarrow> provider_tokens \<Rightarrow> provider_tokens" where
  "sweep now m = (\<lambda>k. case m k of None \<Rightarrow> None | Some e \<Rightarrow> if pe_expires e > now then Some e else None)"

definition deposit :: "time \<Rightarrow> hash \<Rightarrow> string \<Rightarrow> string \<Rightarrow> provider_tokens \<Rightarrow> provider_tokens" where
  "deposit now request subject token m =
     (if subject = [] \<or> token = [] then m
      else (sweep now m)(request \<mapsto> \<lparr>pe_subject = subject, pe_token = token, pe_expires = now + pending_ttl\<rparr>))"

definition handoff_available :: "time \<Rightarrow> hash \<Rightarrow> string \<Rightarrow> provider_tokens \<Rightarrow> bool \<times> provider_tokens" where
  "handoff_available now request subject m =
     (let m' = sweep now m in (case m' request of None \<Rightarrow> False | Some e \<Rightarrow> pe_subject e = subject, m'))"

definition transfer :: "time \<Rightarrow> hash \<Rightarrow> string \<Rightarrow> hash \<Rightarrow> provider_tokens \<Rightarrow> bool \<times> provider_tokens" where
  "transfer now request subject code m =
     (let m' = sweep now m in
      case m' request of
        None \<Rightarrow> (False, m')
      | Some e \<Rightarrow>
         if pe_subject e \<noteq> subject then (False, m')
         else (True, (m'(request := None))
                (code \<mapsto> \<lparr>pe_subject = subject, pe_token = pe_token e, pe_expires = now + code_ttl\<rparr>)))"

definition token_for_code :: "time \<Rightarrow> hash \<Rightarrow> provider_tokens \<Rightarrow> string option \<times> provider_tokens" where
  "token_for_code now code m = (let m' = sweep now m in (map_option pe_token (m' code), m'))"

definition delete_for_code :: "hash \<Rightarrow> provider_tokens \<Rightarrow> provider_tokens" where
  "delete_for_code code m = m(code := None)"

subsection \<open>Requests, responses, the server\<close>

record http_request =
  rq_path :: string
  rq_remote :: string
  rq_content_type :: string
  rq_origin :: string
  rq_authorization :: "string list"
  rq_query :: "(string \<times> string list) list"
  rq_form :: "(string \<Rightarrow> string list) option"
  rq_cookies :: "(string \<times> string) list"
  rq_request_id :: string

datatype response =
    OAuthError nat string string
  | TokenResponse string string string int
  | ErrorPage string
  | ConsentPage string oauth_request oauth_client
  | RedirectTo string "(string \<times> string) list"
  | LoginRedirect string string
  | StatusOnly nat

record url =
  url_scheme :: string
  url_hostname :: string
  url_port :: string
  url_path :: string
  url_query :: string

record url_library =
  parse_url :: "string \<Rightarrow> url option"
  loopback_ip :: "string \<Rightarrow> bool" \<comment> \<open>\<open>net.ParseIP\<close> succeeds and \<open>IsLoopback\<close>\<close>
  with_port :: "string \<Rightarrow> int \<Rightarrow> string" \<comment> \<open>the URI with the host and this port\<close>

datatype moment = AtLimiter | AtHandler | AtHandOff | AtTransfer | AtResponse | AtLookup | AtSession | AtAudit | InDatabase

datatype draw = FirstSecret | SecondSecret | SealNonce

datatype github_answer = Accessible "int list" | GitHubUnauthorized | GitHubFailed

record oauth_server =
  sv_origin :: string
  sv_login_path :: string
  sv_github_login_path :: string
  sv_sessions :: "time option" \<comment> \<open>the idle lifetime of the session manager\<close>
  sv_sealer :: "aead option"
  sv_github :: "(string \<Rightarrow> github_answer) option"
  sv_github_tokens :: bool
  sv_audit :: bool
  sv_limiter :: bool
  sv_canonical :: "string \<Rightarrow> string option"
  sv_urls :: url_library
  sv_clock :: "moment \<Rightarrow> time"
  sv_rand :: "draw \<Rightarrow> bytes option"

record server_state =
  st_db :: auth_db
  st_tokens :: provider_tokens

type_synonym 'a handler = "(response, server_state, 'a) call"

definition on_store :: "'a auth_call \<Rightarrow> (auth_error, server_state, 'a) call" where
  "on_store m s = (case m (st_db s) of (r, db) \<Rightarrow> (r, s\<lparr>st_db := db\<rparr>))"

text \<open>A call of the store whose error becomes a response, and one whose result is inspected.\<close>

definition or_respond :: "'a auth_call \<Rightarrow> (auth_error \<Rightarrow> response) \<Rightarrow> 'a handler" where
  "or_respond m f s = (case on_store m s of (Inl e, s') \<Rightarrow> (Inl (f e), s') | (Inr x, s') \<Rightarrow> (Inr x, s'))"

definition inspect :: "'a auth_call \<Rightarrow> (auth_error + 'a) handler" where
  "inspect m s = (case on_store m s of (r, s') \<Rightarrow> (Inr r, s'))"

definition on_tokens :: "(provider_tokens \<Rightarrow> 'a \<times> provider_tokens) \<Rightarrow> 'a handler" where
  "on_tokens f s = (case f (st_tokens s) of (x, m) \<Rightarrow> (Inr x, s\<lparr>st_tokens := m\<rparr>))"

definition some_or :: "'a option \<Rightarrow> response \<Rightarrow> 'a handler" where
  "some_or v r = (case v of None \<Rightarrow> return_error r | Some x \<Rightarrow> return_ok x)"

text \<open>The response of a handler: an early one or the last one.\<close>

definition respond :: "response handler \<Rightarrow> server_state \<Rightarrow> response \<times> server_state" where
  "respond h s = (case h s of (Inl r, s') \<Rightarrow> (r, s') | (Inr r, s') \<Rightarrow> (r, s'))"

subsection \<open>Helpers\<close>

definition post_form :: "http_request \<Rightarrow> string \<Rightarrow> string" where
  "post_form rq k = (case rq_form rq of None \<Rightarrow> [] | Some f \<Rightarrow> (case f k of [] \<Rightarrow> [] | v # _ \<Rightarrow> v))"

definition single :: "(string \<times> string list) list \<Rightarrow> string \<Rightarrow> string option" where
  "single q k =
     (case map_of q k of
        Some [v] \<Rightarrow> if v = [] \<or> length v > 2048 then None else Some v
      | _ \<Rightarrow> None)"

definition named_cookie :: "http_request \<Rightarrow> string \<Rightarrow> string \<times> nat" where
  "named_cookie rq name =
     (let vs = map snd (filter (\<lambda>(n, _). n = name) (rq_cookies rq)) in (if vs = [] then [] else last vs, length vs))"

definition hex_value :: "char \<Rightarrow> nat option" where
  "hex_value c =
     (if is_digit c then Some (byte c - 48)
      else if 97 \<le> byte c \<and> byte c \<le> 102 then Some (byte c - 87)
      else if 65 \<le> byte c \<and> byte c \<le> 70 then Some (byte c - 55) else None)"

fun hex_decode :: "string \<Rightarrow> bytes option" where
  "hex_decode [] = Some []"
| "hex_decode [c] = None"
| "hex_decode (c # d # s) =
     (case (hex_value c, hex_value d, hex_decode s) of
        (Some x, Some y, Some r) \<Rightarrow> Some (char_of (16 * x + y) # r)
      | _ \<Rightarrow> None)"

definition parse_request_id :: "string list \<Rightarrow> (string \<times> hash) option" where
  "parse_request_id vs =
     (case vs of
        [v] \<Rightarrow> if length v \<noteq> 64 \<or> to_lower v \<noteq> v then None else map_option (\<lambda>raw. (v, raw)) (hex_decode v)
      | _ \<Rightarrow> None)"

fun parse_digits :: "string \<Rightarrow> nat \<Rightarrow> nat option" where
  "parse_digits [] n = Some n"
| "parse_digits (c # s) n = (if is_digit c then parse_digits s (10 * n + (byte c - 48)) else None)"

text \<open>\<open>strconv.ParseInt(s, 10, 64)\<close>.\<close>

definition parse_int64 :: "string \<Rightarrow> int option" where
  "parse_int64 s =
     (let neg = (s \<noteq> [] \<and> hd s = CHR ''-'');
          digits = (if s \<noteq> [] \<and> hd s \<in> set ''+-'' then tl s else s)
      in if digits = [] then None
         else case parse_digits digits 0 of
           None \<Rightarrow> None
         | Some n \<Rightarrow>
            let v = (if neg then - int n else int n)
            in if - (2 ^ 63) \<le> v \<and> v < 2 ^ 63 then Some v else None)"

definition request_cookie_name :: "string \<Rightarrow> string" where
  "request_cookie_name i = ''__Host-graphnest_oauth_req_'' @ i"

definition session_cookie_name :: string where
  "session_cookie_name = ''__Host-graphnest_session''"

definition audit_of :: "http_request \<Rightarrow> string \<Rightarrow> string \<Rightarrow> string \<Rightarrow> string \<Rightarrow> string \<Rightarrow> string \<Rightarrow> string \<Rightarrow> audit_event" where
  "audit_of rq actor_type actor target_type target meth op result =
     \<lparr>ev_actor_type = actor_type, ev_actor = actor, ev_target_type = target_type, ev_target = target, ev_method = meth,
      ev_operation = op, ev_outcome = result, ev_request = rq_request_id rq, ev_created = None\<rparr>"

text \<open>\<open>Server.record\<close>: the error of the recorder is dropped.\<close>

definition record_event :: "oauth_server \<Rightarrow> audit_event \<Rightarrow> 'a handler \<Rightarrow> 'a handler" where
  "record_event sv e k =
     (if sv_audit sv then proceed (inspect (append_audit (sv_clock sv AtAudit) e)) (\<lambda>_. k) else k)"

definition redirect_error :: "oauth_server \<Rightarrow> string \<Rightarrow> string \<Rightarrow> string \<Rightarrow> string \<Rightarrow> response" where
  "redirect_error sv redirect state code description =
     (if parse_url (sv_urls sv) redirect = None then StatusOnly 400
      else RedirectTo redirect ([(''error'', code), (''error_description'', description)] @
             (if state \<noteq> [] then [(''state'', state)] else [])))"

definition write_tokens :: "string \<Rightarrow> string \<Rightarrow> string \<Rightarrow> time \<Rightarrow> response" where
  "write_tokens access refresh scope lifetime =
     TokenResponse access refresh scope (max 0 (lifetime div 1000000))"

definition allow :: "oauth_server \<Rightarrow> http_request \<Rightarrow> unit handler" where
  "allow sv rq =
     require (sv_limiter sv) (OAuthError 503 ''temporarily_unavailable'' ''request limiter unavailable'')
       (proceed (or_respond (allow_oauth_request (sv_canonical sv) (rq_remote rq) (rq_path rq) (sv_clock sv AtLimiter))
           (\<lambda>_. OAuthError 503 ''temporarily_unavailable'' ''request limiter unavailable''))
         (\<lambda>allowed. require allowed (OAuthError 429 ''invalid_request'' ''too many requests'') (return_ok ())))"

definition session_principal_of :: "oauth_server \<Rightarrow> http_request \<Rightarrow> auth_principal option handler" where
  "session_principal_of sv rq =
     (case sv_sessions sv of
        None \<Rightarrow> return_ok None
      | Some idle \<Rightarrow>
         (let (token, count) = named_cookie rq session_cookie_name in
          if count \<noteq> 1 then return_ok None
          else proceed (inspect (authenticate_session idle (sv_clock sv AtSession) token)) (\<lambda>r.
            return_ok (case r of
              Inl _ \<Rightarrow> None
            | Inr p \<Rightarrow> if pr_force_rotation p \<or> pr_method p \<notin> {''oidc'', ''oauth'', ''local''} then None else Some p))))"

subsection \<open>Token endpoint\<close>

definition the_user :: "oauth_request \<Rightarrow> int" where
  "the_user q = (case oq_user q of None \<Rightarrow> 0 | Some u \<Rightarrow> u)"

definition invalid_grant :: "string \<Rightarrow> response" where
  "invalid_grant description = OAuthError 400 ''invalid_grant'' description"

definition unavailable :: "string \<Rightarrow> response" where
  "unavailable description = OAuthError 503 ''temporarily_unavailable'' description"

definition server_error :: "string \<Rightarrow> response" where
  "server_error description = OAuthError 500 ''server_error'' description"

text \<open>The provider token of a code, where the server derives access from GitHub.\<close>

definition code_provider_token :: "oauth_server \<Rightarrow> hash \<Rightarrow> string handler" where
  "code_provider_token sv code =
     (if sv_github sv = None then return_ok []
      else proceed
        (if sv_github_tokens sv \<and> sv_sealer sv \<noteq> None
         then proceed (on_tokens (token_for_code (sv_clock sv AtHandOff) code))
                (\<lambda>t. return_ok (case t of None \<Rightarrow> [] | Some x \<Rightarrow> x))
         else return_ok [])
        (\<lambda>t. if t = [] then
                proceed (inspect (delete_oauth_authorization_request code)) (\<lambda>_. return_error (invalid_grant
                  ''GitHub sign-in expired or reached another server; start authorization again''))
              else return_ok t))"

text \<open>Sealing the provider token into the new grant, which is revoked where that fails.\<close>

definition seal_provider_token :: "oauth_server \<Rightarrow> hash \<Rightarrow> int \<Rightarrow> string \<Rightarrow> unit handler" where
  "seal_provider_token sv code grant_id token =
     (if token = [] then return_ok ()
      else proceed (on_tokens (\<lambda>m. ((), delete_for_code code m))) (\<lambda>_.
        let ciphertext = (case sv_sealer sv of None \<Rightarrow> None | Some a \<Rightarrow> seal a (sv_rand sv SealNonce) grant_id token);
            failed = proceed (inspect (revoke_oauth_grant (sv_clock sv InDatabase) grant_id)) (\<lambda>_. return_error (unavailable
              ''could not secure GitHub credentials; start authorization again''))
        in case ciphertext of
             None \<Rightarrow> failed
           | Some ct \<Rightarrow>
              proceed (inspect (update_oauth_grant_github_token grant_id ct))
                (\<lambda>r. case r of Inl _ \<Rightarrow> failed | Inr _ \<Rightarrow> return_ok ())))"

text \<open>The end of an exchange: the code is consumed, the grant is made, and its tokens go out.\<close>

definition code_grant :: "oauth_server \<Rightarrow> oauth_request \<Rightarrow> hash \<Rightarrow> hash \<Rightarrow> oauth_grant" where
  "code_grant sv pending access_hash refresh_hash =
     (let now = sv_clock sv AtHandler in
      \<lparr>og_id = 0, og_client = oq_client pending, og_user = the_user pending, og_scope = oq_scope pending,
       og_access = access_hash, og_access_expires = now + access_token_ttl, og_refresh = refresh_hash,
       og_previous = None, og_ciphertext = None, og_created = now, og_used = now, og_expires = now + grant_ttl,
       og_revoked = None\<rparr>)"

definition issue_grant :: "oauth_server \<Rightarrow> http_request \<Rightarrow> hash \<Rightarrow> oauth_request \<Rightarrow> string \<Rightarrow>
    string \<times> hash \<Rightarrow> string \<times> hash \<Rightarrow> response handler" where
  "issue_grant sv rq code pending github_token access refresh =
     (let grant = code_grant sv pending (snd access) (snd refresh) in
      proceed (or_respond (exchange_oauth_code code grant)
        (\<lambda>e. if e = NoRows then invalid_grant ''authorization code is invalid, expired or already used''
              else unavailable ''could not issue tokens'')) (\<lambda>grant_id.
      proceed (seal_provider_token sv code grant_id github_token) (\<lambda>_.
      record_event sv (audit_of rq ''user'' (decimal (the_user pending)) ''oauth_grant'' (decimal grant_id) ''oauth_token''
          ''oauth_grant_created'' ''success'')
        (return_ok (write_tokens (fst access) (fst refresh) (oq_scope pending)
          (og_access_expires grant - sv_clock sv AtResponse))))))"

definition exchange_code :: "oauth_server \<Rightarrow> http_request \<Rightarrow> response handler" where
  "exchange_code sv rq =
     (let redirect = post_form rq ''redirect_uri''; client = post_form rq ''client_id'';
          verifier = post_form rq ''code_verifier''; now = sv_clock sv AtHandler
      in
      proceed (some_or (hash_secret (post_form rq ''code'') code_prefix)
        (OAuthError 400 ''invalid_request'' ''code, client_id and code_verifier are required'')) (\<lambda>code.
      require (\<not> (client = [] \<or> verifier = []))
        (OAuthError 400 ''invalid_request'' ''code, client_id and code_verifier are required'')
     (proceed (or_respond (get_oauth_authorization_request code ''code'' now)
        (\<lambda>e. if e \<noteq> NoRows then unavailable ''could not load authorization code''
              else invalid_grant ''authorization code is invalid, expired or already used'')) (\<lambda>pending.
      if oq_client pending \<noteq> client \<or> redirect \<noteq> oq_redirect pending \<or> \<not> verify_pkce verifier (oq_challenge pending) then
        proceed (inspect (delete_oauth_authorization_request code))
          (\<lambda>_. return_error (invalid_grant ''authorization code does not match this client''))
      else
        proceed (code_provider_token sv code) (\<lambda>github_token.
        proceed (some_or (new_secret (sv_rand sv FirstSecret) access_token_prefix) (server_error ''could not issue tokens'')) (\<lambda>(access, access_hash).
        proceed (some_or (new_secret (sv_rand sv SecondSecret) refresh_token_prefix) (server_error ''could not issue tokens'')) (\<lambda>(refresh, refresh_hash).
        issue_grant sv rq code pending github_token (access, access_hash) (refresh, refresh_hash))))))))"

text \<open>Revoking the grant that owns the presented token now.\<close>

definition revoke_current :: "oauth_server \<Rightarrow> http_request \<Rightarrow> hash \<Rightarrow> oauth_grant option \<Rightarrow> (auth_error + oauth_grant) handler" where
  "revoke_current sv rq h current =
     inspect (rotate_oauth_grant (sv_clock sv InDatabase) h
       \<lparr>rt_access = replicate 32 (CHR 0x00), rt_access_expires = 0, rt_refresh = replicate 32 (CHR 0x00),
        rt_now = sv_clock sv AtHandler, rt_grace = 0,
        rt_audit = audit_of rq ''user'' (decimal (case current of None \<Rightarrow> 0 | Some g \<Rightarrow> og_user g)) ''oauth_grant''
          (decimal (case current of None \<Rightarrow> 0 | Some g \<Rightarrow> og_id g)) ''oauth_token'' ''oauth_grant_revoked'' ''denied'',
        rt_repositories = [], rt_replace = False, rt_revoke = True\<rparr>)"

text \<open>What the result of revoking means for the response: an error that is not \<open>NoRows\<close> ends the request too.\<close>

definition after_revoke :: "(auth_error + oauth_grant) \<Rightarrow> string \<Rightarrow> string \<Rightarrow> unit handler" where
  "after_revoke r revoked failed =
     (case r of
        Inr _ \<Rightarrow> return_error (invalid_grant revoked)
      | Inl e \<Rightarrow> require (e = NoRows) (unavailable failed) (return_ok ()))"

definition has_ciphertext :: "oauth_grant option \<Rightarrow> bool" where
  "has_ciphertext current =
     (case current of None \<Rightarrow> False | Some g \<Rightarrow> (case og_ciphertext g of None \<Rightarrow> False | Some ct \<Rightarrow> ct \<noteq> []))"

definition open_provider_token :: "oauth_server \<Rightarrow> oauth_grant option \<Rightarrow> string handler" where
  "open_provider_token sv current =
     (if sv_github sv \<noteq> None \<and> has_ciphertext current then
        (case (sv_sealer sv, current) of
           (Some a, Some g) \<Rightarrow>
             some_or (open_sealed a (og_id g) (case og_ciphertext g of None \<Rightarrow> [] | Some ct \<Rightarrow> ct))
               (unavailable ''could not decrypt GitHub credentials; restore the key or authorize again'')
         | _ \<Rightarrow> return_error (unavailable ''could not decrypt GitHub credentials; restore the key or authorize again''))
      else return_ok [])"

text \<open>The repositories that GitHub reports: \<open>None\<close> where the grants are left as they are.\<close>

definition synced_repositories :: "oauth_server \<Rightarrow> http_request \<Rightarrow> hash \<Rightarrow> oauth_grant option \<Rightarrow> string \<Rightarrow> int list option handler" where
  "synced_repositories sv rq h current token =
     (case sv_github sv of
        None \<Rightarrow> return_ok None
      | Some github \<Rightarrow>
         if token = [] then return_ok None
         else case github token of
           Accessible ids \<Rightarrow> return_ok (Some ids)
         | GitHubFailed \<Rightarrow> return_ok None
         | GitHubUnauthorized \<Rightarrow>
             proceed (revoke_current sv rq h current) (\<lambda>r.
             proceed (after_revoke r ''GitHub rejected the stored credentials; the grant was revoked''
               ''GitHub rejected the stored credentials; authorize again'') (\<lambda>_. return_ok None)))"

text \<open>The rotation of a refresh: the access token does not outlive the grant.\<close>

definition refresh_rotation :: "oauth_server \<Rightarrow> http_request \<Rightarrow> oauth_grant option \<Rightarrow> int list option \<Rightarrow> hash \<Rightarrow> hash \<Rightarrow> oauth_rotation" where
  "refresh_rotation sv rq current ids access_hash refresh_hash =
     (let now = sv_clock sv AtHandler in
      \<lparr>rt_access = access_hash,
       rt_access_expires = (case current of
            None \<Rightarrow> now + access_token_ttl
          | Some g \<Rightarrow> if og_id g \<noteq> 0 \<and> now + access_token_ttl > og_expires g then og_expires g else now + access_token_ttl),
       rt_refresh = refresh_hash, rt_now = now, rt_grace = refresh_grace,
       rt_audit = audit_of rq ''user'' (decimal (case current of None \<Rightarrow> 0 | Some g \<Rightarrow> og_user g)) ''oauth_grant''
           (decimal (case current of None \<Rightarrow> 0 | Some g \<Rightarrow> og_id g)) ''oauth_token'' ''oauth_grant_refreshed'' ''success'',
       rt_repositories = (case ids of None \<Rightarrow> [] | Some xs \<Rightarrow> xs),
       rt_replace = (ids \<noteq> None), rt_revoke = False\<rparr>)"

definition missing_credentials :: "oauth_server \<Rightarrow> http_request \<Rightarrow> hash \<Rightarrow> oauth_grant option \<Rightarrow> unit handler" where
  "missing_credentials sv rq h current =
     (if current \<noteq> None \<and> sv_github sv \<noteq> None \<and> \<not> has_ciphertext current
      then proceed (revoke_current sv rq h current) (\<lambda>r.
        after_revoke r ''GitHub credentials are unavailable; the grant was revoked''
          ''could not revoke grant with missing GitHub credentials'')
      else return_ok ())"

definition rotate_tokens :: "oauth_server \<Rightarrow> http_request \<Rightarrow> hash \<Rightarrow> oauth_grant option \<Rightarrow> int list option \<Rightarrow> response handler" where
  "rotate_tokens sv rq h current ids =
     proceed (some_or (new_secret (sv_rand sv FirstSecret) access_token_prefix) (server_error ''could not issue tokens'')) (\<lambda>(access, access_hash).
     proceed (some_or (new_secret (sv_rand sv SecondSecret) refresh_token_prefix) (server_error ''could not issue tokens'')) (\<lambda>(refresh, new_refresh_hash).
     proceed (inspect (rotate_oauth_grant (sv_clock sv InDatabase) h
       (refresh_rotation sv rq current ids access_hash new_refresh_hash))) (\<lambda>r.
     case r of
       Inl OAuthReplay \<Rightarrow>
         record_event sv (audit_of rq ''anonymous'' [] ''oauth_client'' (post_form rq ''client_id'') ''oauth_token''
             ''oauth_grant_reuse_detected'' ''denied'')
           (return_error (invalid_grant ''refresh token was already used; the grant has been revoked''))
     | Inl NoRows \<Rightarrow> return_error (invalid_grant ''refresh token is invalid or expired'')
     | Inl _ \<Rightarrow> return_error (unavailable ''could not refresh token'')
     | Inr g \<Rightarrow> return_ok (write_tokens access refresh (og_scope g) (og_access_expires g - sv_clock sv AtResponse)))))"

definition refresh_grant :: "oauth_server \<Rightarrow> http_request \<Rightarrow> response handler" where
  "refresh_grant sv rq =
     (let client = post_form rq ''client_id''; now = sv_clock sv AtHandler in
      proceed (some_or (hash_secret (post_form rq ''refresh_token'') refresh_token_prefix)
        (OAuthError 400 ''invalid_request'' ''refresh_token and client_id are required'')) (\<lambda>h.
      require (client \<noteq> []) (OAuthError 400 ''invalid_request'' ''refresh_token and client_id are required'')
     (proceed (inspect (oauth_grant_by_refresh h now)) (\<lambda>found.
      require (case found of Inl e \<Rightarrow> e = NoRows | Inr _ \<Rightarrow> True) (unavailable ''could not refresh token'')
     (let current = (case found of Inl _ \<Rightarrow> None | Inr g \<Rightarrow> Some g) in
      require (case current of None \<Rightarrow> True | Some g \<Rightarrow> og_client g = client)
        (invalid_grant ''refresh token does not belong to this client'')
     (proceed (missing_credentials sv rq h current) (\<lambda>_.
      proceed (open_provider_token sv current) (\<lambda>token.
      proceed (synced_repositories sv rq h current token) (\<lambda>ids.
      rotate_tokens sv rq h current ids)))))))))"

definition token_endpoint :: "oauth_server \<Rightarrow> http_request \<Rightarrow> response handler" where
  "token_endpoint sv rq =
     proceed (allow sv rq) (\<lambda>_.
     require (has_prefix (rq_content_type rq) ''application/x-www-form-urlencoded'')
       (OAuthError 400 ''invalid_request'' ''request body must be application/x-www-form-urlencoded'')
    (require (rq_form rq \<noteq> None) (OAuthError 400 ''invalid_request'' ''request body is invalid'')
    (require (rq_authorization rq = []) (OAuthError 401 ''invalid_client'' ''public clients must not authenticate'')
    (if post_form rq ''grant_type'' = ''authorization_code'' then exchange_code sv rq
     else if post_form rq ''grant_type'' = ''refresh_token'' then refresh_grant sv rq
     else return_error (OAuthError 400 ''unsupported_grant_type''
            ''grant_type must be authorization_code or refresh_token'')))))"

subsection \<open>Revocation endpoint\<close>

fun revoke_prefixes :: "oauth_server \<Rightarrow> http_request \<Rightarrow> string list \<Rightarrow> unit handler" where
  "revoke_prefixes sv rq [] = return_ok ()"
| "revoke_prefixes sv rq (p # ps) =
     (case hash_secret (post_form rq ''token'') p of
        None \<Rightarrow> revoke_prefixes sv rq ps
      | Some h \<Rightarrow>
         proceed (or_respond (revoke_oauth_grant_by_token (sv_clock sv InDatabase) h (post_form rq ''client_id''))
             (\<lambda>_. unavailable ''could not revoke'')) (\<lambda>revoked.
         if revoked
         then record_event sv (audit_of rq ''anonymous'' [] ''oauth_client'' (post_form rq ''client_id'') []
                ''oauth_grant_revoked'' ''success'') (revoke_prefixes sv rq ps)
         else revoke_prefixes sv rq ps))"

definition revoke_endpoint :: "oauth_server \<Rightarrow> http_request \<Rightarrow> response handler" where
  "revoke_endpoint sv rq =
     proceed (allow sv rq) (\<lambda>_.
     require (rq_form rq \<noteq> None) (OAuthError 400 ''invalid_request'' ''request body is invalid'')
    (require (post_form rq ''client_id'' \<noteq> []) (OAuthError 400 ''invalid_request'' ''client_id is required'')
    (proceed (revoke_prefixes sv rq [access_token_prefix, refresh_token_prefix])
      (\<lambda>_. return_ok (StatusOnly 200)))))"

subsection \<open>Redirects\<close>

text \<open>\<open>strings.Trim(host, "[]")\<close>.\<close>

definition trim_brackets :: "string \<Rightarrow> string" where
  "trim_brackets s = (let inside = dropWhile (\<lambda>c. c \<in> set ''[]'') in rev (inside (rev (inside s))))"

definition is_loopback_host :: "url_library \<Rightarrow> string \<Rightarrow> bool" where
  "is_loopback_host lib host \<longleftrightarrow> host = ''localhost'' \<or> loopback_ip lib (trim_brackets host)"

definition resolve_redirect :: "url_library \<Rightarrow> string \<Rightarrow> string \<Rightarrow> string option" where
  "resolve_redirect lib registered requested =
     (if registered = requested then Some registered
      else case (parse_url lib registered, parse_url lib requested) of
        (Some a, Some b) \<Rightarrow>
          if url_scheme a \<noteq> ''http'' \<or> url_scheme b \<noteq> ''http'' \<or> \<not> is_loopback_host lib (url_hostname a) \<or>
             \<not> is_loopback_host lib (url_hostname b) then None
          else if url_hostname a \<noteq> url_hostname b \<or> url_path a \<noteq> url_path b \<or> url_query a \<noteq> url_query b then None
          else (case parse_int64 (url_port b) of
                  None \<Rightarrow> None
                | Some port \<Rightarrow> if port < 1 \<or> port > 65535 then None else Some (with_port lib registered port))
      | _ \<Rightarrow> None)"

fun registered_redirect :: "url_library \<Rightarrow> string list \<Rightarrow> string \<Rightarrow> string option" where
  "registered_redirect lib [] requested = None"
| "registered_redirect lib (c # cs) requested =
     (case resolve_redirect lib c requested of Some r \<Rightarrow> Some r | None \<Rightarrow> registered_redirect lib cs requested)"

subsection \<open>Authorization endpoint\<close>

definition mcp_resource :: "oauth_server \<Rightarrow> string" where
  "mcp_resource sv = sv_origin sv @ ''/mcp''"

definition query_value :: "http_request \<Rightarrow> string \<Rightarrow> string" where
  "query_value rq k = (case single (rq_query rq) k of None \<Rightarrow> [] | Some v \<Rightarrow> v)"

definition consent :: "oauth_server \<Rightarrow> http_request \<Rightarrow> string \<Rightarrow> oauth_request \<Rightarrow> oauth_client \<Rightarrow> response handler" where
  "consent sv rq request_id pending client =
     proceed (session_principal_of sv rq) (\<lambda>_. return_ok (ConsentPage request_id pending client))"

definition start_authorization :: "oauth_server \<Rightarrow> http_request \<Rightarrow> response handler" where
  "start_authorization sv rq =
     proceed (allow sv rq) (\<lambda>_.
     let now = sv_clock sv AtHandler; q = rq_query rq in
     proceed (some_or (single q ''client_id'') (ErrorPage ''The authorization request is missing a client_id.'')) (\<lambda>client_id.
     proceed (or_respond (get_oauth_client client_id) (\<lambda>_. ErrorPage ''Unknown client. Register the client first.'')) (\<lambda>client.
     proceed (some_or (single q ''redirect_uri'') (ErrorPage ''The authorization request is missing a redirect_uri.'')) (\<lambda>requested.
     proceed (some_or (registered_redirect (sv_urls sv) (oc_redirects client) requested)
       (ErrorPage ''The redirect_uri does not match the client registration.'')) (\<lambda>redirect.
     let state = query_value rq ''state''; fail = redirect_error sv redirect state;
         challenge = single q ''code_challenge''; resource = query_value rq ''resource''; scope = query_value rq ''scope''
     in
     proceed (case find (\<lambda>(k, vs). length vs > 1) q of
         None \<Rightarrow> return_ok ()
       | Some (k, vs) \<Rightarrow> return_error (fail ''invalid_request'' (''parameter '' @ k @ '' is repeated''))) (\<lambda>_.
     require (single q ''response_type'' = Some ''code'') (fail ''unsupported_response_type'' ''response_type must be code'')
    (require (case challenge of None \<Rightarrow> False | Some c \<Rightarrow> valid_challenge c)
       (fail ''invalid_request'' ''code_challenge (S256) is required'')
    (require (single q ''code_challenge_method'' = Some ''S256'') (fail ''invalid_request'' ''code_challenge_method must be S256'')
    (require (\<not> (resource \<noteq> [] \<and> resource \<noteq> mcp_resource sv))
       (fail ''invalid_target'' (''resource must be '' @ mcp_resource sv))
    (require (\<not> (length scope > 256 \<or> length state > 1024)) (fail ''invalid_request'' ''scope or state is too long'')
    (proceed (some_or (new_secret (sv_rand sv FirstSecret) []) (fail ''server_error'' ''could not start authorization'')) (\<lambda>(handle, handle_hash).
     let pending = \<lparr>oq_id = handle_hash, oq_phase = ''pending'', oq_client = oc_id client, oq_user = None,
           oq_redirect = redirect, oq_challenge = (case challenge of None \<Rightarrow> [] | Some c \<Rightarrow> c), oq_state = state,
           oq_scope = scope, oq_resource = resource, oq_created = now, oq_expires = now + pending_ttl\<rparr>;
         request_id = hex_encode handle_hash
     in
     proceed (or_respond (create_oauth_authorization_request pending)
       (\<lambda>_. fail ''temporarily_unavailable'' ''could not start authorization'')) (\<lambda>_.
     proceed (session_principal_of sv rq) (\<lambda>p.
     let (login, signed_in) = (if sv_github sv \<noteq> None then (sv_github_login_path sv, False) else (sv_login_path sv, p \<noteq> None))
     in if \<not> signed_in then
          require (login \<noteq> []) (ErrorPage ''No sign-in provider is available for this authorization.'')
            (return_ok (LoginRedirect login (''/oauth/authorize/resume?request_id='' @ request_id)))
        else consent sv rq request_id pending client))))))))))))))"

definition pending_from_cookie :: "oauth_server \<Rightarrow> http_request \<Rightarrow> string \<Rightarrow> hash \<Rightarrow> (oauth_request \<times> oauth_client) handler" where
  "pending_from_cookie sv rq request_id pending_id =
     (let (cookie, count) = named_cookie rq (request_cookie_name request_id) in
      require (count = 1) (ErrorPage ''This authorization request has expired. Start again from your MCP client.'')
     (require (hash_secret cookie [] = Some pending_id)
        (ErrorPage ''This authorization request is invalid. Start again from your MCP client.'')
     (proceed (or_respond (get_oauth_authorization_request pending_id ''pending'' (sv_clock sv AtLookup))
        (\<lambda>_. ErrorPage ''This authorization request has expired. Start again from your MCP client.'')) (\<lambda>pending.
      proceed (or_respond (get_oauth_client (oq_client pending)) (\<lambda>_. ErrorPage ''Unknown client.''))
        (\<lambda>client. return_ok (pending, client))))))"

definition resume :: "oauth_server \<Rightarrow> http_request \<Rightarrow> response handler" where
  "resume sv rq =
     proceed (some_or (parse_request_id (case map_of (rq_query rq) ''request_id'' of None \<Rightarrow> [] | Some vs \<Rightarrow> vs))
       (ErrorPage ''This authorization request is invalid. Start again from your MCP client.'')) (\<lambda>(request_id, pending_id).
     proceed (pending_from_cookie sv rq request_id pending_id) (\<lambda>(pending, client).
     proceed (session_principal_of sv rq) (\<lambda>p.
     require (p \<noteq> None) (ErrorPage ''Sign-in did not complete. Start the authorization again from your MCP client.'')
       (consent sv rq request_id pending client))))"

definition decide :: "oauth_server \<Rightarrow> http_request \<Rightarrow> response handler" where
  "decide sv rq =
     require (rq_origin rq = sv_origin sv) (ErrorPage ''The consent form was submitted from an unexpected origin.'')
    (proceed (some_or (rq_form rq) (ErrorPage ''The consent form is invalid.'')) (\<lambda>form.
     proceed (some_or (parse_request_id (form ''request_id''))
       (ErrorPage ''The consent form does not match this authorization request.'')) (\<lambda>(request_id, pending_id).
     proceed (pending_from_cookie sv rq request_id pending_id) (\<lambda>(pending, client).
     proceed (session_principal_of sv rq) (\<lambda>found.
     proceed (some_or found (ErrorPage ''Your session has expired. Start again from your MCP client.'')) (\<lambda>p.
     proceed (some_or (case parse_int64 (pr_subject p) of None \<Rightarrow> None | Some u \<Rightarrow> if u < 1 then None else Some u)
       (ErrorPage ''Your session cannot authorize clients.'')) (\<lambda>u.
     let now = sv_clock sv AtHandler;
         failed = redirect_error sv (oq_redirect pending) (oq_state pending) ''server_error'' ''could not issue an authorization code''
     in
     proceed (if sv_github_tokens sv then on_tokens (handoff_available (sv_clock sv AtHandOff) (oq_id pending) (pr_subject p)) else return_ok True) (\<lambda>ready.
     require ready failed
    (if post_form rq ''decision'' \<noteq> ''allow'' then
       proceed (inspect (delete_oauth_authorization_request (oq_id pending))) (\<lambda>_.
       record_event sv (audit_of rq ''user'' (pr_subject p) ''oauth_client'' (oc_id client) (pr_method p)
           ''oauth_consent_denied'' ''denied'')
         (return_ok (redirect_error sv (oq_redirect pending) (oq_state pending) ''access_denied'' ''the user denied the request'')))
     else
       proceed (some_or (new_secret (sv_rand sv FirstSecret) code_prefix) failed) (\<lambda>(code, code_hash).
       proceed (some_or (hash_secret (fst (named_cookie rq session_cookie_name)) []) failed) (\<lambda>session_hash.
       proceed (or_respond (issue_oauth_code (oq_id pending) code_hash session_hash u (now + code_ttl) now) (\<lambda>_. failed)) (\<lambda>_.
       proceed (if sv_github_tokens sv
                then on_tokens (transfer (sv_clock sv AtTransfer) (oq_id pending) (pr_subject p) code_hash) else return_ok True) (\<lambda>moved.
       if \<not> moved then proceed (inspect (delete_oauth_authorization_request code_hash)) (\<lambda>_. return_error failed)
       else
         record_event sv (audit_of rq ''user'' (pr_subject p) ''oauth_client'' (oc_id client) (pr_method p)
             ''oauth_consent_granted'' ''success'')
           (return_ok (RedirectTo (oq_redirect pending)
             ([(''code'', code)] @ (if oq_state pending \<noteq> [] then [(''state'', oq_state pending)] else [])))))))))))))))))"

end
