(* ===== verification/Oauth_Runs.thy ===== *)
theory Oauth_Runs
  imports Oauth_Store
begin

text \<open>
  Runs of the authorization server's store: the operations of \<open>Oauth_Store\<close> in any order, with any
  arguments, between changes of the other tables by the rest of the program.  The concurrent requests
  of several servers are such a run, since every operation is one transaction.
\<close>

subsection \<open>Operations\<close>

datatype oauth_op =
    RegisterClient oauth_client
  | CreateRequest oauth_request
  | IssueCode hash hash hash int time time
  | DeleteRequest hash
  | ExchangeCode hash oauth_grant
  | CreateGrant oauth_grant
  | ResolveAccess hash time
  | RotateGrant time hash oauth_rotation
  | SealToken int bytes
  | RevokeGrant time int
  | RevokeByToken time hash string
  | RevokeUserGrant time int int
  | RevokeUserGrantAudited time int int audit_event
  | ReplaceGitHub int "int list"
  | RevokeCredentials time int
  | CleanUp time
  | AllowRequest string string time
  | OtherTables auth_db

definition same_oauth_tables :: "auth_db \<Rightarrow> auth_db \<Rightarrow> bool" where
  "same_oauth_tables db db' \<longleftrightarrow>
     oauth_clients db' = oauth_clients db \<and> oauth_requests db' = oauth_requests db \<and>
     oauth_grants db' = oauth_grants db \<and> next_grant db' = next_grant db \<and>
     refresh_tokens db' = refresh_tokens db \<and> request_limits db' = request_limits db"

definition succeeded :: "('e + 'a) \<times> 's \<Rightarrow> bool \<times> 's" where
  "succeeded x = (case fst x of Inl _ \<Rightarrow> False | Inr _ \<Rightarrow> True, snd x)"

text \<open>Whether the operation succeeds (a request budget: whether the request is allowed), and the state after it.\<close>

fun perform :: "(string \<Rightarrow> string option) \<Rightarrow> oauth_op \<Rightarrow> auth_db \<Rightarrow> bool \<times> auth_db" where
  "perform canon (RegisterClient c) db = succeeded (create_oauth_client c db)"
| "perform canon (CreateRequest q) db = succeeded (create_oauth_authorization_request q db)"
| "perform canon (IssueCode p c s u e n) db = succeeded (issue_oauth_code p c s u e n db)"
| "perform canon (DeleteRequest i) db = succeeded (delete_oauth_authorization_request i db)"
| "perform canon (ExchangeCode c g) db = succeeded (exchange_oauth_code c g db)"
| "perform canon (CreateGrant g) db = succeeded (create_oauth_grant g db)"
| "perform canon (ResolveAccess h n) db = succeeded (oauth_principal h n db)"
| "perform canon (RotateGrant k h rot) db = succeeded (rotate_oauth_grant k h rot db)"
| "perform canon (SealToken i ct) db = succeeded (update_oauth_grant_github_token i ct db)"
| "perform canon (RevokeGrant k i) db = succeeded (revoke_oauth_grant k i db)"
| "perform canon (RevokeByToken k h c) db = succeeded (revoke_oauth_grant_by_token k h c db)"
| "perform canon (RevokeUserGrant k u i) db = succeeded (revoke_user_oauth_grant k u i db)"
| "perform canon (RevokeUserGrantAudited k u i e) db = succeeded (revoke_user_oauth_grant_audited k u i e db)"
| "perform canon (ReplaceGitHub u ids) db = succeeded (replace_github_grants u ids db)"
| "perform canon (RevokeCredentials k u) db = succeeded (revoke_admin_credentials k u db)"
| "perform canon (CleanUp n) db = succeeded (delete_expired_oauth n db)"
| "perform canon (AllowRequest r ep n) db =
     (let x = allow_oauth_request canon r ep n db in (fst x = Inr True, snd x))"
| "perform canon (OtherTables other) db = (if same_oauth_tables db other then (True, other) else (False, db))"

fun run_ops :: "(string \<Rightarrow> string option) \<Rightarrow> oauth_op list \<Rightarrow> auth_db \<Rightarrow> auth_db" where
  "run_ops canon [] db = db"
| "run_ops canon (x # xs) db = run_ops canon xs (snd (perform canon x db))"

text \<open>How many of the operations of a kind succeed in a run.\<close>

fun count_ok :: "(string \<Rightarrow> string option) \<Rightarrow> (oauth_op \<Rightarrow> bool) \<Rightarrow> oauth_op list \<Rightarrow> auth_db \<Rightarrow> nat" where
  "count_ok canon P [] db = 0"
| "count_ok canon P (x # xs) db =
     (if P x \<and> fst (perform canon x db) then 1 else 0) + count_ok canon P xs (snd (perform canon x db))"

text \<open>The hashes of the secrets that an operation brings in.\<close>

fun draws :: "oauth_op \<Rightarrow> hash set" where
  "draws (CreateRequest q) = {oq_id q}"
| "draws (IssueCode p c s u e n) = {c}"
| "draws (ExchangeCode c g) = {og_access g, og_refresh g}"
| "draws (CreateGrant g) = {og_access g, og_refresh g}"
| "draws (RotateGrant k h rot) = {rt_access rot, rt_refresh rot}"
| "draws _ = {}"

definition avoids :: "hash \<Rightarrow> oauth_op list \<Rightarrow> bool" where
  "avoids h xs \<longleftrightarrow> list_all (\<lambda>x. h \<notin> draws x) xs"

text \<open>A quantity that no operation increases and every counted success decreases bounds the count.\<close>

lemma count_ok_bounded:
  assumes inv: "\<And>x db. I db \<Longrightarrow> Q x \<Longrightarrow> I (snd (perform canon x db))"
    and le: "\<And>x db. I db \<Longrightarrow> Q x \<Longrightarrow>
      (if P x \<and> fst (perform canon x db) then 1 else 0) + f (snd (perform canon x db)) \<le> (f db :: nat)"
    and "I db" "list_all Q xs"
  shows "count_ok canon P xs db \<le> f db"
  using assms(3, 4)
proof (induction xs arbitrary: db)
  case (Cons x xs)
  then have "count_ok canon P xs (snd (perform canon x db)) \<le> f (snd (perform canon x db))"
    using inv by simp
  with le [of db x] Cons.prems show ?case
    by (simp split: if_splits)
qed simp

lemma run_ops_inv:
  assumes "\<And>x db. I db \<Longrightarrow> Q x \<Longrightarrow> I (snd (perform canon x db))" "I db" "list_all Q xs"
  shows "I (run_ops canon xs db)"
  using assms(2, 3)
  by (induction xs arbitrary: db) (simp_all add: assms(1))

subsection \<open>What the operations do to the grants\<close>

lemma transaction_cases:
  assumes "transaction body db = (r, db')"
  obtains e where "r = Inl e" "db' = db" "fst (body db) = Inl e"
  | "body db = (Inr r, db')"
  using assms by (auto simp: transaction_def split: prod.splits sum.splits)

lemma append_audit_Inr:
  "append_audit clock e db = (Inr x, db') \<longleftrightarrow>
     (\<exists>e'. new_event clock e = Some e' \<and> db' = db\<lparr>audit_log := audit_log db @ [e']\<rparr>)"
  by (auto simp: append_audit_def split: option.splits)

lemma put_db_Inr: "put_db db' db = (Inr x, db'') \<longleftrightarrow> db'' = db'"
  by (auto simp: put_db_def)

lemma get_db_Inr: "get_db db = (Inr x, db'') \<longleftrightarrow> x = db \<and> db'' = db"
  by (auto simp: get_db_def)

lemmas call_Inr = proceed_Inr require_Inr append_audit_Inr put_db_Inr get_db_Inr

text \<open>The same grant, perhaps used, sealed or revoked meanwhile.\<close>

definition same_grant :: "oauth_grant \<Rightarrow> oauth_grant \<Rightarrow> bool" where
  "same_grant g g' \<longleftrightarrow>
     og_id g' = og_id g \<and> og_client g' = og_client g \<and> og_user g' = og_user g \<and> og_access g' = og_access g \<and>
     og_refresh g' = og_refresh g \<and> og_previous g' = og_previous g \<and> og_expires g' = og_expires g \<and>
     og_access_expires g' = og_access_expires g \<and> (og_revoked g \<noteq> None \<longrightarrow> og_revoked g' \<noteq> None)"

inductive grant_change :: "hash set \<Rightarrow> auth_db \<Rightarrow> auth_db \<Rightarrow> bool" where
  Kept: "oauth_grants db' = map f (oauth_grants db) \<Longrightarrow> (\<And>g. same_grant g (f g)) \<Longrightarrow>
     next_grant db' = next_grant db \<Longrightarrow> refresh_tokens db' = refresh_tokens db \<Longrightarrow> grant_change D db db'"
| Created: "oauth_grants db' = oauth_grants db @ [g] \<Longrightarrow> og_id g = next_grant db \<Longrightarrow> og_access g \<in> D \<Longrightarrow>
     og_refresh g \<in> D \<Longrightarrow> grants_unique (oauth_grants db') \<Longrightarrow> next_grant db' = next_grant db + 1 \<Longrightarrow>
     refresh_tokens db' = refresh_tokens db \<Longrightarrow> grant_change D db db'"
| Rotated: "g \<in> set (oauth_grants db) \<Longrightarrow> refresh_matches h (rt_now rot) db g \<Longrightarrow> rt_access rot \<in> D \<Longrightarrow>
     rt_refresh rot \<in> D \<Longrightarrow>
     oauth_grants db' = map (\<lambda>x. if refresh_matches h (rt_now rot) db x then rotated rot x else x) (oauth_grants db) \<Longrightarrow>
     grants_unique (oauth_grants db') \<Longrightarrow> h \<notin> rf_hash ` set (refresh_tokens db) \<Longrightarrow>
     refresh_tokens db' = refresh_tokens db @ [\<lparr>rf_hash = h, rf_grant = og_id g, rf_consumed = rt_now rot\<rparr>] \<Longrightarrow>
     next_grant db' = next_grant db \<Longrightarrow> grant_change D db db'"
| Cleaned: "oauth_grants db' = filter P (oauth_grants db) \<Longrightarrow> next_grant db' = next_grant db \<Longrightarrow>
     refresh_tokens db' = filter (\<lambda>r. rf_grant r \<in> og_id ` set (oauth_grants db')) (refresh_tokens db) \<Longrightarrow>
     grant_change D db db'"

lemma same_grant_refl [simp]: "same_grant g g"
  by (simp add: same_grant_def)

lemma grant_unchanged:
  "oauth_grants db' = oauth_grants db \<Longrightarrow> next_grant db' = next_grant db \<Longrightarrow> refresh_tokens db' = refresh_tokens db \<Longrightarrow>
   grant_change D db db'"
  by (rule Kept [where f = id]) simp_all

lemma revoke_grants_tables [simp]:
  "next_grant (revoke_grants at P db) = next_grant db" "refresh_tokens (revoke_grants at P db) = refresh_tokens db"
  "oauth_requests (revoke_grants at P db) = oauth_requests db" "request_limits (revoke_grants at P db) = request_limits db"
  "oauth_clients (revoke_grants at P db) = oauth_clients db"
  by (simp_all add: revoke_grants_def)

lemma revoke_changes:
  assumes "oauth_grants db' = oauth_grants (revoke_grants at P db)" "next_grant db' = next_grant db"
    "refresh_tokens db' = refresh_tokens db"
  shows "grant_change D db db'"
  using assms
  by (intro Kept [where f = "\<lambda>g. if P g then revoke_grant_row at g else g"])
    (simp_all add: revoke_grants_def same_grant_def revoke_grant_row_def)

text \<open>The possible results of a rotation.\<close>

lemma rotate_cases:
  assumes "rotate_oauth_grant clock h rot db = (r, db')"
  obtains (failed) e where "r = Inl e" "e \<noteq> OAuthReplay" "db' = db"
  | (revoked) g e where "rt_revoke rot" "r = Inr (g\<lparr>og_revoked := Some (rt_now rot), og_ciphertext := None\<rparr>)"
      "find (refresh_matches h (rt_now rot) db) (oauth_grants db) = Some g"
      "db' = (revoke_grants (rt_now rot) (refresh_matches h (rt_now rot) db) db)\<lparr>audit_log := audit_log db @ [e]\<rparr>"
  | (replay) "\<not> rt_revoke rot" "r = Inl OAuthReplay"
      "find (refresh_matches h (rt_now rot) db) (oauth_grants db) = None"
      "list_ex (replayed db h (rt_now rot - rt_grace rot)) (oauth_grants db)"
      "db' = revoke_grants (rt_now rot) (replayed db h (rt_now rot - rt_grace rot)) db"
  | (rotated) g where "\<not> rt_revoke rot" "r = Inr (rotated rot g)"
      "find (refresh_matches h (rt_now rot) db) (oauth_grants db) = Some g"
      "oauth_grants db' = map (\<lambda>x. if refresh_matches h (rt_now rot) db x then rotated rot x else x) (oauth_grants db)"
      "grants_unique (oauth_grants db')" "h \<notin> rf_hash ` set (refresh_tokens db)"
      "refresh_tokens db' = refresh_tokens db @ [\<lparr>rf_hash = h, rf_grant = og_id g, rf_consumed = rt_now rot\<rparr>]"
      "next_grant db' = next_grant db" "oauth_requests db' = oauth_requests db" "request_limits db' = request_limits db"
proof -
  let ?m = "refresh_matches h (rt_now rot) db"
  let ?hit = "replayed db h (rt_now rot - rt_grace rot)"
  note unfolds = transaction_def Let_def call_defs put_db_def append_audit_def consume_refresh_def
    replace_github_grants_tx_def
  show thesis
  proof (cases "find ?m (oauth_grants db)")
    case None
    with assms show thesis
      by (cases "rt_revoke rot"; cases "list_ex ?hit (oauth_grants db)")
        (auto simp: rotate_oauth_grant_def unfolds intro: failed replay)
  next
    case (Some g)
    show thesis
    proof (cases "rt_revoke rot")
      case True
      with assms Some show thesis
        by (cases "new_event clock (rt_audit rot)")
          (auto simp: rotate_oauth_grant_def unfolds revoke_grants_def intro: failed revoked)
    next
      case False
      with assms Some show thesis
        by (cases "new_event clock (rt_audit rot)")
          (auto simp: rotate_oauth_grant_def unfolds split: if_splits intro: failed rotated)
    qed
  qed
qed

lemma create_grant_cases:
  assumes "create_oauth_grant g db = (r, db')"
  obtains (failed) "r = Inl ConstraintViolated" "db' = db"
  | (created) row where "r = Inr (next_grant db)" "og_id row = next_grant db" "og_access row = og_access g"
      "og_refresh row = og_refresh g" "og_user row = og_user g" "grants_unique (oauth_grants db @ [row])"
      "db' = db\<lparr>oauth_grants := oauth_grants db @ [row], next_grant := next_grant db + 1\<rparr>"
proof -
  let ?row = "g\<lparr>og_id := next_grant db, og_previous := None, og_used := og_created g, og_revoked := None\<rparr>"
  show thesis
  proof (cases "grant_check db ?row \<and> grants_unique (oauth_grants db @ [?row])")
    case True
    with assms show thesis
      by (intro created [of ?row]) (simp_all add: create_oauth_grant_def Let_def)
  next
    case False
    with assms have "(r, db') = (Inl ConstraintViolated, db)"
      unfolding create_oauth_grant_def Let_def by simp
    then show thesis by (intro failed) simp_all
  qed
qed

lemma exchange_cases:
  assumes "exchange_oauth_code c g db = (r, db')"
  obtains (failed) e where "r = Inl e" "db' = db"
  | (exchanged) row where "r = Inr (next_grant db)" "og_id row = next_grant db" "og_access row = og_access g"
      "og_refresh row = og_refresh g" "og_user row = og_user g" "grants_unique (oauth_grants db @ [row])"
      "active_user db (og_user g)" "length (filter (code_matches c g) (oauth_requests db)) = 1"
      "db' = db\<lparr>oauth_requests := filter (\<lambda>q. \<not> code_matches c g q) (oauth_requests db),
                 oauth_grants := oauth_grants db @ [row], next_grant := next_grant db + 1\<rparr>"
proof (cases "active_user db (og_user g) \<and> length (filter (code_matches c g) (oauth_requests db)) = 1")
  case True
  let ?db = "db\<lparr>oauth_requests := filter (\<lambda>q. \<not> code_matches c g q) (oauth_requests db)\<rparr>"
  obtain r' db2 where step: "create_oauth_grant g ?db = (r', db2)" by (metis surj_pair)
  note unfolds = exchange_oauth_code_def transaction_def call_defs put_db_def
  from step show thesis
  proof (cases rule: create_grant_cases)
    case failed
    with step True assms show thesis by (intro that(1)) (auto simp: unfolds)
  next
    case (created row)
    with step True assms show thesis by (intro that(2) [of row]) (simp_all add: unfolds)
  qed
next
  case False
  then have "\<exists>e. exchange_oauth_code c g db = (Inl e, db)"
    by (auto simp: exchange_oauth_code_def transaction_def)
  then obtain e where "exchange_oauth_code c g db = (Inl e, db)" by blast
  with assms show thesis by (intro that(1) [of e]) simp_all
qed

lemma reads_user_principal: "reads_only (user_principal u c)" and reads_graph_repositories: "reads_only (graph_repositories p)"
  by (simp_all add: reads_only_def user_principal_def graph_repositories_def Let_def)

lemma principal_state:
  "snd (oauth_principal h n db) = db \<or>
   snd (oauth_principal h n db) =
     db\<lparr>oauth_grants := map (\<lambda>g. if access_matches h n db g then g\<lparr>og_used := n\<rparr> else g) (oauth_grants db)\<rparr>"
proof (cases "find (access_matches h n db) (oauth_grants db)")
  case (Some g)
  have "reads_only (proceed (user_principal (og_user g) None) (\<lambda>p. proceed
      (if pr_administrator p then proceed (graph_repositories p) (\<lambda>rs.
         return_ok (p\<lparr>pr_repositories := pr_repositories p @ map ro_github rs, pr_administrator := False\<rparr>))
       else return_ok p) (\<lambda>p'. return_ok (p'\<lparr>pr_method := ''oauth_token'', pr_scope := og_scope g\<rparr>))))"
    by (simp add: reads_intro reads_user_principal reads_graph_repositories)
  with Some show ?thesis by (simp add: oauth_principal_def reads_only_def)
qed (simp add: oauth_principal_def)

lemma charge_state: "\<exists>ls. snd (charge ep w b db) = db\<lparr>request_limits := ls\<rparr>"
  by (cases b) (auto simp: charge_def Let_def split: option.split intro: exI [of _ "request_limits db"])

lemma charge_all_state: "\<exists>ls. snd (charge_all ep w bs db) = db\<lparr>request_limits := ls\<rparr>"
proof (induction bs arbitrary: db)
  case Nil
  show ?case by (auto intro: exI [of _ "request_limits db"])
next
  case (Cons b bs)
  obtain ok db1 where step: "charge ep w b db = (ok, db1)" by (metis surj_pair)
  with charge_state obtain ls where "db1 = db\<lparr>request_limits := ls\<rparr>" by (metis snd_conv)
  moreover obtain ls' where "snd (charge_all ep w bs db1) = db1\<lparr>request_limits := ls'\<rparr>" using Cons by blast
  ultimately show ?case
    using step by (cases ok) auto
qed

lemma allow_state:
  obtains ls where "snd (allow_oauth_request canon r ep n db) = db\<lparr>request_limits := ls\<rparr>"
proof (cases "endpoint_limits ep = None \<or> canon r = None")
  case True
  then have "snd (allow_oauth_request canon r ep n db) = db\<lparr>request_limits := request_limits db\<rparr>"
    by (auto simp: allow_oauth_request_def split: option.splits)
  then show thesis by (rule that)
next
  case False
  then obtain sl gl ip where "endpoint_limits ep = Some (sl, gl)" "canon r = Some ip" by auto
  moreover obtain ls where
    "snd (charge_all ep (window_of n) [([], gl), (sha256 ip, sl)]
       (db\<lparr>request_limits := filter (\<lambda>r. \<not> (lm_endpoint r = ep \<and> lm_window r < window_of n)) (request_limits db)\<rparr>)) =
     db\<lparr>request_limits := ls\<rparr>"
    using charge_all_state [of ep "window_of n" "[([], gl), (sha256 ip, sl)]"
        "db\<lparr>request_limits := filter (\<lambda>r. \<not> (lm_endpoint r = ep \<and> lm_window r < window_of n)) (request_limits db)\<rparr>"]
    by (auto simp del: charge_all.simps)
  ultimately have "snd (allow_oauth_request canon r ep n db) = db\<lparr>request_limits := ls\<rparr>"
    by (simp add: allow_oauth_request_def Let_def split_def del: charge_all.simps)
  then show thesis by (rule that)
qed

lemma perform_grants: "grant_change (draws x) db (snd (perform canon x db))"
proof (cases x)
  case (ExchangeCode c g)
  obtain r db' where step: "exchange_oauth_code c g db = (r, db')" by (metis surj_pair)
  then show ?thesis
  proof (cases rule: exchange_cases)
    case (exchanged row)
    then show ?thesis
      by (intro Created [where g = row]) (simp_all add: ExchangeCode succeeded_def step)
  qed (simp add: ExchangeCode succeeded_def step grant_unchanged)
next
  case (CreateGrant g)
  obtain r db' where step: "create_oauth_grant g db = (r, db')" by (metis surj_pair)
  then show ?thesis
  proof (cases rule: create_grant_cases)
    case (created row)
    then show ?thesis
      by (intro Created [where g = row]) (simp_all add: CreateGrant succeeded_def step)
  qed (simp add: CreateGrant succeeded_def step grant_unchanged)
next
  case (RotateGrant k h rot)
  obtain r db' where step: "rotate_oauth_grant k h rot db = (r, db')" by (metis surj_pair)
  then show ?thesis
  proof (cases rule: rotate_cases)
    case (rotated g)
    moreover from rotated(3) have "g \<in> set (oauth_grants db)" "refresh_matches h (rt_now rot) db g"
      by (auto simp: find_Some_iff)
    ultimately show ?thesis
      by (intro Rotated [where g = g and h = h and rot = rot]) (simp_all add: RotateGrant succeeded_def step)
  qed (auto simp: RotateGrant succeeded_def step grant_unchanged revoke_changes)
next
  case (SealToken i ct)
  then show ?thesis
    by (intro Kept [where f = "\<lambda>g. if og_id g = i \<and> og_revoked g = None then g\<lparr>og_ciphertext := Some ct\<rparr> else g"])
      (simp_all add: succeeded_def update_oauth_grant_github_token_def Let_def same_grant_def)
next
  case (ResolveAccess h n)
  let ?f = "\<lambda>g. if access_matches h n db g then g\<lparr>og_used := n\<rparr> else g"
  have "snd (oauth_principal h n db) = db \<or>
      snd (oauth_principal h n db) = db\<lparr>oauth_grants := map ?f (oauth_grants db)\<rparr>"
    by (rule principal_state)
  then show ?thesis
  proof
    assume "snd (oauth_principal h n db) = db\<lparr>oauth_grants := map ?f (oauth_grants db)\<rparr>"
    then show ?thesis
      by (intro Kept [where f = ?f]) (simp_all add: ResolveAccess succeeded_def same_grant_def)
  qed (simp add: ResolveAccess succeeded_def grant_unchanged)
next
  case (CleanUp n)
  then show ?thesis
    by (intro Cleaned [where P = "\<lambda>g. \<not> grant_dead (n - 7 * day) g"])
      (simp_all add: succeeded_def delete_expired_oauth_def Let_def)
next
  case (RevokeUserGrantAudited k u i e)
  then show ?thesis
    by (auto simp: succeeded_def revoke_user_oauth_grant_audited_def transaction_def call_defs put_db_def
        append_audit_def grant_unchanged revoke_changes split: option.splits)
next
  case (RevokeCredentials k u)
  then show ?thesis
    by (intro revoke_changes [of _ k "\<lambda>g. og_user g = u \<and> og_revoked g = None"])
      (simp_all add: succeeded_def revoke_admin_credentials_def Let_def revoke_sessions_def revoke_tokens_def
        revoke_grants_def)
next
  case (AllowRequest r ep n)
  obtain ls where "snd (allow_oauth_request canon r ep n db) = db\<lparr>request_limits := ls\<rparr>"
    by (rule allow_state)
  then show ?thesis
    by (simp add: AllowRequest grant_unchanged Let_def)
qed (auto simp: succeeded_def create_oauth_client_def create_oauth_authorization_request_def issue_oauth_code_def
    delete_oauth_authorization_request_def revoke_oauth_grant_def revoke_oauth_grant_by_token_def
    revoke_user_oauth_grant_def replace_github_grants_def replace_github_grants_tx_def revoke_admin_credentials_def
    revoke_sessions_def revoke_tokens_def same_oauth_tables_def Let_def transaction_def call_defs
    intro: grant_unchanged revoke_changes split: option.splits)

end
