(* ===== verification/Oauth_Properties.thy ===== *)
theory Oauth_Properties
  imports Oauth_Runs
begin

text \<open>
  Invariants of the authorization tables over runs: the grants and their consumed refresh tokens, the
  authorization requests, and the request budgets.
\<close>

subsection \<open>What the operations do to the requests\<close>

inductive request_change :: "hash set \<Rightarrow> auth_db \<Rightarrow> auth_db \<Rightarrow> bool" where
  Dropped: "oauth_requests db' = filter P (oauth_requests db) \<Longrightarrow> request_change D db db'"
| Added: "oauth_requests db' = oauth_requests db @ [q] \<Longrightarrow> oq_id q \<notin> oq_id ` set (oauth_requests db) \<Longrightarrow>
     oq_id q \<in> D \<Longrightarrow> request_change D db db'"
| Rekeyed: "oauth_requests db' = map f (oauth_requests db) \<Longrightarrow> (\<And>q. oq_id (f q) = oq_id q \<or> oq_id (f q) \<in> D) \<Longrightarrow>
     distinct (map oq_id (oauth_requests db')) \<Longrightarrow> request_change D db db'"

lemma requests_unchanged: "oauth_requests db' = oauth_requests db \<Longrightarrow> request_change D db db'"
  by (rule Dropped [where P = "\<lambda>_. True"]) simp

lemma revoke_requests [simp]:
  "oauth_requests (revoke_sessions k P db) = oauth_requests db" "oauth_requests (revoke_tokens k Q db) = oauth_requests db"
  by (simp_all add: revoke_sessions_def revoke_tokens_def)

lemma issue_cases:
  assumes "issue_oauth_code p c s u e n db = (r, db')"
  obtains (failed) x where "r = Inl x" "db' = db"
  | (issued) q where "r = Inr ()" "active_user db u" "consent_session db s u n"
      "find (live_request p ''pending'' n) (oauth_requests db) = Some q" "distinct (map oq_id (oauth_requests db'))"
      "db' = db\<lparr>oauth_requests := map (\<lambda>r. if live_request p ''pending'' n r
          then r\<lparr>oq_id := c, oq_phase := ''code'', oq_user := Some u, oq_created := n, oq_expires := e\<rparr> else r)
        (oauth_requests db)\<rparr>"
proof (cases "\<exists>x. issue_oauth_code p c s u e n db = (Inl x, db)")
  case True
  then obtain x where "issue_oauth_code p c s u e n db = (Inl x, db)" by blast
  with assms show thesis by (intro failed [of x]) simp_all
next
  case False
  then have ok: "active_user db u" "consent_session db s u n"
    unfolding issue_oauth_code_def by (metis (full_types))+
  with False obtain q where q: "find (live_request p ''pending'' n) (oauth_requests db) = Some q"
    unfolding issue_oauth_code_def by (cases "find (live_request p ''pending'' n) (oauth_requests db)") auto
  let ?f = "\<lambda>r. if live_request p ''pending'' n r
      then r\<lparr>oq_id := c, oq_phase := ''code'', oq_user := Some u, oq_created := n, oq_expires := e\<rparr> else r"
  from False ok q have "distinct (map oq_id (map ?f (oauth_requests db)))"
      "issue_oauth_code p c s u e n db = (Inr (), db\<lparr>oauth_requests := map ?f (oauth_requests db)\<rparr>)"
    unfolding issue_oauth_code_def Let_def by (auto split: if_splits)
  moreover from this(2) assms have "r = Inr ()" "db' = db\<lparr>oauth_requests := map ?f (oauth_requests db)\<rparr>"
    by simp_all
  ultimately show thesis using ok q by (intro issued [of q]) (simp_all del: map_map)
qed

lemma perform_requests: "request_change (draws x) db (snd (perform canon x db))"
proof (cases x)
  case (CreateRequest q)
  then show ?thesis
    by (auto simp: succeeded_def create_oauth_authorization_request_def intro: requests_unchanged Added)
next
  case (IssueCode p c s u e n)
  obtain r db' where step: "issue_oauth_code p c s u e n db = (r, db')" by (metis surj_pair)
  then show ?thesis
  proof (cases rule: issue_cases)
    case (issued q)
    then show ?thesis
      by (intro Rekeyed [where f = "\<lambda>r. if live_request p ''pending'' n r
          then r\<lparr>oq_id := c, oq_phase := ''code'', oq_user := Some u, oq_created := n, oq_expires := e\<rparr> else r"])
        (simp_all add: IssueCode succeeded_def step)
  qed (simp add: IssueCode succeeded_def step requests_unchanged)
next
  case (DeleteRequest i)
  then show ?thesis
    by (intro Dropped [where P = "\<lambda>q. oq_id q \<noteq> i"])
      (simp add: succeeded_def delete_oauth_authorization_request_def)
next
  case (ExchangeCode c g)
  obtain r db' where step: "exchange_oauth_code c g db = (r, db')" by (metis surj_pair)
  then show ?thesis
  proof (cases rule: exchange_cases)
    case (exchanged row)
    then show ?thesis
      by (intro Dropped [where P = "\<lambda>q. \<not> code_matches c g q"]) (simp add: ExchangeCode succeeded_def step)
  qed (simp add: ExchangeCode succeeded_def step requests_unchanged)
next
  case (CreateGrant g)
  then show ?thesis
    by (intro requests_unchanged) (simp add: succeeded_def create_oauth_grant_def Let_def)
next
  case (RotateGrant k h rot)
  obtain r db' where step: "rotate_oauth_grant k h rot db = (r, db')" by (metis surj_pair)
  then have "oauth_requests db' = oauth_requests db"
    by (cases rule: rotate_cases) simp_all
  then show ?thesis by (intro requests_unchanged) (simp add: RotateGrant succeeded_def step)
next
  case (ResolveAccess h n)
  show ?thesis
    using principal_state [of h n db] by (intro requests_unchanged) (auto simp: ResolveAccess succeeded_def)
next
  case (RevokeUserGrantAudited k u i e)
  then show ?thesis
    by (intro requests_unchanged)
      (auto simp: succeeded_def revoke_user_oauth_grant_audited_def transaction_def call_defs put_db_def append_audit_def
        split: option.splits)
next
  case (RevokeCredentials k u)
  then show ?thesis
    by (intro Dropped [where P = "\<lambda>q. oq_user q \<noteq> Some u"])
      (simp add: succeeded_def revoke_admin_credentials_def Let_def)
next
  case (CleanUp n)
  then show ?thesis
    by (simp add: succeeded_def delete_expired_oauth_def Let_def) (rule Dropped, simp)
next
  case (AllowRequest r ep n)
  obtain ls where "snd (allow_oauth_request canon r ep n db) = db\<lparr>request_limits := ls\<rparr>"
    by (rule allow_state)
  then show ?thesis by (simp add: AllowRequest requests_unchanged Let_def)
qed (auto simp: succeeded_def create_oauth_client_def update_oauth_grant_github_token_def
    revoke_oauth_grant_def revoke_oauth_grant_by_token_def
    revoke_user_oauth_grant_def replace_github_grants_def replace_github_grants_tx_def
    same_oauth_tables_def Let_def transaction_def call_defs
    intro!: requests_unchanged split: option.splits)

subsection \<open>The invariant\<close>

definition limit_key :: "limit_row \<Rightarrow> string \<times> bytes" where
  "limit_key r = (lm_endpoint r, lm_source r)"

text \<open>The keys and references of the tables.\<close>

definition grant_inv :: "auth_db \<Rightarrow> bool" where
  "grant_inv db \<longleftrightarrow>
     grants_unique (oauth_grants db) \<and> distinct (map og_id (oauth_grants db)) \<and>
     list_all (\<lambda>g. og_id g < next_grant db) (oauth_grants db) \<and> distinct (map rf_hash (refresh_tokens db)) \<and>
     list_all (\<lambda>r. rf_grant r \<in> og_id ` set (oauth_grants db)) (refresh_tokens db)"

definition auth_inv :: "auth_db \<Rightarrow> bool" where
  "auth_inv db \<longleftrightarrow> grant_inv db \<and> distinct (map oq_id (oauth_requests db)) \<and>
     distinct (map limit_key (request_limits db))"

lemma map_same: "(\<And>g. same_grant g (f g)) \<Longrightarrow>
    map og_id (map f gs) = map og_id gs \<and> map og_access (map f gs) = map og_access gs \<and>
    map og_refresh (map f gs) = map og_refresh gs \<and>
    map og_previous (filter (\<lambda>g. og_previous g \<noteq> None) (map f gs)) = map og_previous (filter (\<lambda>g. og_previous g \<noteq> None) gs)"
  by (induction gs) (auto simp: same_grant_def)

lemma unique_same: "(\<And>g. same_grant g (f g)) \<Longrightarrow> grants_unique (map f gs) = grants_unique gs"
  using map_same [of f gs] by (simp only: grants_unique_def)

lemma unique_filter:
  assumes "grants_unique gs"
  shows "grants_unique (filter P gs)"
proof -
  have "filter (\<lambda>g. og_previous g \<noteq> None) (filter P gs) = filter P (filter (\<lambda>g. og_previous g \<noteq> None) gs)"
    by (simp add: conj_commute)
  with assms show ?thesis by (simp only: grants_unique_def distinct_map_filter)
qed

lemma same_ids:
  fixes xs ys :: "oauth_grant list"
  assumes "map og_id xs = map og_id ys"
  shows "og_id ` set xs = og_id ` set ys" "list_all (\<lambda>g. og_id g < n) xs = list_all (\<lambda>g. og_id g < n) ys"
proof -
  show "og_id ` set xs = og_id ` set ys"
    using assms by (metis list.set_map)
  have "list_all (\<lambda>g. og_id g < n) zs = list_all (\<lambda>i. i < n) (map og_id zs)" for zs :: "oauth_grant list"
    by (simp add: list_all_iff)
  then show "list_all (\<lambda>g. og_id g < n) xs = list_all (\<lambda>g. og_id g < n) ys"
    by (simp only: assms)
qed

lemma rotated_ids: "map og_id (map (\<lambda>x. if Q x then rotated rot x else x) gs) = map og_id gs"
  by (induction gs) (simp_all add: rotated_def)

lemma grant_change_inv:
  assumes "grant_change D db db'" "grant_inv db"
  shows "grant_inv db'"
  using assms
proof (cases rule: grant_change.cases)
  case (Kept f)
  have ids: "map og_id (oauth_grants db') = map og_id (oauth_grants db)"
    using Kept(1) map_same [of f] Kept(2) by metis
  have "grants_unique (oauth_grants db')"
    using assms(2) Kept(1) unique_same [OF Kept(2)] by (simp add: grant_inv_def)
  then show ?thesis
    using assms(2) ids by (simp add: grant_inv_def same_ids [OF ids] Kept(3, 4))
next
  case (Created g)
  then show ?thesis
    using assms(2) by (force simp: grant_inv_def list_all_iff)
next
  case (Rotated g h rot)
  then have ids: "map og_id (oauth_grants db') = map og_id (oauth_grants db)"
    by (simp only: rotated_ids)
  show ?thesis
    using assms(2) Rotated(1, 6, 7) by (simp add: grant_inv_def same_ids [OF ids] Rotated(8, 9) ids)
next
  case (Cleaned P)
  then show ?thesis
    using assms(2) unique_filter by (auto simp: grant_inv_def list_all_iff distinct_map_filter)
qed

lemma request_change_distinct:
  assumes "request_change D db db'" "distinct (map oq_id (oauth_requests db))"
  shows "distinct (map oq_id (oauth_requests db'))"
  using assms by (cases rule: request_change.cases) (auto simp: distinct_map_filter)

subsection \<open>Request budgets\<close>

text \<open>The row of a budget, and the effect of a charge on it.\<close>

definition budget_row :: "auth_db \<Rightarrow> string \<times> bytes \<Rightarrow> limit_row option" where
  "budget_row db k = find (\<lambda>r. limit_key r = k) (request_limits db)"

lemma find_map_key:
  "(\<And>x. key (f x) = key x) \<Longrightarrow> find (\<lambda>x. key x = k) (map f xs) = map_option f (find (\<lambda>x. key x = k) xs)"
  by (induction xs) simp_all

lemma find_in_append: "find P (xs @ ys) = (case find P xs of None \<Rightarrow> find P ys | Some x \<Rightarrow> Some x)"
  by (induction xs) simp_all

lemma find_filter_key:
  "distinct (map key xs) \<Longrightarrow> find (\<lambda>x. key x = k) (filter P xs) =
     (case find (\<lambda>x. key x = k) xs of None \<Rightarrow> None | Some x \<Rightarrow> if P x then Some x else None)"
proof (induction xs)
  case (Cons a xs)
  from Cons.prems have "key a = k \<Longrightarrow> find (\<lambda>x. key x = k) (filter P xs) = None"
    by (auto simp: find_None_iff) (metis image_eqI)
  with Cons show ?case by auto
qed simp

lemma budget_row_key: "budget_row db k = Some r \<Longrightarrow> limit_key r = k"
  by (auto simp: budget_row_def find_Some_iff)

lemma charge_cases:
  assumes "charge ep w (src, n) db = (ok, db')"
  obtains (new) "budget_row db (ep, src) = None" "ok"
      "db' = db\<lparr>request_limits := request_limits db @ [\<lparr>lm_endpoint = ep, lm_source = src, lm_window = w, lm_count = 1\<rparr>]\<rparr>"
  | (counted) r where "budget_row db (ep, src) = Some r" "ok" "lm_window r = w" "lm_count r < n"
      "db' = db\<lparr>request_limits := map (\<lambda>x. if limit_key x = (ep, src) then x\<lparr>lm_count := lm_count x + 1\<rparr> else x)
                                    (request_limits db)\<rparr>"
  | (denied) r where "budget_row db (ep, src) = Some r" "\<not> ok" "\<not> (lm_window r = w \<and> lm_count r < n)" "db' = db"
proof -
  have key: "(\<lambda>r. lm_endpoint r = ep \<and> lm_source r = src) = (\<lambda>r. limit_key r = (ep, src))"
    by (simp add: limit_key_def)
  show thesis
  proof (cases "budget_row db (ep, src)")
    case None
    with assms show thesis
      by (intro new) (simp_all add: charge_def Let_def budget_row_def key)
  next
    case (Some r)
    with assms show thesis
      by (cases "lm_window r = w \<and> lm_count r < n")
        (auto simp: charge_def Let_def budget_row_def limit_key_def intro: counted denied)
  qed
qed

lemma charge_row:
  assumes "charge ep w (src, n) db = (ok, db')"
  shows "budget_row db' k =
    (if k \<noteq> (ep, src) \<or> \<not> ok then budget_row db k
     else case budget_row db k of
       None \<Rightarrow> Some \<lparr>lm_endpoint = ep, lm_source = src, lm_window = w, lm_count = 1\<rparr>
     | Some r \<Rightarrow> Some (r\<lparr>lm_count := lm_count r + 1\<rparr>))"
  using assms
proof (cases rule: charge_cases)
  case new
  then show ?thesis
    by (auto simp: budget_row_def find_in_append limit_key_def split: option.split)
next
  case (counted r)
  have "find (\<lambda>x. limit_key x = k) (map (\<lambda>x. if limit_key x = (ep, src) then x\<lparr>lm_count := lm_count x + 1\<rparr> else x)
      (request_limits db)) =
    map_option (\<lambda>x. if limit_key x = (ep, src) then x\<lparr>lm_count := lm_count x + 1\<rparr> else x) (budget_row db k)"
    unfolding budget_row_def by (rule find_map_key) (simp add: limit_key_def)
  then have "budget_row db' k =
      map_option (\<lambda>x. if limit_key x = (ep, src) then x\<lparr>lm_count := lm_count x + 1\<rparr> else x) (budget_row db k)"
    using counted(5) by (simp add: budget_row_def)
  then show ?thesis
    using counted(1, 2) budget_row_key [of db k] by (cases "budget_row db k") auto
next
  case (denied r)
  then show ?thesis by simp
qed

lemma charge_keys:
  assumes "charge ep w (src, n) db = (ok, db')" "distinct (map limit_key (request_limits db))"
  shows "distinct (map limit_key (request_limits db'))"
  using assms(1)
proof (cases rule: charge_cases)
  case new
  then show ?thesis
    using assms(2) by (auto simp: budget_row_def find_None_iff limit_key_def)
next
  case (counted r)
  have "map limit_key (request_limits db') = map limit_key (request_limits db)"
    using counted(5) by (simp add: limit_key_def)
  with assms(2) show ?thesis by simp
next
  case (denied r)
  with assms(2) show ?thesis by simp
qed

lemma charge_ok:
  assumes "charge ep w (src, n) db = (ok, db')"
  shows "ok \<longleftrightarrow> (case budget_row db (ep, src) of None \<Rightarrow> True | Some r \<Rightarrow> lm_window r = w \<and> lm_count r < n)"
  using assms by (cases rule: charge_cases) auto

text \<open>A request is refused with an error, or the rows of older windows go and the two budgets are charged.\<close>

lemma allow_cases:
  assumes "allow_oauth_request canon r ep n db = (res, db')" "distinct (map limit_key (request_limits db))"
  obtains (refused) e where "res = Inl e" "db' = db"
  | (charged) sl gl ip db1 ok1 db2 where "endpoint_limits ep = Some (sl, gl)" "canon r = Some ip"
      "distinct (map limit_key (request_limits db1))"
      "\<And>k. budget_row db1 k = (case budget_row db k of None \<Rightarrow> None
         | Some x \<Rightarrow> if fst k = ep \<and> lm_window x < window_of n then None else Some x)"
      "charge ep (window_of n) ([], gl) db1 = (ok1, db2)"
      "\<not> ok1 \<and> res = Inr False \<and> db' = db2 \<or>
       ok1 \<and> (\<exists>ok2. charge ep (window_of n) (sha256 ip, sl) db2 = (ok2, db') \<and> res = Inr ok2)"
proof (cases "endpoint_limits ep = None \<or> canon r = None")
  case True
  then have "\<exists>e. allow_oauth_request canon r ep n db = (Inl e, db)"
    by (auto simp: allow_oauth_request_def split: option.split)
  then obtain e where "allow_oauth_request canon r ep n db = (Inl e, db)" by blast
  with assms(1) show thesis by (intro refused [of e]) simp_all
next
  case False
  then obtain sl gl ip where lim: "endpoint_limits ep = Some (sl, gl)" "canon r = Some ip" by auto
  let ?db1 = "db\<lparr>request_limits := filter (\<lambda>r. \<not> (lm_endpoint r = ep \<and> lm_window r < window_of n)) (request_limits db)\<rparr>"
  obtain ok1 db2 where c1: "charge ep (window_of n) ([], gl) ?db1 = (ok1, db2)" by (metis surj_pair)
  obtain ok2 db3 where c2: "charge ep (window_of n) (sha256 ip, sl) db2 = (ok2, db3)" by (metis surj_pair)
  have row: "budget_row ?db1 k = (case budget_row db k of None \<Rightarrow> None
      | Some x \<Rightarrow> if fst k = ep \<and> lm_window x < window_of n then None else Some x)" for k
    using find_filter_key [OF assms(2)] budget_row_key [of db k]
    by (auto simp: budget_row_def limit_key_def split: option.split)
  have "\<not> ok1 \<and> res = Inr False \<and> db' = db2 \<or>
      ok1 \<and> (\<exists>ok2. charge ep (window_of n) (sha256 ip, sl) db2 = (ok2, db') \<and> res = Inr ok2)"
    using assms(1) lim c1 c2 by (cases ok1; cases ok2) (auto simp: allow_oauth_request_def Let_def)
  moreover have "distinct (map limit_key (request_limits ?db1))"
    using assms(2) by (simp add: distinct_map_filter)
  ultimately show thesis using lim row c1 by (intro charged [of sl gl ip ?db1 ok1 db2])
qed

text \<open>What is left of the two budgets of a window.\<close>

definition window_left :: "time \<Rightarrow> nat \<Rightarrow> limit_row option \<Rightarrow> nat" where
  "window_left w limit x =
     (case x of None \<Rightarrow> limit
      | Some r \<Rightarrow> if lm_window r < w then limit else if lm_window r = w then limit - lm_count r else 0)"

definition global_left :: "string \<Rightarrow> time \<Rightarrow> nat \<Rightarrow> auth_db \<Rightarrow> nat" where
  "global_left ep w limit db = window_left w limit (budget_row db (ep, []))"

definition source_left :: "string \<Rightarrow> bytes \<Rightarrow> time \<Rightarrow> nat \<Rightarrow> auth_db \<Rightarrow> nat" where
  "source_left ep src w limit db =
     (case budget_row db (ep, []) of
        Some g \<Rightarrow> if lm_window g > w then 0 else window_left w limit (budget_row db (ep, src))
      | None \<Rightarrow> window_left w limit (budget_row db (ep, src)))"

lemma sha256_not_empty: "sha256 s \<noteq> []"
  using length_sha256 [of s] by auto

lemma allow_keys:
  assumes "allow_oauth_request canon r ep n db = (res, db')" "distinct (map limit_key (request_limits db))"
  shows "distinct (map limit_key (request_limits db'))"
  using assms
proof (cases rule: allow_cases)
  case (charged sl gl ip db1 ok1 db2)
  with charge_keys show ?thesis by blast
qed (use assms(2) in simp)

lemma limits_positive: "endpoint_limits ep = Some (sl, gl) \<Longrightarrow> 0 < sl \<and> 0 < gl"
  by (auto simp: endpoint_limits_def split: if_splits)

lemma allow_global:
  assumes "allow_oauth_request canon r ep' n db = (res, db')" "distinct (map limit_key (request_limits db))"
    and "endpoint_limits ep = Some (sl, gl)"
  shows "(if ep' = ep \<and> window_of n = w \<and> res = Inr True then 1 else 0) + global_left ep w gl db' \<le> global_left ep w gl db"
  using assms(1, 2)
proof (cases rule: allow_cases)
  case (charged sl' gl' ip db1 ok1 db2)
  have row: "budget_row db' (ep, []) = budget_row db2 (ep, [])"
    using charged(6) charge_row sha256_not_empty by (metis prod.inject)
  show ?thesis
    using charged(1, 6) assms(3) limits_positive [OF assms(3)]
    by (auto simp: global_left_def window_left_def row charge_row [OF charged(5)] charge_ok [OF charged(5)] charged(4)
        split: option.splits if_splits)
qed simp

lemma window_left_dropped:
  "W \<le> w \<Longrightarrow> window_left w limit (case x of None \<Rightarrow> None | Some r \<Rightarrow> if lm_window r < W then None else Some r) \<le>
     window_left w limit x"
  by (cases x) (auto simp: window_left_def)

lemma window_left_charged:
  fixes W w :: time and limit :: nat and x :: "limit_row option"
  assumes "W \<le> w" "0 < limit"
  defines "y \<equiv> (case x of None \<Rightarrow> None | Some r \<Rightarrow> if lm_window r < W then None else Some r)"
  defines "ok \<equiv> (case y of None \<Rightarrow> True | Some r \<Rightarrow> lm_window r = W \<and> lm_count r < limit)"
  shows "(if W = w \<and> ok then 1 else 0) + window_left w limit
      (if \<not> ok then y else case y of
         None \<Rightarrow> Some \<lparr>lm_endpoint = e, lm_source = s, lm_window = W, lm_count = 1\<rparr>
       | Some r \<Rightarrow> Some (r\<lparr>lm_count := lm_count r + 1\<rparr>)) \<le> window_left w limit x"
proof (cases x)
  case None
  with assms(1, 2) show ?thesis by (simp add: ok_def y_def window_left_def)
next
  case (Some r)
  consider "lm_window r < W" | "\<not> lm_window r < W" "lm_window r = W \<and> lm_count r < limit"
    | "\<not> lm_window r < W" "\<not> (lm_window r = W \<and> lm_count r < limit)" by blast
  then show ?thesis
    by cases (use Some assms(1, 2) in \<open>simp_all add: ok_def y_def window_left_def Suc_diff_Suc\<close>)
qed

lemma allow_source:
  assumes "allow_oauth_request canon r ep' n db = (res, db')" "distinct (map limit_key (request_limits db))"
    and "endpoint_limits ep = Some (sl, gl)" "src \<noteq> []"
  shows "(if ep' = ep \<and> window_of n = w \<and> map_option sha256 (canon r) = Some src \<and> res = Inr True then 1 else 0) +
    source_left ep src w sl db' \<le> source_left ep src w sl db"
  using assms(1, 2)
proof (cases rule: allow_cases)
  case (charged sl' gl' ip db1 ok1 db2)
  note first = charge_row [OF charged(5)] charge_ok [OF charged(5)] charged(4)
  have row: "budget_row db' (ep, []) = budget_row db2 (ep, [])"
    using charged(6) charge_row sha256_not_empty by (metis prod.inject)
  from charged(6) show ?thesis
  proof (elim disjE conjE exE)
    assume "\<not> ok1" "res = Inr False" "db' = db2"
    then show ?thesis
      using assms(4) by (auto simp: source_left_def window_left_def first split: option.splits if_splits)
  next
    fix ok2
    assume ok: "ok1" "res = Inr ok2" and second: "charge ep' (window_of n) (sha256 ip, sl') db2 = (ok2, db')"
    note second_row = charge_row [OF second] charge_ok [OF second]
    show ?thesis
    proof (cases "ep' = ep")
      case False
      then have "budget_row db' (ep, s) = budget_row db (ep, s)" for s
        by (auto simp: second_row(1) first(1, 3) split: option.split)
      then have "source_left ep src w sl db' = source_left ep src w sl db"
        by (simp only: source_left_def)
      with False show ?thesis by simp
    next
      case True
      from ok have open_row: "case budget_row db1 (ep', []) of None \<Rightarrow> True | Some r \<Rightarrow> lm_window r = window_of n \<and> lm_count r < gl'"
        by (simp add: first(2))
      then obtain g where g: "budget_row db' (ep, []) = Some g" "lm_window g = window_of n"
        using ok True by (auto simp: row first(1) split: option.splits)
      show ?thesis
      proof (cases "window_of n > w")
        case True
        with g show ?thesis by (simp add: source_left_def)
      next
        case False
        have "\<not> lm_window x > w" if "budget_row db (ep, []) = Some x" for x
          using open_row that False True by (auto simp: charged(4) split: if_splits)
        then have "source_left ep src w sl db = window_left w sl (budget_row db (ep, src))"
          by (auto simp: source_left_def split: option.split)
        moreover have "source_left ep src w sl db' = window_left w sl (budget_row db' (ep, src))"
          using g False by (simp add: source_left_def)
        moreover have dropped: "budget_row db1 (ep, src) = (case budget_row db (ep, src) of None \<Rightarrow> None
            | Some r \<Rightarrow> if lm_window r < window_of n then None else Some r)"
          using True by (cases "budget_row db (ep, src)") (simp_all add: charged(4))
        moreover have "(if window_of n = w \<and> sha256 ip = src \<and> ok2 then 1 else 0) +
            window_left w sl (budget_row db' (ep, src)) \<le> window_left w sl (budget_row db (ep, src))"
        proof (cases "sha256 ip = src")
          case True
          have unchanged: "budget_row db2 (ep, src) = budget_row db1 (ep, src)"
            using assms(4) by (simp add: first(1))
          have "sl' = sl" using \<open>ep' = ep\<close> charged(1) assms(3) by simp
          with second True \<open>ep' = ep\<close> have charge_src: "charge ep (window_of n) (src, sl) db2 = (ok2, db')" by simp
          have
            "ok2 = (case budget_row db1 (ep, src) of None \<Rightarrow> True | Some r \<Rightarrow> lm_window r = window_of n \<and> lm_count r < sl)"
            "budget_row db' (ep, src) = (if \<not> ok2 then budget_row db1 (ep, src) else case budget_row db1 (ep, src) of
               None \<Rightarrow> Some \<lparr>lm_endpoint = ep, lm_source = src, lm_window = window_of n, lm_count = 1\<rparr>
             | Some r \<Rightarrow> Some (r\<lparr>lm_count := lm_count r + 1\<rparr>))"
            using charge_ok [OF charge_src] charge_row [OF charge_src, of "(ep, src)"]
            by (simp_all only: unchanged simp_thms)
          then show ?thesis
            using window_left_charged [of "window_of n" w sl "budget_row db (ep, src)" ep src] False
              limits_positive [OF assms(3)] True
            by (simp only: dropped not_less simp_thms)
        next
          case neq: False
          have "budget_row db' (ep, src) = budget_row db1 (ep, src)"
            using assms(4) neq by (simp add: first(1) second_row(1))
          with neq False show ?thesis
            using window_left_dropped [of "window_of n" w sl "budget_row db (ep, src)"] by (simp add: dropped)
        qed
        ultimately show ?thesis
          using True charged(2) ok(2) by simp
      qed
    qed
  qed
qed simp

text \<open>The other operations leave the budgets.\<close>

lemma perform_limits:
  assumes "\<And>r ep n. x \<noteq> AllowRequest r ep n"
  shows "request_limits (snd (perform canon x db)) = request_limits db"
proof (cases x)
  case (ExchangeCode c g)
  obtain r db' where step: "exchange_oauth_code c g db = (r, db')" by (metis surj_pair)
  then show ?thesis by (cases rule: exchange_cases) (simp_all add: ExchangeCode succeeded_def step)
next
  case (RotateGrant k h rot)
  obtain r db' where step: "rotate_oauth_grant k h rot db = (r, db')" by (metis surj_pair)
  then show ?thesis by (cases rule: rotate_cases) (simp_all add: RotateGrant succeeded_def step)
next
  case (IssueCode p c s u e n)
  obtain r db' where step: "issue_oauth_code p c s u e n db = (r, db')" by (metis surj_pair)
  then show ?thesis by (cases rule: issue_cases) (simp_all add: IssueCode succeeded_def step)
next
  case (ResolveAccess h n)
  then show ?thesis using principal_state [of h n db] by (auto simp: succeeded_def)
next
  case (RevokeUserGrantAudited k u i e)
  then show ?thesis
    by (auto simp: succeeded_def revoke_user_oauth_grant_audited_def transaction_def call_defs put_db_def append_audit_def
        split: option.splits)
qed (use assms in \<open>auto simp: succeeded_def create_oauth_client_def create_oauth_authorization_request_def
    delete_oauth_authorization_request_def create_oauth_grant_def update_oauth_grant_github_token_def
    revoke_oauth_grant_def revoke_oauth_grant_by_token_def revoke_user_oauth_grant_def replace_github_grants_def
    replace_github_grants_tx_def revoke_admin_credentials_def revoke_sessions_def revoke_tokens_def
    delete_expired_oauth_def same_oauth_tables_def Let_def transaction_def call_defs split: option.splits\<close>)

lemma perform_inv:
  assumes "auth_inv db"
  shows "auth_inv (snd (perform canon x db))"
proof -
  have "distinct (map limit_key (request_limits (snd (perform canon x db))))"
  proof (cases "\<exists>r ep n. x = AllowRequest r ep n")
    case True
    then obtain r ep n where x: "x = AllowRequest r ep n" by blast
    obtain res db' where "allow_oauth_request canon r ep n db = (res, db')" by (metis surj_pair)
    with assms x show ?thesis using allow_keys by (simp add: auth_inv_def Let_def)
  next
    case False
    with assms show ?thesis by (simp add: perform_limits auth_inv_def)
  qed
  with assms show ?thesis
    using grant_change_inv [OF perform_grants] request_change_distinct [OF perform_requests]
    by (simp add: auth_inv_def)
qed

subsection \<open>Consumed and revoked\<close>

text \<open>A refresh token that is no current token of any grant stays so while it is not drawn again.\<close>

definition not_current :: "hash \<Rightarrow> auth_db \<Rightarrow> bool" where
  "not_current h db \<longleftrightarrow> h \<notin> og_refresh ` set (oauth_grants db)"

lemma not_current_kept:
  assumes "grant_change D db db'" "not_current h db" "h \<notin> D"
  shows "not_current h db'"
  using assms
  by (cases rule: grant_change.cases) (auto simp: not_current_def same_grant_def rotated_def)

text \<open>The row of a consumed refresh token stays as long as its grant.\<close>

definition consumed_row :: "hash \<Rightarrow> int \<Rightarrow> time \<Rightarrow> auth_db \<Rightarrow> bool" where
  "consumed_row h i t db \<longleftrightarrow> i < next_grant db \<and>
     (i \<in> og_id ` set (oauth_grants db) \<longrightarrow> \<lparr>rf_hash = h, rf_grant = i, rf_consumed = t\<rparr> \<in> set (refresh_tokens db))"

lemma consumed_row_kept:
  assumes "grant_change D db db'" "consumed_row h i t db"
  shows "consumed_row h i t db'"
  using assms
proof (cases rule: grant_change.cases)
  case (Rotated g k rot)
  then have "og_id ` set (oauth_grants db') = og_id ` set (oauth_grants db)"
    using same_ids(1) [OF rotated_ids] by simp
  with assms(2) Rotated(8, 9) show ?thesis by (auto simp: consumed_row_def)
qed (use assms(2) in \<open>auto simp: consumed_row_def same_grant_def\<close>)

text \<open>A grant that is revoked or gone never comes back.\<close>

definition dead_grant :: "int \<Rightarrow> auth_db \<Rightarrow> bool" where
  "dead_grant i db \<longleftrightarrow> i < next_grant db \<and>
     list_all (\<lambda>g. og_id g = i \<longrightarrow> og_revoked g \<noteq> None) (oauth_grants db)"

lemma dead_grant_kept:
  assumes "grant_change D db db'" "dead_grant i db"
  shows "dead_grant i db'"
  using assms
  by (cases rule: grant_change.cases)
    (auto simp: dead_grant_def list_all_iff same_grant_def rotated_def)

text \<open>A dead grant is not the one an access or refresh token stands for, unless it is drawn again.\<close>

definition only_in :: "(oauth_grant \<Rightarrow> hash) \<Rightarrow> hash \<Rightarrow> int \<Rightarrow> auth_db \<Rightarrow> bool" where
  "only_in token h i db \<longleftrightarrow> list_all (\<lambda>g. token g = h \<longrightarrow> og_id g = i) (oauth_grants db)"

lemma only_in_kept:
  assumes "grant_change D db db'" "only_in token h i db" "h \<notin> D" "token = og_access \<or> token = og_refresh"
  shows "only_in token h i db'"
  using assms
  by (cases rule: grant_change.cases)
    (auto simp: only_in_def list_all_iff same_grant_def rotated_def)

lemma only_in_unique:
  assumes "grants_unique (oauth_grants db)" "g \<in> set (oauth_grants db)" "token = og_access \<or> token = og_refresh"
  shows "only_in token (token g) (og_id g) db"
proof -
  have "distinct (map token (oauth_grants db))"
    using assms(1, 3) by (auto simp: grants_unique_def)
  with assms(2) show ?thesis
    by (auto simp: only_in_def list_all_iff distinct_map inj_on_def)
qed

text \<open>An authorization code that is gone stays gone.\<close>

definition no_request :: "hash \<Rightarrow> auth_db \<Rightarrow> bool" where
  "no_request c db \<longleftrightarrow> c \<notin> oq_id ` set (oauth_requests db)"

lemma no_request_kept:
  assumes "request_change D db db'" "no_request c db" "c \<notin> D"
  shows "no_request c db'"
  using assms
proof (cases rule: request_change.cases)
  case (Rekeyed f)
  then show ?thesis using assms(2, 3) by (auto simp: no_request_def)
qed (auto simp: no_request_def)

end
