(* ===== verification/Oauth_Claims.thy ===== *)
theory Oauth_Claims
  imports Oauth_Properties
begin

text \<open>
  The properties of the tokens of the authorization server over runs of its store.  A secret that the
  server draws again with the same digest is excluded by hypothesis: the operations of a run after
  the one that brings the secret in avoid its digest.
\<close>

subsection \<open>Kinds of operations\<close>

fun uses_refresh :: "hash \<Rightarrow> oauth_op \<Rightarrow> bool" where
  "uses_refresh h (RotateGrant k h' rot) = (h' = h \<and> \<not> rt_revoke rot)"
| "uses_refresh h _ = False"

fun uses_code :: "hash \<Rightarrow> oauth_op \<Rightarrow> bool" where
  "uses_code c (ExchangeCode c' g) = (c' = c)"
| "uses_code c _ = False"

fun allowed_in :: "string \<Rightarrow> time \<Rightarrow> oauth_op \<Rightarrow> bool" where
  "allowed_in ep w (AllowRequest r ep' n) = (ep' = ep \<and> window_of n = w)"
| "allowed_in ep w _ = False"

fun allowed_from :: "(string \<Rightarrow> string option) \<Rightarrow> string \<Rightarrow> string \<Rightarrow> time \<Rightarrow> oauth_op \<Rightarrow> bool" where
  "allowed_from canon ip ep w (AllowRequest r ep' n) = (ep' = ep \<and> window_of n = w \<and> canon r = Some ip)"
| "allowed_from canon ip ep w _ = False"

subsection \<open>Using a refresh token or a code\<close>

text \<open>The one grant with a current refresh token loses it in a rotation to another one.\<close>

lemma rotation_consumes:
  assumes inv: "auth_inv db" and step: "rotate_oauth_grant k h rot db = (Inr g, db')"
    and rot: "\<not> rt_revoke rot" "rt_refresh rot \<noteq> h"
  shows "\<not> not_current h db" "not_current h db'" "consumed_row h (og_id g) (rt_now rot) db'"
proof -
  from step rot(1) obtain g0 where g0: "g = rotated rot g0"
      "find (refresh_matches h (rt_now rot) db) (oauth_grants db) = Some g0"
    and tables: "oauth_grants db' = map (\<lambda>x. if refresh_matches h (rt_now rot) db x then rotated rot x else x) (oauth_grants db)"
      "refresh_tokens db' = refresh_tokens db @ [\<lparr>rf_hash = h, rf_grant = og_id g0, rf_consumed = rt_now rot\<rparr>]"
      "next_grant db' = next_grant db"
    by (cases rule: rotate_cases) auto
  from g0(2) have cur: "g0 \<in> set (oauth_grants db)" "refresh_matches h (rt_now rot) db g0"
    by (auto simp: find_Some_iff)
  from cur show "\<not> not_current h db"
    by (auto simp: not_current_def refresh_matches_def)
  have "refresh_matches h (rt_now rot) db x" if "x \<in> set (oauth_grants db)" "og_refresh x = h" for x
  proof -
    have "inj_on og_refresh (set (oauth_grants db))"
      using inv by (simp add: auth_inv_def grant_inv_def grants_unique_def distinct_map)
    then have "x = g0"
      using that cur by (auto simp: refresh_matches_def dest: inj_onD)
    with cur show ?thesis by simp
  qed
  then show "not_current h db'"
    using rot(2) by (auto simp: not_current_def tables rotated_def)
  have "og_id g0 < next_grant db"
    using inv cur by (auto simp: auth_inv_def grant_inv_def list_all_iff)
  then show "consumed_row h (og_id g) (rt_now rot) db'"
    by (simp add: consumed_row_def tables g0(1) rotated_def)
qed

lemma exchange_consumes:
  assumes inv: "distinct (map oq_id (oauth_requests db))" and step: "exchange_oauth_code c g db = (Inr i, db')"
  shows "\<not> no_request c db" "no_request c db'"
proof -
  from step have "length (filter (code_matches c g) (oauth_requests db)) = 1"
    and db': "oauth_requests db' = filter (\<lambda>q. \<not> code_matches c g q) (oauth_requests db)"
    by (cases rule: exchange_cases; simp)+
  then have "set (filter (code_matches c g) (oauth_requests db)) \<noteq> {}"
    by (metis length_0_conv set_empty zero_neq_one)
  then obtain q where q: "q \<in> set (oauth_requests db)" "code_matches c g q"
    by auto
  then show "\<not> no_request c db"
    by (auto simp: no_request_def code_matches_def live_request_def)
  have "inj_on oq_id (set (oauth_requests db))"
    using inv by (simp add: distinct_map)
  with q have "x = q" if "x \<in> set (oauth_requests db)" "oq_id x = c" for x
    using that by (auto simp: code_matches_def live_request_def dest: inj_onD)
  with q(2) show "no_request c db'"
    by (auto simp: no_request_def db')
qed

lemma oauth_run_inv: "auth_inv db \<Longrightarrow> auth_inv (run_ops canon xs db)"
  using run_ops_inv [of auth_inv "\<lambda>_. True"] perform_inv by (simp add: list_all_iff)

lemma run_kept:
  assumes "\<And>D db db'. grant_change D db db' \<Longrightarrow> P db \<Longrightarrow> h \<notin> D \<Longrightarrow> P db'" "P db" "avoids h xs"
  shows "P (run_ops canon xs db)"
  using assms(3) by (intro run_ops_inv [of P "\<lambda>x. h \<notin> draws x"] assms(1) [OF perform_grants] assms(2))
    (simp_all add: avoids_def)

text \<open>
  C23. A refresh token is good for one rotation: among all operations of a run on a well-formed
  database, whatever the other requests do in between, at most one rotation with this token succeeds.
\<close>

theorem refresh_used_once:
  assumes "auth_inv db" "avoids h xs"
  shows "count_ok canon (uses_refresh h) xs db \<le> 1"
proof -
  let ?left = "\<lambda>db. if not_current h db then 0 else 1 :: nat"
  have "count_ok canon (uses_refresh h) xs db \<le> ?left db"
  proof (rule count_ok_bounded [where I = auth_inv and Q = "\<lambda>x. h \<notin> draws x"])
    fix x db
    assume inv: "auth_inv db" and x: "h \<notin> draws x"
    show "(if uses_refresh h x \<and> fst (perform canon x db) then 1 else 0) + ?left (snd (perform canon x db)) \<le> ?left db"
    proof (cases "uses_refresh h x \<and> fst (perform canon x db)")
      case True
      then obtain k rot where op: "x = RotateGrant k h rot" "\<not> rt_revoke rot"
        by (cases x) auto
      with True obtain g db' where "rotate_oauth_grant k h rot db = (Inr g, db')"
        by (cases "rotate_oauth_grant k h rot db"; cases "fst (rotate_oauth_grant k h rot db)")
          (auto simp: succeeded_def)
      with inv op x show ?thesis
        using rotation_consumes [of db k h rot g db'] by (auto simp: succeeded_def)
    next
      case False
      with x not_current_kept [OF perform_grants, of h db x canon] show ?thesis by auto
    qed
  qed (use assms perform_inv in \<open>simp_all add: avoids_def\<close>)
  then show ?thesis by (simp split: if_splits)
qed

lemma replayed_iff:
  assumes "auth_inv db" "consumed_row h i t db" "i \<in> og_id ` set (oauth_grants db)"
  shows "replayed db h deadline x \<longleftrightarrow> og_id x = i \<and> t \<le> deadline"
proof -
  let ?r = "\<lparr>rf_hash = h, rf_grant = i, rf_consumed = t\<rparr>"
  have "?r \<in> set (refresh_tokens db)" and "inj_on rf_hash (set (refresh_tokens db))"
    using assms by (simp_all add: consumed_row_def auth_inv_def grant_inv_def distinct_map)
  then have only: "r = ?r" if "r \<in> set (refresh_tokens db)" "rf_hash r = h" for r
    using that by (intro inj_onD [of rf_hash _ r ?r]) simp_all
  show ?thesis
  proof
    assume "replayed db h deadline x"
    then obtain r where "r \<in> set (refresh_tokens db)" "rf_grant r = og_id x" "rf_hash r = h" "rf_consumed r \<le> deadline"
      by (auto simp: replayed_def list_ex_iff)
    moreover from this have "r = ?r" by (intro only)
    ultimately show "og_id x = i \<and> t \<le> deadline" by simp
  next
    assume "og_id x = i \<and> t \<le> deadline"
    with \<open>?r \<in> set (refresh_tokens db)\<close> show "replayed db h deadline x"
      unfolding replayed_def list_ex_iff by (intro bexI [of _ ?r]) simp_all
  qed
qed

lemma replayed_result:
  assumes "find (refresh_matches h (rt_now rot) db) (oauth_grants db) = None" "\<not> rt_revoke rot"
  shows "rotate_oauth_grant k h rot db =
    (if list_ex (replayed db h (rt_now rot - rt_grace rot)) (oauth_grants db)
     then (Inl OAuthReplay, revoke_grants (rt_now rot) (replayed db h (rt_now rot - rt_grace rot)) db)
     else (Inl NoRows, db))"
  using assms by (simp add: rotate_oauth_grant_def transaction_def Let_def)

text \<open>
  C19. Presenting a consumed refresh token again: less than the grace period after its rotation the
  request fails and changes nothing; at or after the end of the grace period the grant is revoked, its
  sealed provider token is erased, and the error says so.  This holds after any operations in between,
  as long as the grant has not been cleaned up.
\<close>

theorem replay_revokes:
  assumes "auth_inv db" "rotate_oauth_grant k h rot db = (Inr g, db1)" "\<not> rt_revoke rot" "rt_refresh rot \<noteq> h"
    and "avoids h xs" "og_id g \<in> og_id ` set (oauth_grants (run_ops canon xs db1))" "\<not> rt_revoke rot'"
  shows "if rt_now rot + rt_grace rot' \<le> rt_now rot'
    then fst (rotate_oauth_grant k' h rot' (run_ops canon xs db1)) = Inl OAuthReplay \<and>
      list_all (\<lambda>x. og_id x = og_id g \<longrightarrow> og_revoked x \<noteq> None \<and> og_ciphertext x = None)
        (oauth_grants (snd (rotate_oauth_grant k' h rot' (run_ops canon xs db1))))
    else rotate_oauth_grant k' h rot' (run_ops canon xs db1) = (Inl NoRows, run_ops canon xs db1)"
proof -
  let ?db2 = "run_ops canon xs db1"
  note after = rotation_consumes [OF assms(1-4)]
  have "auth_inv db1"
    using perform_inv [OF assms(1), of canon "RotateGrant k h rot"] assms(2) by (simp add: succeeded_def)
  then have inv: "auth_inv ?db2" by (rule oauth_run_inv)
  have "not_current h ?db2"
    using not_current_kept after(2) assms(5) by (rule run_kept)
  then have none: "find (refresh_matches h (rt_now rot') ?db2) (oauth_grants ?db2) = None"
    by (auto simp: find_None_iff not_current_def refresh_matches_def)
  have "consumed_row h (og_id g) (rt_now rot) ?db2"
    using consumed_row_kept after(3) assms(5) by (rule run_kept)
  then have hit: "replayed ?db2 h d = (\<lambda>x. og_id x = og_id g \<and> rt_now rot \<le> d)" for d
    using replayed_iff [OF inv _ assms(6)] by blast
  have "list_ex (\<lambda>x. og_id x = og_id g) (oauth_grants ?db2)"
    using assms(6) by (auto simp: list_ex_iff)
  then show ?thesis
    by (auto simp: replayed_result [OF none assms(7)] hit revoke_grants_def revoke_grant_row_def list_all_iff list_ex_iff)
qed

text \<open>
  C24. An authorization code is exchanged at most once in a run, whatever the other requests do.
\<close>

theorem code_used_once:
  assumes "auth_inv db" "avoids c xs"
  shows "count_ok canon (uses_code c) xs db \<le> 1"
proof -
  let ?left = "\<lambda>db. if no_request c db then 0 else 1 :: nat"
  have "count_ok canon (uses_code c) xs db \<le> ?left db"
  proof (rule count_ok_bounded [where I = auth_inv and Q = "\<lambda>x. c \<notin> draws x"])
    fix x db
    assume inv: "auth_inv db" and x: "c \<notin> draws x"
    show "(if uses_code c x \<and> fst (perform canon x db) then 1 else 0) + ?left (snd (perform canon x db)) \<le> ?left db"
    proof (cases "uses_code c x \<and> fst (perform canon x db)")
      case True
      then obtain g where op: "x = ExchangeCode c g" by (cases x) auto
      with True obtain i db' where "exchange_oauth_code c g db = (Inr i, db')"
        by (cases "exchange_oauth_code c g db"; cases "fst (exchange_oauth_code c g db)") (auto simp: succeeded_def)
      with inv op show ?thesis
        using exchange_consumes [of db c g i db'] by (auto simp: succeeded_def auth_inv_def)
    next
      case False
      with x no_request_kept [OF perform_requests, of c db x canon] show ?thesis by auto
    qed
  qed (use assms perform_inv in \<open>simp_all add: avoids_def\<close>)
  then show ?thesis by (simp split: if_splits)
qed

subsection \<open>Revocation\<close>

lemma dead_access:
  assumes "dead_grant i db" "only_in og_access h i db"
  shows "oauth_principal h now db = (Inl NoRows, db)"
proof -
  have "find (access_matches h now db) (oauth_grants db) = None"
    using assms by (auto simp: find_None_iff access_matches_def live_grant_def dead_grant_def only_in_def list_all_iff)
  then show ?thesis by (simp add: oauth_principal_def)
qed

lemma dead_refresh:
  assumes "dead_grant i db" "only_in og_refresh h i db"
  shows "find (refresh_matches h now db) (oauth_grants db) = None"
  using assms by (auto simp: find_None_iff refresh_matches_def live_grant_def dead_grant_def only_in_def list_all_iff)

lemma revoke_credentials_effect:
  assumes "auth_inv db" "g \<in> set (oauth_grants db)" "og_user g = u"
  shows "dead_grant (og_id g) (snd (revoke_admin_credentials clock u db))"
proof -
  let ?f = "\<lambda>x. if og_user x = u \<and> og_revoked x = None then revoke_grant_row clock x else x"
  have gs: "oauth_grants (snd (revoke_admin_credentials clock u db)) = map ?f (oauth_grants db)"
    "next_grant (snd (revoke_admin_credentials clock u db)) = next_grant db"
    by (simp_all add: revoke_admin_credentials_def revoke_grants_def revoke_sessions_def revoke_tokens_def Let_def)
  have "inj_on og_id (set (oauth_grants db))" "og_id g < next_grant db"
    using assms(1, 2) by (auto simp: auth_inv_def grant_inv_def distinct_map list_all_iff)
  with assms(2, 3) show ?thesis
    by (auto simp: dead_grant_def gs list_all_iff revoke_grant_row_def dest: inj_onD)
qed

lemma revoke_credentials_step:
  "snd (revoke_admin_credentials clock u db) = snd (perform canon (RevokeCredentials clock u) db)"
  by (simp add: succeeded_def)

lemma revoked_grant:
  assumes inv: "auth_inv db" and g: "g \<in> set (oauth_grants db)" "og_user g = u"
    and fresh: "avoids (og_access g) xs" "avoids (og_refresh g) xs"
    and later: "db' = run_ops canon xs (snd (revoke_admin_credentials clock u db))"
  shows "oauth_principal (og_access g) now db' = (Inl NoRows, db')"
    and "oauth_grant_by_refresh (og_refresh g) now db' = (Inl NoRows, db')"
    and "fst (rotate_oauth_grant k (og_refresh g) rot db') \<noteq> Inr g'"
proof -
  let ?db1 = "snd (revoke_admin_credentials clock u db)"
  have dead: "dead_grant (og_id g) db'"
    unfolding later using dead_grant_kept revoke_credentials_effect [OF inv g] fresh(1) by (rule run_kept)
  have only: "only_in token (token g) (og_id g) db'"
    if "token = og_access \<or> token = og_refresh" "avoids (token g) xs" for token
  proof -
    have "grant_change {} db ?db1"
      using perform_grants [of "RevokeCredentials clock u"] by (simp add: succeeded_def)
    moreover have "only_in token (token g) (og_id g) db"
      using inv g(1) that(1) by (intro only_in_unique) (simp_all add: auth_inv_def grant_inv_def)
    ultimately have "only_in token (token g) (og_id g) ?db1"
      by (rule only_in_kept) (simp_all add: that(1))
    then show ?thesis
      unfolding later by (rule run_kept [rotated]) (use that only_in_kept in auto)
  qed
  have none: "find (refresh_matches (og_refresh g) n db') (oauth_grants db') = None" for n
    by (rule dead_refresh [OF dead only]) (simp_all add: fresh)
  then show "oauth_grant_by_refresh (og_refresh g) now db' = (Inl NoRows, db')"
    by (simp add: oauth_grant_by_refresh_def)
  obtain r db'' where step: "rotate_oauth_grant k (og_refresh g) rot db' = (r, db'')" by (metis surj_pair)
  then show "fst (rotate_oauth_grant k (og_refresh g) rot db') \<noteq> Inr g'"
    by (cases rule: rotate_cases) (simp_all add: none step)
  show "oauth_principal (og_access g) now db' = (Inl NoRows, db')"
    using dead_access [OF dead only] fresh(1) by simp
qed

lemma revoked_code:
  assumes inv: "auth_inv db" and q: "q \<in> set (oauth_requests db)" "oq_user q = Some u"
    and fresh: "avoids (oq_id q) xs"
    and later: "db' = run_ops canon xs (snd (revoke_admin_credentials clock u db))"
  shows "exchange_oauth_code (oq_id q) new db' = (Inl NoRows, db')"
proof -
  have "no_request (oq_id q) (snd (revoke_admin_credentials clock u db))"
    using inv q by (auto simp: no_request_def revoke_admin_credentials_def Let_def auth_inv_def distinct_map dest: inj_onD)
  then have "no_request (oq_id q) db'"
    unfolding later using fresh
    by (intro run_ops_inv [of "no_request (oq_id q)" "\<lambda>x. oq_id q \<notin> draws x"] no_request_kept [OF perform_requests])
      (simp_all add: avoids_def)
  then have "filter (code_matches (oq_id q) new) (oauth_requests db') = []"
    by (auto simp: filter_empty_conv no_request_def code_matches_def live_request_def) (metis image_eqI)
  then show ?thesis
    by (simp add: exchange_oauth_code_def transaction_def)
qed

text \<open>
  C22. Revoking the credentials of a user is final for what was issued before: after any later
  operations that draw no equal secret, the access token of every grant of the user authenticates
  nobody, its refresh token gives no grant and no rotation, and no authorization code of the user can
  be exchanged, whether the user has grants, codes or both.
\<close>

theorem revoked_for_good:
  assumes inv: "auth_inv db"
    and later: "db' = run_ops canon xs (snd (revoke_admin_credentials clock u db))"
  shows "(\<forall>g \<in> set (oauth_grants db). og_user g = u \<longrightarrow> avoids (og_access g) xs \<longrightarrow> avoids (og_refresh g) xs \<longrightarrow>
      oauth_principal (og_access g) now db' = (Inl NoRows, db') \<and>
      oauth_grant_by_refresh (og_refresh g) now db' = (Inl NoRows, db') \<and>
      (\<forall>g'. fst (rotate_oauth_grant k (og_refresh g) rot db') \<noteq> Inr g')) \<and>
    (\<forall>q \<in> set (oauth_requests db). oq_user q = Some u \<longrightarrow> avoids (oq_id q) xs \<longrightarrow>
      exchange_oauth_code (oq_id q) new db' = (Inl NoRows, db'))"
  using revoked_grant [OF inv _ _ _ _ later] revoked_code [OF inv _ _ _ later] by blast

subsection \<open>Budgets\<close>

text \<open>Only the requests to the limiter use up a quantity that depends on its table alone.\<close>

lemma count_allowed:
  assumes "auth_inv db" "\<And>x. P x \<Longrightarrow> \<exists>r ep n. x = AllowRequest r ep n"
    and same: "\<And>db1 db2. request_limits db1 = request_limits db2 \<Longrightarrow> f db1 = (f db2 :: nat)"
    and step: "\<And>r ep n db res db'. auth_inv db \<Longrightarrow> allow_oauth_request canon r ep n db = (res, db') \<Longrightarrow>
      (if P (AllowRequest r ep n) \<and> res = Inr True then 1 else 0) + f db' \<le> f db"
  shows "count_ok canon P xs db \<le> f db"
proof (rule count_ok_bounded [where I = auth_inv and Q = "\<lambda>_. True"])
  fix x db
  assume inv: "auth_inv db"
  show "(if P x \<and> fst (perform canon x db) then 1 else 0) + f (snd (perform canon x db)) \<le> f db"
  proof (cases "\<exists>r ep n. x = AllowRequest r ep n")
    case True
    then obtain r ep n where x: "x = AllowRequest r ep n" by blast
    obtain res db' where "allow_oauth_request canon r ep n db = (res, db')" by (metis surj_pair)
    with step [OF inv this] show ?thesis by (simp add: x Let_def)
  next
    case False
    then have "f (snd (perform canon x db)) = f db" by (intro same perform_limits) blast
    moreover have "\<not> P x" using False assms(2) by blast
    ultimately show ?thesis by simp
  qed
qed (use assms(1) perform_inv in \<open>simp_all add: list_all_iff\<close>)

lemma window_left_le: "window_left w n x \<le> n"
  by (auto simp: window_left_def split: option.split)

text \<open>
  C25. In every minute, an endpoint lets through at most its deployment-wide number of requests and,
  from one address, at most its number per source, over all servers, whatever the order of their clocks.
\<close>

theorem oauth_rate_limited:
  assumes "auth_inv db" "endpoint_limits ep = Some (source_limit, global_limit)"
  shows "count_ok canon (allowed_in ep w) xs db \<le> global_limit \<and>
    count_ok canon (allowed_from canon ip ep w) xs db \<le> source_limit"
proof
  note keys = auth_inv_def
  have "count_ok canon (allowed_in ep w) xs db \<le> global_left ep w global_limit db"
  proof (rule count_allowed [OF assms(1)])
    show "\<exists>r ep' n. x = AllowRequest r ep' n" if "allowed_in ep w x" for x
      using that by (cases x) auto
    show "(if allowed_in ep w (AllowRequest r ep' n) \<and> res = Inr True then 1 else 0) +
        global_left ep w global_limit db2 \<le> global_left ep w global_limit db1"
      if "auth_inv db1" "allow_oauth_request canon r ep' n db1 = (res, db2)" for r ep' n db1 res db2
      using allow_global [OF that(2) _ assms(2), of w] that(1) by (simp add: keys)
  qed (simp add: global_left_def budget_row_def)
  also have "\<dots> \<le> global_limit" by (simp add: global_left_def window_left_le)
  finally show "count_ok canon (allowed_in ep w) xs db \<le> global_limit" .
  have "count_ok canon (allowed_from canon ip ep w) xs db \<le> source_left ep (sha256 ip) w source_limit db"
  proof (rule count_allowed [OF assms(1)])
    show "\<exists>r ep' n. x = AllowRequest r ep' n" if "allowed_from canon ip ep w x" for x
      using that by (cases x) auto
    show "(if allowed_from canon ip ep w (AllowRequest r ep' n) \<and> res = Inr True then 1 else 0) +
        source_left ep (sha256 ip) w source_limit db2 \<le> source_left ep (sha256 ip) w source_limit db1"
      if "auth_inv db1" "allow_oauth_request canon r ep' n db1 = (res, db2)" for r ep' n db1 res db2
      using allow_source [OF that(2) _ assms(2) sha256_not_empty, of w ip] that(1) by (auto simp: keys split: if_splits)
  qed (simp only: source_left_def budget_row_def)
  also have "\<dots> \<le> source_limit"
    by (auto simp: source_left_def window_left_le split: option.split)
  finally show "count_ok canon (allowed_from canon ip ep w) xs db \<le> source_limit" .
qed

subsection \<open>Examples\<close>

text \<open>
  A user with a grant and a code, a rotation of the grant, and a run in which the token is presented
  twice within the grace period and once after it.
\<close>

definition ex_hash :: "nat \<Rightarrow> hash" where
  "ex_hash n = replicate 32 (char_of n)"

definition ex_user :: user_row where
  "ex_user = \<lparr>us_id = 7, us_external = ''42'', us_name = ''ada'', us_display = ''Ada'', us_active = True, us_suspended = False,
     us_deleted = False, us_source = ''github''\<rparr>"

definition ex_client :: oauth_client where
  "ex_client = \<lparr>oc_id = ''gnc_1'', oc_name = ''IDE'', oc_redirects = [''https://ide.example''], oc_created = 0, oc_used = 0\<rparr>"

definition ex_grant :: oauth_grant where
  "ex_grant = \<lparr>og_id = 1, og_client = ''gnc_1'', og_user = 7, og_scope = [], og_access = ex_hash 1,
     og_access_expires = 3600000000, og_refresh = ex_hash 2, og_previous = None, og_ciphertext = Some ''sealed'',
     og_created = 0, og_used = 0, og_expires = 30 * day, og_revoked = None\<rparr>"

definition ex_code :: oauth_request where
  "ex_code = \<lparr>oq_id = ex_hash 3, oq_phase = ''code'', oq_client = ''gnc_1'', oq_user = Some 7,
     oq_redirect = ''https://ide.example'', oq_challenge = replicate 43 (CHR ''a''), oq_state = [], oq_scope = [],
     oq_resource = [], oq_created = 0, oq_expires = minute\<rparr>"

definition ex_auth_db :: auth_db where
  "ex_auth_db = \<lparr>users = [ex_user], next_user = 8, identities = [], login_flows = [], passwords = [], throttles = [],
     user_roles = [], groups = [], memberships = [], group_roles = [],
     user_repositories = [], github_grants = [], group_repositories = [], repositories = [], sessions = [],
     next_session = 1, api_tokens = [], next_token = 1, oauth_clients = [ex_client], oauth_requests = [ex_code],
     oauth_grants = [ex_grant], next_grant = 2, refresh_tokens = [], request_limits = [], audit_log = []\<rparr>"

definition ex_event :: audit_event where
  "ex_event = \<lparr>ev_actor_type = ''user'', ev_actor = ''7'', ev_target_type = ''oauth_grant'', ev_target = ''1'',
     ev_method = ''oauth_token'', ev_operation = ''oauth_grant_refreshed'', ev_outcome = ''success'', ev_request = [],
     ev_created = None\<rparr>"

definition ex_rotation :: "nat \<Rightarrow> time \<Rightarrow> oauth_rotation" where
  "ex_rotation n now = \<lparr>rt_access = ex_hash (10 + n), rt_access_expires = now + 3600000000, rt_refresh = ex_hash (20 + n),
     rt_now = now, rt_grace = 30000000, rt_audit = ex_event, rt_repositories = [], rt_replace = False, rt_revoke = False\<rparr>"

definition ex_new_grant :: oauth_grant where
  "ex_new_grant = ex_grant\<lparr>og_id := 0, og_access := ex_hash 5, og_refresh := ex_hash 6, og_ciphertext := None\<rparr>"

lemma ex_hash_eq [simp]: "m < 256 \<Longrightarrow> n < 256 \<Longrightarrow> ex_hash m = ex_hash n \<longleftrightarrow> m = n"
proof -
  assume "m < 256" "n < 256"
  moreover have "ex_hash m = ex_hash n \<longleftrightarrow> (char_of m :: char) = char_of n"
    by (simp add: ex_hash_def)
  ultimately show ?thesis by (simp add: char_of_eq_iff take_bit_eq_mod)
qed

lemmas ex_auth_simps = ex_auth_db_def ex_grant_def ex_user_def ex_client_def ex_code_def ex_rotation_def ex_new_grant_def day_def
  minute_def

lemma ex_auth_inv: "auth_inv ex_auth_db"
  by (simp add: auth_inv_def grant_inv_def grants_unique_def ex_auth_simps)

lemma ex_event_valid: "valid_event ex_event"
  by (simp add: valid_event_def ex_event_def one_of_def bounded_text_def operation_def operations_def is_control_def)

lemma ex_rotate:
  "rotate_oauth_grant 5 (ex_hash 2) (ex_rotation 3 5) ex_auth_db =
     (Inr (rotated (ex_rotation 3 5) ex_grant),
      ex_auth_db\<lparr>oauth_grants := [rotated (ex_rotation 3 5) ex_grant],
        refresh_tokens := [\<lparr>rf_hash = ex_hash 2, rf_grant = 1, rf_consumed = 5\<rparr>],
        audit_log := [ex_event\<lparr>ev_created := Some 5\<rparr>]\<rparr>)"
  using ex_event_valid
  by (simp add: rotate_oauth_grant_def transaction_def call_defs put_db_def consume_refresh_def append_audit_def new_event_def
      refresh_matches_def live_grant_def active_user_def find_user_def may_sign_in_def grants_unique_def rotated_def
      ex_auth_simps ex_event_def)

theorem refresh_used_once_witness:
  "count_ok (\<lambda>_. None) (uses_refresh (ex_hash 2))
     [RotateGrant 5 (ex_hash 2) (ex_rotation 3 5), RotateGrant 6 (ex_hash 2) (ex_rotation 4 6)] ex_auth_db = 1"
proof -
  let ?xs = "[RotateGrant 5 (ex_hash 2) (ex_rotation 3 5), RotateGrant 6 (ex_hash 2) (ex_rotation 4 6)]"
  have "avoids (ex_hash 2) ?xs"
    by (simp add: avoids_def ex_rotation_def)
  with refresh_used_once [OF ex_auth_inv, of "ex_hash 2" ?xs "\<lambda>_. None"]
  have "count_ok (\<lambda>_. None) (uses_refresh (ex_hash 2)) ?xs ex_auth_db \<le> 1" by blast
  moreover have "count_ok (\<lambda>_. None) (uses_refresh (ex_hash 2)) ?xs ex_auth_db \<ge> 1"
    by (simp add: succeeded_def ex_rotate) (simp add: ex_rotation_def)
  ultimately show ?thesis by (rule le_antisym)
qed

theorem replay_revokes_witness:
  "fst (rotate_oauth_grant 9 (ex_hash 2) (ex_rotation 4 30000005)
     (snd (rotate_oauth_grant 5 (ex_hash 2) (ex_rotation 3 5) ex_auth_db))) = Inl OAuthReplay \<and>
   rotate_oauth_grant 9 (ex_hash 2) (ex_rotation 4 30000004)
     (snd (rotate_oauth_grant 5 (ex_hash 2) (ex_rotation 3 5) ex_auth_db)) =
     (Inl NoRows, snd (rotate_oauth_grant 5 (ex_hash 2) (ex_rotation 3 5) ex_auth_db))"
proof -
  have rot: "\<not> rt_revoke (ex_rotation m n)" "rt_now (ex_rotation m n) = n" "rt_grace (ex_rotation m n) = 30000000"
    "rt_refresh (ex_rotation 3 n) \<noteq> ex_hash 2" for m n
    by (simp_all add: ex_rotation_def)
  have "og_id (rotated (ex_rotation 3 5) ex_grant) \<in> og_id ` set (oauth_grants (run_ops (\<lambda>_. None) []
      (snd (rotate_oauth_grant 5 (ex_hash 2) (ex_rotation 3 5) ex_auth_db))))"
    by (simp add: ex_rotate)
  note replay = replay_revokes [OF ex_auth_inv ex_rotate rot(1) rot(4), of "[]" "\<lambda>_. None"]
  show ?thesis
    using replay [of "ex_rotation 4 30000005" 9] replay [of "ex_rotation 4 30000004" 9]
    by (simp add: avoids_def rot ex_rotate)
qed

theorem code_used_once_witness:
  "count_ok (\<lambda>_. None) (uses_code (ex_hash 3))
     [ExchangeCode (ex_hash 3) ex_new_grant, ExchangeCode (ex_hash 3) ex_new_grant] ex_auth_db = 1"
proof -
  let ?xs = "[ExchangeCode (ex_hash 3) ex_new_grant, ExchangeCode (ex_hash 3) ex_new_grant]"
  have "avoids (ex_hash 3) ?xs"
    by (simp add: avoids_def ex_new_grant_def)
  with code_used_once [OF ex_auth_inv, of "ex_hash 3" ?xs "\<lambda>_. None"]
  have "count_ok (\<lambda>_. None) (uses_code (ex_hash 3)) ?xs ex_auth_db \<le> 1" by blast
  moreover have "fst (perform (\<lambda>_. None) (ExchangeCode (ex_hash 3) ex_new_grant) ex_auth_db)"
    by (simp add: succeeded_def exchange_oauth_code_def transaction_def call_defs put_db_def create_oauth_grant_def Let_def
        grant_check_def find_client_def find_user_def varchar_ok_def grants_unique_def active_user_def may_sign_in_def
        code_matches_def live_request_def ex_auth_simps)
  then have "count_ok (\<lambda>_. None) (uses_code (ex_hash 3)) ?xs ex_auth_db \<ge> 1" by simp
  ultimately show ?thesis by (rule le_antisym)
qed

theorem revoked_for_good_witness:
  "fst (oauth_principal (ex_hash 1) 9 ex_auth_db) \<noteq> Inl NoRows \<and>
   fst (oauth_principal (ex_hash 1) 9 (snd (revoke_admin_credentials 8 7 ex_auth_db))) = Inl NoRows"
proof
  show "fst (oauth_principal (ex_hash 1) 9 ex_auth_db) \<noteq> Inl NoRows"
    by (simp add: oauth_principal_def access_matches_def live_grant_def active_user_def find_user_def may_sign_in_def
        user_principal_def graph_repositories_def call_defs Let_def ex_auth_simps)
  show "fst (oauth_principal (ex_hash 1) 9 (snd (revoke_admin_credentials 8 7 ex_auth_db))) = Inl NoRows"
    using revoked_for_good [OF ex_auth_inv, of _ "\<lambda>_. None" "[]" 8 7 9 0 "ex_rotation 3 9" ex_new_grant]
    by (simp add: avoids_def ex_auth_simps)
qed

theorem oauth_rate_limited_witness:
  "endpoint_limits ''/oauth/register'' = Some (10, 100) \<and>
   count_ok Some (allowed_from Some ''10.0.0.1'' ''/oauth/register'' 0)
     (replicate 30 (AllowRequest ''10.0.0.1'' ''/oauth/register'' 5)) ex_auth_db \<le> 10"
  using oauth_rate_limited [OF ex_auth_inv, of "''/oauth/register''" 10 100]
  by (simp add: endpoint_limits_def)

end
