(* ===== verification/Oauth_Handlers.thy ===== *)
theory Oauth_Handlers
  imports Oauth_Server Oauth_Claims
begin

text \<open>
  The token endpoint over the store: what a request must have proved to get tokens, and what the
  tables hold afterwards.
\<close>

subsection \<open>Results of the building blocks\<close>

lemma some_or_Inr [simp]: "some_or v r s = (Inr x, s') \<longleftrightarrow> v = Some x \<and> s' = s"
  by (auto simp: some_or_def split: option.split)

lemma or_respond_Inr: "or_respond m f s = (Inr x, s') \<longleftrightarrow> (\<exists>db. m (st_db s) = (Inr x, db) \<and> s' = s\<lparr>st_db := db\<rparr>)"
  by (auto simp: or_respond_def on_store_def split: prod.splits sum.splits)

lemma inspect_Inr: "inspect m s = (Inr r, s') \<longleftrightarrow> (\<exists>db. m (st_db s) = (r, db) \<and> s' = s\<lparr>st_db := db\<rparr>)"
  by (auto simp: inspect_def on_store_def split: prod.splits)

lemma on_tokens_Inr: "on_tokens f s = (Inr x, s') \<longleftrightarrow> (\<exists>m. f (st_tokens s) = (x, m) \<and> s' = s\<lparr>st_tokens := m\<rparr>)"
  by (auto simp: on_tokens_def split: prod.splits)

lemmas handler_Inr = proceed_Inr require_Inr or_respond_Inr inspect_Inr on_tokens_Inr

text \<open>Early responses never carry tokens.\<close>

definition token_response :: "response \<Rightarrow> bool" where
  "token_response r \<longleftrightarrow> (case r of TokenResponse _ _ _ _ \<Rightarrow> True | _ \<Rightarrow> False)"

lemma token_response_simps [simp]:
  "\<not> token_response (OAuthError n c d)" "\<not> token_response (invalid_grant d)" "\<not> token_response (unavailable d)"
  "\<not> token_response (server_error d)" "token_response (TokenResponse a b c' n')"
  by (simp_all add: token_response_def invalid_grant_def unavailable_def server_error_def)

definition quiet :: "'a handler \<Rightarrow> bool" where
  "quiet m \<longleftrightarrow> (\<forall>s r s'. m s = (Inl r, s') \<longrightarrow> \<not> token_response r)"

named_theorems quiet_intro \<comment> \<open>handlers whose early responses carry no tokens\<close>

lemma quiet_basic [quiet_intro]:
  "quiet (return_ok x)" "quiet (inspect m)" "quiet (on_tokens f)"
  by (auto simp: quiet_def return_ok_def inspect_def on_store_def on_tokens_def split: prod.splits)

lemma quiet_error [quiet_intro]: "\<not> token_response r \<Longrightarrow> quiet (return_error r)"
  by (simp add: quiet_def return_error_def)

lemma quiet_proceed [quiet_intro]: "quiet m \<Longrightarrow> (\<And>x. quiet (f x)) \<Longrightarrow> quiet (proceed m f)"
  unfolding quiet_def proceed_def by (auto split: prod.splits sum.splits)

lemma quiet_require [quiet_intro]: "\<not> token_response r \<Longrightarrow> quiet m \<Longrightarrow> quiet (require b r m)"
  by (simp add: require_def quiet_error)

lemma quiet_some_or [quiet_intro]: "\<not> token_response r \<Longrightarrow> quiet (some_or v r)"
  by (simp add: some_or_def quiet_error quiet_basic split: option.split)

lemma quiet_or_respond [quiet_intro]: "(\<And>e. \<not> token_response (f e)) \<Longrightarrow> quiet (or_respond m f)"
  by (auto simp: quiet_def or_respond_def on_store_def split: prod.splits sum.splits)

lemma quiet_record [quiet_intro]: "quiet k \<Longrightarrow> quiet (record_event sv e k)"
  by (simp add: record_event_def quiet_intro)

lemma quiet_token_endpoint: "quiet (token_endpoint sv rq)"
proof -
  have "quiet (allow sv rq)"
    by (simp add: allow_def quiet_intro)
  moreover have "quiet (code_provider_token sv h)" for h
    by (simp add: code_provider_token_def quiet_intro)
  moreover have "quiet (seal_provider_token sv h i t)" for h i t
    by (auto simp: seal_provider_token_def Let_def intro!: quiet_intro split: option.split sum.split)
  ultimately have "quiet (exchange_code sv rq)"
    by (auto simp: exchange_code_def issue_grant_def Let_def intro!: quiet_intro split: if_splits)
  moreover have "quiet (after_revoke r a b)" for r a b
    by (auto simp: after_revoke_def intro!: quiet_intro split: sum.split)
  moreover have "quiet (revoke_current sv rq h c)" for h c
    by (simp add: revoke_current_def quiet_intro)
  moreover have "quiet (open_provider_token sv c)" for c
    by (auto simp: open_provider_token_def intro!: quiet_intro split: option.split)
  moreover have "quiet (synced_repositories sv rq h c t)" for h c t
    using calculation by (auto simp: synced_repositories_def intro!: quiet_intro split: option.split github_answer.split)
  moreover have "quiet (missing_credentials sv rq h c)" for h c
    using calculation by (auto simp: missing_credentials_def intro!: quiet_intro)
  moreover have "quiet (rotate_tokens sv rq h c ids)" for h c ids
    by (auto simp: rotate_tokens_def intro!: quiet_intro split: sum.split auth_error.split)
  ultimately have "quiet (refresh_grant sv rq)"
    by (auto simp: refresh_grant_def Let_def intro!: quiet_intro)
  with \<open>quiet (exchange_code sv rq)\<close> \<open>quiet (allow sv rq)\<close> show ?thesis
    by (auto simp: token_endpoint_def intro!: quiet_intro)
qed

lemma respond_tokens:
  assumes "respond (token_endpoint sv rq) s = (TokenResponse a r c n, s')"
  shows "token_endpoint sv rq s = (Inr (TokenResponse a r c n), s')"
proof (cases "token_endpoint sv rq s")
  case (Pair x s1)
  show ?thesis
  proof (cases x)
    case (Inl e)
    with quiet_token_endpoint [of sv rq] Pair have "\<not> token_response e"
      unfolding quiet_def by blast
    with assms Pair Inl show ?thesis by (simp add: respond_def)
  qed (use assms Pair in \<open>simp add: respond_def\<close>)
qed

subsection \<open>Success of an exchange\<close>

lemma allow_Inr:
  assumes "allow sv rq s = (Inr u, s')"
  obtains ls where "s' = s\<lparr>st_db := (st_db s)\<lparr>request_limits := ls\<rparr>\<rparr>"
proof -
  obtain ls where "snd (allow_oauth_request (sv_canonical sv) (rq_remote rq) (rq_path rq) (sv_clock sv AtLimiter) (st_db s)) =
      (st_db s)\<lparr>request_limits := ls\<rparr>"
    by (rule allow_state)
  with assms show thesis
    by (intro that [of ls]) (auto simp: allow_def handler_Inr)
qed

lemma record_event_Inr:
  assumes "record_event sv e k s = (Inr x, s'')"
  obtains log where "k (s\<lparr>st_db := (st_db s)\<lparr>audit_log := log\<rparr>\<rparr>) = (Inr x, s'')"
proof (cases "sv_audit sv")
  case True
  with assms obtain r db where "append_audit (sv_clock sv AtAudit) e (st_db s) = (r, db)" "k (s\<lparr>st_db := db\<rparr>) = (Inr x, s'')"
    by (auto simp: record_event_def handler_Inr)
  moreover from this(1) have "\<exists>log. db = (st_db s)\<lparr>audit_log := log\<rparr>"
    by (auto simp: append_audit_def split: option.splits intro: exI [of _ "audit_log (st_db s)"])
  ultimately show thesis using that by blast
next
  case False
  with assms show thesis by (intro that [of "audit_log (st_db s)"]) (simp add: record_event_def)
qed

text \<open>Sealing leaves the tables, except for the ciphertext of the new grant.\<close>

lemma seal_Inr:
  assumes "seal_provider_token sv code i t s = (Inr u, s')"
  shows "oauth_requests (st_db s') = oauth_requests (st_db s) \<and>
    (oauth_grants (st_db s') = oauth_grants (st_db s) \<or>
     (\<exists>ct. oauth_grants (st_db s') =
        map (\<lambda>g. if og_id g = i \<and> og_revoked g = None then g\<lparr>og_ciphertext := Some ct\<rparr> else g) (oauth_grants (st_db s))))"
proof (cases "t = []")
  case True
  with assms show ?thesis by (simp add: seal_provider_token_def)
next
  case False
  with assms show ?thesis
    by (auto simp: seal_provider_token_def Let_def handler_Inr update_oauth_grant_github_token_def
        split: option.splits sum.splits if_splits)
qed

lemma provider_Inr:
  assumes "code_provider_token sv code s = (Inr t, s')"
  shows "st_db s' = st_db s"
  using assms by (auto simp: code_provider_token_def handler_Inr split: if_splits)

lemma exchange_row:
  assumes "exchange_oauth_code c g db = (Inr i, db')"
  shows "i = next_grant db \<and> active_user db (og_user g) \<and>
    oauth_grants db' = oauth_grants db @
      [g\<lparr>og_id := next_grant db, og_previous := None, og_used := og_created g, og_revoked := None\<rparr>] \<and>
    (\<exists>q\<in>set (oauth_requests db). code_matches c g q)"
proof -
  from assms obtain db1 where c: "active_user db (og_user g)"
      "length (filter (code_matches c g) (oauth_requests db)) = 1"
      "create_oauth_grant g (db\<lparr>oauth_requests := filter (\<lambda>q. \<not> code_matches c g q) (oauth_requests db)\<rparr>) = (Inr i, db1)"
      "db' = db1"
    by (auto simp: exchange_oauth_code_def elim!: transaction_cases simp: call_Inr split: if_splits)
  from c(2) have "filter (code_matches c g) (oauth_requests db) \<noteq> []" by auto
  then have "\<exists>q\<in>set (oauth_requests db). code_matches c g q"
    by (auto simp: filter_empty_conv)
  with c show ?thesis
    by (auto simp: create_oauth_grant_def Let_def split: if_splits)
qed

lemma issue_grant_Inr:
  assumes "issue_grant sv rq code q t (a, ah) (r, rh) s = (Inr (TokenResponse access refresh scope n), s')"
  obtains i db2 where "access = a" "refresh = r" "scope = oq_scope q"
    "exchange_oauth_code code (code_grant sv q ah rh) (st_db s) = (Inr i, db2)"
    "oauth_requests (st_db s') = oauth_requests db2"
    "oauth_grants (st_db s') = oauth_grants db2 \<or> (\<exists>ct. oauth_grants (st_db s') =
        map (\<lambda>g. if og_id g = i \<and> og_revoked g = None then g\<lparr>og_ciphertext := Some ct\<rparr> else g) (oauth_grants db2))"
proof -
  let ?g = "code_grant sv q ah rh"
  let ?log = "\<lambda>i. record_event sv (audit_of rq ''user'' (decimal (the_user q)) ''oauth_grant'' (decimal i) ''oauth_token''
          ''oauth_grant_created'' ''success'')
        (return_ok (write_tokens a r (oq_scope q) (og_access_expires ?g - sv_clock sv AtResponse)))"
  from assms obtain i s2 where step: "or_respond (exchange_oauth_code code ?g)
        (\<lambda>e. if e = NoRows then invalid_grant ''authorization code is invalid, expired or already used''
              else unavailable ''could not issue tokens'') s = (Inr i, s2)"
      "proceed (seal_provider_token sv code i t) (\<lambda>_. ?log i) s2 = (Inr (TokenResponse access refresh scope n), s')"
    unfolding issue_grant_def Let_def fst_conv snd_conv by (rule proceedE)
  from step(1) obtain db2 where db2: "exchange_oauth_code code ?g (st_db s) = (Inr i, db2)" "s2 = s\<lparr>st_db := db2\<rparr>"
    by (auto simp: or_respond_Inr)
  from step(2) obtain s3 where "seal_provider_token sv code i t s2 = (Inr (), s3)"
      "?log i s3 = (Inr (TokenResponse access refresh scope n), s')"
    by (auto elim: proceedE)
  note run = db2(1) this
  from run(3) obtain log where "(return_ok (write_tokens a r (oq_scope q) (og_access_expires ?g - sv_clock sv AtResponse)) ::
      response handler) (s3\<lparr>st_db := (st_db s3)\<lparr>audit_log := log\<rparr>\<rparr>) = (Inr (TokenResponse access refresh scope n), s')"
    by (rule record_event_Inr)
  then have last: "s' = s3\<lparr>st_db := (st_db s3)\<lparr>audit_log := log\<rparr>\<rparr>" "access = a" "refresh = r" "scope = oq_scope q"
    by (simp_all add: write_tokens_def)
  show thesis
    using seal_Inr [OF run(2)] last by (intro that [OF _ _ _ run(1)]) (simp_all add: db2(2))
qed

lemma exchange_code_Inr:
  assumes "exchange_code sv rq s = (Inr (TokenResponse access refresh scope n), s')"
  obtains code q ah rh t s1 where
    "hash_secret (post_form rq ''code'') code_prefix = Some code"
    "find (live_request code ''code'' (sv_clock sv AtHandler)) (oauth_requests (st_db s)) = Some q"
    "oq_client q = post_form rq ''client_id''" "oq_redirect q = post_form rq ''redirect_uri''"
    "verify_pkce (post_form rq ''code_verifier'') (oq_challenge q)"
    "\<exists>a. new_secret (sv_rand sv FirstSecret) access_token_prefix = Some (a, ah) \<and>
      (\<exists>r. new_secret (sv_rand sv SecondSecret) refresh_token_prefix = Some (r, rh) \<and>
      issue_grant sv rq code q t (a, ah) (r, rh) s1 = (Inr (TokenResponse access refresh scope n), s'))"
    "st_db s1 = st_db s"
proof -
  from assms obtain code where code: "hash_secret (post_form rq ''code'') code_prefix = Some code"
    by (auto simp: exchange_code_def Let_def handler_Inr)
  from assms obtain q where q: "find (live_request code ''code'' (sv_clock sv AtHandler)) (oauth_requests (st_db s)) = Some q"
    by (auto simp: exchange_code_def Let_def handler_Inr code get_oauth_authorization_request_def split: option.splits)
  have get: "get_oauth_authorization_request code ''code'' (sv_clock sv AtHandler) (st_db s) = (Inr q, st_db s)"
    by (simp add: get_oauth_authorization_request_def q)
  have match: "oq_client q = post_form rq ''client_id''" "oq_redirect q = post_form rq ''redirect_uri''"
      "verify_pkce (post_form rq ''code_verifier'') (oq_challenge q)"
    using assms by (auto simp: exchange_code_def Let_def handler_Inr code get split: if_splits)
  obtain t s1 where provider: "code_provider_token sv code s = (Inr t, s1)"
    and rest: "proceed (some_or (new_secret (sv_rand sv FirstSecret) access_token_prefix) (server_error ''could not issue tokens''))
        (\<lambda>(access, access_hash).
      proceed (some_or (new_secret (sv_rand sv SecondSecret) refresh_token_prefix) (server_error ''could not issue tokens''))
        (\<lambda>(refresh, refresh_hash).
      issue_grant sv rq code q t (access, access_hash) (refresh, refresh_hash))) s1 =
      (Inr (TokenResponse access refresh scope n), s')"
    using assms by (auto simp: exchange_code_def Let_def handler_Inr code get match)
  from rest obtain a ah r rh where "new_secret (sv_rand sv FirstSecret) access_token_prefix = Some (a, ah)"
      "new_secret (sv_rand sv SecondSecret) refresh_token_prefix = Some (r, rh)"
      "issue_grant sv rq code q t (a, ah) (r, rh) s1 = (Inr (TokenResponse access refresh scope n), s')"
    by (auto elim!: proceedE)
  then show thesis
    by (intro that [OF code q match _ provider_Inr [OF provider]]) blast
qed

subsection \<open>Tokens for a code\<close>

lemma token_exchange_step:
  assumes "respond (token_endpoint sv rq) s = (TokenResponse access refresh scope n, s')"
    and "post_form rq ''grant_type'' = ''authorization_code''"
  obtains ls where "exchange_code sv rq (s\<lparr>st_db := (st_db s)\<lparr>request_limits := ls\<rparr>\<rparr>) =
    (Inr (TokenResponse access refresh scope n), s')"
proof -
  from respond_tokens [OF assms(1)] obtain s1 where "allow sv rq s = (Inr (), s1)"
      "exchange_code sv rq s1 = (Inr (TokenResponse access refresh scope n), s')"
    unfolding token_endpoint_def using assms(2) by (auto elim!: proceedE simp: require_Inr)
  with that show thesis by (auto elim: allow_Inr)
qed

text \<open>
  C20. The token endpoint gives tokens for an authorization code only to a request that names the code's
  client and redirect URI and proves possession of the verifier behind its challenge; the code is
  consumed, and the tokens are those of a new grant for the user who consented, with the scope of the
  request, an hour of access and thirty days of life.
\<close>

theorem exchange_requires_proof:
  assumes "auth_inv (st_db s)" "respond (token_endpoint sv rq) s = (TokenResponse access refresh scope n, s')"
    and "post_form rq ''grant_type'' = ''authorization_code''"
  shows "\<exists>code q g. hash_secret (post_form rq ''code'') code_prefix = Some code \<and>
    q \<in> set (oauth_requests (st_db s)) \<and> live_request code ''code'' (sv_clock sv AtHandler) q \<and>
    oq_client q = post_form rq ''client_id'' \<and> oq_redirect q = post_form rq ''redirect_uri'' \<and>
    verify_pkce (post_form rq ''code_verifier'') (oq_challenge q) \<and> scope = oq_scope q \<and>
    code \<notin> oq_id ` set (oauth_requests (st_db s')) \<and>
    g \<in> set (oauth_grants (st_db s')) \<and> og_id g = next_grant (st_db s) \<and> og_client g = oq_client q \<and>
    oq_user q = Some (og_user g) \<and> active_user (st_db s) (og_user g) \<and> og_scope g = scope \<and> og_revoked g = None \<and>
    hash_secret access access_token_prefix = Some (og_access g) \<and>
    hash_secret refresh refresh_token_prefix = Some (og_refresh g) \<and>
    og_access_expires g = sv_clock sv AtHandler + access_token_ttl \<and> og_expires g = sv_clock sv AtHandler + grant_ttl"
proof -
  obtain ls where step: "exchange_code sv rq (s\<lparr>st_db := (st_db s)\<lparr>request_limits := ls\<rparr>\<rparr>) =
      (Inr (TokenResponse access refresh scope n), s')"
    using assms(2, 3) by (rule token_exchange_step)
  let ?db = "(st_db s)\<lparr>request_limits := ls\<rparr>"
  from step obtain code q ah rh t s1 a r where code: "hash_secret (post_form rq ''code'') code_prefix = Some code"
      and q: "find (live_request code ''code'' (sv_clock sv AtHandler)) (oauth_requests ?db) = Some q"
      and match: "oq_client q = post_form rq ''client_id''" "oq_redirect q = post_form rq ''redirect_uri''"
        "verify_pkce (post_form rq ''code_verifier'') (oq_challenge q)"
      and secrets: "new_secret (sv_rand sv FirstSecret) access_token_prefix = Some (a, ah)"
        "new_secret (sv_rand sv SecondSecret) refresh_token_prefix = Some (r, rh)"
      and issued: "issue_grant sv rq code q t (a, ah) (r, rh) s1 = (Inr (TokenResponse access refresh scope n), s')"
      and s1: "st_db s1 = ?db"
    by (rule exchange_code_Inr) auto
  let ?g = "code_grant sv q ah rh"
  from issued obtain i db2 where out: "access = a" "refresh = r" "scope = oq_scope q"
      and ex: "exchange_oauth_code code ?g ?db = (Inr i, db2)"
      and tables: "oauth_requests (st_db s') = oauth_requests db2"
        "oauth_grants (st_db s') = oauth_grants db2 \<or> (\<exists>ct. oauth_grants (st_db s') =
          map (\<lambda>g. if og_id g = i \<and> og_revoked g = None then g\<lparr>og_ciphertext := Some ct\<rparr> else g) (oauth_grants db2))"
    by (rule issue_grant_Inr) (auto simp: s1)
  note row = exchange_row [OF ex]
  have gone: "code \<notin> oq_id ` set (oauth_requests (st_db s'))"
    using exchange_consumes(2) [OF _ ex] assms(1) by (simp add: tables(1) no_request_def auth_inv_def)
  from q have q': "q \<in> set (oauth_requests (st_db s))" "live_request code ''code'' (sv_clock sv AtHandler) q"
    by (auto simp: find_Some_iff)
  from row obtain q2 where q2: "q2 \<in> set (oauth_requests (st_db s))" "code_matches code ?g q2" by auto
  have "q2 = q"
    using q' q2 assms(1)
    by (auto simp: auth_inv_def distinct_map code_matches_def live_request_def dest: inj_onD)
  with q2(2) have user: "oq_user q = Some (og_user ?g)" by (simp add: code_matches_def)
  let ?row = "?g\<lparr>og_id := next_grant (st_db s)\<rparr>"
  have rows: "oauth_grants db2 = oauth_grants (st_db s) @ [?row]" "i = next_grant (st_db s)"
    using row by (simp_all add: code_grant_def Let_def)
  have fresh: "og_id ?row = i" "og_revoked ?row = None"
    using rows(2) by (simp_all add: code_grant_def Let_def)
  have "\<exists>g \<in> set (oauth_grants (st_db s')). g = ?row \<or> (\<exists>ct. g = ?row\<lparr>og_ciphertext := Some ct\<rparr>)"
    using tables(2)
  proof (elim disjE exE)
    assume "oauth_grants (st_db s') = oauth_grants db2"
    then show ?thesis by (intro bexI [of _ ?row]) (simp_all add: rows(1))
  next
    fix ct
    assume *: "oauth_grants (st_db s') =
      map (\<lambda>g. if og_id g = i \<and> og_revoked g = None then g\<lparr>og_ciphertext := Some ct\<rparr> else g) (oauth_grants db2)"
    have "?row\<lparr>og_ciphertext := Some ct\<rparr> \<in> set (oauth_grants (st_db s'))"
      unfolding * rows(1) map_append list.map set_append list.set using fresh by simp
    then show ?thesis by blast
  qed
  then obtain g where g: "g \<in> set (oauth_grants (st_db s'))" "g = ?row \<or> (\<exists>ct. g = ?row\<lparr>og_ciphertext := Some ct\<rparr>)"
    by blast
  have "hash_secret a access_token_prefix = Some ah" "hash_secret r refresh_token_prefix = Some rh"
    using secrets by (auto intro: hash_new_secret)
  moreover have "og_id g = next_grant (st_db s)" "og_client g = oq_client q" "og_user g = og_user ?g" "og_scope g = oq_scope q"
      "og_revoked g = None" "og_access g = ah" "og_refresh g = rh"
      "og_access_expires g = sv_clock sv AtHandler + access_token_ttl" "og_expires g = sv_clock sv AtHandler + grant_ttl"
    using g(2) by (auto simp: code_grant_def Let_def)
  moreover have "active_user (st_db s) (og_user ?g)"
    using row by (simp add: active_user_def find_user_def)
  ultimately show ?thesis
    using code q' match out gone user g(1) by (intro exI [of _ code] exI [of _ q] exI [of _ g]) simp
qed

subsection \<open>Success of a refresh\<close>

text \<open>A refresh that goes on after an attempt to revoke has changed nothing.\<close>

lemma revoke_attempt_Inr:
  assumes "proceed (revoke_current sv rq h c) (\<lambda>r. proceed (after_revoke r a b) f) s = (Inr x, s'')"
  shows "\<exists>s'. st_db s' = st_db s \<and> f () s' = (Inr x, s'')"
proof -
  from assms obtain r s1 where r: "revoke_current sv rq h c s = (Inr r, s1)" "proceed (after_revoke r a b) f s1 = (Inr x, s'')"
    by (rule proceedE)
  then have "r = Inl NoRows" "f () s1 = (Inr x, s'')"
    by (auto elim!: proceedE simp: after_revoke_def return_error_def require_Inr split: sum.splits)
  moreover from r(1) \<open>r = Inl NoRows\<close> have "st_db s1 = st_db s"
    by (auto simp: revoke_current_def inspect_Inr elim: rotate_cases)
  ultimately show ?thesis by blast
qed

lemma synced_Inr:
  assumes "synced_repositories sv rq h c t s = (Inr x, s')"
  shows "st_db s' = st_db s"
  using assms
  by (auto simp: synced_repositories_def split: option.splits if_splits github_answer.splits dest!: revoke_attempt_Inr)

lemma missing_token_Inr:
  assumes "missing_credentials sv rq h c s = (Inr u, s')"
  shows "st_db s' = st_db s"
proof -
  have "proceed (after_revoke r x y) return_ok = after_revoke r x y" for r x y
    by (auto simp: after_revoke_def proceed_def return_ok_def return_error_def require_def fun_eq_iff split: sum.split)
  with assms revoke_attempt_Inr [of sv rq h c _ _ return_ok s u s'] show ?thesis
    by (auto simp: missing_credentials_def split: if_splits)
qed

lemma rotate_tokens_Inr:
  assumes "rotate_tokens sv rq h c ids s = (Inr (TokenResponse access refresh scope n), s')"
  obtains ah rh g db' where
    "new_secret (sv_rand sv FirstSecret) access_token_prefix = Some (access, ah)"
    "new_secret (sv_rand sv SecondSecret) refresh_token_prefix = Some (refresh, rh)"
    "rotate_oauth_grant (sv_clock sv InDatabase) h (refresh_rotation sv rq c ids ah rh) (st_db s) = (Inr g, db')"
    "scope = og_scope g" "st_db s' = db'"
proof -
  have log: "record_event sv e (return_error x :: response handler) t \<noteq> (Inr y, t')" for e x t y t'
    by (auto simp: record_event_def proceed_def return_error_def split: prod.splits sum.splits)
  from assms obtain a ah r rh s1 res where secrets: "new_secret (sv_rand sv FirstSecret) access_token_prefix = Some (a, ah)"
      "new_secret (sv_rand sv SecondSecret) refresh_token_prefix = Some (r, rh)"
      "inspect (rotate_oauth_grant (sv_clock sv InDatabase) h (refresh_rotation sv rq c ids ah rh)) s = (Inr res, s1)"
    and res: "\<exists>g. res = Inr g \<and> access = a \<and> refresh = r \<and> scope = og_scope g \<and> s' = s1"
    by (auto simp: rotate_tokens_def log write_tokens_def return_error_def elim!: proceedE split: sum.splits auth_error.splits)
  then show thesis
    by (auto simp: inspect_Inr intro: that)
qed

lemma open_provider_Inr: "open_provider_token sv c s = (Inr t, s') \<Longrightarrow> s' = s"
  by (auto simp: open_provider_token_def return_error_def split: if_splits option.splits)

lemma refresh_rotation_simps [simp]:
  "rt_access (refresh_rotation sv rq c ids ah rh) = ah" "rt_refresh (refresh_rotation sv rq c ids ah rh) = rh"
  "rt_now (refresh_rotation sv rq c ids ah rh) = sv_clock sv AtHandler" "\<not> rt_revoke (refresh_rotation sv rq c ids ah rh)"
  by (simp_all add: refresh_rotation_def Let_def)

lemma refresh_grant_Inr:
  assumes "refresh_grant sv rq s = (Inr (TokenResponse access refresh scope n), s')"
  obtains h found ids ah rh g db' where
    "hash_secret (post_form rq ''refresh_token'') refresh_token_prefix = Some h"
    "oauth_grant_by_refresh h (sv_clock sv AtHandler) (st_db s) = (found, st_db s)"
    "case found of Inl _ \<Rightarrow> True | Inr g \<Rightarrow> og_client g = post_form rq ''client_id''"
    "new_secret (sv_rand sv FirstSecret) access_token_prefix = Some (access, ah)"
    "new_secret (sv_rand sv SecondSecret) refresh_token_prefix = Some (refresh, rh)"
    "rotate_oauth_grant (sv_clock sv InDatabase) h
       (refresh_rotation sv rq (case found of Inl _ \<Rightarrow> None | Inr g \<Rightarrow> Some g) ids ah rh) (st_db s) = (Inr g, db')"
    "scope = og_scope g" "st_db s' = db'"
proof -
  let ?c = "\<lambda>found. case found of Inl _ \<Rightarrow> None | Inr g \<Rightarrow> Some g"
  from assms obtain h found s0 s1 t s2 ids s3 where
    h: "hash_secret (post_form rq ''refresh_token'') refresh_token_prefix = Some h"
    and look: "inspect (oauth_grant_by_refresh h (sv_clock sv AtHandler)) s = (Inr found, s0)"
      "case ?c found of None \<Rightarrow> True | Some g \<Rightarrow> og_client g = post_form rq ''client_id''"
    and steps: "missing_credentials sv rq h (?c found) s0 = (Inr (), s1)" "open_provider_token sv (?c found) s1 = (Inr t, s2)"
      "synced_repositories sv rq h (?c found) t s2 = (Inr ids, s3)"
    and last: "rotate_tokens sv rq h (?c found) ids s3 = (Inr (TokenResponse access refresh scope n), s')"
    unfolding refresh_grant_def Let_def by (auto simp: require_Inr elim!: proceedE)
  from look(1) have found: "oauth_grant_by_refresh h (sv_clock sv AtHandler) (st_db s) = (found, st_db s)" "s0 = s"
    by (auto simp: inspect_Inr oauth_grant_by_refresh_def split: option.splits)
  have same: "st_db s3 = st_db s"
    using missing_token_Inr [OF steps(1)] open_provider_Inr [OF steps(2)] synced_Inr [OF steps(3)] found(2) by simp
  from look(2) have client: "case found of Inl _ \<Rightarrow> True | Inr g \<Rightarrow> og_client g = post_form rq ''client_id''"
    by (simp split: sum.splits)
  show thesis
    using last by (rule rotate_tokens_Inr) (simp only: same, rule that [OF h found(1) client])
qed

lemma token_refresh_step:
  assumes "respond (token_endpoint sv rq) s = (TokenResponse access refresh scope n, s')"
    and "post_form rq ''grant_type'' = ''refresh_token''"
  obtains ls where "refresh_grant sv rq (s\<lparr>st_db := (st_db s)\<lparr>request_limits := ls\<rparr>\<rparr>) =
    (Inr (TokenResponse access refresh scope n), s')"
proof -
  from respond_tokens [OF assms(1)] obtain s1 where "allow sv rq s = (Inr (), s1)"
      "refresh_grant sv rq s1 = (Inr (TokenResponse access refresh scope n), s')"
    unfolding token_endpoint_def using assms(2) by (auto elim!: proceedE simp: require_Inr)
  with that show thesis by (auto elim: allow_Inr)
qed

lemma rotated_fields [simp]:
  "og_id (rotated rot g) = og_id g" "og_client (rotated rot g) = og_client g" "og_user (rotated rot g) = og_user g"
  "og_scope (rotated rot g) = og_scope g" "og_expires (rotated rot g) = og_expires g" "og_access (rotated rot g) = rt_access rot"
  "og_refresh (rotated rot g) = rt_refresh rot" "og_previous (rotated rot g) = Some (og_refresh g)"
  "og_access_expires (rotated rot g) = rt_access_expires rot" "og_revoked (rotated rot g) = og_revoked g"
  by (simp_all add: rotated_def)

lemma rotation_expiry:
  assumes "og_id g \<noteq> 0"
  shows "rt_access_expires (refresh_rotation sv rq (Some g) ids ah rh) = min (sv_clock sv AtHandler + access_token_ttl) (og_expires g)"
  using assms by (simp add: refresh_rotation_def Let_def min_def)

text \<open>
  C21. The token endpoint gives tokens for a refresh token only where the token is the current one of a
  grant that is neither revoked nor expired, of an active user, and made for the client that asks.  The
  grant keeps its user, client, scope and end; the old token is recorded as consumed, and the new access
  token ends after an hour or with the grant.
\<close>

theorem refresh_rotates:
  assumes "respond (token_endpoint sv rq) s = (TokenResponse access refresh scope n, s')"
    and "post_form rq ''grant_type'' = ''refresh_token''" "0 \<notin> og_id ` set (oauth_grants (st_db s))"
  shows "\<exists>h g g'. hash_secret (post_form rq ''refresh_token'') refresh_token_prefix = Some h \<and>
    g \<in> set (oauth_grants (st_db s)) \<and> refresh_matches h (sv_clock sv AtHandler) (st_db s) g \<and>
    og_client g = post_form rq ''client_id'' \<and> scope = og_scope g \<and>
    g' \<in> set (oauth_grants (st_db s')) \<and> og_id g' = og_id g \<and> og_client g' = og_client g \<and> og_user g' = og_user g \<and>
    og_scope g' = og_scope g \<and> og_expires g' = og_expires g \<and> og_previous g' = Some h \<and>
    hash_secret access access_token_prefix = Some (og_access g') \<and>
    hash_secret refresh refresh_token_prefix = Some (og_refresh g') \<and>
    og_access_expires g' = min (sv_clock sv AtHandler + access_token_ttl) (og_expires g) \<and>
    \<lparr>rf_hash = h, rf_grant = og_id g, rf_consumed = sv_clock sv AtHandler\<rparr> \<in> set (refresh_tokens (st_db s'))"
proof -
  obtain ls where "refresh_grant sv rq (s\<lparr>st_db := (st_db s)\<lparr>request_limits := ls\<rparr>\<rparr>) =
      (Inr (TokenResponse access refresh scope n), s')"
    using assms(1, 2) by (rule token_refresh_step)
  then obtain h found ids ah rh r db' where h: "hash_secret (post_form rq ''refresh_token'') refresh_token_prefix = Some h"
      and found: "fst (oauth_grant_by_refresh h (sv_clock sv AtHandler) ((st_db s)\<lparr>request_limits := ls\<rparr>)) = found"
        "case found of Inl _ \<Rightarrow> True | Inr g \<Rightarrow> og_client g = post_form rq ''client_id''"
      and secrets: "new_secret (sv_rand sv FirstSecret) access_token_prefix = Some (access, ah)"
        "new_secret (sv_rand sv SecondSecret) refresh_token_prefix = Some (refresh, rh)"
      and rotate: "rotate_oauth_grant (sv_clock sv InDatabase) h
         (refresh_rotation sv rq (case found of Inl _ \<Rightarrow> None | Inr g \<Rightarrow> Some g) ids ah rh) ((st_db s)\<lparr>request_limits := ls\<rparr>) = (Inr r, db')"
      and out: "scope = og_scope r" "st_db s' = db'"
    by (rule refresh_grant_Inr) auto
  let ?rot = "\<lambda>g. refresh_rotation sv rq (Some g) ids ah rh"
  have m: "refresh_matches h' now ((st_db s)\<lparr>request_limits := ls\<rparr>) = refresh_matches h' now (st_db s)" for h' now
    by (simp add: fun_eq_iff refresh_matches_def live_grant_def active_user_def find_user_def)
  let ?m = "refresh_matches h (sv_clock sv AtHandler) (st_db s)"
  from rotate obtain g where cur: "find ?m (oauth_grants (st_db s)) = Some g"
    by (rule rotate_cases) (simp_all add: m)
  then have found': "found = Inr g"
    using found(1) by (simp add: oauth_grant_by_refresh_def m)
  with rotate have rotate: "rotate_oauth_grant (sv_clock sv InDatabase) h (?rot g) ((st_db s)\<lparr>request_limits := ls\<rparr>) = (Inr r, db')"
    by simp
  then have rows: "r = rotated (?rot g) g" "oauth_grants db' = map (\<lambda>x. if ?m x then rotated (?rot g) x else x) (oauth_grants (st_db s))"
      "refresh_tokens db' = refresh_tokens (st_db s) @ [\<lparr>rf_hash = h, rf_grant = og_id g, rf_consumed = sv_clock sv AtHandler\<rparr>]"
    using cur by (auto simp: m elim: rotate_cases)
  from cur have g: "g \<in> set (oauth_grants (st_db s))" "?m g"
    by (auto simp: find_Some_iff)
  then have "rotated (?rot g) g \<in> set (oauth_grants db')" "og_refresh g = h" "og_id g \<noteq> 0"
    using assms(3) by (auto simp: rows(2) refresh_matches_def)
  then show ?thesis
    using h g out rows secrets found(2) found' hash_new_secret rotation_expiry
    by (intro exI [of _ h] exI [of _ g] exI [of _ "rotated (?rot g) g"]) simp
qed

subsection \<open>A server\<close>

definition ex_server :: oauth_server where
  "ex_server = \<lparr>sv_origin = ''https://nest.example'', sv_login_path = ''/login'', sv_github_login_path = [], sv_sessions = None,
     sv_sealer = None, sv_github = None, sv_github_tokens = False, sv_audit = False, sv_limiter = True, sv_canonical = Some,
     sv_urls = \<lparr>parse_url = (\<lambda>_. None), loopback_ip = (\<lambda>_. False), with_port = (\<lambda>u _. u)\<rparr>, sv_clock = (\<lambda>_. 5),
     sv_rand = (\<lambda>d. if d = FirstSecret then Some (ex_hash 40) else Some (ex_hash 41))\<rparr>"

definition ex_verifier :: string where
  "ex_verifier = replicate 43 (CHR ''v'')"

definition ex_exchange :: http_request where
  "ex_exchange = \<lparr>rq_path = ''/oauth/token'', rq_remote = ''10.0.0.1'', rq_content_type = ''application/x-www-form-urlencoded'',
     rq_origin = [], rq_authorization = [], rq_query = [],
     rq_form = Some (map_fun id (\<lambda>v. case v of None \<Rightarrow> [] | Some x \<Rightarrow> [x]) (map_of
       [(''grant_type'', ''authorization_code''), (''code'', code_prefix @ b64_encode (ex_hash 9)), (''client_id'', ''gnc_1''),
        (''redirect_uri'', ''https://ide.example''), (''code_verifier'', ex_verifier)])),
     rq_cookies = [], rq_request_id = []\<rparr>"

definition ex_state :: server_state where
  "ex_state = \<lparr>st_db = ex_auth_db\<lparr>oauth_grants := [],
       oauth_requests := [ex_code\<lparr>oq_id := sha256 (ex_hash 9), oq_challenge := b64_encode (sha256 ex_verifier)\<rparr>]\<rparr>,
     st_tokens = Map.empty\<rparr>"

lemma ex_form:
  "post_form ex_exchange ''grant_type'' = ''authorization_code''"
  "post_form ex_exchange ''code'' = code_prefix @ b64_encode (ex_hash 9)" "post_form ex_exchange ''client_id'' = ''gnc_1''"
  "post_form ex_exchange ''redirect_uri'' = ''https://ide.example''" "post_form ex_exchange ''code_verifier'' = ex_verifier"
  by (simp_all add: post_form_def ex_exchange_def)

lemma ex_code_hash: "hash_secret (code_prefix @ b64_encode (ex_hash 9)) code_prefix = Some (sha256 (ex_hash 9))"
  by (subst hash_secret_iff) (rule exI [of _ "ex_hash 9"], simp add: ex_hash_def)

lemma ex_verified: "verify_pkce ex_verifier (b64_encode (sha256 ex_verifier))" "ex_verifier \<noteq> []"
  by (simp_all add: verify_pkce_def ex_verifier_def verifier_char_def list_all_iff is_lower_def)

lemma ex_secret:
  "new_secret (Some (ex_hash n)) p = Some (p @ b64_encode (ex_hash n), sha256 (ex_hash n))"
  by (simp add: new_secret_def read_full_def ex_hash_def)

lemma ex_allow:
  "allow ex_server ex_exchange ex_state = (Inr (), ex_state\<lparr>st_db := (st_db ex_state)\<lparr>request_limits :=
     [\<lparr>lm_endpoint = ''/oauth/token'', lm_source = [], lm_window = 0, lm_count = 1\<rparr>,
      \<lparr>lm_endpoint = ''/oauth/token'', lm_source = sha256 ''10.0.0.1'', lm_window = 0, lm_count = 1\<rparr>]\<rparr>\<rparr>)"
  using sha256_not_empty [symmetric]
  by (simp add: allow_def ex_server_def ex_exchange_def ex_state_def allow_oauth_request_def endpoint_limits_def window_of_def minute_def
      charge_def Let_def or_respond_def on_store_def ex_auth_db_def call_defs)

text \<open>The same state after the limiter, at the end of the exchange.\<close>

lemma ex_issue:
  assumes "oauth_requests db = oauth_requests (st_db ex_state)" "oauth_grants db = []" "users db = [ex_user]"
    "oauth_clients db = [ex_client]" "next_grant db = 2"
  shows "\<exists>s'. exchange_code ex_server ex_exchange (ex_state\<lparr>st_db := db\<rparr>) =
    (Inr (TokenResponse (access_token_prefix @ b64_encode (ex_hash 40)) (refresh_token_prefix @ b64_encode (ex_hash 41)) [] 3600), s')"
proof -
  let ?q = "ex_code\<lparr>oq_id := sha256 (ex_hash 9), oq_challenge := b64_encode (sha256 ex_verifier)\<rparr>"
  let ?c = "sha256 (ex_hash 9)"
  have q: "oauth_requests db = [?q]"
    using assms by (simp add: ex_state_def)
  have get: "get_oauth_authorization_request ?c ''code'' 5 db = (Inr ?q, db)"
    by (simp add: get_oauth_authorization_request_def q live_request_def ex_code_def minute_def)
  have provider: "code_provider_token ex_server ?c = return_ok []"
    by (simp add: code_provider_token_def ex_server_def)
  let ?g = "code_grant ex_server ?q (sha256 (ex_hash 40)) (sha256 (ex_hash 41))"
  have made: "\<exists>db'. exchange_oauth_code ?c ?g db = (Inr 2, db')"
    using assms(2-) by (simp add: exchange_oauth_code_def transaction_def call_defs put_db_def create_oauth_grant_def Let_def
        grant_check_def find_client_def find_user_def varchar_ok_def grants_unique_def active_user_def may_sign_in_def
        code_matches_def live_request_def q code_grant_def the_user_def ex_server_def ex_auth_simps grant_ttl_def)
  have seal: "seal_provider_token ex_server ?c 2 [] = return_ok ()"
    by (simp add: seal_provider_token_def)
  have quiet_log: "\<not> sv_audit ex_server" "sv_clock ex_server AtResponse = 5" "oq_scope ?q = []"
    by (simp_all add: ex_server_def ex_code_def)
  have expiry: "og_access_expires ?g = 3600000005"
    by (simp add: code_grant_def ex_server_def access_token_ttl_def minute_def)
  from made obtain db' where made: "exchange_oauth_code ?c ?g db = (Inr 2, db')" by blast
  have "issue_grant ex_server ex_exchange ?c ?q [] (a, sha256 (ex_hash 40)) (r, sha256 (ex_hash 41)) (ex_state\<lparr>st_db := db\<rparr>) =
      (Inr (TokenResponse a r [] 3600), ex_state\<lparr>st_db := db'\<rparr>)" for a r
    unfolding issue_grant_def Let_def snd_conv fst_conv proceed_def or_respond_def on_store_def
    by (simp add: made seal return_ok_def record_event_def quiet_log expiry write_tokens_def)
  note issue = this
  have clock: "sv_clock ex_server AtHandler = 5"
    "sv_rand ex_server FirstSecret = Some (ex_hash 40)" "sv_rand ex_server SecondSecret = Some (ex_hash 41)"
    by (simp_all add: ex_server_def)
  have "oq_client ?q = ''gnc_1''" "oq_redirect ?q = ''https://ide.example''" "oq_challenge ?q = b64_encode (sha256 ex_verifier)"
    by (simp_all add: ex_code_def)
  note facts = this
  have "exchange_code ex_server ex_exchange (ex_state\<lparr>st_db := db\<rparr>) =
    (Inr (TokenResponse (access_token_prefix @ b64_encode (ex_hash 40)) (refresh_token_prefix @ b64_encode (ex_hash 41)) [] 3600),
     ex_state\<lparr>st_db := db'\<rparr>)"
    unfolding exchange_code_def Let_def ex_form ex_code_hash clock ex_secret provider
    by (simp add: some_or_def proceed_def require_def return_ok_def or_respond_def on_store_def get facts ex_verified issue provider
      del: append_Cons append_Nil oauth_request.simps)
  then show ?thesis by blast
qed

theorem exchange_requires_proof_witness:
  "\<exists>access refresh s'. respond (token_endpoint ex_server ex_exchange) ex_state = (TokenResponse access refresh [] 3600, s') \<and>
     (\<exists>g\<in>set (oauth_grants (st_db s')). og_client g = ''gnc_1'' \<and> hash_secret access access_token_prefix = Some (og_access g))"
proof -
  obtain ls where allowed: "allow ex_server ex_exchange ex_state = (Inr (), ex_state\<lparr>st_db := (st_db ex_state)\<lparr>request_limits := ls\<rparr>\<rparr>)"
    using ex_allow by blast
  obtain a r s' where "exchange_code ex_server ex_exchange (ex_state\<lparr>st_db := (st_db ex_state)\<lparr>request_limits := ls\<rparr>\<rparr>) =
      (Inr (TokenResponse a r [] 3600), s')"
    using ex_issue [of "(st_db ex_state)\<lparr>request_limits := ls\<rparr>"] by (auto simp: ex_state_def ex_auth_db_def)
  moreover have "has_prefix (rq_content_type ex_exchange) ''application/x-www-form-urlencoded''" "rq_form ex_exchange \<noteq> None"
      "rq_authorization ex_exchange = []"
    by (simp_all add: ex_exchange_def has_prefix_def)
  ultimately have run: "respond (token_endpoint ex_server ex_exchange) ex_state = (TokenResponse a r [] 3600, s')"
    unfolding respond_def token_endpoint_def proceed_def require_def allowed by (simp add: ex_form(1))
  have "auth_inv (st_db ex_state)"
    by (simp add: ex_state_def auth_inv_def grant_inv_def grants_unique_def ex_auth_db_def)
  from exchange_requires_proof [OF this run ex_form(1)] run show ?thesis
    unfolding ex_form by metis
qed

definition ex_refresh :: http_request where
  "ex_refresh = ex_exchange\<lparr>rq_form := Some (map_fun id (\<lambda>v. case v of None \<Rightarrow> [] | Some x \<Rightarrow> [x]) (map_of
     [(''grant_type'', ''refresh_token''), (''refresh_token'', refresh_token_prefix @ b64_encode (ex_hash 9)),
      (''client_id'', ''gnc_1'')]))\<rparr>"

definition ex_live :: oauth_grant where
  "ex_live = ex_grant\<lparr>og_refresh := sha256 (ex_hash 9), og_ciphertext := None\<rparr>"

definition ex_signed_in :: server_state where
  "ex_signed_in = \<lparr>st_db = ex_auth_db\<lparr>oauth_grants := [ex_live]\<rparr>, st_tokens = Map.empty\<rparr>"

lemma ex_refresh_form:
  "post_form ex_refresh ''grant_type'' = ''refresh_token''" "post_form ex_refresh ''client_id'' = ''gnc_1''"
  "post_form ex_refresh ''refresh_token'' = refresh_token_prefix @ b64_encode (ex_hash 9)"
  by (simp_all add: post_form_def ex_refresh_def)

lemma ex_refresh_hash: "hash_secret (refresh_token_prefix @ b64_encode (ex_hash 9)) refresh_token_prefix = Some (sha256 (ex_hash 9))"
  by (subst hash_secret_iff) (rule exI [of _ "ex_hash 9"], simp add: ex_hash_def)

lemma ex_refresh_allow:
  "allow ex_server ex_refresh ex_signed_in = (Inr (), ex_signed_in\<lparr>st_db := (st_db ex_signed_in)\<lparr>request_limits :=
     [\<lparr>lm_endpoint = ''/oauth/token'', lm_source = [], lm_window = 0, lm_count = 1\<rparr>,
      \<lparr>lm_endpoint = ''/oauth/token'', lm_source = sha256 ''10.0.0.1'', lm_window = 0, lm_count = 1\<rparr>]\<rparr>\<rparr>)"
  using sha256_not_empty [symmetric]
  by (simp add: allow_def ex_server_def ex_refresh_def ex_exchange_def ex_signed_in_def allow_oauth_request_def endpoint_limits_def
      window_of_def minute_def charge_def Let_def or_respond_def on_store_def ex_auth_db_def call_defs)

lemma ex_decimal: "decimal 7 = ''7''" "decimal 1 = ''1''"
  by code_simp+

lemma ex_rotation_audit: "rt_audit (refresh_rotation ex_server ex_refresh (Some ex_live) None ah rh) = ex_event"
  by (simp add: refresh_rotation_def Let_def audit_of_def ex_event_def ex_live_def ex_grant_def ex_refresh_def ex_exchange_def
      ex_decimal)

lemma ex_rotates:
  assumes "users db = [ex_user]" "oauth_grants db = [ex_live]" "refresh_tokens db = []"
  shows "\<exists>g db'. og_scope g = [] \<and> og_access_expires g = 3600000005 \<and>
    rotate_oauth_grant 5 (sha256 (ex_hash 9)) (refresh_rotation ex_server ex_refresh (Some ex_live) None ah rh) db = (Inr g, db')"
proof -
  let ?rot = "refresh_rotation ex_server ex_refresh (Some ex_live) None ah rh"
  have clock: "sv_clock ex_server AtHandler = 5"
    by (simp add: ex_server_def)
  have now: "\<not> rt_replace ?rot" "og_scope ex_live = []"
    by (simp_all add: refresh_rotation_def Let_def ex_server_def ex_live_def ex_grant_def)
  have expires: "rt_access_expires ?rot = 3600000005"
    by (simp add: refresh_rotation_def Let_def ex_server_def ex_live_def ex_grant_def access_token_ttl_def minute_def day_def)
  have m: "refresh_matches (sha256 (ex_hash 9)) 5 db ex_live"
    using assms by (simp add: refresh_matches_def live_grant_def active_user_def find_user_def may_sign_in_def ex_live_def ex_grant_def
        ex_user_def day_def)
  have "rotate_oauth_grant 5 (sha256 (ex_hash 9)) ?rot db = (Inr (rotated ?rot ex_live),
     db\<lparr>oauth_grants := [rotated ?rot ex_live],
        refresh_tokens := [\<lparr>rf_hash = sha256 (ex_hash 9), rf_grant = og_id ex_live, rf_consumed = 5\<rparr>],
        audit_log := audit_log db @ [ex_event\<lparr>ev_created := Some 5\<rparr>]\<rparr>)"
    using assms m ex_event_valid now(1)
    by (simp add: rotate_oauth_grant_def transaction_def call_defs put_db_def consume_refresh_def append_audit_def new_event_def
        grants_unique_def clock Let_def ex_rotation_audit) (simp add: ex_event_def)
  then show ?thesis
    using now expires by (intro exI conjI) (simp_all)
qed

lemma ex_refreshed:
  assumes "users db = [ex_user]" "oauth_grants db = [ex_live]" "refresh_tokens db = []"
  shows "\<exists>a r s'. refresh_grant ex_server ex_refresh (ex_signed_in\<lparr>st_db := db\<rparr>) = (Inr (TokenResponse a r [] 3600), s')"
proof -
  let ?h = "sha256 (ex_hash 9)"
  let ?s = "ex_signed_in\<lparr>st_db := db\<rparr>"
  have m: "refresh_matches ?h 5 db ex_live"
    using assms by (simp add: refresh_matches_def live_grant_def active_user_def find_user_def may_sign_in_def ex_live_def ex_grant_def
        ex_user_def day_def)
  have look: "inspect (oauth_grant_by_refresh ?h 5) ?s = (Inr (Inr ex_live), ?s)"
    using assms m by (simp add: inspect_def on_store_def oauth_grant_by_refresh_def)
  have server: "sv_github ex_server = None" "sv_clock ex_server = (\<lambda>_. 5)" "sv_rand ex_server FirstSecret = Some (ex_hash 40)"
      "sv_rand ex_server SecondSecret = Some (ex_hash 41)" "og_client ex_live = ''gnc_1''"
    by (simp_all add: ex_server_def ex_live_def ex_grant_def)
  obtain g db' where g: "og_scope g = []" "og_access_expires g = 3600000005"
      "rotate_oauth_grant 5 ?h (refresh_rotation ex_server ex_refresh (Some ex_live) None (sha256 (ex_hash 40)) (sha256 (ex_hash 41))) db =
        (Inr g, db')"
    using ex_rotates [OF assms] by blast
  have "rotate_tokens ex_server ex_refresh ?h (Some ex_live) None ?s =
      (Inr (TokenResponse (access_token_prefix @ b64_encode (ex_hash 40)) (refresh_token_prefix @ b64_encode (ex_hash 41)) [] 3600),
       ex_signed_in\<lparr>st_db := db'\<rparr>)"
    unfolding rotate_tokens_def server ex_secret
    by (simp add: some_or_def proceed_def return_ok_def inspect_def on_store_def g write_tokens_def)
  then show ?thesis
    unfolding refresh_grant_def Let_def ex_refresh_form ex_refresh_hash server
    by (simp add: some_or_def proceed_def require_def return_ok_def look server missing_credentials_def open_provider_token_def
        synced_repositories_def)
qed

theorem refresh_rotates_witness:
  "\<exists>access refresh s'. respond (token_endpoint ex_server ex_refresh) ex_signed_in = (TokenResponse access refresh [] 3600, s') \<and>
     (\<exists>g\<in>set (oauth_grants (st_db s')). og_id g = 1 \<and> hash_secret refresh refresh_token_prefix = Some (og_refresh g))"
proof -
  obtain ls where allowed: "allow ex_server ex_refresh ex_signed_in =
      (Inr (), ex_signed_in\<lparr>st_db := (st_db ex_signed_in)\<lparr>request_limits := ls\<rparr>\<rparr>)"
    using ex_refresh_allow by blast
  obtain a r s' where "refresh_grant ex_server ex_refresh (ex_signed_in\<lparr>st_db := (st_db ex_signed_in)\<lparr>request_limits := ls\<rparr>\<rparr>) =
      (Inr (TokenResponse a r [] 3600), s')"
    using ex_refreshed [of "(st_db ex_signed_in)\<lparr>request_limits := ls\<rparr>"] by (auto simp: ex_signed_in_def ex_auth_db_def)
  moreover have "has_prefix (rq_content_type ex_refresh) ''application/x-www-form-urlencoded''" "rq_form ex_refresh \<noteq> None"
      "rq_authorization ex_refresh = []"
    by (simp_all add: ex_refresh_def ex_exchange_def has_prefix_def)
  ultimately have run: "respond (token_endpoint ex_server ex_refresh) ex_signed_in = (TokenResponse a r [] 3600, s')"
    unfolding respond_def token_endpoint_def proceed_def require_def allowed by (simp add: ex_refresh_form(1))
  have grants: "oauth_grants (st_db ex_signed_in) = [ex_live]" "og_id ex_live = 1"
    by (simp_all add: ex_signed_in_def ex_live_def ex_grant_def)
  then have "0 \<notin> og_id ` set (oauth_grants (st_db ex_signed_in))" by simp
  from refresh_rotates [OF run ex_refresh_form(1) this] run grants show ?thesis
    by (auto simp: ex_refresh_form)
qed

end
