(* ===== verification/Login_Store.thy ===== *)
theory Login_Store
  imports Oauth_Store
begin

text \<open>
  Signing in, on the store's side: the password credentials of local administrators and the
  throttling of attempts (\<open>internal/postgres/security.go\<close>), the users that identity providers bind and
  their login flows (\<open>internal/postgres/auth.go\<close>).  Case folding is an argument: \<open>lower\<close> is the
  function of that name of the database.
\<close>

definition zero_time :: time where \<comment> \<open>the zero value of \<open>time.Time\<close>\<close>
  "zero_time = - 62135596800 * 1000000"

subsection \<open>Password credentials\<close>

definition valid_credential :: "password_credential \<Rightarrow> bool" where
  "valid_credential c \<longleftrightarrow>
     \<not> (length (pc_salt c) \<noteq> 16 \<or> length (pc_hash c) \<noteq> 32 \<or> pc_memory c < 65536 \<or> pc_memory c > 262144 \<or>
        pc_iterations c < 1 \<or> pc_iterations c > 10 \<or> pc_parallelism c < 1 \<or> pc_parallelism c > 8)"

definition local_administrator :: "auth_db \<Rightarrow> user_row \<Rightarrow> bool" where
  "local_administrator db x \<longleftrightarrow> us_source x = ''local'' \<and> may_sign_in x \<and> us_id x \<in> set (user_roles db)"

definition require_local_administrator :: "int \<Rightarrow> unit auth_call" where
  "require_local_administrator u db =
     (case find_user db u of
        None \<Rightarrow> (Inl InvalidPrincipal, db)
      | Some x \<Rightarrow> if local_administrator db x then (Inr (), db) else (Inl InvalidPrincipal, db))"

definition put_password :: "int \<Rightarrow> password_credential \<Rightarrow> unit auth_call" where
  "put_password u c db =
     (Inr (), db\<lparr>passwords := (if u \<in> fst ` set (passwords db)
        then map (\<lambda>(v, d). if v = u then (v, c) else (v, d)) (passwords db)
        else passwords db @ [(u, c)])\<rparr>)"

definition set_password_credential :: "time \<Rightarrow> int \<Rightarrow> password_credential \<Rightarrow> audit_event \<Rightarrow> unit auth_call" where
  "set_password_credential clock u c e =
     require (valid_credential c) InvalidCredential
    (require (valid_event e) InvalidEvent
    (transaction
      (proceed (require_local_administrator u) (\<lambda>_.
       proceed (put_password u c) (\<lambda>_.
       proceed (revoke_admin_credentials clock u) (\<lambda>_.
       proceed (append_audit clock e) (\<lambda>_. return_ok (Inr ()))))))))"

definition valid_local_session :: "int \<Rightarrow> session_row \<Rightarrow> bool" where
  "valid_local_session u x \<longleftrightarrow>
     se_user x = u \<and> se_provider x = ''local'' \<and> se_created x \<noteq> zero_time \<and> se_seen x = se_created x \<and>
     se_idle x > se_created x \<and> \<not> se_expires x < se_idle x"

definition valid_standard_local_session :: "int \<Rightarrow> session_row \<Rightarrow> bool" where
  "valid_standard_local_session u x \<longleftrightarrow> valid_local_session u x \<and> \<not> se_force x"

definition same_secret :: "password_credential \<Rightarrow> password_credential \<Rightarrow> bool" where
  "same_secret c d \<longleftrightarrow> pc_salt c = pc_salt d \<and> pc_hash c = pc_hash d \<and> pc_memory c = pc_memory d \<and>
     pc_iterations c = pc_iterations d \<and> pc_parallelism c = pc_parallelism d"

definition clear_login_failures :: "hash \<Rightarrow> hash \<Rightarrow> unit auth_call" where
  "clear_login_failures account source db =
     (Inr (), db\<lparr>throttles := filter (\<lambda>r. \<not> (th_key r = account \<or> th_key r = source)) (throttles db)\<rparr>)"

definition login_event :: "string \<Rightarrow> int \<Rightarrow> session_row \<Rightarrow> string \<Rightarrow> string \<Rightarrow> audit_event" where
  "login_event request u x meth op =
     \<lparr>ev_actor_type = ''user'', ev_actor = decimal u, ev_target_type = ''session'', ev_target = se_audit x,
      ev_method = meth, ev_operation = op, ev_outcome = ''success'', ev_request = request, ev_created = None\<rparr>"

definition create_password_session :: "time \<Rightarrow> string \<Rightarrow> int \<Rightarrow> password_credential \<Rightarrow> session_row \<Rightarrow> hash \<Rightarrow> hash \<Rightarrow> unit auth_call" where
  "create_password_session clock request u expected x account source =
     require (\<not> (\<not> valid_credential expected \<or> pc_force expected \<noteq> se_force x \<or> \<not> valid_local_session u x)) InvalidIdentity
    (transaction
      (proceed (require_local_administrator u) (\<lambda>_.
       proceed get_db (\<lambda>db.
       require (list_ex (\<lambda>(v, c). v = u \<and> same_secret c expected \<and> \<not> pc_force c) (passwords db)) Unauthenticated
      (proceed (clear_login_failures account source) (\<lambda>_.
       proceed (create_session x) (\<lambda>_.
       proceed (for_each [''local_login_succeeded'', ''session_created''] (\<lambda>op.
         append_audit clock (login_event request u x ''local'' op))) (\<lambda>_. return_ok (Inr ())))))))))"

definition rotate_password_credential ::
    "time \<Rightarrow> int \<Rightarrow> password_credential \<Rightarrow> password_credential \<Rightarrow> session_row \<Rightarrow> hash \<Rightarrow> hash \<Rightarrow> audit_event \<Rightarrow> unit auth_call" where
  "rotate_password_credential clock u expected replacement x account source e =
     require (\<not> (\<not> valid_credential expected \<or> \<not> valid_credential replacement \<or> \<not> pc_force expected \<or> pc_force replacement))
       InvalidCredential
    (require (valid_standard_local_session u x) InvalidIdentity
    (require (valid_event e) InvalidEvent
    (transaction
      (proceed (require_local_administrator u) (\<lambda>_.
       proceed get_db (\<lambda>db.
       let hit = (\<lambda>(v, c). v = u \<and> same_secret c expected \<and> pc_force c) in
       require (length (filter hit (passwords db)) = 1) Unauthenticated
      (proceed (put_db (db\<lparr>passwords := map (\<lambda>p. if hit p then (u, replacement\<lparr>pc_force := False\<rparr>) else p) (passwords db)\<rparr>)) (\<lambda>_.
       proceed (revoke_admin_credentials clock u) (\<lambda>_.
       proceed (create_session x) (\<lambda>_.
       proceed (clear_login_failures account source) (\<lambda>_.
       proceed (append_audit clock e) (\<lambda>_.
       proceed (append_audit clock (e\<lparr>ev_target_type := ''session'', ev_target := se_audit x, ev_method := ''local'',
           ev_operation := ''session_created'', ev_outcome := ''success'', ev_created := None\<rparr>))
         (\<lambda>_. return_ok (Inr ()))))))))))))))"

subsection \<open>Users\<close>

text \<open>The constraints of the table and its unique index on the folded names of live users.\<close>

definition user_check :: "(string \<Rightarrow> string) \<Rightarrow> user_row list \<Rightarrow> user_row \<Rightarrow> bool" where
  "user_check lower others x \<longleftrightarrow>
     varchar_ok 1024 (us_external x) \<and> us_external x \<notin> us_external ` set others \<and> varchar_ok 320 (us_name x) \<and>
     varchar_ok 256 (us_display x) \<and>
     (us_deleted x \<or> \<not> list_ex (\<lambda>y. \<not> us_deleted y \<and> lower (us_name y) = lower (us_name x)) others)"

definition new_user :: "string \<Rightarrow> string \<Rightarrow> string \<Rightarrow> string \<Rightarrow> auth_db \<Rightarrow> user_row" where
  "new_user external name display source db =
     \<lparr>us_id = next_user db, us_external = external, us_name = name, us_display = display, us_active = True,
      us_suspended = False, us_deleted = False, us_source = source\<rparr>"

definition insert_user :: "(string \<Rightarrow> string) \<Rightarrow> user_row \<Rightarrow> int auth_call" where
  "insert_user lower x db =
     (if user_check lower (users db) x
      then (Inr (us_id x), db\<lparr>users := users db @ [x], next_user := next_user db + 1\<rparr>)
      else (Inl ConstraintViolated, db))"

definition valid_security_user_name :: "string \<Rightarrow> bool" where
  "valid_security_user_name v \<longleftrightarrow> v \<noteq> [] \<and> bounded_text v 320"

definition upsert_break_glass_admin ::
    "(string \<Rightarrow> string) \<Rightarrow> time \<Rightarrow> string \<Rightarrow> password_credential \<Rightarrow> audit_event \<Rightarrow> int auth_call" where
  "upsert_break_glass_admin lower clock name c e =
     require (valid_security_user_name name) InvalidPrincipal
    (require (valid_credential c) InvalidCredential
    (require (valid_event e) InvalidEvent
    (transaction
      (proceed get_db (\<lambda>db.
       proceed (case find (\<lambda>x. lower (us_name x) = lower name \<and> \<not> us_deleted x) (users db) of
           Some x \<Rightarrow> proceed (require_local_administrator (us_id x)) (\<lambda>_. return_ok (us_id x))
         | None \<Rightarrow>
            proceed (insert_user lower (new_user name name [] ''local'' db)) (\<lambda>u.
            proceed get_db (\<lambda>db'. proceed (put_db (db'\<lparr>user_roles := user_roles db' @ [u]\<rparr>)) (\<lambda>_. return_ok u)))) (\<lambda>u.
       proceed (put_password u c) (\<lambda>_.
       proceed (revoke_admin_credentials clock u) (\<lambda>_.
       proceed (append_audit clock e) (\<lambda>_. return_ok (Inr u))))))))))"

definition password_credential_of :: "(string \<Rightarrow> string) \<Rightarrow> string \<Rightarrow> (int \<times> password_credential) auth_call" where
  "password_credential_of lower name db =
     (let named = filter (\<lambda>x. lower (us_name x) = lower name \<and> local_administrator db x) (users db) in
      case find (\<lambda>(v, c). v \<in> us_id ` set named) (passwords db) of
        None \<Rightarrow> (Inl NoRows, db)
      | Some p \<Rightarrow> (Inr p, db))"

subsection \<open>Throttling\<close>

definition login_failure_limit :: nat where "login_failure_limit = 5"
definition login_failure_window :: time where "login_failure_window = 15 * minute"

definition counted :: "time \<Rightarrow> throttle_row \<Rightarrow> throttle_row" where
  "counted now r =
     (if th_window r \<le> now - login_failure_window then r\<lparr>th_failures := 1, th_window := now, th_blocked := None\<rparr>
      else r\<lparr>th_failures := min (th_failures r + 1) (login_failure_limit + 1),
        th_blocked := (if th_failures r + 1 \<ge> login_failure_limit
          then Some (case th_blocked r of None \<Rightarrow> th_window r + login_failure_window | Some t \<Rightarrow> t)
          else th_blocked r)\<rparr>)"

definition attempt_result :: "throttle_row \<Rightarrow> bool \<times> time" where
  "attempt_result r =
     (th_failures r \<le> login_failure_limit,
      case th_blocked r of None \<Rightarrow> th_window r + login_failure_window | Some t \<Rightarrow> t)"

definition consume_login_attempt :: "hash \<Rightarrow> time \<Rightarrow> (bool \<times> time) auth_call" where
  "consume_login_attempt key now db =
     (case find (\<lambda>r. th_key r = key) (throttles db) of
        None \<Rightarrow>
          (let r = \<lparr>th_key = key, th_failures = 1, th_window = now, th_blocked = None\<rparr>
           in (Inr (attempt_result r), db\<lparr>throttles := throttles db @ [r]\<rparr>))
      | Some r \<Rightarrow>
          (Inr (attempt_result (counted now r)),
           db\<lparr>throttles := map (\<lambda>x. if th_key x = key then counted now x else x) (throttles db)\<rparr>))"

definition audit_events :: "int \<Rightarrow> (audit_event list \<times> bool) auth_call" where
  "audit_events limit db =
     (if limit < 1 \<or> limit > 100 then (Inl InvalidAuditLimit, db)
      else
        let newest = rev (sort_key (\<lambda>e. case ev_created e of None \<Rightarrow> zero_time | Some t \<Rightarrow> t) (audit_log db));
            rows = take (nat limit + 1) newest
        in (Inr (take (nat limit) rows, length rows > nat limit), db))"

subsection \<open>Federated users\<close>

record federated_identity =
  id_provider :: string
  id_issuer :: string
  id_subject :: string
  id_link :: string
  id_display :: string
  id_login :: string
  id_sync :: "int list option" \<comment> \<open>\<open>AccessSync\<close>\<close>

definition identity_of :: "string \<Rightarrow> string \<Rightarrow> auth_db \<Rightarrow> int option" where
  "identity_of issuer subject db =
     (case find (\<lambda>(u, i, s). i = issuer \<and> s = subject) (identities db) of
        None \<Rightarrow> None
      | Some (u, _, _) \<Rightarrow>
         (case find_user db u of
            None \<Rightarrow> None
          | Some x \<Rightarrow> if us_source x = ''scim'' \<and> may_sign_in x then Some u else None))"

definition identity_check :: "auth_db \<Rightarrow> int \<times> string \<times> string \<Rightarrow> bool" where
  "identity_check db = (\<lambda>(u, issuer, subject).
     varchar_ok 2048 issuer \<and> varchar_ok 1024 subject \<and>
     \<not> list_ex (\<lambda>(v, i, _). v = u \<and> i = issuer) (identities db))"

definition bind_federated_user_tx :: "string \<Rightarrow> string \<Rightarrow> string \<Rightarrow> int auth_call" where
  "bind_federated_user_tx issuer subject external db =
     (case identity_of issuer subject db of
        Some u \<Rightarrow> (Inr u, db)
      | None \<Rightarrow>
         (case find (\<lambda>x. us_external x = external \<and> us_source x = ''scim'' \<and> may_sign_in x) (users db) of
            None \<Rightarrow> (Inl NoRows, db)
          | Some x \<Rightarrow>
             if list_ex (\<lambda>(_, i, s). i = issuer \<and> s = subject) (identities db) then
               (case identity_of issuer subject db of None \<Rightarrow> (Inl NoRows, db) | Some u \<Rightarrow> (Inr u, db))
             else if identity_check db (us_id x, issuer, subject) then
               (Inr (us_id x), db\<lparr>identities := identities db @ [(us_id x, issuer, subject)]\<rparr>)
             else (Inl ConstraintViolated, db)))"

definition bind_federated_user :: "string \<Rightarrow> string \<Rightarrow> string \<Rightarrow> int auth_call" where
  "bind_federated_user issuer subject external =
     transaction (proceed (bind_federated_user_tx issuer subject external) (\<lambda>u. return_ok (Inr u)))"

text \<open>The name of a provider's user: the login, with the subject behind it where another live user has it.\<close>

definition provider_user_name :: "(string \<Rightarrow> string) \<Rightarrow> user_row list \<Rightarrow> federated_identity \<Rightarrow> string" where
  "provider_user_name lower others i =
     (if list_ex (\<lambda>y. lower (us_name y) = lower (id_login i) \<and> \<not> us_deleted y) others
      then id_login i @ ''-'' @ id_subject i else id_login i)"

definition provider_user :: "federated_identity \<Rightarrow> user_row \<Rightarrow> bool" where
  "provider_user i x \<longleftrightarrow> us_external x = id_link i \<and> us_source x = ''github'' \<and> \<not> us_deleted x"

definition bind_provider_user :: "(string \<Rightarrow> string) \<Rightarrow> federated_identity \<Rightarrow> int list \<Rightarrow> int auth_call" where
  "bind_provider_user lower i ids =
     proceed get_db (\<lambda>db.
     proceed
      (case find (provider_user i) (users db) of
         None \<Rightarrow>
           proceed (insert_user lower (new_user (id_link i) (provider_user_name lower (users db) i) (id_display i) ''github'' db)) (\<lambda>u.
           require (identity_check db (u, id_issuer i, id_subject i) \<and>
               \<not> list_ex (\<lambda>(_, j, s). j = id_issuer i \<and> s = id_subject i) (identities db)) ConstraintViolated
             (proceed get_db (\<lambda>db'.
              proceed (put_db (db'\<lparr>identities := identities db' @ [(u, id_issuer i, id_subject i)]\<rparr>)) (\<lambda>_. return_ok u))))
       | Some x \<Rightarrow>
           let others = filter (\<lambda>y. us_id y \<noteq> us_id x) (users db);
               x' = x\<lparr>us_display := id_display i, us_name := provider_user_name lower others i\<rparr>
           in require (user_check lower others x') ConstraintViolated
             (proceed (put_db (db\<lparr>users := map (\<lambda>y. if us_id y = us_id x then x' else y) (users db)\<rparr>)) (\<lambda>_.
              require (us_active x' \<and> \<not> us_suspended x') NoRows (return_ok (us_id x))))) (\<lambda>u.
     proceed (replace_github_grants_tx u ids) (\<lambda>_. return_ok u)))"

definition create_federated_session_audited ::
    "(string \<Rightarrow> string) \<Rightarrow> time \<Rightarrow> string \<Rightarrow> federated_identity \<Rightarrow> session_row \<Rightarrow> string \<Rightarrow> unit auth_call" where
  "create_federated_session_audited lower clock request i x login_op =
     transaction
      (proceed (case id_sync i of
           Some ids \<Rightarrow> bind_provider_user lower i ids
         | None \<Rightarrow> bind_federated_user_tx (id_issuer i) (id_subject i) (id_link i)) (\<lambda>u.
       proceed (create_session (x\<lparr>se_user := u\<rparr>)) (\<lambda>_.
       proceed (for_each [login_op, ''session_created''] (\<lambda>op.
         append_audit clock (login_event request u x (id_provider i) op))) (\<lambda>_. return_ok (Inr ())))))"

subsection \<open>Login flows\<close>

definition resume_target :: "string \<Rightarrow> bool" where
  "resume_target s \<longleftrightarrow> s = ''/'' \<or> s = ''/oauth/authorize/resume'' \<or>
     (let p = ''/oauth/authorize/resume?request_id='' in
      has_prefix s p \<and> length s = length p + 64 \<and> list_all (\<lambda>c. c \<in> set ''0123456789abcdef'') (drop (length p) s))"

definition flow_check :: "auth_db \<Rightarrow> flow_row \<Rightarrow> bool" where
  "flow_check db f \<longleftrightarrow>
     lf_state f \<notin> lf_state ` set (login_flows db) \<and> lf_provider f \<in> {''oidc'', ''github''} \<and>
     lf_nonce f \<noteq> [] \<and> varchar_ok 1024 (lf_nonce f) \<and> lf_verifier f \<noteq> [] \<and> varchar_ok 128 (lf_verifier f) \<and>
     resume_target (lf_return f) \<and> lf_expires f > lf_created f"

definition create_login_flow :: "flow_row \<Rightarrow> unit auth_call" where
  "create_login_flow f db =
     (if flow_check db f then (Inr (), db\<lparr>login_flows := login_flows db @ [f]\<rparr>) else (Inl ConstraintViolated, db))"

definition flow_matches :: "hash \<Rightarrow> hash \<Rightarrow> string \<Rightarrow> time \<Rightarrow> flow_row \<Rightarrow> bool" where
  "flow_matches state browser provider now f \<longleftrightarrow>
     lf_state f = state \<and> lf_browser f = browser \<and> lf_provider f = provider \<and> lf_expires f > now"

definition consume_login_flow :: "hash \<Rightarrow> hash \<Rightarrow> string \<Rightarrow> time \<Rightarrow> flow_row auth_call" where
  "consume_login_flow state browser provider now db =
     (case find (flow_matches state browser provider now) (login_flows db) of
        None \<Rightarrow> (Inl NoRows, db)
      | Some f \<Rightarrow> (Inr f, db\<lparr>login_flows := filter (\<lambda>g. \<not> flow_matches state browser provider now g) (login_flows db)\<rparr>))"

definition delete_expired_auth :: "time \<Rightarrow> (nat \<times> nat) auth_call" where
  "delete_expired_auth now =
     transaction (proceed get_db (\<lambda>db.
       let dead = (\<lambda>f. lf_expires f \<le> now) in
       proceed (put_db (db\<lparr>login_flows := filter (\<lambda>f. \<not> dead f) (login_flows db)\<rparr>)) (\<lambda>_.
       proceed (delete_expired_sessions now) (\<lambda>n.
         return_ok (Inr (length (filter dead (login_flows db)), n))))))"

end
