(* ===== verification/Login_Auth.thy ===== *)
theory Login_Auth
  imports Login_Store
begin

text \<open>
  The package \<open>internal/authn\<close>: sessions, API tokens and passwords are made (\<open>session.go\<close>, \<open>token.go\<close>,
  \<open>password.go\<close>, \<open>local.go\<close>), and a request is given a principal (\<open>oauth_token.go\<close>, \<open>static.go\<close>,
  \<open>request.go\<close>, \<open>provisioning.go\<close>).  The managers work on the store of this development.  Argon2id, the
  case folding of \<open>strings.ToLower\<close> and the parsing of addresses are fields of \<open>login_library\<close>.
\<close>

record login_library =
  id_key :: "bytes \<Rightarrow> bytes \<Rightarrow> nat \<Rightarrow> nat \<Rightarrow> nat \<Rightarrow> nat \<Rightarrow> bytes" \<comment> \<open>password, salt, time, memory, threads, length\<close>
  fold_name :: "string \<Rightarrow> string"
  db_lower :: "string \<Rightarrow> string"
  split_host_port :: "string \<Rightarrow> string option" \<comment> \<open>the host\<close>
  canonical_address :: "string \<Rightarrow> string option" \<comment> \<open>\<open>netip.ParseAddr\<close>, unmapped\<close>

subsection \<open>Identities\<close>

definition is_interactive_method :: "string \<Rightarrow> bool" where
  "is_interactive_method m \<longleftrightarrow> m = ''oidc'' \<or> m = ''oauth'' \<or> m = ''local''"

definition valid_identity_field :: "string \<Rightarrow> bool" where
  "valid_identity_field v \<longleftrightarrow> v \<noteq> [] \<and> bounded_text v 2048"

definition valid_identity_display_name :: "string \<Rightarrow> bool" where
  "valid_identity_display_name v \<longleftrightarrow> bounded_text v 256"

definition valid_identity :: "federated_identity \<Rightarrow> bool" where
  "valid_identity i \<longleftrightarrow>
     valid_identity_field (id_provider i) \<and> valid_identity_field (id_issuer i) \<and> valid_identity_field (id_subject i) \<and>
     valid_identity_field (id_link i) \<and> valid_identity_display_name (id_display i) \<and>
     (id_sync i = None \<or> valid_identity_field (id_login i))"

subsection \<open>Sessions\<close>

record session_manager =
  sm_idle :: time
  sm_ttl :: time

record prepared_session =
  ps_token :: string
  ps_expires :: time
  ps_row :: session_row

definition prepare_for_user ::
    "session_manager \<Rightarrow> int \<Rightarrow> string \<Rightarrow> bool \<Rightarrow> bytes option \<Rightarrow> bytes option \<Rightarrow> time \<Rightarrow> auth_error + prepared_session" where
  "prepare_for_user m u provider force random audit_random now =
     (if sm_idle m \<le> 0 \<or> sm_ttl m < sm_idle m \<or> u \<le> 0 \<or> \<not> is_interactive_method provider then Inl InvalidIdentity
      else case read_full 32 random of
        None \<Rightarrow> Inl RandomFailed
      | Some raw \<Rightarrow>
         (case read_full 16 audit_random of
            None \<Rightarrow> Inl RandomFailed
          | Some araw \<Rightarrow>
             Inr \<lparr>ps_token = b64_encode raw, ps_expires = now + sm_ttl m,
                  ps_row = \<lparr>se_hash = sha256 raw, se_audit = hex_encode araw, se_user = u, se_provider = provider,
                    se_force = force, se_created = now, se_seen = now, se_idle = now + sm_idle m, se_expires = now + sm_ttl m,
                    se_revoked = None\<rparr>\<rparr>))"

definition of_result :: "auth_error + 'a \<Rightarrow> 'a auth_call" where
  "of_result r = (case r of Inl e \<Rightarrow> return_error e | Inr x \<Rightarrow> return_ok x)"

definition create_for_user :: "session_manager \<Rightarrow> time \<Rightarrow> string \<Rightarrow> int \<Rightarrow> string \<Rightarrow> bool \<Rightarrow> bytes option \<Rightarrow> bytes option \<Rightarrow> time \<Rightarrow>
    (string \<times> time) auth_call" where
  "create_for_user m clock request u provider force random audit_random now =
     proceed (of_result (prepare_for_user m u provider force random audit_random now)) (\<lambda>p.
     proceed (create_session_audited clock (ps_row p) (login_event request u (ps_row p) provider ''session_created''))
       (\<lambda>_. return_ok (ps_token p, ps_expires p)))"

definition create_federated :: "login_library \<Rightarrow> session_manager \<Rightarrow> time \<Rightarrow> string \<Rightarrow> federated_identity \<Rightarrow> string \<Rightarrow> bytes option \<Rightarrow> bytes option \<Rightarrow> time \<Rightarrow>
    (string \<times> time) auth_call" where
  "create_federated lib m clock request i login_op random audit_random now =
     require (\<not> (sm_idle m \<le> 0 \<or> sm_ttl m < sm_idle m \<or> \<not> valid_identity i \<or>
         id_provider i \<noteq> ''oidc'' \<and> id_provider i \<noteq> ''oauth'' \<or>
         id_provider i = ''oidc'' \<and> login_op \<noteq> ''oidc_login_succeeded'' \<or>
         id_provider i = ''oauth'' \<and> login_op \<noteq> ''oauth_login_succeeded'')) InvalidIdentity
    (proceed (of_result (prepare_for_user m 1 (id_provider i) False random audit_random now)) (\<lambda>p.
     proceed (create_federated_session_audited (db_lower lib) clock request i ((ps_row p)\<lparr>se_user := 0\<rparr>) login_op)
       (\<lambda>_. return_ok (ps_token p, ps_expires p))))"

definition rejected_logout :: "string \<Rightarrow> audit_event" where
  "rejected_logout request =
     \<lparr>ev_actor_type = ''anonymous'', ev_actor = [], ev_target_type = ''session'', ev_target = [], ev_method = [],
      ev_operation = ''logout'', ev_outcome = ''invalid'', ev_request = request, ev_created = None\<rparr>"

definition revoke_session_token :: "time \<Rightarrow> string \<Rightarrow> string \<Rightarrow> unit auth_call" where
  "revoke_session_token clock request token =
     (let reject = ignore_error (append_audit clock (rejected_logout request)) (return_error Unauthenticated) in
      case b64_decode token of
        None \<Rightarrow> reject
      | Some raw \<Rightarrow> if length raw \<noteq> 32 then reject else revoke_session_audited clock request (sha256 raw))"

subsection \<open>API tokens\<close>

definition create_token :: "time \<Rightarrow> string \<Rightarrow> int \<Rightarrow> string \<Rightarrow> int list \<Rightarrow> bool \<Rightarrow> bool \<Rightarrow> time option \<Rightarrow> bytes option \<Rightarrow> time \<Rightarrow>
    (int \<times> string) auth_call" where
  "create_token clock request u meth ids delegation_only delegated expires random now =
     require (\<not> u \<le> 0) Unauthenticated
    (proceed (of_result (case read_full 32 random of None \<Rightarrow> Inl RandomFailed | Some raw \<Rightarrow> Inr raw)) (\<lambda>raw.
     let plaintext = ''gnp_'' @ b64_encode raw;
         row = \<lparr>tk_id = 0, tk_hash = sha256 plaintext, tk_prefix = take 12 plaintext, tk_user = u,
           tk_ceiling = (if ids = [] then None else Some ids), tk_delegation_only = delegation_only, tk_delegated = delegated,
           tk_created = now, tk_used = None, tk_expires = expires, tk_revoked = None\<rparr>;
         event = \<lparr>ev_actor_type = ''user'', ev_actor = decimal u, ev_target_type = ''api_token'', ev_target = [],
           ev_method = meth, ev_operation = ''api_token_created'', ev_outcome = ''success'', ev_request = request, ev_created = None\<rparr>
     in proceed (create_api_token_audited clock row event) (\<lambda>i. return_ok (i, plaintext))))"

definition create_with_method :: "time \<Rightarrow> string \<Rightarrow> int \<Rightarrow> string \<Rightarrow> int list \<Rightarrow> time option \<Rightarrow> bytes option \<Rightarrow> time \<Rightarrow> (int \<times> string) auth_call" where
  "create_with_method clock request u meth ids = create_token clock request u meth ids False False"

definition create_delegation_only :: "time \<Rightarrow> string \<Rightarrow> int \<Rightarrow> string \<Rightarrow> time option \<Rightarrow> bytes option \<Rightarrow> time \<Rightarrow> (int \<times> string) auth_call" where
  "create_delegation_only clock request u meth = create_token clock request u meth [] True False"

definition create_delegated :: "time \<Rightarrow> string \<Rightarrow> int \<Rightarrow> string \<Rightarrow> int list \<Rightarrow> time option \<Rightarrow> bytes option \<Rightarrow> time \<Rightarrow> (int \<times> string) auth_call" where
  "create_delegated clock request u meth ids = create_token clock request u meth ids False True"

subsection \<open>Passwords\<close>

definition max_password_bytes :: nat where "max_password_bytes = 2 ^ 20"

definition hash_password :: "login_library \<Rightarrow> bytes \<Rightarrow> bytes option \<Rightarrow> auth_error + password_credential" where
  "hash_password lib password random =
     (if length password > max_password_bytes then Inl InvalidCredential
      else case read_full 16 random of
        None \<Rightarrow> Inl RandomFailed
      | Some salt \<Rightarrow>
         let c = \<lparr>pc_salt = salt, pc_hash = id_key lib password salt 3 (64 * 1024) 2 32, pc_memory = 64 * 1024,
                  pc_iterations = 3, pc_parallelism = 2, pc_force = False\<rparr>
         in if valid_credential c then Inr c else Inl InvalidCredential)"

definition verify_password :: "login_library \<Rightarrow> bytes \<Rightarrow> password_credential \<Rightarrow> bool" where
  "verify_password lib password c \<longleftrightarrow>
     \<not> (length password > max_password_bytes \<or> \<not> valid_credential c) \<and>
     id_key lib password (pc_salt c) (pc_iterations c) (pc_memory c) (pc_parallelism c) (length (pc_hash c)) = pc_hash c"

subsection \<open>Local sign-in\<close>

definition canonical_remote_address :: "login_library \<Rightarrow> string \<Rightarrow> string" where
  "canonical_remote_address lib remote =
     (let host = (case split_host_port lib remote of None \<Rightarrow> remote | Some h \<Rightarrow> h)
      in case canonical_address lib host of None \<Rightarrow> host | Some a \<Rightarrow> a)"

definition account_key :: "string \<Rightarrow> hash" where
  "account_key name = sha256 (''local-account'' @ [CHR 0x00] @ name)"

definition source_key :: "string \<Rightarrow> hash" where
  "source_key remote = sha256 (''local-source'' @ [CHR 0x00] @ remote)"

record local_verification =
  lv_user :: int
  lv_credential :: password_credential
  lv_account :: hash
  lv_source :: hash

definition login_denied :: "string \<Rightarrow> string \<Rightarrow> audit_event" where
  "login_denied request result =
     \<lparr>ev_actor_type = ''anonymous'', ev_actor = [], ev_target_type = ''authentication'', ev_target = [], ev_method = ''local'',
      ev_operation = ''local_login_denied'', ev_outcome = result, ev_request = request, ev_created = None\<rparr>"

text \<open>A refused sign-in is recorded; the error of the recorder is dropped.\<close>

definition deny :: "time \<Rightarrow> string \<Rightarrow> string \<Rightarrow> auth_error \<Rightarrow> 'a auth_call" where
  "deny clock request result e = ignore_error (append_audit clock (login_denied request result)) (return_error e)"

definition verify_local :: "login_library \<Rightarrow> password_credential \<Rightarrow> time \<Rightarrow> string \<Rightarrow> string \<Rightarrow> bytes \<Rightarrow> string \<Rightarrow> time \<Rightarrow>
    local_verification auth_call" where
  "verify_local lib dummy clock request name password remote now =
     (let account = account_key (fold_name lib name); source = source_key (canonical_remote_address lib remote) in
      attempt_call (consume_login_attempt account now) (\<lambda>ra.
      attempt_call (consume_login_attempt source now) (\<lambda>rs.
      case (ra, rs) of
        (Inr (account_allowed, _), Inr (source_allowed, _)) \<Rightarrow>
          if \<not> account_allowed \<or> \<not> source_allowed then deny clock request ''denied'' (LoginThrottled (15 * minute))
          else attempt_call (password_credential_of (db_lower lib) (fold_name lib name)) (\<lambda>found.
            let eligible = (case found of Inl _ \<Rightarrow> False | Inr (_, c) \<Rightarrow> valid_credential c);
                c = (case found of Inl _ \<Rightarrow> dummy | Inr (_, c) \<Rightarrow> if eligible then c else dummy)
            in case found of
                 Inl _ \<Rightarrow> deny clock request ''denied'' Unauthenticated
               | Inr (u, _) \<Rightarrow>
                  if \<not> eligible \<or> \<not> verify_password lib password c then deny clock request ''denied'' Unauthenticated
                  else return_ok \<lparr>lv_user = u, lv_credential = c, lv_account = account, lv_source = source\<rparr>)
      | _ \<Rightarrow> deny clock request ''error'' Unauthenticated)))"

definition authenticate_local :: "login_library \<Rightarrow> session_manager \<Rightarrow> password_credential \<Rightarrow> time \<Rightarrow> string \<Rightarrow>
    bytes option \<Rightarrow> bytes option \<Rightarrow> string \<Rightarrow> bytes \<Rightarrow> string \<Rightarrow> time \<Rightarrow> (int \<times> string \<times> time) auth_call" where
  "authenticate_local lib m dummy clock request random audit_random name password remote now =
     proceed (verify_local lib dummy clock request name password remote now) (\<lambda>v.
       case prepare_for_user m (lv_user v) ''local'' (pc_force (lv_credential v)) random audit_random now of
         Inl _ \<Rightarrow> return_error Unauthenticated
       | Inr p \<Rightarrow>
          attempt_call (create_password_session clock request (lv_user v) (lv_credential v) (ps_row p) (lv_account v) (lv_source v))
            (\<lambda>r. case r of Inl _ \<Rightarrow> return_error Unauthenticated | Inr _ \<Rightarrow> return_ok (lv_user v, ps_token p, ps_expires p)))"

definition complete_prepared :: "local_verification \<Rightarrow> prepared_session \<Rightarrow> auth_error + int \<times> string \<times> time" where
  "complete_prepared v p =
     (if se_user (ps_row p) \<noteq> lv_user v \<or> se_provider (ps_row p) \<noteq> ''local'' \<or> se_force (ps_row p) then Inl Unauthenticated
      else Inr (lv_user v, ps_token p, ps_expires p))"

definition complete_login :: "local_verification \<Rightarrow> prepared_session \<Rightarrow> auth_error + int \<times> string \<times> time" where
  "complete_login v p = (if pc_force (lv_credential v) then Inl Unauthenticated else complete_prepared v p)"

definition complete_rotation :: "local_verification \<Rightarrow> prepared_session \<Rightarrow> auth_error + int \<times> string \<times> time" where
  "complete_rotation v p = (if \<not> pc_force (lv_credential v) then Inl Unauthenticated else complete_prepared v p)"

subsection \<open>The handlers of \<open>/auth/local\<close> and \<open>/auth/local/rotate\<close>\<close>

text \<open>
  \<open>internal/httpapi/local_auth.go\<close>: a decoded request that has passed the boundary (method, query,
  origin and content type).  A request with a new password is one to \<open>/auth/local/rotate\<close>.  The answer
  is the session cookie, or the status of the refusal.
\<close>

record local_request =
  lr_name :: string
  lr_password :: bytes
  lr_new :: "bytes option"
  lr_remote :: string
  lr_now :: time
  lr_clock :: time
  lr_id :: string
  lr_random :: "bytes option"
  lr_audit_random :: "bytes option"
  lr_hash_random :: "bytes option"

datatype local_answer = SignedIn string time | Refused nat

definition write_local_authentication_error :: "auth_error \<Rightarrow> local_answer" where
  "write_local_authentication_error e = (case e of LoginThrottled _ \<Rightarrow> Refused 429 | _ \<Rightarrow> Refused 401)"

definition verify_request :: "login_library \<Rightarrow> password_credential \<Rightarrow> local_request \<Rightarrow>
    (local_verification \<Rightarrow> auth_db \<Rightarrow> local_answer \<times> auth_db) \<Rightarrow> auth_db \<Rightarrow> local_answer \<times> auth_db" where
  "verify_request lib dummy q k db =
     (case verify_local lib dummy (lr_clock q) (lr_id q) (lr_name q) (lr_password q) (lr_remote q) (lr_now q) db of
        (Inl e, db1) \<Rightarrow> (write_local_authentication_error e, db1)
      | (Inr v, db1) \<Rightarrow> k v db1)"

definition login_handler :: "login_library \<Rightarrow> session_manager \<Rightarrow> password_credential \<Rightarrow> local_request \<Rightarrow> auth_db \<Rightarrow> local_answer \<times> auth_db" where
  "login_handler lib m dummy q = verify_request lib dummy q (\<lambda>v db1.
     if pc_force (lv_credential v) then (Refused 401, db1)
     else case prepare_for_user m (lv_user v) ''local'' False (lr_random q) (lr_audit_random q) (lr_now q) of
        Inl _ \<Rightarrow> (Refused 401, db1)
      | Inr p \<Rightarrow>
         (case create_password_session (lr_clock q) (lr_id q) (lv_user v) (lv_credential v) (ps_row p) (lv_account v) (lv_source v) db1 of
            (Inl _, db2) \<Rightarrow> (Refused 401, db2)
          | (Inr _, db2) \<Rightarrow>
             (case complete_login v p of
                Inl _ \<Rightarrow> (Refused 401, db2)
              | Inr (_, token, expires) \<Rightarrow> (SignedIn token expires, db2))))"

definition rotation_event :: "string \<Rightarrow> int \<Rightarrow> audit_event" where
  "rotation_event request u =
     \<lparr>ev_actor_type = ''user'', ev_actor = decimal u, ev_target_type = ''user'', ev_target = decimal u, ev_method = ''local'',
      ev_operation = ''password_rotated'', ev_outcome = ''success'', ev_request = request, ev_created = None\<rparr>"

definition rotate_handler :: "login_library \<Rightarrow> session_manager \<Rightarrow> password_credential \<Rightarrow> local_request \<Rightarrow> bytes \<Rightarrow> auth_db \<Rightarrow>
    local_answer \<times> auth_db" where
  "rotate_handler lib m dummy q new db =
     (if length new < 16 \<or> length new > 1024 then (Refused 400, db)
      else verify_request lib dummy q (\<lambda>v db1.
        if \<not> pc_force (lv_credential v) then (Refused 401, db1)
        else case hash_password lib new (lr_hash_random q) of
           Inl _ \<Rightarrow> (Refused 503, db1)
         | Inr c \<Rightarrow>
            (case prepare_for_user m (lv_user v) ''local'' False (lr_random q) (lr_audit_random q) (lr_now q) of
               Inl _ \<Rightarrow> (Refused 503, db1)
             | Inr p \<Rightarrow>
                (case rotate_password_credential (lr_clock q) (lv_user v) (lv_credential v) c (ps_row p) (lv_account v) (lv_source v)
                    (rotation_event (lr_id q) (lv_user v)) db1 of
                   (Inl e, db2) \<Rightarrow> (Refused (if e = Unauthenticated then 401 else 503), db2)
                 | (Inr _, db2) \<Rightarrow>
                    (case complete_rotation v p of
                       Inl _ \<Rightarrow> (Refused 503, db2)
                     | Inr (_, token, expires) \<Rightarrow> (SignedIn token expires, db2))))) db)"

definition local_handler :: "login_library \<Rightarrow> session_manager \<Rightarrow> password_credential \<Rightarrow> local_request \<Rightarrow> auth_db \<Rightarrow> local_answer \<times> auth_db" where
  "local_handler lib m dummy q =
     (case lr_new q of None \<Rightarrow> login_handler lib m dummy q | Some new \<Rightarrow> rotate_handler lib m dummy q new)"

subsection \<open>Principals of requests\<close>

definition authenticate_oauth :: "time \<Rightarrow> string \<Rightarrow> auth_principal auth_call" where
  "authenticate_oauth now token =
     (case oauth_access_token_hash token of
        None \<Rightarrow> return_error Unauthenticated
      | Some h \<Rightarrow>
         attempt_call (oauth_principal h now)
           (\<lambda>r. case r of Inl _ \<Rightarrow> return_error Unauthenticated | Inr p \<Rightarrow> return_ok p))"

type_synonym authenticator = "string \<Rightarrow> auth_principal auth_call"

definition bearer_router :: "authenticator option \<Rightarrow> authenticator option \<Rightarrow> authenticator" where
  "bearer_router api oauth token =
     (case (if is_oauth_access_token token then oauth else api) of
        None \<Rightarrow> return_error Unauthenticated
      | Some a \<Rightarrow> a token)"

text \<open>The configured principals of \<open>static.go\<close>; the last match of the iteration counts.\<close>

definition authenticate_static :: "(string \<times> auth_principal) list \<Rightarrow> authenticator" where
  "authenticate_static principals token =
     (case filter (\<lambda>(configured, _). sha256 configured = sha256 token) principals of
        [] \<Rightarrow> return_error Unauthenticated
      | hits \<Rightarrow> return_ok (snd (last hits)))"

text \<open>\<open>strings.Fields\<close>.\<close>

function fields_of :: "string \<Rightarrow> string \<Rightarrow> string list" where
  "fields_of acc s =
     (case find (\<lambda>w. w \<noteq> [] \<and> has_prefix s w) space_runes of
        Some w \<Rightarrow> (if acc = [] then [] else [rev acc]) @ fields_of [] (drop (length w) s)
      | None \<Rightarrow> (case s of [] \<Rightarrow> (if acc = [] then [] else [rev acc]) | c # s' \<Rightarrow> fields_of (c # acc) s'))"
  by pat_completeness auto
termination
proof (relation "measure (\<lambda>(acc, s). length s)")
  show "(([], drop (length w) s), (acc, s)) \<in> measure (\<lambda>(acc, s). length s)"
    if "find (\<lambda>w. w \<noteq> [] \<and> has_prefix s w) space_runes = Some w" for acc s w
    using that by (cases s; cases w) (auto simp: find_Some_iff has_prefix_def)
qed auto

declare fields_of.simps [simp del]

record api_request =
  ar_method :: string
  ar_authorization :: "string list"
  ar_cookies :: "(string \<times> string) list"
  ar_origin :: string

definition request_session_cookie :: "api_request \<Rightarrow> string \<times> nat" where
  "request_session_cookie rq =
     (let vs = map snd (filter (\<lambda>(n, _). n = ''__Host-graphnest_session'') (ar_cookies rq))
      in (if vs = [] then [] else last vs, length vs))"

definition unsafe_method :: "string \<Rightarrow> bool" where
  "unsafe_method m \<longleftrightarrow> m \<noteq> ''GET'' \<and> m \<noteq> ''HEAD'' \<and> m \<noteq> ''OPTIONS''"

definition refuse_errors :: "'a auth_call \<Rightarrow> 'a auth_call" where
  "refuse_errors m = attempt_call m (\<lambda>r. case r of Inl _ \<Rightarrow> return_error Unauthenticated | Inr x \<Rightarrow> return_ok x)"

definition authenticate_request :: "authenticator option \<Rightarrow> authenticator option \<Rightarrow> string \<Rightarrow> api_request \<Rightarrow> auth_principal auth_call" where
  "authenticate_request bearer session origin rq =
     (let authorization = ar_authorization rq; (cookie, count) = request_session_cookie rq in
      if authorization \<noteq> [] \<and> count > 0 then return_error Unauthenticated
      else if authorization \<noteq> [] then
        (case (authorization, bearer) of
           ([a], Some b) \<Rightarrow>
             (case fields_of [] a of
                [scheme, token] \<Rightarrow>
                  if \<not> equal_fold scheme ''Bearer'' then return_error Unauthenticated else refuse_errors (b token)
              | _ \<Rightarrow> return_error Unauthenticated)
         | _ \<Rightarrow> return_error Unauthenticated)
      else
        (case session of
           None \<Rightarrow> return_error Unauthenticated
         | Some s \<Rightarrow>
            if count \<noteq> 1 \<or> unsafe_method (ar_method rq) \<and> (origin = [] \<or> ar_origin rq \<noteq> origin)
            then return_error Unauthenticated else refuse_errors (s cookie)))"

definition has_scope :: "auth_principal \<Rightarrow> string \<Rightarrow> bool" where
  "has_scope p scope \<longleftrightarrow> scope \<in> set (fields_of [] (pr_scope p))"

definition provisioning_secret :: "bytes \<Rightarrow> hash option" where
  "provisioning_secret secret = (if length secret < 32 then None else Some (sha256 secret))"

definition authenticate_provisioning :: "hash \<Rightarrow> string list \<Rightarrow> bool" where
  "authenticate_provisioning expected headers \<longleftrightarrow>
     (case headers of
        [v] \<Rightarrow>
          has_prefix v ''Bearer '' \<and>
          (let token = drop (length ''Bearer '') v
           in token \<noteq> [] \<and> list_all (\<lambda>c. c \<notin> {CHR '' '', CHR 0x09, CHR 0x0D, CHR 0x0A, CHR '',''}) token \<and> sha256 token = expected)
      | _ \<Rightarrow> False)"

end
