(* ===== verification/Login_Claims.thy ===== *)
theory Login_Claims
  imports Login_Auth Oauth_Claims
begin

text \<open>
  Properties of signing in and of authenticated requests: how many passwords can be tried, what a
  session of a local account means, and what the principal of a request may do.
\<close>

subsection \<open>Throttling\<close>

definition throttle_of :: "hash \<Rightarrow> auth_db \<Rightarrow> throttle_row option" where
  "throttle_of k db = find (\<lambda>r. th_key r = k) (throttles db)"

text \<open>
  The attempts that are left for a key in the time from \<open>a\<close>, for as long as one window lasts: those of
  a window that has begun before, and those of the next.
\<close>

definition guesses_left :: "time \<Rightarrow> throttle_row option \<Rightarrow> nat" where
  "guesses_left a row =
     (case row of
        None \<Rightarrow> login_failure_limit
      | Some r \<Rightarrow> (login_failure_limit - th_failures r) + (if th_window r < a then login_failure_limit else 0))"

lemma find_kept:
  "find (\<lambda>r. th_key r = k) (filter (\<lambda>r. th_key r \<noteq> x \<and> th_key r \<noteq> y) rs) =
     (if k = x \<or> k = y then None else find (\<lambda>r. th_key r = k) rs)"
  by (induction rs) auto

lemma counted_key [simp]: "th_key (counted now r) = th_key r"
  by (simp add: counted_def)

lemma find_keyed_map:
  "find (\<lambda>r. th_key r = k) (map (\<lambda>x. if th_key x = j then counted now x else x) rs) =
     (if j = k then map_option (counted now) (find (\<lambda>r. th_key r = k) rs) else find (\<lambda>r. th_key r = k) rs)"
  by (induction rs) auto

text \<open>The row of a key after an attempt.\<close>

definition first_failure :: "hash \<Rightarrow> time \<Rightarrow> throttle_row" where
  "first_failure k now = \<lparr>th_key = k, th_failures = 1, th_window = now, th_blocked = None\<rparr>"

definition next_row :: "hash \<Rightarrow> time \<Rightarrow> throttle_row option \<Rightarrow> throttle_row" where
  "next_row k now row = (case row of None \<Rightarrow> first_failure k now | Some x \<Rightarrow> counted now x)"

lemma consume_throttle:
  assumes "consume_login_attempt j now db = (r, db')"
  shows "\<exists>ths. db' = db\<lparr>throttles := ths\<rparr>"
    and "throttle_of k db' = (if j \<noteq> k then throttle_of k db
      else Some (next_row k now (throttle_of k db)))"
    and "\<exists>x t. throttle_of j db' = Some x \<and> r = Inr (th_failures x \<le> login_failure_limit, t)"
proof -
  show "\<exists>ths. db' = db\<lparr>throttles := ths\<rparr>"
    using assms by (auto simp: consume_login_attempt_def Let_def split: option.splits)
  show row: "throttle_of k db' = (if j \<noteq> k then throttle_of k db
      else Some (next_row k now (throttle_of k db)))" for k
    using assms by (auto simp: consume_login_attempt_def throttle_of_def next_row_def first_failure_def Let_def find_keyed_map find_in_append
        split: option.splits)
  show "\<exists>x t. throttle_of j db' = Some x \<and> r = Inr (th_failures x \<le> login_failure_limit, t)"
    using assms row [of j] by (auto simp: consume_login_attempt_def throttle_of_def attempt_result_def next_row_def first_failure_def Let_def split: option.splits)
qed

lemma guesses_left_step:
  assumes "a \<le> now" "now < a + login_failure_window"
  shows "guesses_left a (Some (next_row k now row)) \<le> guesses_left a row"
    and "th_failures (next_row k now row) \<le> login_failure_limit \<Longrightarrow> guesses_left a (Some (next_row k now row)) < guesses_left a row"
  using assms by (auto simp: guesses_left_def next_row_def first_failure_def counted_def login_failure_limit_def split: option.splits if_splits)

text \<open>A refused sign-in changes the audit log only; a session is made in one transaction.\<close>

lemma deny_cases:
  assumes "deny clock request result e db = (r, db')"
  shows "r = Inl e \<and> (\<exists>log. db' = db\<lparr>audit_log := log\<rparr>)"
  using assms
  by (auto simp: deny_def ignore_error_def return_error_def append_audit_def split: option.splits
      intro: exI [of _ "audit_log db"])

lemma for_each_audit:
  assumes "for_each ops (\<lambda>op. append_audit clock (f op)) db = (Inr u, db')"
  shows "\<exists>log. db' = db\<lparr>audit_log := log\<rparr>"
  using assms
proof (induction ops arbitrary: db)
  case Nil
  then show ?case by (auto intro: exI [of _ "audit_log db"])
next
  case (Cons op ops)
  then obtain db1 where "append_audit clock (f op) db = (Inr (), db1)"
      "for_each ops (\<lambda>op. append_audit clock (f op)) db1 = (Inr u, db')"
    by (auto simp: proceed_Inr)
  with Cons.IH [of db1] show ?case by (auto simp: append_audit_Inr)
qed

lemma create_session_Inr:
  assumes "create_session x db = (Inr u, db')" "se_audit x \<noteq> []"
  shows "db' = db\<lparr>sessions := sessions db @ [x\<lparr>se_revoked := None\<rparr>]\<rparr>" "se_hash x \<notin> se_hash ` set (sessions db)"
  using assms by (auto simp: create_session_def insert_session_def session_check_def split: if_splits)

lemma password_session_cases:
  assumes "create_password_session clock request u c x account source db = (r, db')" "se_audit x \<noteq> []"
  obtains (failed) e where "r = Inl e" "db' = db"
  | (made) log y where "r = Inr ()" "db' = db\<lparr>sessions := sessions db @ [x\<lparr>se_revoked := None\<rparr>],
        throttles := filter (\<lambda>r. \<not> (th_key r = account \<or> th_key r = source)) (throttles db), audit_log := log\<rparr>"
      "find_user db u = Some y" "local_administrator db y" "se_user x = u" "pc_force c = se_force x"
      "se_hash x \<notin> se_hash ` set (sessions db)"
      "list_ex (\<lambda>(v, d). v = u \<and> same_secret d c \<and> \<not> pc_force d) (passwords db)"
proof (cases "valid_credential c \<and> pc_force c = se_force x \<and> valid_local_session u x")
  case False
  with assms(1) show thesis
    by (intro failed [of InvalidIdentity]) (auto simp: create_password_session_def require_def return_error_def)
next
  case True
  let ?events = "for_each [''local_login_succeeded'', ''session_created''] (\<lambda>op. append_audit clock (login_event request u x ''local'' op))"
  let ?body = "proceed (require_local_administrator u) (\<lambda>_. proceed get_db (\<lambda>db.
       require (list_ex (\<lambda>(v, d). v = u \<and> same_secret d c \<and> \<not> pc_force d) (passwords db)) Unauthenticated
      (proceed (clear_login_failures account source) (\<lambda>_. proceed (create_session x) (\<lambda>_. proceed ?events (\<lambda>_. return_ok (Inr ())))))))"
  from assms(1) True have "transaction ?body db = (r, db')"
    by (simp add: create_password_session_def require_def)
  then show thesis
  proof (rule transaction_cases)
    assume "?body db = (Inr r, db')"
    then obtain db1 where c: "require_local_administrator u db = (Inr (), db)" "r = Inr ()"
        "list_ex (\<lambda>(v, d). v = u \<and> same_secret d c \<and> \<not> pc_force d) (passwords db)"
        "create_session x (db\<lparr>throttles := filter (\<lambda>r. \<not> (th_key r = account \<or> th_key r = source)) (throttles db)\<rparr>) = (Inr (), db1)"
        "?events db1 = (Inr (), db')"
      by (auto simp: proceed_Inr require_Inr get_db_def clear_login_failures_def require_local_administrator_def
          simp del: for_each.simps split: option.splits if_splits)
    from c(1) obtain y where y: "find_user db u = Some y" "local_administrator db y"
      by (auto simp: require_local_administrator_def split: option.splits if_splits)
    from for_each_audit [OF c(5)] obtain log where "db' = db1\<lparr>audit_log := log\<rparr>" by blast
    with create_session_Inr [OF c(4) assms(2)] True c(2, 3) y show thesis
      by (intro made [of log y]) (auto simp: valid_local_session_def)
  qed (auto intro: failed)
qed

abbreviation in_window :: "time \<Rightarrow> time \<Rightarrow> bool" where
  "in_window a now \<equiv> a \<le> now \<and> now < a + login_failure_window"

lemma consume_left:
  assumes "consume_login_attempt j now db = (Inr (b, t), db')" "in_window a now"
  shows "guesses_left a (throttle_of i db') + (if i = j \<and> b then 1 else 0) \<le> guesses_left a (throttle_of i db)"
proof (cases "i = j")
  case True
  with consume_throttle(2) [OF assms(1), of j] consume_throttle(3) [OF assms(1)]
  have "throttle_of i db' = Some (next_row i now (throttle_of i db))"
      "b \<longleftrightarrow> th_failures (next_row i now (throttle_of i db)) \<le> login_failure_limit"
    by auto
  then show ?thesis
    using guesses_left_step [of a now i "throttle_of i db"] assms(2) by auto
qed (use consume_throttle(2) [OF assms(1), of i] in simp)

lemma consume_both:
  assumes "consume_login_attempt j now db = (ra, db1)" "consume_login_attempt k now db1 = (rk, db2)"
  obtains ths b t c t' where "db2 = db\<lparr>throttles := ths\<rparr>" "ra = Inr (b, t)" "rk = Inr (c, t')"
    "\<And>i. i \<notin> {j, k} \<Longrightarrow> throttle_of i db2 = throttle_of i db"
    "\<And>i a. i \<in> {j, k} \<Longrightarrow> in_window a now \<Longrightarrow>
      guesses_left a (throttle_of i db2) + (if b \<and> c then 1 else 0) \<le> guesses_left a (throttle_of i db)"
proof -
  obtain b t c t' where r: "ra = Inr (b, t)" "rk = Inr (c, t')"
    using consume_throttle(3) [OF assms(1)] consume_throttle(3) [OF assms(2)] by blast
  obtain ths ths' where "db1 = db\<lparr>throttles := ths'\<rparr>" "db2 = db1\<lparr>throttles := ths\<rparr>"
    using consume_throttle(1) [OF assms(1)] consume_throttle(1) [OF assms(2)] by blast
  then have "db2 = db\<lparr>throttles := ths\<rparr>" by simp
  moreover have "throttle_of i db2 = throttle_of i db" if "i \<notin> {j, k}" for i
    using that consume_throttle(2) [OF assms(1), of i] consume_throttle(2) [OF assms(2), of i] by auto
  moreover have "guesses_left a (throttle_of i db2) + (if b \<and> c then 1 else 0) \<le> guesses_left a (throttle_of i db)"
    if "i \<in> {j, k}" "in_window a now" for i a
    using consume_left [OF assms(1) [unfolded r(1)] that(2), of i] consume_left [OF assms(2) [unfolded r(2)] that(2), of i] that(1)
    by (auto split: if_splits)
  ultimately show thesis using r by (intro that)
qed

lemma credential_Inr:
  assumes "password_credential_of lower name db = (Inr (u, c), db')"
  shows "db' = db \<and> (u, c) \<in> set (passwords db) \<and>
    (\<exists>x\<in>set (users db). us_id x = u \<and> lower (us_name x) = lower name \<and> local_administrator db x)"
  using assms by (auto simp: password_credential_of_def Let_def find_Some_iff split: option.splits) (metis nth_mem)

lemma credential_state: "snd (password_credential_of lower name db) = db"
  by (simp add: password_credential_of_def Let_def split: option.split)

text \<open>An attempt was compared unless it was throttled.\<close>

definition compared :: "auth_error + 'a \<Rightarrow> bool" where
  "compared r \<longleftrightarrow> (\<forall>t. r \<noteq> Inl (LoginThrottled t))"

lemma compared_Inr [simp]: "compared (Inr x)"
  by (simp add: compared_def)

lemma verify_run:
  fixes lib name remote
  defines "ka \<equiv> account_key (fold_name lib name)" and "ks \<equiv> source_key (canonical_remote_address lib remote)"
  assumes "consume_login_attempt ka now db = (Inr (b, t), db0)" "consume_login_attempt ks now db0 = (Inr (d, t'), db1)"
    and "password_credential_of (db_lower lib) (fold_name lib name) db1 = (found, db1)"
  shows "verify_local lib dummy clock request name pw remote now db =
    (if \<not> b \<or> \<not> d then deny clock request ''denied'' (LoginThrottled (15 * minute)) db1
     else case found of
       Inl _ \<Rightarrow> deny clock request ''denied'' Unauthenticated db1
     | Inr (u, c) \<Rightarrow>
        if \<not> valid_credential c \<or> \<not> verify_password lib pw c then deny clock request ''denied'' Unauthenticated db1
        else (Inr \<lparr>lv_user = u, lv_credential = c, lv_account = ka, lv_source = ks\<rparr>, db1))"
  by (simp add: verify_local_def Let_def attempt_call_def flip: ka_def ks_def)
    (simp add: assms(3-5) attempt_call_def Let_def return_ok_def split: sum.split)

lemma verify_outcome:
  fixes lib name remote
  defines "ka \<equiv> account_key (fold_name lib name)" and "ks \<equiv> source_key (canonical_remote_address lib remote)"
  assumes "consume_login_attempt ka now db = (Inr (b, t), db0)" "consume_login_attempt ks now db0 = (Inr (d, t'), db1)"
    and "password_credential_of (db_lower lib) (fold_name lib name) db1 = (found, db1)"
    and "verify_local lib dummy clock request name pw remote now db = (r, db')"
  obtains (refused) e where "deny clock request ''denied'' e db1 = (r, db')" "compared r \<Longrightarrow> b \<and> d"
  | (verified) u c where "found = Inr (u, c)" "b \<and> d" "verify_password lib pw c"
      "r = Inr \<lparr>lv_user = u, lv_credential = c, lv_account = ka, lv_source = ks\<rparr>" "db' = db1"
proof -
  note run = verify_run [OF assms(3-5) [unfolded ka_def ks_def], of dummy clock request pw, folded ka_def ks_def, unfolded assms(6)]
  show thesis
  proof (cases "b \<and> d")
    case False
    with run have "deny clock request ''denied'' (LoginThrottled (15 * minute)) db1 = (r, db')" by simp
    then show thesis by (intro refused) (auto simp: compared_def dest: deny_cases)
  next
    case True
    show thesis
    proof (cases found)
      case (Inl e)
      with True run have "deny clock request ''denied'' Unauthenticated db1 = (r, db')" by simp
      then show thesis using True by (rule refused)
    next
      case (Inr p)
      obtain u c where p: "p = (u, c)" by fastforce
      show thesis
      proof (cases "valid_credential c \<and> verify_password lib pw c")
        case False
        with True Inr p run have "deny clock request ''denied'' Unauthenticated db1 = (r, db')" by auto
        then show thesis using True by (rule refused)
      next
        case good: True
        with True Inr p run have "r = Inr \<lparr>lv_user = u, lv_credential = c, lv_account = ka, lv_source = ks\<rparr>" "db' = db1"
          by simp_all
        with True good Inr p show thesis by (intro verified) simp_all
      qed
    qed
  qed
qed

lemma verify_cases:
  fixes lib name remote
  defines "ka \<equiv> account_key (fold_name lib name)" and "ks \<equiv> source_key (canonical_remote_address lib remote)"
  assumes "verify_local lib dummy clock request name pw remote now db = (r, db')"
  obtains ths log where "db' = db\<lparr>throttles := ths, audit_log := log\<rparr>"
    "\<And>i. i \<notin> {ka, ks} \<Longrightarrow> throttle_of i db' = throttle_of i db"
    "\<And>i a. i \<in> {ka, ks} \<Longrightarrow> in_window a now \<Longrightarrow>
       guesses_left a (throttle_of i db') + (if compared r then 1 else 0) \<le> guesses_left a (throttle_of i db)"
    "\<And>v. r = Inr v \<Longrightarrow> lv_account v = ka \<and> lv_source v = ks \<and>
       (lv_user v, lv_credential v) \<in> set (passwords db) \<and> verify_password lib pw (lv_credential v)"
proof -
  obtain ra db0 rs db1 where steps: "consume_login_attempt ka now db = (ra, db0)" "consume_login_attempt ks now db0 = (rs, db1)"
    by fastforce
  from steps show thesis
  proof (rule consume_both)
  fix ths b t d t'
  assume both: "db1 = db\<lparr>throttles := ths\<rparr>" "ra = Inr (b, t)" "rs = Inr (d, t')"
    "\<And>i. i \<notin> {ka, ks} \<Longrightarrow> throttle_of i db1 = throttle_of i db"
    "\<And>i a. i \<in> {ka, ks} \<Longrightarrow> in_window a now \<Longrightarrow>
      guesses_left a (throttle_of i db1) + (if b \<and> d then 1 else 0) \<le> guesses_left a (throttle_of i db)"
  let ?look = "password_credential_of (db_lower lib) (fold_name lib name)"
  obtain found where found: "?look db1 = (found, db1)"
    using credential_state [of "db_lower lib" "fold_name lib name" db1] by (metis prod.collapse)
  note consumed = steps [unfolded both(2, 3) ka_def ks_def]
  from consumed found assms(3) show thesis
  proof (cases rule: verify_outcome)
    case (refused e)
    with deny_cases obtain log where r: "r = Inl e" "db' = db1\<lparr>audit_log := log\<rparr>" by metis
    then have "throttle_of i db' = throttle_of i db1" for i by (simp add: throttle_of_def)
    with both(4, 5) refused(2) r show thesis
      by (intro that [of log ths]) (fastforce simp: both(1))+
  next
    case (verified u c)
    with credential_Inr [of "db_lower lib" "fold_name lib name" db1 u c db1] found
    have "(u, c) \<in> set (passwords db)" by (simp add: both(1))
    with both(4, 5) verified show thesis
      by (intro that [of "audit_log db" ths]) (auto simp: both(1) ka_def ks_def)
  qed
  qed
qed

subsection \<open>A sign-in with a password\<close>

lemma prepared_row:
  assumes "prepare_for_user m u provider force random arandom now = Inr p"
  obtains raw araw where "length raw = 32" "ps_token p = b64_encode raw" "ps_expires p = now + sm_ttl m" "0 < sm_idle m"
    "ps_row p = \<lparr>se_hash = sha256 raw, se_audit = hex_encode araw, se_user = u, se_provider = provider,
       se_force = force, se_created = now, se_seen = now, se_idle = now + sm_idle m, se_expires = now + sm_ttl m,
       se_revoked = None\<rparr>" "se_audit (ps_row p) \<noteq> []" "sm_idle m \<le> sm_ttl m"
proof -
  from assms obtain raw araw where r: "read_full 32 random = Some raw" "read_full 16 arandom = Some araw"
      "p = \<lparr>ps_token = b64_encode raw, ps_expires = now + sm_ttl m,
                  ps_row = \<lparr>se_hash = sha256 raw, se_audit = hex_encode araw, se_user = u, se_provider = provider,
                    se_force = force, se_created = now, se_seen = now, se_idle = now + sm_idle m, se_expires = now + sm_ttl m,
                    se_revoked = None\<rparr>\<rparr>" "0 < sm_idle m" "sm_idle m \<le> sm_ttl m"
    by (auto simp: prepare_for_user_def split: if_splits option.splits)
  moreover from r(1, 2) have "length raw = 32" "length araw = 16"
    by (auto simp: read_full_def split: bind_splits if_splits)
  moreover from this(2) have "hex_encode araw \<noteq> []"
    by (cases araw) (auto simp: hex_encode_def)
  ultimately show thesis by (intro that) simp_all
qed

lemma opened_session:
  assumes "prepare_for_user m (lv_user vf) ''local'' (pc_force c) random arandom now = Inr p"
    and "create_password_session clock request (lv_user vf) c (ps_row p) account source db1 = (rc, db')"
    and "db1 = db\<lparr>throttles := ths, audit_log := log\<rparr>"
  obtains (failed) "\<exists>e. rc = Inl e" "db' = db1"
  | (opened) raw x y log' where "rc = Inr ()" "length raw = 32" "ps_token p = b64_encode raw" "ps_expires p = se_expires x"
      "db' = db\<lparr>sessions := sessions db @ [x],
         throttles := filter (\<lambda>r. \<not> (th_key r = account \<or> th_key r = source)) ths, audit_log := log'\<rparr>"
      "se_user x = lv_user vf" "se_hash x = sha256 raw" "se_provider x = ''local''" "se_revoked x = None" "se_created x = now"
      "se_idle x = now + sm_idle m" "se_expires x = now + sm_ttl m" "se_force x = pc_force c" "0 < sm_idle m" "sm_idle m \<le> sm_ttl m"
      "find_user db (se_user x) = Some y" "local_administrator db y" "se_hash x \<notin> se_hash ` set (sessions db)"
      "list_ex (\<lambda>(v, d). v = se_user x \<and> same_secret d c \<and> \<not> pc_force d) (passwords db)"
proof -
  from assms(1) obtain raw araw where row: "length raw = 32" "ps_token p = b64_encode raw" "ps_expires p = now + sm_ttl m"
      "0 < sm_idle m" "ps_row p = \<lparr>se_hash = sha256 raw, se_audit = hex_encode araw, se_user = lv_user vf, se_provider = ''local'',
         se_force = pc_force c, se_created = now, se_seen = now, se_idle = now + sm_idle m, se_expires = now + sm_ttl m,
         se_revoked = None\<rparr>" "se_audit (ps_row p) \<noteq> []" "sm_idle m \<le> sm_ttl m"
    by (rule prepared_row)
  have same: "find_user db1 = find_user db" "local_administrator db1 = local_administrator db"
    by (auto simp: fun_eq_iff assms(3) find_user_def local_administrator_def)
  from assms(2) row(6) show thesis
  proof (cases rule: password_session_cases)
    case (made log' y)
    let ?x = "(ps_row p)\<lparr>se_revoked := None\<rparr>"
    have x: "se_user ?x = lv_user vf" "se_hash ?x = sha256 raw" "se_provider ?x = ''local''" "se_revoked ?x = None"
        "se_created ?x = now" "se_idle ?x = now + sm_idle m" "se_expires ?x = now + sm_ttl m" "se_force ?x = pc_force c"
      by (simp_all add: row(5))
    have db': "db' = db\<lparr>sessions := sessions db @ [?x],
         throttles := filter (\<lambda>r. \<not> (th_key r = account \<or> th_key r = source)) ths, audit_log := log'\<rparr>"
      using made(2) by (simp add: assms(3))
    have d: "find_user db (se_user ?x) = Some y" "local_administrator db y" "se_hash ?x \<notin> se_hash ` set (sessions db)"
        "list_ex (\<lambda>(v, d). v = se_user ?x \<and> same_secret d c \<and> \<not> pc_force d) (passwords db)"
      using made(3, 4, 7, 8) same by (simp_all add: x(1) assms(3))
    show thesis
      by (rule opened [OF made(1) row(1, 2) _ db' x row(4, 7) d]) (simp add: row(3) x(7))
  qed (auto intro: failed)
qed

text \<open>The outcomes of a sign-in: refused with the counters raised, or one more session with the counters cleared.\<close>

lemma authenticate_local_cases:
  fixes lib name remote
  defines "ka \<equiv> account_key (fold_name lib name)" and "ks \<equiv> source_key (canonical_remote_address lib remote)"
  assumes "authenticate_local lib m dummy clock request random arandom name pw remote now db = (r, db')"
  obtains (refused) ths log e where "r = Inl e" "db' = db\<lparr>throttles := ths, audit_log := log\<rparr>"
      "\<And>i. i \<notin> {ka, ks} \<Longrightarrow> throttle_of i db' = throttle_of i db"
      "\<And>i a. i \<in> {ka, ks} \<Longrightarrow> in_window a now \<Longrightarrow>
         guesses_left a (throttle_of i db') + (if compared r then 1 else 0) \<le> guesses_left a (throttle_of i db)"
  | (signed_in) raw x y c log ths where "r = Inr (se_user x, b64_encode raw, se_expires x)" "length raw = 32"
      "db' = db\<lparr>sessions := sessions db @ [x], throttles := ths, audit_log := log\<rparr>"
      "\<And>i. throttle_of i db' = (if i \<in> {ka, ks} then None else throttle_of i db)"
      "se_hash x = sha256 raw" "se_provider x = ''local''" "se_revoked x = None" "se_created x = now"
      "se_idle x = now + sm_idle m" "se_expires x = now + sm_ttl m" "se_force x = pc_force c" "0 < sm_idle m" "sm_idle m \<le> sm_ttl m"
      "find_user db (se_user x) = Some y" "local_administrator db y" "se_hash x \<notin> se_hash ` set (sessions db)"
      "(se_user x, c) \<in> set (passwords db)" "verify_password lib pw c"
      "list_ex (\<lambda>(v, d). v = se_user x \<and> same_secret d c \<and> \<not> pc_force d) (passwords db)"
proof -
  obtain rv dbv where v: "verify_local lib dummy clock request name pw remote now db = (rv, dbv)"
    by fastforce
  from v show thesis
  proof (rule verify_cases, fold ka_def ks_def)
    fix ths log
    assume dbv: "dbv = db\<lparr>throttles := ths, audit_log := log\<rparr>"
      and other: "\<And>i. i \<notin> {ka, ks} \<Longrightarrow> throttle_of i dbv = throttle_of i db"
      and own: "\<And>i a. i \<in> {ka, ks} \<Longrightarrow> in_window a now \<Longrightarrow>
        guesses_left a (throttle_of i dbv) + (if compared rv then 1 else 0) \<le> guesses_left a (throttle_of i db)"
      and good: "\<And>v. rv = Inr v \<Longrightarrow> lv_account v = ka \<and> lv_source v = ks \<and>
        (lv_user v, lv_credential v) \<in> set (passwords db) \<and> verify_password lib pw (lv_credential v)"
    have stop: thesis if "r = Inl e" "db' = dbv" "compared r \<Longrightarrow> compared rv" for e
      using that other own dbv by (intro refused [of e log ths]) (fastforce split: if_splits)+
    show thesis
    proof (cases rv)
      case (Inl e)
      with v assms(3) have "r = Inl e" "db' = dbv" by (simp_all add: authenticate_local_def proceed_def)
      with Inl show thesis by (intro stop [of e]) (simp_all add: compared_def)
    next
      case (Inr vf)
      let ?c = "lv_credential vf"
      show thesis
      proof (cases "prepare_for_user m (lv_user vf) ''local'' (pc_force ?c) random arandom now")
        case (Inl e)
        with v Inr assms(3) have "r = Inl Unauthenticated" "db' = dbv"
          by (simp_all add: authenticate_local_def proceed_def return_error_def)
        with Inr show thesis by (intro stop) simp_all
      next
        case prep: (Inr p)
        obtain rc dbc where c: "create_password_session clock request (lv_user vf) ?c (ps_row p) (lv_account vf) (lv_source vf) dbv = (rc, dbc)"
          by fastforce
        have run: "r = (case rc of Inl _ \<Rightarrow> Inl Unauthenticated | Inr _ \<Rightarrow> Inr (lv_user vf, ps_token p, ps_expires p))" "db' = dbc"
          using assms(3) v Inr prep c
          by (auto simp: authenticate_local_def proceed_def attempt_call_def return_error_def return_ok_def split: sum.splits)
        note keys = good [OF Inr]
        from prep c dbv show thesis
        proof (cases rule: opened_session)
          case failed
          with run Inr show thesis by (intro stop [of Unauthenticated]) auto
        next
          case (opened raw x y log')
          have t: "throttle_of i db' = (if i \<in> {ka, ks} then None else throttle_of i db)" for i
            using other [of i] opened(5) run(2) keys dbv by (simp add: throttle_of_def find_kept)
          have "r = Inr (se_user x, b64_encode raw, se_expires x)"
            using run(1) opened(1, 3, 4, 6) by simp
          moreover have "(se_user x, ?c) \<in> set (passwords db)" "verify_password lib pw ?c"
            using keys opened(6) by simp_all
          ultimately show thesis
            using opened(2, 5) run(2) opened(7-19) by (intro signed_in [OF _ opened(2) _ t]) blast+
        qed
      qed
    qed
  qed
qed

subsection \<open>Attempts\<close>

fun run_logins :: "login_library \<Rightarrow> session_manager \<Rightarrow> password_credential \<Rightarrow> local_request list \<Rightarrow> auth_db \<Rightarrow>
    (local_request \<times> local_answer) list" where
  "run_logins lib m dummy [] db = []"
| "run_logins lib m dummy (x # xs) db =
     (case local_handler lib m dummy x db of (r, db') \<Rightarrow> (x, r) # run_logins lib m dummy xs db')"

text \<open>The requests that concern a key, as that of their account or of their source.\<close>

definition concerns :: "login_library \<Rightarrow> hash \<Rightarrow> local_request \<Rightarrow> bool" where
  "concerns lib k x \<longleftrightarrow>
     k \<in> {account_key (fold_name lib (lr_name x)), source_key (canonical_remote_address lib (lr_remote x))}"

text \<open>A password was tried unless the request was refused as throttled, or before, for the new password.\<close>

definition tried :: "local_answer \<Rightarrow> bool" where
  "tried r \<longleftrightarrow> r \<noteq> Refused 429 \<and> r \<noteq> Refused 400"

definition is_signed_in :: "local_answer \<Rightarrow> bool" where
  "is_signed_in r \<longleftrightarrow> (\<exists>token expires. r = SignedIn token expires)"

lemma rotation_cases:
  assumes "rotate_password_credential clock u c c' x account source e db = (r, db')"
  shows "(\<exists>e. r = Inl e) \<and> db' = db \<or>
    r = Inr () \<and> throttles db' = filter (\<lambda>r. \<not> (th_key r = account \<or> th_key r = source)) (throttles db)"
proof (cases "valid_credential c \<and> valid_credential c' \<and> pc_force c \<and> \<not> pc_force c' \<and> valid_standard_local_session u x \<and> valid_event e")
  case False
  with assms show ?thesis
    by (auto simp: rotate_password_credential_def require_def return_error_def split: if_splits)
next
  case True
  have made: "create_session x db1 = (Inr (), db2) \<Longrightarrow> throttles db2 = throttles db1" for db1 db2
    by (auto simp: create_session_def insert_session_def Let_def split: if_splits option.splits)
  from assms True show ?thesis
    unfolding rotate_password_credential_def
    by (auto simp: require_def elim!: transaction_cases)
      (auto simp: proceed_Inr require_Inr get_db_def put_db_def clear_login_failures_def append_audit_Inr Let_def
        revoke_admin_credentials_def revoke_grants_def revoke_sessions_def revoke_tokens_def
        require_local_administrator_def dest!: made split: option.splits if_splits)
qed

text \<open>What follows a verification refuses and leaves the counters, or signs in and clears both.\<close>

definition settles :: "local_verification \<Rightarrow> auth_db \<Rightarrow> local_answer \<times> auth_db \<Rightarrow> bool" where
  "settles v db1 res \<longleftrightarrow> (case res of (r, db') \<Rightarrow>
     (\<exists>n. r = Refused n \<and> n \<noteq> 400 \<and> n \<noteq> 429) \<and> throttles db' = throttles db1 \<or>
     is_signed_in r \<and> throttles db' = filter (\<lambda>x. \<not> (th_key x = lv_account v \<or> th_key x = lv_source v)) (throttles db1))"

lemma settles_refused [simp]: "settles v db1 (Refused n, db1) \<longleftrightarrow> n \<noteq> 400 \<and> n \<noteq> 429"
  by (auto simp: settles_def is_signed_in_def)

lemma completed:
  assumes "prepare_for_user m (lv_user v) ''local'' False random arandom now = Inr p"
  shows "complete_prepared v p = Inr (lv_user v, ps_token p, ps_expires p)" "se_audit (ps_row p) \<noteq> []"
  using assms by (auto elim!: prepared_row simp: complete_prepared_def)

lemma verify_request_counts:
  assumes "verify_request lib dummy q k db = (r, db')" "\<And>v db1. settles v db1 (k v db1)"
  shows "\<not> concerns lib i q \<Longrightarrow> throttle_of i db' = throttle_of i db"
    and "concerns lib i q \<Longrightarrow> in_window a (lr_now q) \<Longrightarrow>
      (if is_signed_in r then throttle_of i db' = None \<and> 1 \<le> guesses_left a (throttle_of i db)
       else guesses_left a (throttle_of i db') + (if tried r then 1 else 0) \<le> guesses_left a (throttle_of i db))"
proof -
  let ?ka = "account_key (fold_name lib (lr_name q))" and ?ks = "source_key (canonical_remote_address lib (lr_remote q))"
  obtain rv db1 where v: "verify_local lib dummy (lr_clock q) (lr_id q) (lr_name q) (lr_password q) (lr_remote q) (lr_now q) db = (rv, db1)"
    by fastforce
  have both: "(\<not> concerns lib i q \<longrightarrow> throttle_of i db' = throttle_of i db) \<and>
    (concerns lib i q \<and> in_window a (lr_now q) \<longrightarrow>
      (if is_signed_in r then throttle_of i db' = None \<and> 1 \<le> guesses_left a (throttle_of i db)
       else guesses_left a (throttle_of i db') + (if tried r then 1 else 0) \<le> guesses_left a (throttle_of i db)))" for i a
    using v
  proof (rule verify_cases)
    assume other: "\<And>i. i \<notin> {?ka, ?ks} \<Longrightarrow> throttle_of i db1 = throttle_of i db"
      and own: "\<And>i a. i \<in> {?ka, ?ks} \<Longrightarrow> in_window a (lr_now q) \<Longrightarrow>
        guesses_left a (throttle_of i db1) + (if compared rv then 1 else 0) \<le> guesses_left a (throttle_of i db)"
      and good: "\<And>v. rv = Inr v \<Longrightarrow> lv_account v = ?ka \<and> lv_source v = ?ks \<and>
        (lv_user v, lv_credential v) \<in> set (passwords db) \<and> verify_password lib (lr_password q) (lv_credential v)"
    show ?thesis
    proof (cases rv)
      case (Inl e)
      with assms(1) v have r: "r = write_local_authentication_error e" "db' = db1" by (simp_all add: verify_request_def)
      then have "\<not> is_signed_in r" "tried r \<Longrightarrow> compared rv"
        using Inl by (auto simp: write_local_authentication_error_def is_signed_in_def tried_def compared_def split: auth_error.splits)
      with other [of i] own [of i a] r(2) show ?thesis by (auto simp: concerns_def split: if_splits)
    next
      case (Inr vf)
      with assms(1) v have "k vf db1 = (r, db')" by (simp add: verify_request_def)
      with assms(2) [of vf db1] have "settles vf db1 (r, db')" by simp
      then consider n where "r = Refused n" "throttles db' = throttles db1"
        | "is_signed_in r" "throttles db' = filter (\<lambda>x. th_key x \<noteq> ?ka \<and> th_key x \<noteq> ?ks) (throttles db1)"
        using good [OF Inr] by (auto simp: settles_def)
      then show ?thesis
      proof cases
        case 1
        then have "throttle_of i db' = throttle_of i db1" "\<not> is_signed_in r" by (simp_all add: throttle_of_def is_signed_in_def)
        with other [of i] own [of i a] Inr show ?thesis by (auto simp: concerns_def split: if_splits)
      next
        case 2
        then have "throttle_of i db' = (if i = ?ka \<or> i = ?ks then None else throttle_of i db1)"
          by (simp add: throttle_of_def find_kept)
        with 2(1) other [of i] own [of i a] Inr show ?thesis by (auto simp: concerns_def)
      qed
    qed
  qed
  show "\<not> concerns lib i q \<Longrightarrow> throttle_of i db' = throttle_of i db"
    and "concerns lib i q \<Longrightarrow> in_window a (lr_now q) \<Longrightarrow>
      (if is_signed_in r then throttle_of i db' = None \<and> 1 \<le> guesses_left a (throttle_of i db)
       else guesses_left a (throttle_of i db') + (if tried r then 1 else 0) \<le> guesses_left a (throttle_of i db))"
    using both [of i a] by blast+
qed

lemma login_settles:
  "settles v db1
    (if pc_force (lv_credential v) then (Refused 401, db1)
     else case prepare_for_user m (lv_user v) ''local'' False random arandom now of
        Inl _ \<Rightarrow> (Refused 401, db1)
      | Inr p \<Rightarrow>
         (case create_password_session clock request (lv_user v) (lv_credential v) (ps_row p) (lv_account v) (lv_source v) db1 of
            (Inl _, db2) \<Rightarrow> (Refused 401, db2)
          | (Inr _, db2) \<Rightarrow>
             (case complete_login v p of
                Inl _ \<Rightarrow> (Refused 401, db2)
              | Inr (_, token, expires) \<Rightarrow> (SignedIn token expires, db2))))"
proof (cases "pc_force (lv_credential v)")
  case False
  show ?thesis
  proof (cases "prepare_for_user m (lv_user v) ''local'' False random arandom now")
    case (Inr p)
    obtain rc db2 where c: "create_password_session clock request (lv_user v) (lv_credential v) (ps_row p) (lv_account v) (lv_source v) db1 = (rc, db2)"
      by fastforce
    from c completed(2) [OF Inr] show ?thesis
      by (cases rule: password_session_cases)
        (use False Inr c completed(1) [OF Inr] in \<open>simp_all add: complete_login_def settles_def is_signed_in_def\<close>)
  qed (use False in simp)
qed simp

lemma rotation_settles:
  "settles v db1
    (if \<not> pc_force (lv_credential v) then (Refused 401, db1)
     else case hash_password lib new hrandom of
        Inl _ \<Rightarrow> (Refused 503, db1)
      | Inr c \<Rightarrow>
         (case prepare_for_user m (lv_user v) ''local'' False random arandom now of
            Inl _ \<Rightarrow> (Refused 503, db1)
          | Inr p \<Rightarrow>
             (case rotate_password_credential clock (lv_user v) (lv_credential v) c (ps_row p) (lv_account v) (lv_source v) event db1 of
                (Inl e, db2) \<Rightarrow> (Refused (if e = Unauthenticated then 401 else 503), db2)
              | (Inr _, db2) \<Rightarrow>
                 (case complete_rotation v p of
                    Inl _ \<Rightarrow> (Refused 503, db2)
                  | Inr (_, token, expires) \<Rightarrow> (SignedIn token expires, db2)))))"
proof (cases "pc_force (lv_credential v)")
  case True
  show ?thesis
  proof (cases "hash_password lib new hrandom")
    case hashed: (Inr c)
    show ?thesis
    proof (cases "prepare_for_user m (lv_user v) ''local'' False random arandom now")
      case (Inr p)
      obtain rc db2 where c:
        "rotate_password_credential clock (lv_user v) (lv_credential v) c (ps_row p) (lv_account v) (lv_source v) event db1 = (rc, db2)"
        by fastforce
      from rotation_cases [OF c] show ?thesis
        using True hashed Inr c completed(1) [OF Inr]
        by (elim disjE conjE exE) (simp_all add: complete_rotation_def settles_def is_signed_in_def)
    qed (use True hashed in simp)
  qed (use True in simp)
qed simp

lemma local_handler_counts:
  assumes "local_handler lib m dummy q db = (r, db')"
  shows "\<not> concerns lib i q \<Longrightarrow> throttle_of i db' = throttle_of i db"
    and "concerns lib i q \<Longrightarrow> in_window a (lr_now q) \<Longrightarrow>
      (if is_signed_in r then throttle_of i db' = None \<and> 1 \<le> guesses_left a (throttle_of i db)
       else guesses_left a (throttle_of i db') + (if tried r then 1 else 0) \<le> guesses_left a (throttle_of i db))"
proof -
  consider "r = Refused 400" "db' = db" | k where "verify_request lib dummy q k db = (r, db')" "\<And>v db1. settles v db1 (k v db1)"
  proof (cases "lr_new q")
    case None
    with assms show thesis
      by (intro that(2) [OF _ login_settles]) (simp add: local_handler_def login_handler_def)
  next
    case (Some new)
    with assms that(1) that(2) [OF _ rotation_settles] show thesis
      by (cases "length new < 16 \<or> length new > 1024") (auto simp: local_handler_def rotate_handler_def)
  qed
  then show "\<not> concerns lib i q \<Longrightarrow> throttle_of i db' = throttle_of i db"
    and "concerns lib i q \<Longrightarrow> in_window a (lr_now q) \<Longrightarrow>
      (if is_signed_in r then throttle_of i db' = None \<and> 1 \<le> guesses_left a (throttle_of i db)
       else guesses_left a (throttle_of i db') + (if tried r then 1 else 0) \<le> guesses_left a (throttle_of i db))"
    using verify_request_counts [of lib dummy q _ db r db'] by (cases, (auto simp: is_signed_in_def tried_def)[1], blast)+
qed

lemma tried_guesses:
  assumes "\<forall>x\<in>set xs. concerns lib k x \<longrightarrow> in_window a (lr_now x)"
  shows "length (filter (\<lambda>(x, r). concerns lib k x \<and> tried r) (run_logins lib m dummy xs db)) \<le>
    guesses_left a (throttle_of k db) + 5 * length (filter (\<lambda>(x, r). concerns lib k x \<and> is_signed_in r) (run_logins lib m dummy xs db))"
  using assms
proof (induction xs arbitrary: db)
  case (Cons x xs)
  obtain r db' where step: "local_handler lib m dummy x db = (r, db')" by fastforce
  have "length (filter (\<lambda>(x, r). concerns lib k x \<and> tried r) (run_logins lib m dummy xs db')) \<le> guesses_left a (throttle_of k db') +
      5 * length (filter (\<lambda>(x, r). concerns lib k x \<and> is_signed_in r) (run_logins lib m dummy xs db'))"
    using Cons.prems by (intro Cons.IH) simp
  note rest = this
  show ?case
  proof (cases "concerns lib k x")
    case False
    with local_handler_counts(1) [OF step False] rest step show ?thesis by simp
  next
    case True
    with Cons.prems have "in_window a (lr_now x)" by simp
    from local_handler_counts(2) [OF step True this] rest step True show ?thesis
      by (auto simp: guesses_left_def login_failure_limit_def split: if_splits)
  qed
qed simp

text \<open>
  C27. Within any fifteen minutes, and over any sequence of requests to sign in or to rotate a password,
  from anywhere and for any account, at most ten passwords are tried for an account, or from a source,
  and five where no earlier attempt is on record, and five more for each request concerning it that signs in.  (An account and
  a source are known by the digests that count their attempts.)
\<close>

theorem password_guesses_bounded:
  assumes "\<forall>x\<in>set xs. concerns lib k x \<longrightarrow> a \<le> lr_now x \<and> lr_now x < a + 15 * minute"
  shows "length (filter (\<lambda>(x, r). concerns lib k x \<and> tried r) (run_logins lib m dummy xs db)) \<le>
    (if list_ex (\<lambda>r. th_key r = k) (throttles db) then 10 else 5) +
    5 * length (filter (\<lambda>(x, r). concerns lib k x \<and> is_signed_in r) (run_logins lib m dummy xs db))"
proof -
  have "guesses_left a (throttle_of k db) \<le> (if list_ex (\<lambda>r. th_key r = k) (throttles db) then 10 else 5)"
    by (auto simp: guesses_left_def throttle_of_def login_failure_limit_def list_ex_iff find_None_iff find_Some_iff split: option.split)
  moreover have "length (filter (\<lambda>(x, r). concerns lib k x \<and> tried r) (run_logins lib m dummy xs db)) \<le>
    guesses_left a (throttle_of k db) + 5 * length (filter (\<lambda>(x, r). concerns lib k x \<and> is_signed_in r) (run_logins lib m dummy xs db))"
    using assms by (intro tried_guesses) (simp add: login_failure_window_def)
  ultimately show ?thesis by linarith
qed

subsection \<open>The session of a local account\<close>

lemma find_user_Some: "find_user db u = Some y \<Longrightarrow> us_id y = u"
  by (auto simp: find_user_def find_Some_iff)

lemma local_session_opens:
  assumes "find_user db (se_user x) = Some y" "local_administrator db y" "se_hash x \<notin> se_hash ` set (sessions db)"
    and "se_hash x = sha256 raw" "length raw = 32" "se_provider x = ''local''" "se_revoked x = None" "se_created x \<le> t"
    and "t < se_idle x" "se_idle x \<le> se_expires x" "0 < idle"
    and "db' = db\<lparr>sessions := sessions db @ [x], throttles := ths, audit_log := log\<rparr>"
  shows "\<exists>p. fst (authenticate_session idle t (b64_encode raw) db') = Inr p \<and> pr_subject p = decimal (se_user x) \<and>
    pr_method p = ''local'' \<and> pr_administrator p"
proof -
  let ?h = "sha256 raw"
  have user: "find_user db' (se_user x) = Some y" "us_source y = ''local''" "may_sign_in y" "se_user x \<in> set (user_roles db')"
    using assms(1, 2) find_user_Some [OF assms(1)] by (simp_all add: assms(12) find_user_def local_administrator_def)
  then have active: "active_user db' (se_user x)" "is_administrator db' (se_user x)"
    by (simp_all add: active_user_def is_administrator_def)
  have "live_session t db' ?h x"
    using assms(4, 6, 7, 9, 10) user active(1) by (simp add: live_session_def local_allowed_def)
  moreover have "find (live_session t db' ?h) (sessions db) = None"
    using assms(3, 4) by (auto simp: find_None_iff live_session_def) (metis imageI)
  ultimately have find: "find (live_session t db' ?h) (sessions db') = Some x"
    by (simp add: assms(12) find_in_append)
  let ?y = "touch_session t (t + idle) x"
  have "se_created ?y \<le> se_seen ?y" "se_seen ?y < se_idle ?y"
    using assms(8-11) by (simp_all add: touch_session_def)
  moreover have "user_principal (se_user x) None db2 = (Inr \<lparr>pr_subject = decimal (se_user x), pr_method = ''oidc'', pr_scope = [],
      pr_administrator = True, pr_delegation_only = False, pr_delegated = False, pr_force_rotation = False, pr_installation = 0,
      pr_repositories = []\<rparr>, db2)" if "db2 = db'\<lparr>sessions := ss\<rparr>" for db2 ss
    using active by (simp add: that user_principal_def Let_def active_user_def find_user_def is_administrator_def active_groups_def)
  ultimately show ?thesis
    using assms(5, 6, 11)
    by (simp add: authenticate_session_def session_principal_def find Let_def call_defs)
qed

text \<open>
  C28. Signing in with a password succeeds only for an active local administrator whose stored credential
  the password opens and that does not have to be rotated first.  It adds exactly one session, clears
  both counters, and its token authenticates as that user until the session is idle for too long.  A
  refused sign-in changes nothing but counters and the audit log.
\<close>

theorem local_login_sound:
  assumes "authenticate_local lib m dummy clock request random arandom name pw remote now db = (r, db')"
    and "distinct (map fst (passwords db))"
  shows "case r of
      Inl e \<Rightarrow> \<exists>ths log. db' = db\<lparr>throttles := ths, audit_log := log\<rparr>
    | Inr (u, token, expires) \<Rightarrow>
        (\<exists>c y x log ths. (u, c) \<in> set (passwords db) \<and> verify_password lib pw c \<and> \<not> pc_force c \<and>
          find_user db u = Some y \<and> local_administrator db y \<and> se_user x = u \<and> se_expires x = expires \<and> \<not> se_force x \<and>
          db' = db\<lparr>sessions := sessions db @ [x], throttles := ths, audit_log := log\<rparr> \<and>
          \<not> list_ex (\<lambda>r. th_key r = account_key (fold_name lib name)) ths \<and>
          \<not> list_ex (\<lambda>r. th_key r = source_key (canonical_remote_address lib remote)) ths) \<and>
        (\<forall>t. now \<le> t \<and> t < now + sm_idle m \<longrightarrow>
          (\<exists>p. fst (authenticate_session (sm_idle m) t token db') = Inr p \<and> pr_subject p = decimal u \<and> pr_method p = ''local'' \<and>
            pr_administrator p))"
  using assms(1)
proof (cases rule: authenticate_local_cases)
  case (refused ths log e)
  then show ?thesis by auto
next
  case (signed_in raw x y c log ths)
  have "\<not> pc_force c"
    using signed_in(17, 19) assms(2) by (auto simp: list_ex_iff dest: eq_key_imp_eq_value)
  moreover have "\<not> list_ex (\<lambda>r. th_key r = account_key (fold_name lib name)) ths"
    using signed_in(4) [of "account_key (fold_name lib name)"] signed_in(3) by (simp add: throttle_of_def find_None_iff list_ex_iff)
  moreover have "\<not> list_ex (\<lambda>r. th_key r = source_key (canonical_remote_address lib remote)) ths"
    using signed_in(4) [of "source_key (canonical_remote_address lib remote)"] signed_in(3)
    by (simp add: throttle_of_def find_None_iff list_ex_iff)
  ultimately show ?thesis
    using signed_in local_session_opens [of db x y raw] by (auto simp: signed_in(1))
qed

subsection \<open>The principal of a request\<close>

text \<open>The repositories a user may see: all active ones for an administrator, the granted ones otherwise.\<close>

definition may_see :: "auth_db \<Rightarrow> int \<Rightarrow> int \<Rightarrow> bool" where
  "may_see db u r \<longleftrightarrow>
     (if is_administrator db u then \<exists>x\<in>set (repositories db). ro_github x = r \<and> active_repository_row x
      else r \<in> set (granted_repositories db u))"

lemma user_principal_Inr:
  assumes "user_principal u ceiling db = (Inr p, db')"
  shows "db' = db \<and> active_user db u \<and> pr_subject p = decimal u \<and> pr_administrator p = is_administrator db u \<and>
    (is_administrator db u \<and> ceiling = None \<longrightarrow> pr_repositories p = []) \<and>
    (\<forall>r\<in>set (pr_repositories p). r \<in> set (granted_repositories db u) \<and> (case ceiling of None \<Rightarrow> True | Some c \<Rightarrow> r \<in> set c)) \<and>
    \<not> pr_delegation_only p \<and> pr_method p = ''oidc'' \<and> pr_installation p = 0"
  using assms by (auto simp: user_principal_def Let_def split: if_splits)

lemma token_principal_Inr:
  assumes "token_principal t p0 db = (Inr p, db')" "user_principal (tk_user t) (tk_ceiling t) db = (Inr p0, db)"
  shows "pr_subject p = decimal (tk_user t)" "pr_method p = ''api_token''" "pr_administrator p = is_administrator db (tk_user t)"
    "pr_delegation_only p = tk_delegation_only t" "tk_delegation_only t \<Longrightarrow> is_administrator db (tk_user t) \<and> pr_repositories p = []"
    "r \<in> set (pr_repositories p) \<Longrightarrow> may_see db (tk_user t) r \<and> (case tk_ceiling t of None \<Rightarrow> True | Some c \<Rightarrow> r \<in> set c)"
proof -
  note u = user_principal_Inr [OF assms(2)]
  let ?admin = "is_administrator db (tk_user t)"
  consider (broker) "tk_delegation_only t" "?admin"
      "p = p0\<lparr>pr_delegated := tk_delegated t, pr_delegation_only := True, pr_repositories := [], pr_method := ''api_token''\<rparr>"
    | (admin) c where "\<not> tk_delegation_only t" "?admin" "tk_ceiling t = Some c"
      "p = p0\<lparr>pr_delegated := tk_delegated t, pr_repositories :=
         sort (map ro_github (filter (\<lambda>r. ro_github r \<in> set c \<and> active_repository_row r) (repositories db))), pr_method := ''api_token''\<rparr>"
    | (user) "\<not> tk_delegation_only t" "\<not> ?admin" "p = p0\<lparr>pr_delegated := tk_delegated t, pr_method := ''api_token''\<rparr>"
    using assms(1) u by (auto simp: token_principal_def Let_def get_db_def proceed_Inr split: if_splits option.splits list.splits)
  note cases = this
  show "pr_subject p = decimal (tk_user t)" "pr_method p = ''api_token''" "pr_administrator p = ?admin"
      "pr_delegation_only p = tk_delegation_only t" "tk_delegation_only t \<Longrightarrow> ?admin \<and> pr_repositories p = []"
    using u by (cases rule: cases; simp)+
  show "r \<in> set (pr_repositories p) \<Longrightarrow> may_see db (tk_user t) r \<and> (case tk_ceiling t of None \<Rightarrow> True | Some c \<Rightarrow> r \<in> set c)"
    using u by (cases rule: cases) (auto simp: may_see_def)
qed

text \<open>What each kind of credential gives.\<close>

definition api_token_principal :: "time \<Rightarrow> auth_db \<Rightarrow> hash \<Rightarrow> auth_principal \<Rightarrow> bool" where
  "api_token_principal now db h p \<longleftrightarrow>
     (\<exists>t\<in>set (api_tokens db). live_token now db h t \<and> pr_subject p = decimal (tk_user t) \<and> pr_method p = ''api_token'' \<and>
       pr_administrator p = is_administrator db (tk_user t) \<and> pr_delegation_only p = tk_delegation_only t \<and>
       (tk_delegation_only t \<longrightarrow> is_administrator db (tk_user t) \<and> pr_repositories p = []) \<and>
       (\<forall>r\<in>set (pr_repositories p). may_see db (tk_user t) r \<and> (case tk_ceiling t of None \<Rightarrow> True | Some c \<Rightarrow> r \<in> set c)))"

definition oauth_token_principal :: "time \<Rightarrow> auth_db \<Rightarrow> hash \<Rightarrow> auth_principal \<Rightarrow> bool" where
  "oauth_token_principal now db h p \<longleftrightarrow>
     (\<exists>g\<in>set (oauth_grants db). access_matches h now db g \<and> pr_subject p = decimal (og_user g) \<and> pr_method p = ''oauth_token'' \<and>
       pr_scope p = og_scope g \<and> \<not> pr_administrator p \<and> \<not> pr_delegation_only p \<and>
       (\<forall>r\<in>set (pr_repositories p). may_see db (og_user g) r))"

definition browser_principal :: "time \<Rightarrow> auth_db \<Rightarrow> hash \<Rightarrow> auth_principal \<Rightarrow> bool" where
  "browser_principal now db h p \<longleftrightarrow>
     (\<exists>x\<in>set (sessions db). live_session now db h x \<and> pr_subject p = decimal (se_user x) \<and> pr_method p = se_provider x \<and>
       pr_administrator p = is_administrator db (se_user x) \<and> pr_force_rotation p = se_force x \<and>
       (\<forall>r\<in>set (pr_repositories p). r \<in> set (granted_repositories db (se_user x))))"

lemma api_principal_Inr:
  assumes "api_principal h now db = (Inr p, db')"
  shows "api_token_principal now db h p"
proof -
  from assms obtain t where t: "find (live_token now db h) (api_tokens db) = Some t"
    by (auto simp: api_principal_def transaction_def split: option.splits)
  let ?db = "db\<lparr>api_tokens := map (\<lambda>x. if live_token now db h x then x\<lparr>tk_used := Some now\<rparr> else x) (api_tokens db)\<rparr>"
  have same: "may_see ?db = may_see db" "is_administrator ?db = is_administrator db"
    by (simp_all add: fun_eq_iff may_see_def granted_repositories_def is_administrator_def active_groups_def)
  from assms obtain p0 db1 where "user_principal (tk_user t) (tk_ceiling t) ?db = (Inr p0, db1)" "token_principal t p0 db1 = (Inr p, db')"
    by (auto simp: api_principal_def t put_db_def proceed_Inr elim!: transaction_cases)
  with user_principal_Inr have "user_principal (tk_user t) (tk_ceiling t) ?db = (Inr p0, ?db)" "token_principal t p0 ?db = (Inr p, db')"
    by blast+
  note token = token_principal_Inr [OF this(2, 1), unfolded same]
  have "t \<in> set (api_tokens db)" "live_token now db h t"
    using t by (auto simp: find_Some_iff)
  with token show ?thesis unfolding api_token_principal_def by blast
qed

lemma oauth_principal_Inr:
  assumes "oauth_principal h now db = (Inr p, db')"
  shows "oauth_token_principal now db h p"
proof -
  from assms obtain g where g: "find (access_matches h now db) (oauth_grants db) = Some g"
    by (auto simp: oauth_principal_def split: option.splits)
  let ?db = "db\<lparr>oauth_grants := map (\<lambda>x. if access_matches h now db x then x\<lparr>og_used := now\<rparr> else x) (oauth_grants db)\<rparr>"
  have same: "granted_repositories ?db = granted_repositories db" "is_administrator ?db = is_administrator db" "repositories ?db = repositories db"
    by (simp_all add: fun_eq_iff granted_repositories_def is_administrator_def active_groups_def)
  from assms obtain p0 db1 where up: "user_principal (og_user g) None ?db = (Inr p0, db1)"
      and tail: "proceed (if pr_administrator p0
              then proceed (graph_repositories p0) (\<lambda>rs.
                return_ok (p0\<lparr>pr_repositories := pr_repositories p0 @ map ro_github rs, pr_administrator := False\<rparr>))
              else return_ok p0)
             (\<lambda>p'. return_ok (p'\<lparr>pr_method := ''oauth_token'', pr_scope := og_scope g\<rparr>)) db1 = (Inr p, db')"
    by (auto simp: oauth_principal_def g elim: proceedE)
  note u = user_principal_Inr [OF up, unfolded same]
  have "g \<in> set (oauth_grants db)" "access_matches h now db g"
    using g by (auto simp: find_Some_iff)
  moreover have "pr_subject p = decimal (og_user g)" "pr_method p = ''oauth_token''" "pr_scope p = og_scope g" "\<not> pr_administrator p"
      "\<not> pr_delegation_only p" "\<forall>r\<in>set (pr_repositories p). may_see db (og_user g) r"
    using tail u by (auto simp: proceed_Inr graph_repositories_def Let_def may_see_def split: if_splits)
  ultimately show ?thesis unfolding oauth_token_principal_def by blast
qed

lemma session_principal_Inr:
  assumes "session_principal h now idle db = (Inr p, db')"
  shows "browser_principal now db h p"
proof -
  from assms obtain x where x: "find (live_session now db h) (sessions db) = Some x"
    by (auto simp: session_principal_def split: option.splits)
  let ?db = "db\<lparr>sessions := map (\<lambda>z. if live_session now db h z then touch_session now idle z else z) (sessions db)\<rparr>"
  have same: "granted_repositories ?db = granted_repositories db" "is_administrator ?db = is_administrator db"
    by (simp_all add: fun_eq_iff granted_repositories_def is_administrator_def active_groups_def)
  from assms obtain p0 db1 where "user_principal (se_user x) None ?db = (Inr p0, db1)"
      and p: "p = p0\<lparr>pr_method := se_provider x, pr_force_rotation := se_force x\<rparr>"
    by (auto simp: session_principal_def x Let_def split: if_splits elim!: proceedE)
  note u = user_principal_Inr [OF this(1), unfolded same]
  have "x \<in> set (sessions db)" "live_session now db h x"
    using x by (auto simp: find_Some_iff)
  with u show ?thesis unfolding browser_principal_def by (intro bexI [of _ x]) (auto simp: p)
qed

lemma attempt_refused:
  "attempt_call m (\<lambda>r. case r of Inl _ \<Rightarrow> return_error e | Inr x \<Rightarrow> return_ok x) s = (Inr y, s') \<longleftrightarrow> m s = (Inr y, s')"
  by (auto simp: attempt_call_def return_error_def return_ok_def split: prod.splits sum.splits)

lemma refuse_errors_Inr [simp]: "refuse_errors m db = (Inr x, db') \<longleftrightarrow> m db = (Inr x, db')"
  by (simp add: refuse_errors_def attempt_refused)

lemma authenticate_oauth_Inr:
  assumes "authenticate_oauth now token db = (Inr p, db')"
  shows "\<exists>h. oauth_access_token_hash token = Some h \<and> oauth_token_principal now db h p"
  using assms oauth_principal_Inr by (auto simp: authenticate_oauth_def attempt_refused split: option.splits)

lemma authenticate_api_Inr:
  assumes "authenticate_api_token now request token db = (Inr p, db')"
  shows "canonical_api_token token \<and> api_token_principal now db (sha256 token) p"
proof -
  have no: "ignore_error m (return_error e) s \<noteq> (Inr y, s')" for m :: "unit auth_call" and e s and y :: auth_principal and s'
    by (simp add: ignore_error_def return_error_def)
  from assms show ?thesis
    by (auto simp: authenticate_api_token_def Let_def no attempt_call_def split: if_splits prod.splits sum.splits intro: api_principal_Inr)
qed

lemma authenticate_session_Inr:
  assumes "authenticate_session idle now token db = (Inr p, db')"
  shows "\<exists>raw. b64_decode token = Some raw \<and> length raw = 32 \<and> browser_principal now db (sha256 raw) p"
  using assms session_principal_Inr
  by (auto simp: authenticate_session_def attempt_refused require_Inr split: if_splits option.splits)

text \<open>
  C26. The principal of a request comes from exactly one credential that is alive.  A bearer token of the
  API is bounded by its ceiling and by what its owner may see, and one made for delegation sees no
  repository and belongs to an administrator; an OAuth token never gives administration, and only
  repositories its user may see; a session cookie stands alone and, on a method that changes state, only
  with the origin of the server.
\<close>

theorem request_principal_bounded:
  assumes "authenticate_request (Some (bearer_router (Some (authenticate_api_token now request)) (Some (authenticate_oauth now))))
      (Some (authenticate_session idle now)) origin rq db = (Inr p, db')"
  shows "(\<exists>scheme token. ar_authorization rq \<noteq> [] \<and> snd (request_session_cookie rq) = 0 \<and>
        map (fields_of []) (ar_authorization rq) = [[scheme, token]] \<and> equal_fold scheme ''Bearer'' \<and>
        (if is_oauth_access_token token then \<exists>h. oauth_access_token_hash token = Some h \<and> oauth_token_principal now db h p
         else canonical_api_token token \<and> api_token_principal now db (sha256 token) p)) \<or>
    (\<exists>cookie raw. ar_authorization rq = [] \<and> request_session_cookie rq = (cookie, 1) \<and>
        (unsafe_method (ar_method rq) \<longrightarrow> origin \<noteq> [] \<and> ar_origin rq = origin) \<and>
        b64_decode cookie = Some raw \<and> length raw = 32 \<and> browser_principal now db (sha256 raw) p)"
proof -
  obtain cookie count where c: "request_session_cookie rq = (cookie, count)" by fastforce
  show ?thesis
  proof (cases "ar_authorization rq = []")
    case True
    with assms c have "count = 1" "\<not> (unsafe_method (ar_method rq) \<and> (origin = [] \<or> ar_origin rq \<noteq> origin))"
        "authenticate_session idle now cookie db = (Inr p, db')"
      by (auto simp: authenticate_request_def split: if_splits)
    with True c authenticate_session_Inr show ?thesis by blast
  next
    case False
    with assms c obtain a scheme token where b: "count = 0" "ar_authorization rq = [a]" "fields_of [] a = [scheme, token]"
        "equal_fold scheme ''Bearer''"
        "bearer_router (Some (authenticate_api_token now request)) (Some (authenticate_oauth now)) token db = (Inr p, db')"
      by (auto simp: authenticate_request_def Let_def split: if_splits list.splits)
    show ?thesis
    proof (cases "is_oauth_access_token token")
      case True
      with b(5) authenticate_oauth_Inr have "\<exists>h. oauth_access_token_hash token = Some h \<and> oauth_token_principal now db h p"
        by (simp add: bearer_router_def)
      with True b c show ?thesis by auto
    next
      case False
      with b(5) authenticate_api_Inr have "canonical_api_token token \<and> api_token_principal now db (sha256 token) p"
        by (simp add: bearer_router_def)
      with False b c show ?thesis by auto
    qed
  qed
qed

subsection \<open>A local administrator\<close>

definition ex_library :: login_library where
  "ex_library = \<lparr>id_key = (\<lambda>pw _ _ _ _ _. if pw = ''secret'' then ex_hash 50 else ex_hash 51), fold_name = to_lower, db_lower = to_lower,
     split_host_port = (\<lambda>_. None), canonical_address = (\<lambda>_. None)\<rparr>"

definition ex_credential :: password_credential where
  "ex_credential = \<lparr>pc_salt = replicate 16 (CHR ''s''), pc_hash = ex_hash 50, pc_memory = 65536, pc_iterations = 3, pc_parallelism = 2,
     pc_force = False\<rparr>"

definition ex_admin :: user_row where
  "ex_admin = \<lparr>us_id = 7, us_external = ''root'', us_name = ''root'', us_display = [], us_active = True, us_suspended = False,
     us_deleted = False, us_source = ''local''\<rparr>"

definition ex_login_db :: auth_db where
  "ex_login_db = ex_auth_db\<lparr>users := [ex_admin], user_roles := [7], passwords := [(7, ex_credential)], sessions := []\<rparr>"

definition ex_manager :: session_manager where
  "ex_manager = \<lparr>sm_idle = 100, sm_ttl = 1000\<rparr>"

definition ex_attempt :: local_request where
  "ex_attempt = \<lparr>lr_name = ''Root'', lr_password = ''guess'', lr_new = None, lr_remote = ''10.0.0.1'', lr_now = 5, lr_clock = 5, lr_id = [],
     lr_random = Some (ex_hash 9), lr_audit_random = Some (replicate 16 (CHR ''a'')), lr_hash_random = None\<rparr>"

theorem password_guesses_bounded_witness:
  "length (filter (\<lambda>(x, r). concerns ex_library (account_key ''root'') x \<and> tried r)
     (run_logins ex_library ex_manager ex_credential (replicate 7 ex_attempt) ex_auth_db)) \<le>
   5 + 5 * length (filter (\<lambda>(x, r). concerns ex_library (account_key ''root'') x \<and> is_signed_in r)
     (run_logins ex_library ex_manager ex_credential (replicate 7 ex_attempt) ex_auth_db))"
proof -
  have "\<forall>x\<in>set (replicate 7 ex_attempt). concerns ex_library (account_key ''root'') x \<longrightarrow> 5 \<le> lr_now x \<and> lr_now x < 5 + 15 * minute"
    by (simp add: ex_attempt_def minute_def)
  from password_guesses_bounded [OF this, of ex_manager ex_credential ex_auth_db] show ?thesis by (simp add: ex_auth_db_def)
qed

lemma consume_fresh:
  assumes "throttles db = []"
  obtains t db0 t' ths where "consume_login_attempt j now db = (Inr (True, t), db0)" "consume_login_attempt k now db0 = (Inr (True, t'), db\<lparr>throttles := ths\<rparr>)"
proof -
  let ?r = "first_failure j now"
  have one: "consume_login_attempt j now db = (Inr (attempt_result ?r), db\<lparr>throttles := [?r]\<rparr>)"
    using assms by (simp add: consume_login_attempt_def first_failure_def Let_def)
  have "\<exists>t'. \<exists>ths. consume_login_attempt k now (db\<lparr>throttles := [?r]\<rparr>) = (Inr (True, t'), db\<lparr>throttles := ths\<rparr>)"
    by (cases "j = k") (auto simp: consume_login_attempt_def first_failure_def attempt_result_def counted_def login_failure_limit_def Let_def)
  moreover have "\<exists>t. attempt_result ?r = (True, t)"
    by (simp add: attempt_result_def first_failure_def login_failure_limit_def)
  ultimately show thesis using one that by auto
qed

lemma ex_admin_local: "find_user ex_login_db 7 = Some ex_admin" "local_administrator ex_login_db ex_admin"
  by (simp_all add: ex_login_db_def ex_admin_def find_user_def local_administrator_def may_sign_in_def)

lemma ex_password: "verify_password ex_library ''secret'' ex_credential" "valid_credential ex_credential" "\<not> pc_force ex_credential"
  by (simp_all add: verify_password_def valid_credential_def ex_credential_def ex_library_def max_password_bytes_def ex_hash_def)

definition ex_session :: session_row where
  "ex_session = \<lparr>se_hash = sha256 (ex_hash 9), se_audit = hex_encode (replicate 16 (CHR ''a'')), se_user = 7, se_provider = ''local'',
     se_force = False, se_created = 5, se_seen = 5, se_idle = 105, se_expires = 1005, se_revoked = None\<rparr>"

lemma ex_prepared:
  "prepare_for_user ex_manager 7 ''local'' False (Some (ex_hash 9)) (Some (replicate 16 (CHR ''a''))) 5 =
     Inr \<lparr>ps_token = b64_encode (ex_hash 9), ps_expires = 1005, ps_row = ex_session\<rparr>"
  by (simp add: prepare_for_user_def ex_manager_def is_interactive_method_def read_full_def ex_hash_def ex_session_def)

lemma ex_audit_id: "hex_encode (replicate 16 (CHR ''a'')) = ''61616161616161616161616161616161''"
  by code_simp

lemma decimal_seven: "decimal 7 = ''7''"
  by code_simp

lemma ex_login_events:
  "valid_event (login_event [] 7 ex_session ''local'' ''local_login_succeeded'')"
  "valid_event (login_event [] 7 ex_session ''local'' ''session_created'')"
  by (simp_all add: valid_event_def login_event_def ex_session_def ex_audit_id decimal_seven one_of_def bounded_text_def operation_def
      operations_def is_control_def)

lemma ex_session_made:
  assumes "db = ex_login_db\<lparr>throttles := ths\<rparr>"
  shows "\<exists>db'. create_password_session 5 [] 7 ex_credential ex_session j k db = (Inr (), db')"
proof -
  have "require_local_administrator 7 db = (Inr (), db)"
    using ex_admin_local by (simp add: require_local_administrator_def assms find_user_def local_administrator_def)
  moreover have "valid_local_session 7 ex_session" "\<not> se_force ex_session" "\<not> pc_force ex_credential"
    by (simp_all add: valid_local_session_def ex_session_def zero_time_def ex_credential_def)
  moreover have "create_session ex_session db2 = (Inr (), db2\<lparr>sessions := [ex_session]\<rparr>)" if "db2 = db\<lparr>throttles := ts\<rparr>" for db2 ts
    by (simp add: that assms create_session_def insert_session_def session_check_def hex_audit_id_def ex_session_def ex_audit_id ex_login_db_def
        find_user_def ex_admin_def ex_auth_db_def)
  moreover have "list_ex (\<lambda>(v, c). v = 7 \<and> same_secret c ex_credential \<and> \<not> pc_force c) (passwords db)"
    by (simp add: assms ex_login_db_def same_secret_def ex_credential_def)
  ultimately show ?thesis
    using ex_login_events ex_password(2)
    by (simp add: create_password_session_def transaction_def call_defs get_db_def clear_login_failures_def append_audit_def new_event_def
        split: if_split)
qed

theorem local_login_sound_witness:
  "\<exists>token expires db' p. authenticate_local ex_library ex_manager ex_credential 5 [] (Some (ex_hash 9)) (Some (replicate 16 (CHR ''a''))) ''Root''
       ''secret'' ''10.0.0.1'' 5 ex_login_db = (Inr (7, token, expires), db') \<and>
     fst (authenticate_session 100 50 token db') = Inr p \<and> pr_subject p = ''7'' \<and> pr_administrator p"
proof -
  let ?ka = "account_key (fold_name ex_library ''Root'')"
  let ?ks = "source_key (canonical_remote_address ex_library ''10.0.0.1'')"
  have "throttles ex_login_db = []" by (simp add: ex_login_db_def ex_auth_db_def)
  then obtain t db0 t' ths where steps: "consume_login_attempt ?ka 5 ex_login_db = (Inr (True, t), db0)"
      "consume_login_attempt ?ks 5 db0 = (Inr (True, t'), ex_login_db\<lparr>throttles := ths\<rparr>)"
    by (rule consume_fresh)
  let ?db = "ex_login_db\<lparr>throttles := ths\<rparr>"
  have name: "fold_name ex_library ''Root'' = ''root''" "to_lower ''root'' = ''root''"
    by (simp add: ex_library_def) code_simp+
  have "local_administrator ?db ex_admin" "passwords ?db = [(7, ex_credential)]" "users ?db = [ex_admin]" "us_id ex_admin = 7"
      "us_name ex_admin = ''root''" "db_lower ex_library = to_lower"
    using ex_admin_local by (simp_all add: local_administrator_def ex_login_db_def ex_admin_def ex_library_def)
  then have "password_credential_of (db_lower ex_library) (fold_name ex_library ''Root'') ?db = (Inr (7, ex_credential), ?db)"
    by (simp add: password_credential_of_def Let_def name)
  note run = verify_run [OF steps this, of ex_credential 5 "[]" "''secret''"]
  obtain db' where "create_password_session 5 [] 7 ex_credential ex_session ?ka ?ks ?db = (Inr (), db')"
    using ex_session_made by blast
  then have login: "authenticate_local ex_library ex_manager ex_credential 5 [] (Some (ex_hash 9)) (Some (replicate 16 (CHR ''a''))) ''Root''
       ''secret'' ''10.0.0.1'' 5 ex_login_db = (Inr (7, b64_encode (ex_hash 9), 1005), db')"
    using ex_prepared ex_password
    by (simp add: authenticate_local_def proceed_def run ex_password(3)) (simp add: attempt_call_def return_ok_def)
  have "distinct (map fst (passwords ex_login_db))" by (simp add: ex_login_db_def)
  from local_login_sound [OF login this]
  have "\<forall>t. 5 \<le> t \<and> t < 5 + sm_idle ex_manager \<longrightarrow>
      (\<exists>p. fst (authenticate_session (sm_idle ex_manager) t (b64_encode (ex_hash 9)) db') = Inr p \<and> pr_subject p = decimal 7 \<and>
        pr_method p = ''local'' \<and> pr_administrator p)"
    by simp
  then have "\<exists>p. fst (authenticate_session 100 50 (b64_encode (ex_hash 9)) db') = Inr p \<and>
      pr_subject p = decimal 7 \<and> pr_administrator p"
    by (auto simp: ex_manager_def dest: spec [of _ 50])
  with login decimal_seven show ?thesis by auto
qed

definition ex_get :: api_request where
  "ex_get = \<lparr>ar_method = ''GET'', ar_authorization = [], ar_cookies = [(''__Host-graphnest_session'', b64_encode (ex_hash 9))], ar_origin = []\<rparr>"

lemma ex_no_sessions: "sessions ex_login_db = []"
  by (simp add: ex_login_db_def)

theorem request_principal_bounded_witness:
  "\<exists>p db'. authenticate_request (Some (bearer_router (Some (authenticate_api_token 50 [])) (Some (authenticate_oauth 50))))
      (Some (authenticate_session 100 50)) ''https://nest.example'' ex_get (ex_login_db\<lparr>sessions := [ex_session]\<rparr>) = (Inr p, db') \<and>
     browser_principal 50 (ex_login_db\<lparr>sessions := [ex_session]\<rparr>) (sha256 (ex_hash 9)) p"
proof -
  let ?db = "ex_login_db\<lparr>sessions := [ex_session]\<rparr>"
  have db: "?db = ex_login_db\<lparr>sessions := sessions ex_login_db @ [ex_session], throttles := throttles ex_login_db,
      audit_log := audit_log ex_login_db\<rparr>"
    by (simp add: ex_login_db_def)
  have "\<exists>p. fst (authenticate_session 100 50 (b64_encode (ex_hash 9)) ?db) = Inr p \<and> pr_subject p = decimal (se_user ex_session) \<and>
      pr_method p = ''local'' \<and> pr_administrator p"
    by (rule local_session_opens [OF _ ex_admin_local(2) _ _ _ _ _ _ _ _ _ db])
      (simp_all add: ex_session_def ex_admin_local(1) ex_hash_def ex_no_sessions)
  then obtain p db' where "authenticate_session 100 50 (b64_encode (ex_hash 9)) ?db = (Inr p, db')"
    by (metis prod.collapse)
  then have run: "authenticate_request (Some (bearer_router (Some (authenticate_api_token 50 [])) (Some (authenticate_oauth 50))))
      (Some (authenticate_session 100 50)) ''https://nest.example'' ex_get ?db = (Inr p, db')"
    by (simp add: authenticate_request_def request_session_cookie_def ex_get_def unsafe_method_def)
  from request_principal_bounded [OF run] have "browser_principal 50 ?db (sha256 (ex_hash 9)) p"
    by (auto simp: ex_get_def request_session_cookie_def)
  with run show ?thesis by blast
qed

end
