(* ===== verification/Spec2Isabelle.thy ===== *)
theory Spec2Isabelle
  imports Spdx_Properties License_Properties Policy_Properties Queue_Claims Review_Claims Graph_Claims Oauth_Handlers Login_Claims
begin

text \<open>
  GraphNest indexes repositories and keeps an inventory of their dependencies and licenses.  This
  development verifies the parts that decide: how a license expression is read, what the collected
  evidence says about a component, what a policy makes of it, how human reviews enter, the two
  job queues that drive indexing and enrichment, the storage and traversal of code graphs, and who
  may use the system: sign-in, sessions, API tokens and the OAuth authorization server.

  \<^bold>\<open>Parts and theories.\<close>  All paths are below \<open>src/internal\<close>.

  \<^item> \<open>Go_Prelude\<close>, \<open>Go_Sha256\<close>, \<open>Go_Calls\<close>: the Go standard library as far as it is used (strings as
    byte lists, trimming, case folding, decimal numbers, SHA-256 and hexadecimal digests), and calls
    that return a result or an error and change a shared state.  \<open>Go_Calls\<close> has the interfaces that
    the components share: calls that preserve a predicate, that only read, whose errors leave the
    state, and transition systems with an invariant (locale \<open>transition_system\<close>).
  \<^item> \<open>Spdx_Expr\<close> (\<open>supplychain/spdxexpr/spdxexpr.go\<close>): tokenizer, parser, rendering and comparison of
    SPDX license expressions.  \<open>Spdx_Lexing\<close>, \<open>Spdx_Roundtrip\<close>, \<open>Spdx_List\<close> prove that rendering and
    parsing are inverse, \<open>Spdx_Properties\<close> holds the properties.
  \<^item> \<open>License_Evidence\<close> (\<open>supplychain/license/evidence.go\<close>, \<open>assess.go\<close>): evidence, fingerprints and
    assessments; \<open>License_Properties\<close>: the decision table of \<open>Assess\<close>, independence of the order of
    rows, human conclusions, what a fingerprint covers.
  \<^item> \<open>License_Policy\<close> (\<open>supplychain/policy/policy.go\<close>): rules and the evaluation of expressions;
    \<open>Policy_Properties\<close>: the verdict as the value of a monotone formula, an approval rests on leaves the
    rules vouch for, and three places where rules behave unlike their description.
  \<^item> \<open>Index_Queue\<close> (\<open>postgres/queue.go\<close>, and of \<open>delivery.go\<close> and \<open>repository.go\<close> what takes repositories out
    of service): the index jobs with their leases.  A statement that would break a check or unique index
    fails (\<open>checked\<close>).  \<open>Queue_Properties\<close> has the steps of the database, those of other writers included, and
    the invariant; \<open>Queue_Claims\<close> shows which operations can run into a constraint at all and when,
    fencing, claiming, publication and retries.
  \<^item> \<open>Supply_Store\<close> (\<open>postgres/supply_chain_license.go\<close>): the tables of evidence, enrichment jobs and
    assessments and every statement over them; \<open>License_Worker\<close> (\<open>supplychain/license/worker.go\<close>):
    the worker, written over the interface \<open>Store\<close> (the record \<open>license_store\<close>) and instantiated by
    \<open>postgres_license_store\<close>.  \<open>Store_Properties\<close> and \<open>Store_Claims\<close>: the invariant of the queue, fences,
    outages, the evidence cache (locale \<open>evidence_source\<close>) and that the worker pauses (locales
    \<open>stored_predicate\<close> and \<open>enqueued_predicate\<close>, interpreted for the invariant, for the attempts that
    are left, and for the runs of the store).
  \<^item> \<open>Review_Store\<close> (\<open>postgres/supply_chain_review.go\<close>) and \<open>Review_Service\<close>
    (\<open>supplychain/review/review.go\<close>): policies, evaluation results, conclusions, decisions, grants and
    the review queue; the service is written over the interfaces \<open>Store\<close> and \<open>Authorizer\<close> and
    instantiated by \<open>postgres_store\<close>.  \<open>Review_Properties\<close> and \<open>Review_Claims\<close>: the invariant of the tables,
    the contract of the store (locale \<open>review_contract\<close>) with what the service does over any store
    that keeps it, and the end-to-end properties of decisions, conclusions and evaluation.

  \<^item> \<open>Graph_Query\<close> (\<open>graphquery/service.go\<close>, \<open>impact.go\<close>, \<open>trace.go\<close>, \<open>context.go\<close> with the types of
    \<open>graphprotocol\<close>): the queries over code graphs, written over the interface \<open>Store\<close> (the record
    \<open>graph_store\<close>).  \<open>Graph_Artifact\<close> (\<open>graphartifact/model.go\<close>, \<open>parse.go\<close>): artifacts and their
    validation.  \<open>Graph_Store\<close> (\<open>postgres/graph_query.go\<close>, \<open>graph.go\<close>): the graph tables, replacing and
    loading graphs, and \<open>postgres_graph_store\<close>.  \<open>Graph_Layers\<close> has the layers of a relation and the
    contract of \<open>Neighbors\<close> (locale \<open>neighbor_source\<close>, interpreted on the PostgreSQL store);
    \<open>Graph_Trace\<close> and \<open>Graph_Impact\<close> prove the traversals inside it; \<open>Graph_Tables\<close> proves that
    validated artifacts meet the constraints if the server can hold their text; \<open>Graph_Claims\<close> holds the properties: paths are real and
    shortest, depths are exact and bounded, stored graphs are loaded back.

  \<^item> \<open>Audit_Event\<close> (\<open>audit/event.go\<close>): the validity of audit events, which decides whether a transaction
    commits.  \<open>Oauth_Token\<close> (\<open>oauthas/token.go\<close>, \<open>authn/oauth_token.go\<close>): secrets, their base64url form
    and digests, PKCE and sealed provider tokens.  \<open>Auth_Tables\<close> and \<open>Auth_Store\<close>
    (\<open>postgres/directory.go\<close>, \<open>auth.go\<close>, \<open>security.go\<close>, \<open>admin_identity.go\<close>, \<open>authn/token.go\<close>,
    \<open>authn/session.go\<close>): the credential tables, principals, API tokens, sessions, revocation.
    \<open>Oauth_Store\<close> (\<open>postgres/oauth.go\<close>, \<open>oauth_security.go\<close>): clients, codes, grants, the rotation of
    refresh tokens and the request budgets.
  \<^item> \<open>Oauth_Runs\<close> makes every operation of \<open>Auth_Store\<close> and \<open>Oauth_Store\<close> a step and gives the change of each to the tables
    (\<open>grant_change\<close>); \<open>Oauth_Properties\<close> proves the invariant \<open>auth_inv\<close> and what steps keep of a grant,
    a code and a budget; \<open>Oauth_Claims\<close> lifts it to runs: codes and refresh tokens are used at most once,
    replay revokes, revocation is final, budgets hold.
  \<^item> \<open>Oauth_Server\<close> (\<open>oauthas/server.go\<close>, \<open>tokens.go\<close>): the handlers of the token, revocation and
    authorization endpoints over the store; \<open>Oauth_Handlers\<close>: what a token request must have proved.
  \<^item> \<open>Login_Store\<close> (\<open>postgres/security.go\<close>, \<open>auth.go\<close>): password credentials, their rotation and the
    counters of attempts, users that identity providers bind, login flows.  \<open>Login_Auth\<close> (\<open>authn\<close>):
    session and token managers, local sign-in, the authenticator of requests, and the handlers of
    \<open>httpapi/local_auth.go\<close> that sign in and rotate a password.  \<open>Login_Claims\<close>: how
    many passwords can be tried over any sequence of requests to these handlers, what a local session means, and that the principal of a request is
    bounded by its credential and its user.

  \<^bold>\<open>State and time.\<close>  A table is a list of records, an identity column a counter; a statement or a
  transaction is one function on the database.  \<open>now()\<close> is an argument; times are nanoseconds as
  integers, and microseconds in the credential tables.  The identifiers that PostgreSQL bounds by 64 bits are integers.  Errors are values of
  an error type; a Go function that returns a result and an error is a call of \<open>Go_Calls\<close>.

  \<^bold>\<open>Bounds and fuel.\<close>  The parser of expressions runs on fuel that grows with the number of tokens;
  \<open>parse_never_out_of_fuel\<close> shows that it is enough on every input.  The loop of the enrichment worker
  has an iteration bound; \<open>worker_pauses\<close> shows that the attempts left in the queue and one are
  enough, for a clock that stands still and with no other writer of the queue.  The loop of \<open>Trace\<close> that follows recorded parents is a partial function;
  \<open>trace_path_is_real\<close> shows that it returns.  All other loops are structural recursions.

  \<^bold>\<open>Parameters.\<close>  The SPDX license list (embedded files), the JSON decoder of policy rules, the
  iteration order of Go maps, the collation of the database, the strings it can store and the index entries it can hold,
  the error that the insert of a review event meets, the registry resolvers and their constructors,
  the authorizer, the jitter of retries, random bytes, the cipher, Argon2id,
  the case folding of Unicode in user names, \<open>net/url\<close>, \<open>net/netip\<close> and the answers of GitHub are arguments of the definitions that use them.  A confidence is a rational number; a
  requested one is rounded to the 4-byte type of the column it is compared with (\<open>real32\<close>).

  \<^bold>\<open>Not modelled.\<close>  Errors of the database connection (but for the insert of review events), the lengths of \<open>varchar\<close> columns and foreign keys
  outside the credential tables, and the JSON columns \<open>detail\<close>; the interleaving of two OAuth handlers
  between their store operations (the runs of \<open>Oauth_Runs\<close> interleave the operations themselves);
  registration of OAuth clients (JSON), pages and metadata; logging, metrics and timers; the HTTP clients
  of the registries; everything the manifest lists as such: servers, command line, configuration,
  indexer processes, the browser flows of single sign-on, SCIM, the inventory, the upload service, generated code.
\<close>

end
